(* ===== verification/Sim_Prelude.thy ===== *)
theory Sim_Prelude
  imports Main "HOL-Library.Word" "HOL-Library.Log_Nat" "HOL-Library.Signed_Division"
begin

text \<open>
  Shared vocabulary of the development: the machine integer types of the
  simulator (\<^verbatim>\<open>riscv_sim_typedefs.h\<close>, built with \<^verbatim>\<open>MAX_XLEN=64\<close>), the bit macros of
  \<^verbatim>\<open>riscv_sim_macros.h\<close>, the way a run can go wrong (a failed \<^verbatim>\<open>sim_assert\<close>, an
  access outside an array, a null pointer), checked array access, and the
  generic lemmas on them that the components share.
\<close>

unbundle bit_operations_syntax

type_synonym u8 = "8 word"
type_synonym u32 = "32 word"
type_synonym u64 = "64 word"
type_synonym target_ulong = "64 word"

named_theorems macro_defs \<open>the bit macros of riscv_sim_macros.h\<close>
named_theorems res_simps \<open>evaluation of results and checked array accesses\<close>

section \<open>Failing runs\<close>

text \<open>
  \<open>Assert_failed\<close> is \<^verbatim>\<open>sim_assert\<close>/\<^verbatim>\<open>assert\<close> calling \<^verbatim>\<open>abort()\<close>, \<open>Program_exit\<close> a call of
  \<^verbatim>\<open>exit()\<close>, and \<open>No_progress\<close> a loop that would not end; the other values are
  accesses the C standard leaves undefined.
\<close>

datatype sim_error =
    Assert_failed
  | Out_of_bounds
  | Null_pointer
  | Undefined_shift
  | Division_by_zero
  | Program_exit
  | No_progress
  | Uninitialized

definition bindR :: "sim_error + 'a \<Rightarrow> ('a \<Rightarrow> sim_error + 'b) \<Rightarrow> sim_error + 'b" where
  "bindR r f = (case r of Inl e \<Rightarrow> Inl e | Inr x \<Rightarrow> f x)"

definition aget :: "'a list \<Rightarrow> nat \<Rightarrow> sim_error + 'a" where
  "aget xs i = (if i < length xs then Inr (xs ! i) else Inl Out_of_bounds)"

definition aset :: "'a list \<Rightarrow> nat \<Rightarrow> 'a \<Rightarrow> sim_error + 'a list" where
  "aset xs i v = (if i < length xs then Inr (xs[i := v]) else Inl Out_of_bounds)"

definition sim_assert :: "bool \<Rightarrow> sim_error + unit" where
  "sim_assert c = (if c then Inr () else Inl Assert_failed)"

definition thenR :: "sim_error + unit \<Rightarrow> sim_error + 'b \<Rightarrow> sim_error + 'b" where
  "thenR c r = bindR c (\<lambda>_. r)"

text \<open>A sequence of statements that only check: the first failure ends it.\<close>

primrec all_checks :: "(sim_error + unit) list \<Rightarrow> sim_error + unit" where
  "all_checks [] = Inr ()"
| "all_checks (c # cs) = thenR c (all_checks cs)"

text \<open>
  \<^verbatim>\<open>calloc(n, ...)\<close> followed by \<^verbatim>\<open>assert\<close> on the result: a negative \<^verbatim>\<open>int\<close> count
  becomes a size no allocator can serve, so the assertion fails.
\<close>

definition calloc :: "int \<Rightarrow> 'a \<Rightarrow> sim_error + 'a list" where
  "calloc n z = (if n < 0 then Inl Assert_failed else Inr (replicate (nat n) z))"

text \<open>Array access with an \<^verbatim>\<open>int\<close> index, and a loop (or \<^verbatim>\<open>memset\<close>) that assigns the first \<open>n\<close> elements.\<close>

definition iget :: "'a list \<Rightarrow> int \<Rightarrow> sim_error + 'a" where
  "iget xs i = (if i < 0 then Inl Out_of_bounds else aget xs (nat i))"

definition iset :: "'a list \<Rightarrow> int \<Rightarrow> 'a \<Rightarrow> sim_error + 'a list" where
  "iset xs i v = (if i < 0 then Inl Out_of_bounds else aset xs (nat i) v)"

definition fill :: "nat \<Rightarrow> 'a \<Rightarrow> 'a list \<Rightarrow> sim_error + 'a list" where
  "fill n v xs = (if n \<le> length xs then Inr (replicate n v @ drop n xs) else Inl Out_of_bounds)"

text \<open>A loop over the elements of a list that may fail.\<close>

primrec foldR :: "('a \<Rightarrow> 's \<Rightarrow> sim_error + 's) \<Rightarrow> 'a list \<Rightarrow> 's \<Rightarrow> sim_error + 's" where
  "foldR f [] s = Inr s"
| "foldR f (x # xs) s = bindR (f x s) (foldR f xs)"

text \<open>Dereferencing a pointer that may be null.\<close>

definition deref :: "'a option \<Rightarrow> sim_error + 'a" where
  "deref p = (case p of None \<Rightarrow> Inl Null_pointer | Some x \<Rightarrow> Inr x)"

section \<open>The bit macros\<close>

definition SET_BIT :: "u64 \<Rightarrow> nat \<Rightarrow> u64" where
  "SET_BIT x b = x OR push_bit b 1"

definition GET_BIT :: "u64 \<Rightarrow> nat \<Rightarrow> u64" where
  "GET_BIT x b = drop_bit b x AND 1"

definition BITMASK :: "nat \<Rightarrow> u64" where
  "BITMASK n = push_bit n 1 - 1"

definition GET_NUM_BITS :: "nat \<Rightarrow> nat" where
  "GET_NUM_BITS x = ceillog2 x"

definition GET_INDEX :: "u64 \<Rightarrow> nat \<Rightarrow> u64" where
  "GET_INDEX x bits = x AND BITMASK bits"

definition GET_SET_ADDR :: "u64 \<Rightarrow> nat \<Rightarrow> u64" where
  "GET_SET_ADDR pc bits = GET_INDEX pc bits"

declare SET_BIT_def [macro_defs] GET_BIT_def [macro_defs] BITMASK_def [macro_defs]
  GET_NUM_BITS_def [macro_defs] GET_INDEX_def [macro_defs] GET_SET_ADDR_def [macro_defs]

section \<open>Lemmas on results and checked accesses\<close>

lemma bindR_Inr [simp, res_simps]: "bindR (Inr x) f = f x"
  by (simp add: bindR_def)

lemma bindR_Inl [simp, res_simps]: "bindR (Inl e) f = Inl e"
  by (simp add: bindR_def)

lemma bindR_eq_Inr_iff: "bindR r f = Inr y \<longleftrightarrow> (\<exists>x. r = Inr x \<and> f x = Inr y)"
  by (cases r) auto

lemma bindR_eq_InrE:
  assumes "bindR r f = Inr y"
  obtains x where "r = Inr x" and "f x = Inr y"
  using assms by (auto simp: bindR_eq_Inr_iff)

lemma aget_Inr [simp, res_simps]: "i < length xs \<Longrightarrow> aget xs i = Inr (xs ! i)"
  by (simp add: aget_def)

lemma aset_Inr [simp, res_simps]: "i < length xs \<Longrightarrow> aset xs i v = Inr (xs[i := v])"
  by (simp add: aset_def)

lemma aget_eq_Inr_iff: "aget xs i = Inr x \<longleftrightarrow> i < length xs \<and> xs ! i = x"
  by (auto simp: aget_def)

lemma aset_eq_Inr_iff: "aset xs i v = Inr ys \<longleftrightarrow> i < length xs \<and> ys = xs[i := v]"
  by (auto simp: aset_def)

lemma sim_assert_True [simp, res_simps]: "sim_assert True = Inr ()"
  by (simp add: sim_assert_def)

lemma sim_assert_False [simp, res_simps]: "sim_assert False = Inl Assert_failed"
  by (simp add: sim_assert_def)

lemma sim_assert_eq_Inr_iff [simp]: "sim_assert c = Inr u \<longleftrightarrow> c"
  by (auto simp: sim_assert_def)

lemma iget_Inr [simp, res_simps]: "0 \<le> i \<Longrightarrow> nat i < length xs \<Longrightarrow> iget xs i = Inr (xs ! nat i)"
  by (simp add: iget_def)

lemma iset_Inr [simp, res_simps]:
  "0 \<le> i \<Longrightarrow> nat i < length xs \<Longrightarrow> iset xs i v = Inr (xs[nat i := v])"
  by (simp add: iset_def)

lemma iget_eq_Inr_iff: "iget xs i = Inr x \<longleftrightarrow> 0 \<le> i \<and> nat i < length xs \<and> xs ! nat i = x"
  by (auto simp: iget_def aget_eq_Inr_iff)

lemma iset_eq_Inr_iff: "iset xs i v = Inr ys \<longleftrightarrow> 0 \<le> i \<and> nat i < length xs \<and> ys = xs[nat i := v]"
  by (auto simp: iset_def aset_eq_Inr_iff)

lemma fill_all [simp, res_simps]: "n = length xs \<Longrightarrow> fill n v xs = Inr (replicate n v)"
  by (simp add: fill_def)

lemma list_all_update: "list_all P xs \<Longrightarrow> P v \<Longrightarrow> list_all P (xs[i := v])"
  by (cases "i < length xs") (auto simp: list_all_length nth_list_update)

lemma list_all_nth: "list_all P xs \<Longrightarrow> i < length xs \<Longrightarrow> P (xs ! i)"
  by (simp add: list_all_length)

lemma foldR_inv:
  assumes "P s" and "\<And>x s. x \<in> set xs \<Longrightarrow> P s \<Longrightarrow> \<exists>s'. f x s = Inr s' \<and> P s'"
  shows "\<exists>s'. foldR f xs s = Inr s' \<and> P s'"
  using assms
proof (induction xs arbitrary: s)
  case (Cons x xs)
  then obtain s' where "f x s = Inr s'" "P s'" by (metis list.set_intros(1))
  then show ?case using Cons.IH [of s'] Cons.prems(2) by simp
qed simp

lemma deref_simps [simp, res_simps]: "deref (Some x) = Inr x" "deref None = Inl Null_pointer"
  by (simp_all add: deref_def)

lemma thenR_simps [simp, res_simps]: "thenR (Inr u) r = r" "thenR (Inl e) r = Inl e"
  by (simp_all add: thenR_def)

lemma thenR_eq_Inr_iff: "thenR c r = Inr y \<longleftrightarrow> c = Inr () \<and> r = Inr y"
  by (auto simp: thenR_def bindR_eq_Inr_iff)

lemma all_checks_eq_Inr_iff: "all_checks cs = Inr () \<longleftrightarrow> list_all (\<lambda>c. c = Inr ()) cs"
  by (induction cs) (simp_all add: thenR_eq_Inr_iff)

lemma all_checks_append [simp]: "all_checks (xs @ ys) = thenR (all_checks xs) (all_checks ys)"
  by (induction xs) (auto simp: thenR_def bindR_def split: sum.splits)

lemma calloc_Inr [simp, res_simps]: "0 \<le> n \<Longrightarrow> calloc n z = Inr (replicate (nat n) z)"
  by (simp add: calloc_def)

lemma calloc_eq_Inr_iff: "calloc n z = Inr xs \<longleftrightarrow> 0 \<le> n \<and> xs = replicate (nat n) z"
  by (auto simp: calloc_def)

section \<open>Lemmas on the bit macros\<close>

lemma BITMASK_mask: "BITMASK n = mask n"
  by (simp add: BITMASK_def mask_eq_exp_minus_1 push_bit_eq_mult)

lemma GET_INDEX_take_bit: "GET_INDEX x n = take_bit n x"
  by (simp add: GET_INDEX_def BITMASK_mask take_bit_eq_mask)

lemma unat_GET_INDEX: "unat (GET_INDEX x n) = unat x mod 2 ^ n"
  by (simp add: GET_INDEX_take_bit unsigned_take_bit_eq flip: take_bit_eq_mod)

lemma unat_GET_INDEX_less: "unat (GET_INDEX x n) < 2 ^ n"
  by (simp add: unat_GET_INDEX)

lemma unat_GET_SET_ADDR_less: "unat (GET_SET_ADDR x n) < 2 ^ n"
  by (simp add: GET_SET_ADDR_def unat_GET_INDEX_less)

lemma GET_INDEX_idem [simp]: "GET_INDEX (GET_INDEX x n) n = GET_INDEX x n"
  by (simp add: GET_INDEX_take_bit)

lemma GET_NUM_BITS_power [simp]: "GET_NUM_BITS (2 ^ n) = n"
  by (simp add: GET_NUM_BITS_def)

lemma u64_eq_iff: "x = y \<longleftrightarrow> (\<forall>n<64. bit x n \<longleftrightarrow> bit y n)" for x y :: u64
  by (auto intro: bit_word_eqI)

lemma bit_SET_BIT: "n < 64 \<Longrightarrow> bit (SET_BIT x b) n \<longleftrightarrow> bit x n \<or> n = b"
  by (auto simp: SET_BIT_def bit_simps)

lemma GET_BIT_eq_0_iff: "GET_BIT x b = 0 \<longleftrightarrow> \<not> bit x b"
  by (simp add: GET_BIT_def and_one_eq bit_iff_odd_drop_bit even_iff_mod_2_eq_zero)

lemma bit_BITMASK: "n < 64 \<Longrightarrow> bit (BITMASK k) n \<longleftrightarrow> n < k"
  by (simp add: BITMASK_mask bit_mask_iff)

section \<open>C division\<close>

lemma sdiv_nonneg: "0 \<le> a \<Longrightarrow> 0 < b \<Longrightarrow> a sdiv b = a div b" for a b :: int
  by (cases "a = 0") (simp_all add: signed_divide_int_def)

section \<open>Powers of two\<close>

definition is_pow2 :: "nat \<Rightarrow> bool" where
  "is_pow2 n \<longleftrightarrow> n = 2 ^ GET_NUM_BITS n"

lemma is_pow2_power [simp]: "is_pow2 (2 ^ n)"
  by (simp add: is_pow2_def)

lemma is_pow2_iff: "is_pow2 n \<longleftrightarrow> (\<exists>k. n = 2 ^ k)"
  by (auto simp: is_pow2_def)

lemma is_pow2_pos: "is_pow2 n \<Longrightarrow> 0 < n"
  by (auto simp: is_pow2_iff)

lemma GET_INDEX_in_range: "is_pow2 n \<Longrightarrow> unat (GET_INDEX x (GET_NUM_BITS n)) < n"
  using unat_GET_INDEX_less [of x "GET_NUM_BITS n"] by (simp add: is_pow2_def)

lemma small_pow2 [simp]: "is_pow2 (Suc 0)" "GET_NUM_BITS (Suc 0) = 0" "is_pow2 1" "is_pow2 2" "is_pow2 4" "is_pow2 8"
  "GET_NUM_BITS 1 = 0" "GET_NUM_BITS 2 = 1" "GET_NUM_BITS 4 = 2" "GET_NUM_BITS 8 = 3"
  using is_pow2_power [of 0] is_pow2_power [of 1] is_pow2_power [of 2] is_pow2_power [of 3]
    GET_NUM_BITS_power [of 0] GET_NUM_BITS_power [of 1] GET_NUM_BITS_power [of 2] GET_NUM_BITS_power [of 3]
  by simp_all

lemma replicate_numeral_rec [simp]: "replicate (numeral k) x = x # replicate (pred_numeral k) x"
  by (simp add: numeral_eq_Suc)

lemma foldR_append: "foldR f (xs @ ys) s = bindR (foldR f xs s) (foldR f ys)"
  by (induction xs arbitrary: s) (auto simp: bindR_def split: sum.split)

lemma foldR_map_upto:
  "n \<le> length t \<Longrightarrow> foldR (\<lambda>i t. bindR (aget t i) (\<lambda>x. aset t i (f x))) [0..<n] t = Inr (map f (take n t) @ drop n t)"
  by (induction n) (simp_all add: foldR_append nth_append take_Suc_conv_app_nth list_update_append Cons_nth_drop_Suc [symmetric])

end
