(* ===== verification/Evict_Policy.thy ===== *)
theory Evict_Policy
  imports Sim_Prelude
begin

text \<open>
  The replacement policies of \<^verbatim>\<open>utils/evict_policy.c\<close>, used by the branch target
  buffer and the caches: bit-PLRU and random. The function pointers \<^verbatim>\<open>use\<close> and
  \<^verbatim>\<open>evict\<close> that \<^verbatim>\<open>evict_policy_create\<close> installs are the dispatch functions
  \<open>evict_use\<close> and \<open>evict_evict\<close> on the policy type; a type that installs none leaves
  null pointers. \<^verbatim>\<open>rand()\<close> draws from a stream of values given as an argument.
\<close>

section \<open>The code\<close>

type_synonym rand_state = "nat \<times> (nat \<Rightarrow> nat)"

definition c_rand :: "rand_state \<Rightarrow> nat \<times> rand_state" where
  "c_rand r = (snd r (fst r), (Suc (fst r), snd r))"

record EvictPolicy =
  ep_type :: int
  ep_num_sets :: nat
  ep_num_ways :: nat
  ep_sets :: "u64 list"

definition EVICT_POLICY_RANDOM :: int where
  "EVICT_POLICY_RANDOM = 0"

definition EVICT_POLICY_BIT_PLRU :: int where
  "EVICT_POLICY_BIT_PLRU = 1"

definition bit_plru_use :: "EvictPolicy \<Rightarrow> nat \<Rightarrow> nat \<Rightarrow> sim_error + EvictPolicy" where
  "bit_plru_use p st way =
     (if ep_num_ways p = 1 then Inr p
      else if 64 \<le> way \<or> 64 \<le> ep_num_ways p then Inl Undefined_shift
      else bindR (aget (ep_sets p) st) (\<lambda>m.
        let m1 = SET_BIT m way;
            m2 = (if m1 = BITMASK (ep_num_ways p) then SET_BIT 0 way else m1)
        in bindR (aset (ep_sets p) st m2) (\<lambda>s. Inr (p\<lparr>ep_sets := s\<rparr>))))"

function plru_scan :: "u64 \<Rightarrow> nat \<Rightarrow> nat \<Rightarrow> sim_error + nat" where
  "plru_scan current_set num_ways i =
     (if num_ways \<le> i then Inl Assert_failed
      else if 64 \<le> i then Inl Undefined_shift
      else if GET_BIT current_set i = 0 then Inr i
      else plru_scan current_set num_ways (Suc i))"
  by pat_completeness auto
termination
  by (relation "measure (\<lambda>(m, n, i). n - i)") auto

declare plru_scan.simps [simp del]

definition bit_plru_evict :: "EvictPolicy \<Rightarrow> nat \<Rightarrow> sim_error + nat" where
  "bit_plru_evict p st =
     bindR (aget (ep_sets p) st) (\<lambda>current_set.
       if ep_num_ways p = 1 then Inr 0 else plru_scan current_set (ep_num_ways p) 0)"

definition random_use :: "EvictPolicy \<Rightarrow> nat \<Rightarrow> nat \<Rightarrow> sim_error + EvictPolicy" where
  "random_use p st way = Inr p"

definition random_evict :: "EvictPolicy \<Rightarrow> rand_state \<Rightarrow> nat \<Rightarrow> sim_error + nat \<times> rand_state" where
  "random_evict p r st =
     (if ep_num_ways p = 0 then Inl Division_by_zero
      else let (v, r') = c_rand r in Inr (v mod ep_num_ways p, r'))"

definition evict_policy_reset :: "EvictPolicy \<Rightarrow> EvictPolicy" where
  "evict_policy_reset p = p\<lparr>ep_sets := replicate (ep_num_sets p) 0\<rparr>"

definition evict_policy_create :: "nat \<Rightarrow> nat \<Rightarrow> int \<Rightarrow> EvictPolicy" where
  "evict_policy_create sets ways policy_type =
     \<lparr>ep_type = policy_type, ep_num_sets = sets, ep_num_ways = ways,
      ep_sets = replicate sets 0\<rparr>"

text \<open>The calls \<^verbatim>\<open>p->use(p, set, way)\<close> and \<^verbatim>\<open>p->evict(p, set)\<close>.\<close>

definition evict_use :: "EvictPolicy \<Rightarrow> nat \<Rightarrow> nat \<Rightarrow> sim_error + EvictPolicy" where
  "evict_use p st way =
     (if ep_type p = EVICT_POLICY_RANDOM then random_use p st way
      else if ep_type p = EVICT_POLICY_BIT_PLRU then bit_plru_use p st way
      else Inl Null_pointer)"

definition evict_evict :: "EvictPolicy \<Rightarrow> rand_state \<Rightarrow> nat \<Rightarrow> sim_error + nat \<times> rand_state" where
  "evict_evict p r st =
     (if ep_type p = EVICT_POLICY_RANDOM then random_evict p r st
      else if ep_type p = EVICT_POLICY_BIT_PLRU
      then bindR (bit_plru_evict p st) (\<lambda>w. Inr (w, r))
      else Inl Null_pointer)"

section \<open>Invariant\<close>

text \<open>
  The MRU bits of a set: none above the ways, and not all of the ways'. The
  second part is what the reset in \<^verbatim>\<open>bit_plru_use\<close> is for.
\<close>

definition mru_ok :: "nat \<Rightarrow> u64 \<Rightarrow> bool" where
  "mru_ok ways m \<longleftrightarrow> take_bit ways m = m \<and> m \<noteq> BITMASK ways"

definition ep_inv :: "EvictPolicy \<Rightarrow> bool" where
  "ep_inv p \<longleftrightarrow>
     length (ep_sets p) = ep_num_sets p \<and> 1 \<le> ep_num_ways p
     \<and> (ep_type p = EVICT_POLICY_RANDOM
        \<or> ep_type p = EVICT_POLICY_BIT_PLRU \<and> ep_num_ways p < 64
          \<and> (ep_num_ways p = 1 \<or> list_all (mru_ok (ep_num_ways p)) (ep_sets p)))"

lemma mru_ok_iff:
  assumes "k < 64"
  shows "mru_ok k m \<longleftrightarrow> (\<forall>n<64. bit m n \<longrightarrow> n < k) \<and> (\<exists>n<k. \<not> bit m n)"
proof -
  have t: "take_bit k m = m \<longleftrightarrow> (\<forall>n<64. bit m n \<longrightarrow> n < k)"
    by (auto simp: u64_eq_iff bit_take_bit_iff)
  have b: "m = BITMASK k \<longleftrightarrow> (\<forall>n<64. bit m n \<longleftrightarrow> n < k)"
    by (simp add: u64_eq_iff bit_BITMASK)
  have "(\<forall>n<64. bit m n \<longleftrightarrow> n < k) \<longleftrightarrow> (\<forall>n<k. bit m n)"
    if "\<forall>n<64. bit m n \<longrightarrow> n < k" using that assms less_trans by blast
  then show ?thesis unfolding mru_ok_def t b by blast
qed

lemma mru_ok_0: "1 \<le> k \<Longrightarrow> k < 64 \<Longrightarrow> mru_ok k 0"
  by (auto simp: mru_ok_iff intro: exI [of _ 0])

lemma mru_ok_single: "2 \<le> k \<Longrightarrow> k < 64 \<Longrightarrow> w < k \<Longrightarrow> mru_ok k (SET_BIT 0 w)"
proof -
  assume a: "2 \<le> k" "k < 64" "w < k"
  then have "\<exists>n<k. n \<noteq> w" by (intro exI [of _ "if w = 0 then 1 else 0"]) auto
  with a show ?thesis by (auto simp: mru_ok_iff bit_SET_BIT)
qed

lemma mru_ok_SET_BIT:
  assumes "k < 64" and "w < k" and "mru_ok k m" and "SET_BIT m w \<noteq> BITMASK k"
  shows "mru_ok k (SET_BIT m w)"
proof -
  have "take_bit k (SET_BIT m w) = SET_BIT m w"
    using assms(1-3) by (intro bit_word_eqI) (auto simp: bit_SET_BIT mru_ok_iff bit_take_bit_iff)
  then show ?thesis using assms(4) by (simp add: mru_ok_def)
qed

section \<open>Scanning for a victim\<close>

lemma plru_scan_finds:
  assumes "n \<le> 64" and "i \<le> j" and "j < n" and "\<not> bit m j"
  shows "\<exists>w. plru_scan m n i = Inr w \<and> i \<le> w \<and> w \<le> j \<and> \<not> bit m w"
  using assms
proof (induction m n i rule: plru_scan.induct)
  case (1 m n i)
  then have range: "\<not> n \<le> i" "\<not> 64 \<le> i" by auto
  show ?case
  proof (cases "bit m i")
    case False
    then show ?thesis using range "1.prems"
      by (simp add: plru_scan.simps [of m n i] GET_BIT_eq_0_iff)
  next
    case True
    with "1.prems" have "Suc i \<le> j" by (cases "i = j") auto
    with "1.IH" "1.prems" True range
    have "\<exists>w. plru_scan m n (Suc i) = Inr w \<and> Suc i \<le> w \<and> w \<le> j \<and> \<not> bit m w"
      by (auto simp: GET_BIT_eq_0_iff)
    then show ?thesis using range True
      by (auto simp: plru_scan.simps [of m n i] GET_BIT_eq_0_iff)
  qed
qed

lemma bit_plru_evict_ok:
  assumes "ep_inv p" and "ep_type p = EVICT_POLICY_BIT_PLRU" and "s < ep_num_sets p"
  shows "\<exists>w. bit_plru_evict p s = Inr w \<and> w < ep_num_ways p
    \<and> (ep_num_ways p \<noteq> 1 \<longrightarrow> \<not> bit (ep_sets p ! s) w)"
proof (cases "ep_num_ways p = 1")
  case True
  then show ?thesis using assms by (simp add: bit_plru_evict_def ep_inv_def)
next
  case False
  let ?k = "ep_num_ways p" and ?m = "ep_sets p ! s"
  have k: "?k < 64" "length (ep_sets p) = ep_num_sets p" "list_all (mru_ok ?k) (ep_sets p)"
    using assms False by (auto simp: ep_inv_def EVICT_POLICY_RANDOM_def EVICT_POLICY_BIT_PLRU_def)
  then have "mru_ok ?k ?m" using assms(3) by (simp add: list_all_length)
  then obtain j where "j < ?k" "\<not> bit ?m j" using k(1) by (auto simp: mru_ok_iff)
  then obtain w where "plru_scan ?m ?k 0 = Inr w" "w \<le> j" "\<not> bit ?m w"
    using plru_scan_finds [of ?k 0 j ?m] k(1) by auto
  then show ?thesis using False k assms(3) \<open>j < ?k\<close> by (auto simp: bit_plru_evict_def)
qed

lemma bit_plru_use_ok:
  assumes "ep_inv p" and "ep_type p = EVICT_POLICY_BIT_PLRU"
    and "s < ep_num_sets p" and "w < ep_num_ways p"
  shows "\<exists>p'. bit_plru_use p s w = Inr p' \<and> ep_inv p'
    \<and> ep_num_sets p' = ep_num_sets p \<and> ep_num_ways p' = ep_num_ways p \<and> ep_type p' = ep_type p
    \<and> (ep_num_ways p \<noteq> 1 \<longrightarrow> bit (ep_sets p' ! s) w)"
proof (cases "ep_num_ways p = 1")
  case True
  then show ?thesis using assms by (simp add: bit_plru_use_def)
next
  case False
  let ?k = "ep_num_ways p" and ?m = "ep_sets p ! s"
  let ?n = "if SET_BIT ?m w = BITMASK ?k then SET_BIT 0 w else SET_BIT ?m w"
  have k: "?k < 64" "length (ep_sets p) = ep_num_sets p" "list_all (mru_ok ?k) (ep_sets p)"
    "2 \<le> ?k"
    using assms False by (auto simp: ep_inv_def EVICT_POLICY_RANDOM_def EVICT_POLICY_BIT_PLRU_def)
  have m: "mru_ok ?k ?m" using k assms(3) by (simp add: list_all_length)
  have n: "mru_ok ?k ?n" using mru_ok_single mru_ok_SET_BIT m k assms(4) by simp
  have "list_all (mru_ok ?k) ((ep_sets p)[s := ?n])"
    using n k(3) set_update_subset_insert [of "ep_sets p" s ?n] by (auto simp: list_all_iff)
  moreover have "bit ?n w" using assms(4) k(1) by (simp add: bit_SET_BIT)
  moreover have "bit_plru_use p s w = Inr (p\<lparr>ep_sets := (ep_sets p)[s := ?n]\<rparr>)"
    using False k assms(3,4) by (simp add: bit_plru_use_def Let_def)
  ultimately show ?thesis using assms k False by (simp add: ep_inv_def)
qed

section \<open>The contract of a replacement policy\<close>

locale replacement =
  fixes use :: "'p \<Rightarrow> nat \<Rightarrow> nat \<Rightarrow> sim_error + 'p"
    and evict :: "'p \<Rightarrow> 'r \<Rightarrow> nat \<Rightarrow> sim_error + nat \<times> 'r"
    and reset :: "'p \<Rightarrow> 'p"
    and nsets :: "'p \<Rightarrow> nat"
    and nways :: "'p \<Rightarrow> nat"
    and inv :: "'p \<Rightarrow> bool"
  assumes use_ok: "inv p \<Longrightarrow> s < nsets p \<Longrightarrow> w < nways p \<Longrightarrow>
      \<exists>p'. use p s w = Inr p' \<and> inv p' \<and> nsets p' = nsets p \<and> nways p' = nways p"
    and evict_ok: "inv p \<Longrightarrow> s < nsets p \<Longrightarrow> \<exists>w r'. evict p r s = Inr (w, r') \<and> w < nways p"
    and reset_ok: "inv p \<Longrightarrow> inv (reset p) \<and> nsets (reset p) = nsets p \<and> nways (reset p) = nways p"
begin

lemma use_cases:
  assumes "inv p" and "s < nsets p" and "w < nways p"
  obtains p' where "use p s w = Inr p'" and "inv p'" and "nsets p' = nsets p" and "nways p' = nways p"
  using use_ok [OF assms] by auto

lemma evict_cases:
  assumes "inv p" and "s < nsets p"
  obtains w r' where "evict p r s = Inr (w, r')" and "w < nways p"
  using evict_ok [OF assms, of r] by auto

text \<open>The allocation pattern of the tables: choose a victim, then mark it used.\<close>

lemma evict_then_use:
  assumes "inv p" and "s < nsets p"
  obtains w r' p' where "evict p r s = Inr (w, r')" and "w < nways p"
    and "use p s w = Inr p'" and "inv p'" and "nsets p' = nsets p" and "nways p' = nways p"
proof -
  from evict_cases [OF assms] obtain w r' where e: "evict p r s = Inr (w, r')" "w < nways p"
    by blast
  from use_cases [OF assms e(2)] obtain p' where "use p s w = Inr p'" "inv p'"
    "nsets p' = nsets p" "nways p' = nways p" by blast
  then show thesis using that e by blast
qed

end

interpretation ep: replacement evict_use evict_evict evict_policy_reset ep_num_sets ep_num_ways ep_inv
proof unfold_locales
  fix p s w
  assume a: "ep_inv p" "s < ep_num_sets p" "w < ep_num_ways p"
  then consider "ep_type p = EVICT_POLICY_RANDOM" | "ep_type p = EVICT_POLICY_BIT_PLRU"
    by (auto simp: ep_inv_def)
  then show "\<exists>p'. evict_use p s w = Inr p' \<and> ep_inv p' \<and> ep_num_sets p' = ep_num_sets p
      \<and> ep_num_ways p' = ep_num_ways p"
    using a bit_plru_use_ok [OF a(1) _ a(2,3)]
    by cases (auto simp: evict_use_def random_use_def EVICT_POLICY_RANDOM_def EVICT_POLICY_BIT_PLRU_def)
next
  fix p and r :: rand_state and s
  assume a: "ep_inv p" "s < ep_num_sets p"
  then have w: "1 \<le> ep_num_ways p" by (simp add: ep_inv_def)
  from a consider (rnd) "ep_type p = EVICT_POLICY_RANDOM" | (plru) "ep_type p = EVICT_POLICY_BIT_PLRU"
    by (auto simp: ep_inv_def)
  then show "\<exists>w r'. evict_evict p r s = Inr (w, r') \<and> w < ep_num_ways p"
  proof cases
    case rnd
    with w show ?thesis by (simp add: evict_evict_def random_evict_def c_rand_def)
  next
    case plru
    then obtain v where "bit_plru_evict p s = Inr v" "v < ep_num_ways p"
      using bit_plru_evict_ok [OF a(1) _ a(2)] by blast
    with plru show ?thesis
      by (simp add: evict_evict_def EVICT_POLICY_RANDOM_def EVICT_POLICY_BIT_PLRU_def)
  qed
next
  fix p
  assume "ep_inv p"
  then show "ep_inv (evict_policy_reset p) \<and> ep_num_sets (evict_policy_reset p) = ep_num_sets p
      \<and> ep_num_ways (evict_policy_reset p) = ep_num_ways p"
    by (auto simp: ep_inv_def evict_policy_reset_def list_all_length mru_ok_0)
qed

lemma ep_inv_create:
  assumes "1 \<le> ways" and "t = EVICT_POLICY_RANDOM \<or> t = EVICT_POLICY_BIT_PLRU \<and> ways < 64"
  shows "ep_inv (evict_policy_create sets ways t)"
  using assms by (auto simp: ep_inv_def evict_policy_create_def list_all_length mru_ok_0)

section \<open>Properties\<close>

text \<open>The states a policy passes through: uses of existing ways, and resets.\<close>

inductive ep_reach :: "EvictPolicy \<Rightarrow> EvictPolicy \<Rightarrow> bool" where
  start: "ep_reach p p"
| use: "ep_reach p q \<Longrightarrow> s < ep_num_sets q \<Longrightarrow> w < ep_num_ways q \<Longrightarrow> evict_use q s w = Inr q'
    \<Longrightarrow> ep_reach p q'"
| reset: "ep_reach p q \<Longrightarrow> ep_reach p (evict_policy_reset q)"

lemma ep_reach_inv:
  "ep_reach p q \<Longrightarrow> ep_inv p \<Longrightarrow>
     ep_inv q \<and> ep_num_sets q = ep_num_sets p \<and> ep_num_ways q = ep_num_ways p"
proof (induction rule: ep_reach.induct)
  case (use p q s w q')
  then show ?case using ep.use_ok [of q s w] by auto
next
  case (reset p q)
  then show ?case using ep.reset_ok [of q] by auto
qed simp

text \<open>
  (C23) Safety: from a freshly created bit-PLRU or random policy with at least one
  way (at most 63 for bit-PLRU), after any uses and resets, \<^verbatim>\<open>evict\<close> returns a
  way of the set: the \<^verbatim>\<open>sim_assert\<close> "there should be at least one way open for
  eviction" is never reached and no shift is undefined.
\<close>

theorem evict_never_asserts:
  assumes "1 \<le> ways" and "t = EVICT_POLICY_RANDOM \<or> t = EVICT_POLICY_BIT_PLRU \<and> ways < 64"
    and "ep_reach (evict_policy_create n ways t) p" and "s < n"
  shows "\<exists>w r'. evict_evict p r s = Inr (w, r') \<and> w < ways"
proof -
  have "ep_inv p \<and> ep_num_sets p = n \<and> ep_num_ways p = ways"
    using ep_reach_inv [OF assms(3)] ep_inv_create [OF assms(1,2)]
    by (simp add: evict_policy_create_def)
  then show ?thesis using ep.evict_ok [of p s r] assms(4) by auto
qed

theorem evict_never_asserts_witness:
  "\<exists>w r'. evict_evict (evict_policy_create 4 2 1) (0, \<lambda>_. 0) 3 = Inr (w, r') \<and> w < 2"
  by (rule evict_never_asserts [where t = 1 and n = 4])
    (simp_all add: EVICT_POLICY_BIT_PLRU_def ep_reach.start)

text \<open>
  (C24) Functional: with bit-PLRU and two ways or more, the way just used is not the
  next victim of its set, and using it leaves the MRU bits of every other set as
  they were.
\<close>

theorem plru_protects_most_recent:
  assumes "ep_inv p" and "ep_type p = EVICT_POLICY_BIT_PLRU" and "2 \<le> ep_num_ways p"
    and "s < ep_num_sets p" and "w < ep_num_ways p" and "bit_plru_use p s w = Inr p'"
  shows "(\<exists>v. bit_plru_evict p' s = Inr v \<and> v \<noteq> w \<and> v < ep_num_ways p)
    \<and> (\<forall>s'. s' \<noteq> s \<longrightarrow> ep_sets p' ! s' = ep_sets p ! s')"
proof (rule conjI)
  obtain q where "bit_plru_use p s w = Inr q" "ep_inv q" "ep_num_sets q = ep_num_sets p"
    "ep_num_ways q = ep_num_ways p" "ep_type q = ep_type p" "bit (ep_sets q ! s) w"
    using bit_plru_use_ok [OF assms(1,2,4,5)] assms(3) by auto
  then have q: "ep_inv p'" "ep_num_sets p' = ep_num_sets p" "ep_num_ways p' = ep_num_ways p"
    "ep_type p' = ep_type p" "bit (ep_sets p' ! s) w" using assms(6) by auto
  then obtain v where "bit_plru_evict p' s = Inr v" "v < ep_num_ways p" "\<not> bit (ep_sets p' ! s) v"
    using bit_plru_evict_ok [of p' s] assms by auto
  then show "\<exists>v. bit_plru_evict p' s = Inr v \<and> v \<noteq> w \<and> v < ep_num_ways p" using q(5) by metis
  show "\<forall>s'. s' \<noteq> s \<longrightarrow> ep_sets p' ! s' = ep_sets p ! s'"
    using assms(3,6) by (auto simp: bit_plru_use_def Let_def bindR_eq_Inr_iff aset_eq_Inr_iff
        split: if_splits)
qed

theorem plru_protects_most_recent_witness:
  "\<exists>v. bit_plru_evict ((evict_policy_create 2 4 1)\<lparr>ep_sets := [0, SET_BIT 0 3]\<rparr>) 1 = Inr v \<and> v \<noteq> 3"
proof -
  let ?p = "evict_policy_create 2 4 1"
  have "bit_plru_use ?p 1 3 = Inr (?p\<lparr>ep_sets := [0, SET_BIT 0 3]\<rparr>)"
    by (simp add: bit_plru_use_def evict_policy_create_def macro_defs numeral_2_eq_2)
  then show ?thesis
    using plru_protects_most_recent [of ?p 1 3] ep_inv_create [of 4 1 2]
    by (auto simp: evict_policy_create_def EVICT_POLICY_BIT_PLRU_def)
qed

end
