(* ===== verification/Sim_Params.thy ===== *)
theory Sim_Params
  imports Evict_Policy
begin

text \<open>
  The simulation parameters of \<^verbatim>\<open>utils/sim_params.c\<close>: the \<^verbatim>\<open>SimParams\<close> struct, its
  defaults, and \<^verbatim>\<open>sim_params_validate\<close>, which every configuration passes before a
  component is created from it. C \<^verbatim>\<open>int\<close> fields are \<open>int\<close>; the arrays of stage
  latencies are lists. \<open>zero_params\<close> is the zeroed struct \<^verbatim>\<open>calloc\<close> returns (its
  null strings, all assigned by the defaults, are empty here).
\<close>

section \<open>The code\<close>

abbreviation (input) DISABLE :: int where "DISABLE \<equiv> 0"
abbreviation (input) ENABLE :: int where "ENABLE \<equiv> 1"
abbreviation (input) CORE_TYPE_INCORE :: int where "CORE_TYPE_INCORE \<equiv> 0"
abbreviation (input) CORE_TYPE_OOCORE :: int where "CORE_TYPE_OOCORE \<equiv> 1"
abbreviation (input) BPU_TYPE_BIMODAL :: int where "BPU_TYPE_BIMODAL \<equiv> 0"
abbreviation (input) BPU_TYPE_ADAPTIVE :: int where "BPU_TYPE_ADAPTIVE \<equiv> 1"
abbreviation (input) CACHE_READ_ALLOC :: int where "CACHE_READ_ALLOC \<equiv> 0"
abbreviation (input) CACHE_READ_NO_ALLOC :: int where "CACHE_READ_NO_ALLOC \<equiv> 1"
abbreviation (input) CACHE_WRITE_ALLOC :: int where "CACHE_WRITE_ALLOC \<equiv> 0"
abbreviation (input) CACHE_WRITE_NO_ALLOC :: int where "CACHE_WRITE_NO_ALLOC \<equiv> 1"
abbreviation (input) CACHE_WRITEBACK :: int where "CACHE_WRITEBACK \<equiv> 0"
abbreviation (input) CACHE_WRITETHROUGH :: int where "CACHE_WRITETHROUGH \<equiv> 1"
abbreviation (input) BPU_ALIAS_FUNC_XOR :: int where "BPU_ALIAS_FUNC_XOR \<equiv> 0"
abbreviation (input) BPU_ALIAS_FUNC_AND :: int where "BPU_ALIAS_FUNC_AND \<equiv> 1"
abbreviation (input) BPU_ALIAS_FUNC_NONE :: int where "BPU_ALIAS_FUNC_NONE \<equiv> 2"
abbreviation (input) MEM_MODEL_BASE :: int where "MEM_MODEL_BASE \<equiv> 0"
abbreviation (input) MEM_MODEL_DRAMSIM :: int where "MEM_MODEL_DRAMSIM \<equiv> 1"
abbreviation (input) MEM_MODEL_RAMULATOR :: int where "MEM_MODEL_RAMULATOR \<equiv> 2"
abbreviation (input) MEM_MODEL_AIMULATOR :: int where "MEM_MODEL_AIMULATOR \<equiv> 3"

abbreviation (input) MAX_FU_FPU_ALU_TYPES :: nat where "MAX_FU_FPU_ALU_TYPES \<equiv> 15"

record SimParams =
  core_name :: string
  core_type :: int
  start_in_sim :: int
  enable_stats_display :: int
  create_ins_str :: int
  do_sim_trace :: int
  sim_trace_file :: string
  sim_file_path :: string
  sim_file_prefix :: string
  sim_log_file :: string
  sim_stats_shm_name :: string
  num_cpu_stages :: int
  enable_parallel_fu :: int
  iq_size :: int
  iq_issue_ports :: int
  rob_size :: int
  rob_commit_ports :: int
  lsq_size :: int
  num_alu_stages :: int
  alu_stage_latency :: "int list"
  num_mul_stages :: int
  mul_stage_latency :: "int list"
  num_div_stages :: int
  div_stage_latency :: "int list"
  num_fpu_alu_stages :: int
  fpu_alu_latency :: "int list"
  num_fpu_fma_stages :: int
  fpu_fma_stage_latency :: "int list"
  enable_bpu :: int
  bpu_flush_on_context_switch :: int
  btb_size :: int
  btb_ways :: int
  bht_size :: int
  ras_size :: int
  bpu_type :: int
  bpu_ght_size :: int
  bpu_pht_size :: int
  bpu_history_bits :: int
  bpu_aliasing_func_type :: int
  btb_eviction_policy :: int
  flush_bpu_on_simstart :: int
  enable_l1_caches :: int
  l1_code_cache_read_latency :: int
  l1_code_cache_size :: int
  l1_code_cache_ways :: int
  l1_code_cache_evict :: int
  l1_data_cache_read_latency :: int
  l1_data_cache_write_latency :: int
  l1_data_cache_size :: int
  l1_data_cache_ways :: int
  l1_data_cache_evict :: int
  enable_l2_cache :: int
  l2_shared_cache_read_latency :: int
  l2_shared_cache_write_latency :: int
  l2_shared_cache_size :: int
  l2_shared_cache_ways :: int
  l2_shared_cache_evict :: int
  cache_line_size :: int
  cache_read_allocate_policy :: int
  cache_write_allocate_policy :: int
  cache_write_policy :: int
  flush_sim_mem_on_simstart :: int
  guest_ram_size :: u64
  tlb_size :: int
  dram_model_type :: int
  burst_length :: int
  mem_access_latency :: int
  dramsim_config_file :: string
  ramulator_config_file :: string
  aimulator_config_file :: string
  sim_emulate_after_icount :: u64
  system_insn_latency :: int
  rtc_freq_mhz :: int
  cpu_freq_mhz :: int

definition zero_params :: SimParams where
  "zero_params = \<lparr>
    core_name = '''', core_type = 0, start_in_sim = 0, enable_stats_display = 0,
    create_ins_str = 0, do_sim_trace = 0, sim_trace_file = '''', sim_file_path = '''',
    sim_file_prefix = '''', sim_log_file = '''', sim_stats_shm_name = '''', num_cpu_stages = 0,
    enable_parallel_fu = 0, iq_size = 0, iq_issue_ports = 0, rob_size = 0, rob_commit_ports = 0,
    lsq_size = 0, num_alu_stages = 0, alu_stage_latency = [], num_mul_stages = 0,
    mul_stage_latency = [], num_div_stages = 0, div_stage_latency = [], num_fpu_alu_stages = 0,
    fpu_alu_latency = replicate MAX_FU_FPU_ALU_TYPES 0, num_fpu_fma_stages = 0,
    fpu_fma_stage_latency = [], enable_bpu = 0, bpu_flush_on_context_switch = 0, btb_size = 0,
    btb_ways = 0, bht_size = 0, ras_size = 0, bpu_type = 0, bpu_ght_size = 0, bpu_pht_size = 0,
    bpu_history_bits = 0, bpu_aliasing_func_type = 0, btb_eviction_policy = 0,
    flush_bpu_on_simstart = 0, enable_l1_caches = 0, l1_code_cache_read_latency = 0,
    l1_code_cache_size = 0, l1_code_cache_ways = 0, l1_code_cache_evict = 0,
    l1_data_cache_read_latency = 0, l1_data_cache_write_latency = 0, l1_data_cache_size = 0,
    l1_data_cache_ways = 0, l1_data_cache_evict = 0, enable_l2_cache = 0,
    l2_shared_cache_read_latency = 0, l2_shared_cache_write_latency = 0, l2_shared_cache_size = 0,
    l2_shared_cache_ways = 0, l2_shared_cache_evict = 0, cache_line_size = 0,
    cache_read_allocate_policy = 0, cache_write_allocate_policy = 0, cache_write_policy = 0,
    flush_sim_mem_on_simstart = 0, guest_ram_size = 0, tlb_size = 0, dram_model_type = 0,
    burst_length = 0, mem_access_latency = 0, dramsim_config_file = '''',
    ramulator_config_file = '''', aimulator_config_file = '''', sim_emulate_after_icount = 0,
    system_insn_latency = 0, rtc_freq_mhz = 0, cpu_freq_mhz = 0\<rparr>"

definition sim_params_set_defaults :: "SimParams \<Rightarrow> SimParams" where
  "sim_params_set_defaults p = p\<lparr>
    core_name := ''default-riscv-core'', core_type := CORE_TYPE_INCORE, sim_file_path := ''.'',
    sim_file_prefix := ''sim'', sim_trace_file := ''sim.trace'', sim_log_file := ''sim.log'',
    sim_stats_shm_name := ''sim-shm'', start_in_sim := 0, enable_stats_display := 0,
    create_ins_str := 0, num_cpu_stages := 6, enable_parallel_fu := DISABLE, iq_size := 16,
    iq_issue_ports := 2, rob_size := 64, lsq_size := 16, num_alu_stages := 1,
    alu_stage_latency := replicate (nat 1) 1, num_mul_stages := 1,
    mul_stage_latency := replicate (nat 1) 1, num_div_stages := 1,
    div_stage_latency := replicate (nat 1) 1, num_fpu_alu_stages := 1,
    fpu_alu_latency := replicate MAX_FU_FPU_ALU_TYPES 1, num_fpu_fma_stages := 1,
    fpu_fma_stage_latency := replicate (nat 1) 1, enable_bpu := ENABLE, btb_size := 512,
    btb_ways := 2, bht_size := 256, ras_size := 6, bpu_type := BPU_TYPE_BIMODAL,
    bpu_ght_size := 1, bpu_pht_size := 1, bpu_history_bits := 2,
    bpu_aliasing_func_type := BPU_ALIAS_FUNC_NONE, btb_eviction_policy := EVICT_POLICY_RANDOM,
    flush_bpu_on_simstart := DISABLE, enable_l1_caches := ENABLE, l1_code_cache_read_latency := 1,
    l1_code_cache_size := 32, l1_code_cache_ways := 4, l1_code_cache_evict := EVICT_POLICY_RANDOM,
    l1_data_cache_read_latency := 1, l1_data_cache_write_latency := 1, l1_data_cache_size := 32,
    l1_data_cache_ways := 4, l1_data_cache_evict := EVICT_POLICY_RANDOM,
    enable_l2_cache := ENABLE, l2_shared_cache_read_latency := 1,
    l2_shared_cache_write_latency := 1, l2_shared_cache_size := 256, l2_shared_cache_ways := 16,
    l2_shared_cache_evict := EVICT_POLICY_RANDOM, cache_line_size := 64,
    cache_read_allocate_policy := CACHE_READ_ALLOC,
    cache_write_allocate_policy := CACHE_WRITE_ALLOC, cache_write_policy := CACHE_WRITEBACK,
    tlb_size := 32, dram_model_type := MEM_MODEL_BASE, burst_length := 32,
    flush_sim_mem_on_simstart := DISABLE, mem_access_latency := 46,
    dramsim_config_file := ''DRAMsim3/configs/DDR4_4Gb_x16_2400.ini'',
    ramulator_config_file := ''ramulator/configs/DDR4-config.cfg'',
    aimulator_config_file := ''aimulator/ndp_pim.yaml'', sim_emulate_after_icount := 0,
    system_insn_latency := 1, bpu_flush_on_context_switch := DISABLE, rtc_freq_mhz := 10,
    cpu_freq_mhz := 1000\<rparr>"

definition sim_params_init :: SimParams where
  "sim_params_init = sim_params_set_defaults zero_params"

definition is_power_of_two :: "int \<Rightarrow> bool" where
  "is_power_of_two v \<longleftrightarrow> 0 < v \<and> (v AND (v - 1)) = 0"

definition validate_param :: "bool \<Rightarrow> int \<Rightarrow> int \<Rightarrow> int \<Rightarrow> sim_error + unit" where
  "validate_param has_range mn mx current =
     (if has_range then sim_assert (mn \<le> current \<and> current \<le> mx)
      else sim_assert (mn \<le> current))"

definition validate_param_p2 :: "int \<Rightarrow> sim_error + unit" where
  "validate_param_p2 v = sim_assert (is_power_of_two v)"

text \<open>The loop over the stage latencies of a functional unit.\<close>

definition validate_latencies :: "int \<Rightarrow> int list \<Rightarrow> (sim_error + unit) list" where
  "validate_latencies n lat =
     map (\<lambda>i. bindR (aget lat i) (validate_param False 1 2048)) [0..<nat n]"

definition validate_core :: "SimParams \<Rightarrow> (sim_error + unit) list" where
  "validate_core p =
     [validate_param True 0 1 (start_in_sim p),
      validate_param True 0 1 (enable_stats_display p)] @
     (if core_name p = ''incore'' then [validate_param True 5 6 (num_cpu_stages p)]
      else if core_name p = ''oocore''
      then [validate_param False 1 2048 (iq_size p), validate_param False 1 2048 (iq_issue_ports p),
            validate_param False 1 2048 (rob_size p), validate_param False 1 2048 (lsq_size p)]
      else []) @
     [validate_param True 1 1000 (rtc_freq_mhz p)]"

definition validate_fu :: "SimParams \<Rightarrow> (sim_error + unit) list" where
  "validate_fu p =
     [validate_param False 1 2048 (num_alu_stages p)] @
     validate_latencies (num_alu_stages p) (alu_stage_latency p) @
     [validate_param False 1 2048 (num_mul_stages p)] @
     validate_latencies (num_mul_stages p) (mul_stage_latency p) @
     [validate_param False 1 2048 (num_div_stages p)] @
     validate_latencies (num_div_stages p) (div_stage_latency p) @
     [validate_param False 1 2048 (num_fpu_alu_stages p)] @
     validate_latencies (int MAX_FU_FPU_ALU_TYPES) (fpu_alu_latency p) @
     [validate_param False 1 2048 (num_fpu_fma_stages p)] @
     validate_latencies (num_fpu_fma_stages p) (fpu_fma_stage_latency p) @
     [validate_param False 1 2048 (system_insn_latency p)]"

definition validate_bpu :: "SimParams \<Rightarrow> (sim_error + unit) list" where
  "validate_bpu p =
     validate_param True 0 1 (enable_bpu p) #
     (if enable_bpu p \<noteq> 0
      then [validate_param_p2 (btb_size p),
            validate_param False 1 2048 (btb_ways p),
            validate_param True 0 1 (bpu_type p),
            validate_param True 0 1 (bpu_flush_on_context_switch p)] @
           (if bpu_type p = BPU_TYPE_BIMODAL then [validate_param_p2 (bht_size p)]
            else if bpu_type p = BPU_TYPE_ADAPTIVE
            then [validate_param_p2 (bpu_ght_size p), validate_param_p2 (bpu_pht_size p),
                  validate_param False 1 2048 (bpu_history_bits p)]
            else [])
      else [])"

definition validate_caches :: "SimParams \<Rightarrow> (sim_error + unit) list" where
  "validate_caches p =
     validate_param True 0 1 (enable_l1_caches p) #
     (if enable_l1_caches p \<noteq> 0
      then [validate_param False 1 2048 (l1_code_cache_read_latency p),
            validate_param False 1 2048 (l1_code_cache_size p),
            validate_param False 1 2048 (l1_code_cache_ways p),
            validate_param True 0 1 (l1_code_cache_evict p),
            validate_param False 1 2048 (l1_data_cache_read_latency p),
            validate_param False 1 2048 (l1_data_cache_write_latency p),
            validate_param False 1 2048 (l1_data_cache_size p),
            validate_param False 1 2048 (l1_data_cache_ways p),
            validate_param True 0 1 (l1_data_cache_evict p),
            validate_param_p2 (cache_line_size p),
            validate_param True 0 1 (cache_read_allocate_policy p),
            validate_param True 0 1 (cache_write_allocate_policy p),
            validate_param True 0 1 (cache_write_policy p),
            validate_param True 0 1 (enable_l2_cache p)] @
           (if enable_l2_cache p \<noteq> 0
            then [validate_param False 1 2048 (l2_shared_cache_read_latency p),
                  validate_param False 1 2048 (l2_shared_cache_write_latency p),
                  validate_param False 1 2048 (l2_shared_cache_size p),
                  validate_param False 1 2048 (l2_shared_cache_ways p),
                  validate_param True 0 1 (l2_shared_cache_evict p)]
            else [])
      else [])"

definition validate_mem :: "SimParams \<Rightarrow> (sim_error + unit) list" where
  "validate_mem p =
     [validate_param False 1 2048 (tlb_size p), validate_param False 1 2048 (burst_length p),
      validate_param False 1 2048 (mem_access_latency p)]"

text \<open>
  The name of the trace file is built in a buffer of 1024 characters by \<^verbatim>\<open>strcpy\<close> and
  \<^verbatim>\<open>strcat\<close>; with its terminating zero it must fit.
\<close>

definition trace_file_name :: "SimParams \<Rightarrow> string" where
  "trace_file_name p = sim_file_path p @ ''/'' @ sim_file_prefix p @ ''.trace''"

definition sim_params_validate :: "SimParams \<Rightarrow> sim_error + SimParams" where
  "sim_params_validate p =
     thenR (all_checks (validate_core p @ validate_fu p @ validate_bpu p @ validate_caches p
                        @ validate_mem p))
       (if 1024 \<le> length (trace_file_name p) then Inl Out_of_bounds
        else Inr (p\<lparr>sim_trace_file := trace_file_name p\<rparr>))"

section \<open>What validation establishes\<close>

lemma and_pred_eq_0_imp_pow2:
  fixes n :: nat
  assumes "0 < n" and "(n AND (n - 1)) = 0"
  shows "\<exists>k. n = 2 ^ k"
  using assms
proof (induction n rule: less_induct)
  case (less n)
  show ?case
  proof (cases "even n")
    case True
    then obtain m where m: "n = 2 * m" by (elim evenE)
    with less.prems have m0: "0 < m" by simp
    then have h: "(2 * m - 1) div 2 = m - 1" by (cases m) simp_all
    have "(n AND (n - 1)) = 2 * (m AND (m - 1))"
      using m h by (subst and_nat_rec) simp
    then obtain k where "m = 2 ^ k" using less.IH [of m] less.prems m m0 by auto
    then show ?thesis using m by (intro exI [of _ "Suc k"]) simp
  next
    case False
    then obtain m where m: "n = 2 * m + 1" by (elim oddE)
    have "(n AND (n - 1)) = 2 * (m AND m)"
      using m by (subst and_nat_rec) simp
    then show ?thesis using less.prems m by (intro exI [of _ 0]) simp
  qed
qed

lemma is_power_of_two_iff: "is_power_of_two v \<longleftrightarrow> 0 \<le> v \<and> is_pow2 (nat v)"
proof
  assume p2: "is_power_of_two v"
  then have v: "v = int (nat v)" "v - 1 = int (nat v - 1)" by (auto simp: is_power_of_two_def)
  then have "int (nat v AND (nat v - 1)) = v AND (v - 1)" by (metis of_nat_and_eq)
  then have "(nat v AND (nat v - 1)) = 0" using p2 by (simp add: is_power_of_two_def)
  then show "0 \<le> v \<and> is_pow2 (nat v)"
    using and_pred_eq_0_imp_pow2 [of "nat v"] p2 by (auto simp: is_power_of_two_def is_pow2_iff)
next
  assume "0 \<le> v \<and> is_pow2 (nat v)"
  then obtain k where "v = 2 ^ k" by (auto simp: is_pow2_iff nat_eq_iff)
  moreover have "(2 ^ k AND (2 ^ k - 1 :: int)) = 0"
    using take_bit_eq_mask [of k "2 ^ k :: int"] by (simp add: mask_eq_exp_minus_1)
  ultimately show "is_power_of_two v" by (simp add: is_power_of_two_def)
qed

lemma is_power_of_twoD: "is_power_of_two v \<Longrightarrow> 0 < v \<and> is_pow2 (nat v)"
  using is_power_of_two_iff by (auto simp: is_power_of_two_def)

lemma validate_param_Inr [simp]:
  "validate_param r a b v = Inr u \<longleftrightarrow> a \<le> v \<and> (r \<longrightarrow> v \<le> b)"
  "validate_param_p2 v = Inr u \<longleftrightarrow> is_power_of_two v"
  by (auto simp: validate_param_def validate_param_p2_def)

lemma validated:
  assumes "sim_params_validate p = Inr q"
  shows "all_checks (validate_core p) = Inr ()" "all_checks (validate_fu p) = Inr ()"
    "all_checks (validate_bpu p) = Inr ()" "all_checks (validate_caches p) = Inr ()"
    "all_checks (validate_mem p) = Inr ()" "q = p\<lparr>sim_trace_file := trace_file_name p\<rparr>"
  using assms by (auto simp: sim_params_validate_def thenR_eq_Inr_iff split: if_splits)

lemma validated_bpu:
  assumes "sim_params_validate p = Inr q" and "enable_bpu p \<noteq> 0"
  shows "0 < btb_size p \<and> is_pow2 (nat (btb_size p))" "1 \<le> btb_ways p"
    "bpu_type p = BPU_TYPE_BIMODAL \<or> bpu_type p = BPU_TYPE_ADAPTIVE"
    "bpu_type p = BPU_TYPE_BIMODAL \<Longrightarrow> 0 < bht_size p \<and> is_pow2 (nat (bht_size p))"
    "bpu_type p = BPU_TYPE_ADAPTIVE \<Longrightarrow> 0 < bpu_ght_size p \<and> is_pow2 (nat (bpu_ght_size p))
       \<and> 0 < bpu_pht_size p \<and> is_pow2 (nat (bpu_pht_size p)) \<and> 1 \<le> bpu_history_bits p"
  using validated(3) [OF assms(1)] assms(2) is_power_of_twoD
  by (auto simp: validate_bpu_def thenR_eq_Inr_iff split: if_splits)

text \<open>The default configuration, evaluated; \<open>param_defs\<close> unfolds a concrete configuration.\<close>

lemmas param_defs = sim_params_validate_def sim_params_init_def sim_params_set_defaults_def zero_params_def
  validate_core_def validate_fu_def validate_bpu_def validate_caches_def validate_mem_def
  validate_latencies_def validate_param_def validate_param_p2_def is_power_of_two_def
  trace_file_name_def EVICT_POLICY_RANDOM_def upt_rec

lemma sim_params_init_validates:
  "sim_params_validate sim_params_init = Inr (sim_params_init\<lparr>sim_trace_file := ''./sim.trace''\<rparr>)"
  by (simp add: param_defs)

lemma sim_params_init_bpu:
  "enable_bpu sim_params_init = 1" "btb_size sim_params_init = 512" "btb_ways sim_params_init = 2"
  "ras_size sim_params_init = 6" "btb_eviction_policy sim_params_init = EVICT_POLICY_RANDOM"
  "bpu_history_bits sim_params_init = 2" "bpu_aliasing_func_type sim_params_init = BPU_ALIAS_FUNC_NONE"
  "bpu_type sim_params_init = BPU_TYPE_BIMODAL" "bht_size sim_params_init = 256"
  by (simp_all add: param_defs)

section \<open>Properties\<close>


end
