(* ===== verification/Bht.thy ===== *)
theory Bht
  imports Sim_Params
begin

text \<open>
  The branch history table of \<^verbatim>\<open>bpu/bht.c\<close>: a direct-mapped array of two-bit
  saturating counters indexed by the low bits of the branch address. Branch
  outcomes, which the callers pass as \<^verbatim>\<open>TRUE\<close> or 0, are booleans.
\<close>

section \<open>The code\<close>

record Bht =
  bht_entry :: "int list"
  bht_index_bits :: nat
  bht_count :: int

definition update_two_bit_counter :: "int \<Rightarrow> bool \<Rightarrow> int" where
  "update_two_bit_counter ctr pred =
     (if pred
      then (if 0 \<le> ctr \<and> ctr < 3 then ctr + 1 else ctr)
      else (if 1 \<le> ctr \<and> ctr \<le> 3 then ctr - 1 else ctr))"

definition bht_idx :: "Bht \<Rightarrow> target_ulong \<Rightarrow> nat" where
  "bht_idx b pc = unat (GET_INDEX pc (bht_index_bits b))"

definition bht_get_prediction :: "Bht \<Rightarrow> target_ulong \<Rightarrow> sim_error + int" where
  "bht_get_prediction b pc = aget (bht_entry b) (bht_idx b pc)"

definition bht_add :: "Bht \<Rightarrow> target_ulong \<Rightarrow> sim_error + Bht" where
  "bht_add b pc = bindR (aset (bht_entry b) (bht_idx b pc) 1) (\<lambda>e. Inr (b\<lparr>bht_entry := e\<rparr>))"

definition bht_update :: "Bht \<Rightarrow> target_ulong \<Rightarrow> bool \<Rightarrow> sim_error + Bht" where
  "bht_update b pc pred =
     bindR (aget (bht_entry b) (bht_idx b pc)) (\<lambda>ctr.
     bindR (aset (bht_entry b) (bht_idx b pc) (update_two_bit_counter ctr pred)) (\<lambda>e.
       Inr (b\<lparr>bht_entry := e\<rparr>)))"

definition bht_flush :: "Bht \<Rightarrow> sim_error + Bht" where
  "bht_flush b = bindR (fill (nat (bht_count b)) 1 (bht_entry b)) (\<lambda>e. Inr (b\<lparr>bht_entry := e\<rparr>))"

definition bht_init :: "SimParams \<Rightarrow> sim_error + Bht" where
  "bht_init p =
     bindR (calloc (bht_size p) 0) (\<lambda>e.
       Inr \<lparr>bht_entry = e, bht_index_bits = GET_NUM_BITS (nat (bht_size p)), bht_count = bht_size p\<rparr>)"

section \<open>Two-bit counters\<close>

definition ctr_ok :: "int \<Rightarrow> bool" where
  "ctr_ok c \<longleftrightarrow> 0 \<le> c \<and> c \<le> 3"

lemma update_two_bit_counter_saturates:
  "ctr_ok c \<Longrightarrow> update_two_bit_counter c pred = (if pred then min 3 (c + 1) else max 0 (c - 1))"
  by (auto simp: ctr_ok_def update_two_bit_counter_def)

lemma ctr_ok_update [simp]: "ctr_ok c \<Longrightarrow> ctr_ok (update_two_bit_counter c pred)"
  by (auto simp: ctr_ok_def update_two_bit_counter_def)

lemma ctr_ok_01 [simp]: "ctr_ok 0" "ctr_ok 1"
  by (simp_all add: ctr_ok_def)

section \<open>Invariant\<close>

definition bht_inv :: "Bht \<Rightarrow> bool" where
  "bht_inv b \<longleftrightarrow> bht_count b = int (length (bht_entry b)) \<and> is_pow2 (length (bht_entry b))
     \<and> bht_index_bits b = GET_NUM_BITS (length (bht_entry b)) \<and> list_all ctr_ok (bht_entry b)"

lemma bht_idx_in_range [simp]: "bht_inv b \<Longrightarrow> bht_idx b pc < length (bht_entry b)"
  by (simp add: bht_inv_def bht_idx_def GET_INDEX_in_range)

lemma bht_idx_upd [simp]: "bht_idx (b\<lparr>bht_entry := e\<rparr>) pc = bht_idx b pc"
  by (simp add: bht_idx_def)

lemma bht_inv_upd [simp]: "bht_inv b \<Longrightarrow> ctr_ok c \<Longrightarrow> bht_inv (b\<lparr>bht_entry := (bht_entry b)[i := c]\<rparr>)"
  by (simp add: bht_inv_def list_all_update)

lemma bht_ctr_ok [simp]: "bht_inv b \<Longrightarrow> ctr_ok (bht_entry b ! bht_idx b pc)"
  using bht_idx_in_range [of b pc] by (auto simp: bht_inv_def intro: list_all_nth)

lemma bht_init_ok:
  assumes "0 < bht_size p" and "is_pow2 (nat (bht_size p))"
  shows "\<exists>b. bht_init p = Inr b \<and> bht_inv b"
  using assms by (simp add: bht_init_def bht_inv_def list_all_length)

lemma bht_get_prediction_ok:
  "bht_inv b \<Longrightarrow> bht_get_prediction b pc = Inr (bht_entry b ! bht_idx b pc)"
  by (simp add: bht_get_prediction_def)

lemma bht_add_ok:
  "bht_inv b \<Longrightarrow> bht_add b pc = Inr (b\<lparr>bht_entry := (bht_entry b)[bht_idx b pc := 1]\<rparr>)"
  by (simp add: bht_add_def)

lemma bht_update_ok:
  "bht_inv b \<Longrightarrow> bht_update b pc t = Inr (b\<lparr>bht_entry :=
     (bht_entry b)[bht_idx b pc := update_two_bit_counter (bht_entry b ! bht_idx b pc) t]\<rparr>)"
  by (simp add: bht_update_def)

lemma bht_flush_ok:
  "bht_inv b \<Longrightarrow> bht_flush b = Inr (b\<lparr>bht_entry := replicate (length (bht_entry b)) 1\<rparr>)
     \<and> bht_inv (b\<lparr>bht_entry := replicate (length (bht_entry b)) 1\<rparr>)"
  by (simp add: bht_flush_def bht_inv_def list_all_length)

lemmas bht_ops_ok = bht_get_prediction_ok bht_add_ok bht_update_ok bht_flush_ok

section \<open>Properties\<close>

text \<open>The bounded counter a table entry implements, trained by a list of outcomes.\<close>

primrec bht_train :: "Bht \<Rightarrow> target_ulong \<Rightarrow> bool list \<Rightarrow> sim_error + Bht" where
  "bht_train b pc [] = Inr b"
| "bht_train b pc (t # ts) = bindR (bht_update b pc t) (\<lambda>b'. bht_train b' pc ts)"

lemma bht_train_ok:
  assumes "bht_inv b"
  shows "\<exists>b'. bht_train b pc ts = Inr b' \<and> bht_inv b'
    \<and> length (bht_entry b') = length (bht_entry b) \<and> (\<forall>q. bht_idx b' q = bht_idx b q)
    \<and> bht_entry b' ! bht_idx b pc = foldl update_two_bit_counter (bht_entry b ! bht_idx b pc) ts
    \<and> (\<forall>i. i \<noteq> bht_idx b pc \<longrightarrow> bht_entry b' ! i = bht_entry b ! i)"
  using assms
proof (induction ts arbitrary: b)
  case (Cons t ts)
  let ?c = "update_two_bit_counter (bht_entry b ! bht_idx b pc) t"
  let ?b = "b\<lparr>bht_entry := (bht_entry b)[bht_idx b pc := ?c]\<rparr>"
  have "bht_inv ?b" using Cons.prems by simp
  from Cons.IH [OF this] show ?case using Cons.prems by (auto simp: bht_update_ok)
qed simp

lemma saturating_run:
  "ctr_ok c \<Longrightarrow> foldl update_two_bit_counter c (replicate n True) = min 3 (c + int n)
    \<and> foldl update_two_bit_counter c (replicate n False) = max 0 (c - int n)"
proof (induction n arbitrary: c)
  case (Suc n)
  then show ?case
    using Suc.IH [of "update_two_bit_counter c True"] Suc.IH [of "update_two_bit_counter c False"]
    by (auto simp: update_two_bit_counter_saturates ctr_ok_def)
qed (simp add: ctr_ok_def)

text \<open>
  (C28) Functional: whatever the state of the table, \<open>n\<close> outcomes of one direction move
  the counter of the branch by \<open>n\<close>, saturating at 0 and 3, so two equal outcomes
  decide its prediction; no access leaves the table and no branch with another
  index is affected.
\<close>

theorem bht_learns_direction:
  assumes "bht_inv b"
  shows "\<exists>b'. bht_train b pc (replicate n t) = Inr b' \<and> bht_inv b'
    \<and> (\<exists>c. bht_get_prediction b pc = Inr c
        \<and> bht_get_prediction b' pc = Inr (if t then min 3 (c + int n) else max 0 (c - int n)))
    \<and> (2 \<le> n \<longrightarrow> (\<exists>c'. bht_get_prediction b' pc = Inr c' \<and> (1 < c' \<longleftrightarrow> t)))
    \<and> (\<forall>q. bht_idx b q \<noteq> bht_idx b pc \<longrightarrow> bht_get_prediction b' q = bht_get_prediction b q)"
proof -
  obtain b' where b': "bht_train b pc (replicate n t) = Inr b'" "bht_inv b'"
    "\<forall>q. bht_idx b' q = bht_idx b q"
    "bht_entry b' ! bht_idx b pc
       = foldl update_two_bit_counter (bht_entry b ! bht_idx b pc) (replicate n t)"
    "\<forall>i. i \<noteq> bht_idx b pc \<longrightarrow> bht_entry b' ! i = bht_entry b ! i"
    using bht_train_ok [OF assms, of pc "replicate n t"] by auto
  have c: "ctr_ok (bht_entry b ! bht_idx b pc)" using assms by simp
  show ?thesis
    using b' assms c saturating_run [OF c, of n]
    by (cases t) (auto simp: bht_get_prediction_ok ctr_ok_def)
qed

theorem bht_learns_direction_witness:
  "\<exists>b'. bht_train \<lparr>bht_entry = [0, 3], bht_index_bits = 1, bht_count = 2\<rparr> 7 [False, False] = Inr b'
     \<and> bht_get_prediction b' 7 = Inr 1 \<and> bht_get_prediction b' 6 = Inr 0"
proof -
  let ?b = "\<lparr>bht_entry = [0, 3], bht_index_bits = 1, bht_count = 2\<rparr> :: Bht"
  have inv: "bht_inv ?b"
    using GET_NUM_BITS_power [of 1] is_pow2_power [of 1] by (simp add: bht_inv_def ctr_ok_def numeral_2_eq_2)
  have i: "bht_idx ?b 7 = 1" "bht_idx ?b 6 = 0"
    by (simp_all add: bht_idx_def macro_defs)
  have g: "bht_get_prediction ?b 7 = Inr 3" "bht_get_prediction ?b 6 = Inr 0"
    using i by (simp_all add: bht_get_prediction_def)
  show ?thesis
    using bht_learns_direction [OF inv, of 7 2 False] g i by (auto simp: numeral_2_eq_2)
qed

end
