(* ===== verification/Ras.thy ===== *)
theory Ras
  imports Sim_Params
begin

text \<open>
  The return address stack of \<^verbatim>\<open>bpu/ras.c\<close>: a ring of \<^verbatim>\<open>ras_size\<close> entries with the
  position of the newest entry and the position to fill next. A push on a full
  ring overwrites the oldest entry. The lemmas relate it to a bounded stack that
  forgets its oldest element.
\<close>

section \<open>The code\<close>

record Ras =
  ras_sptop :: int
  ras_spfill :: int
  ras_cur_size :: int
  ras_max_size :: int
  ras_empty_reg :: target_ulong
  ras_entry :: "target_ulong list"

definition ras_flush :: "Ras \<Rightarrow> Ras" where
  "ras_flush ras = ras\<lparr>ras_cur_size := 0, ras_sptop := ras_max_size ras - 1, ras_spfill := 0,
     ras_empty_reg := 0\<rparr>"

definition ras_empty :: "Ras \<Rightarrow> bool" where
  "ras_empty ras \<longleftrightarrow> ras_cur_size ras = 0"

definition ras_push :: "Ras \<Rightarrow> target_ulong \<Rightarrow> sim_error + Ras" where
  "ras_push ras pc =
     bindR (iset (ras_entry ras) (ras_spfill ras) pc) (\<lambda>e.
       let f = ras_spfill ras + 1
       in Inr (ras\<lparr>ras_entry := e, ras_sptop := ras_spfill ras,
                   ras_cur_size := ras_cur_size ras + 1,
                   ras_spfill := (if ras_max_size ras \<le> f then 0 else f)\<rparr>))"

definition ras_pop :: "Ras \<Rightarrow> sim_error + target_ulong \<times> Ras" where
  "ras_pop ras =
     (if ras_empty ras then Inr (ras_empty_reg ras, ras)
      else bindR (iget (ras_entry ras) (ras_sptop ras)) (\<lambda>ret_addr.
        let t = ras_sptop ras - 1
        in Inr (ret_addr, ras\<lparr>ras_spfill := ras_sptop ras, ras_cur_size := ras_cur_size ras - 1,
                   ras_sptop := (if t < 0 then ras_max_size ras - 1 else t),
                   ras_empty_reg := ret_addr\<rparr>)))"

definition ras_init :: "SimParams \<Rightarrow> sim_error + Ras" where
  "ras_init p =
     bindR (calloc (ras_size p) 0) (\<lambda>e.
       Inr (ras_flush \<lparr>ras_sptop = 0, ras_spfill = 0, ras_cur_size = 0, ras_max_size = ras_size p,
                       ras_empty_reg = 0, ras_entry = e\<rparr>))"

section \<open>Invariant\<close>

definition ras_inv :: "Ras \<Rightarrow> bool" where
  "ras_inv r \<longleftrightarrow> 1 \<le> ras_max_size r \<and> ras_max_size r = int (length (ras_entry r))
     \<and> 0 \<le> ras_sptop r \<and> ras_sptop r < ras_max_size r
     \<and> ras_spfill r = (ras_sptop r + 1) mod ras_max_size r \<and> 0 \<le> ras_cur_size r"

text \<open>The position of the entry \<open>i\<close> places below the newest.\<close>

definition ras_pos :: "Ras \<Rightarrow> nat \<Rightarrow> nat" where
  "ras_pos r i = nat ((ras_sptop r - int i) mod ras_max_size r)"

lemma succ_mod: "0 \<le> i \<Longrightarrow> i < n \<Longrightarrow> (i + 1) mod n = (if n \<le> i + 1 then 0 else i + 1)" for i n :: int
  by (cases "i + 1 = n") auto

lemma pred_mod: "0 \<le> i \<Longrightarrow> i < n \<Longrightarrow> (i - 1) mod n = (if i - 1 < 0 then n - 1 else i - 1)" for i n :: int
  by (cases "i = 0") (auto simp: zmod_minus1)

lemma ras_mod_range: "1 \<le> n \<Longrightarrow> 0 \<le> i mod n \<and> i mod n < n" for i n :: int
  by simp

lemma ras_invD:
  assumes "ras_inv r"
  shows "1 \<le> ras_max_size r" "length (ras_entry r) = nat (ras_max_size r)" "0 \<le> ras_sptop r"
    "ras_sptop r < ras_max_size r" "ras_spfill r = (ras_sptop r + 1) mod ras_max_size r"
    "0 \<le> ras_cur_size r"
  using assms by (auto simp: ras_inv_def)

lemma ras_inv_fill: "ras_inv r \<Longrightarrow> 0 \<le> ras_spfill r \<and> ras_spfill r < ras_max_size r"
  using ras_mod_range [of "ras_max_size r"] ras_invD(1) [of r] by (simp add: ras_invD(5))

lemma ras_pos_0: "ras_inv r \<Longrightarrow> ras_pos r 0 = nat (ras_sptop r)"
  by (simp add: ras_inv_def ras_pos_def)

lemma ras_push_eq:
  assumes "ras_inv r"
  shows "ras_push r pc = Inr (r\<lparr>ras_entry := (ras_entry r)[nat (ras_spfill r) := pc],
     ras_sptop := ras_spfill r, ras_cur_size := ras_cur_size r + 1,
     ras_spfill := (ras_spfill r + 1) mod ras_max_size r\<rparr>)"
  using ras_invD [OF assms] ras_inv_fill [OF assms] succ_mod [of "ras_spfill r" "ras_max_size r"]
  by (simp add: ras_push_def ras_invD(2) Let_def)

lemma ras_pop_eq:
  assumes "ras_inv r" and "ras_cur_size r \<noteq> 0"
  shows "ras_pop r = Inr (ras_entry r ! ras_pos r 0, r\<lparr>ras_spfill := ras_sptop r,
     ras_cur_size := ras_cur_size r - 1, ras_sptop := (ras_sptop r - 1) mod ras_max_size r,
     ras_empty_reg := ras_entry r ! ras_pos r 0\<rparr>)"
  using assms(2) ras_invD [OF assms(1)] pred_mod [of "ras_sptop r" "ras_max_size r"]
    ras_pos_0 [OF assms(1)]
  by (simp add: ras_pop_def ras_empty_def Let_def)

lemma ras_inv_push: "ras_inv r \<Longrightarrow> \<exists>r'. ras_push r pc = Inr r' \<and> ras_inv r' \<and> ras_max_size r' = ras_max_size r"
  using ras_inv_fill [of r] by (simp add: ras_push_eq) (simp add: ras_inv_def)

lemma ras_inv_pop:
  assumes "ras_inv r"
  shows "\<exists>v r'. ras_pop r = Inr (v, r') \<and> ras_inv r' \<and> ras_max_size r' = ras_max_size r"
proof (cases "ras_cur_size r = 0")
  case True
  then show ?thesis using assms by (simp add: ras_pop_def ras_empty_def)
next
  case False
  have "((ras_sptop r - 1) mod ras_max_size r + 1) mod ras_max_size r = ras_sptop r"
    using assms by (simp add: mod_add_left_eq ras_inv_def)
  then show ?thesis
    using assms False ras_invD [OF assms] ras_mod_range [of "ras_max_size r" "ras_sptop r - 1"]
    by (auto simp: ras_pop_eq ras_inv_def)
qed

lemma ras_inv_flush: "ras_inv r \<Longrightarrow> ras_inv (ras_flush r) \<and> ras_max_size (ras_flush r) = ras_max_size r"
  using ras_invD [of r] by (simp add: ras_inv_def [of "ras_flush r"]) (simp add: ras_flush_def)

lemma ras_init_ok: "0 < ras_size p \<Longrightarrow> \<exists>r. ras_init p = Inr r \<and> ras_inv r \<and> ras_max_size r = ras_size p"
  by (simp add: ras_init_def ras_flush_def ras_inv_def)

section \<open>A bounded stack that forgets its oldest element\<close>

datatype ras_op = Ras_push target_ulong | Ras_pop | Ras_flush

text \<open>
  The abstract state: the remembered return addresses, newest first; whether one
  was forgotten since the last flush; the address popped last. Popping when
  nothing is remembered but something was forgotten promises nothing.
\<close>

type_synonym stack_state = "target_ulong list \<times> bool \<times> target_ulong"

fun stack_step :: "nat \<Rightarrow> ras_op \<Rightarrow> stack_state \<Rightarrow> stack_state \<times> target_ulong option" where
  "stack_step n (Ras_push a) (s, lost, e) = ((take n (a # s), lost \<or> n \<le> length s, e), None)"
| "stack_step n Ras_pop (a # s, lost, e) = ((s, lost, a), Some a)"
| "stack_step n Ras_pop ([], lost, e) = (([], lost, e), if lost then None else Some e)"
| "stack_step n Ras_flush st = (([], False, 0), None)"

definition ras_step :: "ras_op \<Rightarrow> Ras \<Rightarrow> sim_error + Ras \<times> target_ulong option" where
  "ras_step p r = (case p of
     Ras_push a \<Rightarrow> bindR (ras_push r a) (\<lambda>r'. Inr (r', None))
   | Ras_pop \<Rightarrow> bindR (ras_pop r) (\<lambda>(v, r'). Inr (r', Some v))
   | Ras_flush \<Rightarrow> Inr (ras_flush r, None))"

primrec ras_run :: "ras_op list \<Rightarrow> Ras \<Rightarrow> sim_error + target_ulong option list" where
  "ras_run [] r = Inr []"
| "ras_run (p # ps) r =
     bindR (ras_step p r) (\<lambda>(r', v). bindR (ras_run ps r') (\<lambda>vs. Inr (v # vs)))"

primrec stack_run :: "nat \<Rightarrow> ras_op list \<Rightarrow> stack_state \<Rightarrow> target_ulong option list" where
  "stack_run n [] st = []"
| "stack_run n (p # ps) st = (case stack_step n p st of (st', v) \<Rightarrow> v # stack_run n ps st')"

definition ras_rel :: "Ras \<Rightarrow> stack_state \<Rightarrow> bool" where
  "ras_rel r st = (case st of (s, lost, e) \<Rightarrow>
     ras_inv r \<and> int (length s) \<le> ras_max_size r \<and> int (length s) \<le> ras_cur_size r
     \<and> (\<not> lost \<longrightarrow> ras_cur_size r = int (length s) \<and> ras_empty_reg r = e)
     \<and> (\<forall>i<length s. ras_entry r ! ras_pos r i = s ! i))"

lemma ras_pos_push:
  assumes "ras_inv r" and "ras_push r a = Inr r'" and "Suc i < nat (ras_max_size r)"
  shows "ras_pos r' 0 = nat (ras_spfill r)" and "ras_pos r' (Suc i) = ras_pos r i"
    and "ras_pos r i \<noteq> nat (ras_spfill r)"
proof -
  let ?n = "ras_max_size r" and ?t = "ras_sptop r"
  have n: "1 \<le> ?n" using assms(1) by (simp add: ras_inv_def)
  have f: "ras_spfill r = (?t + 1) mod ?n" using assms(1) by (simp add: ras_inv_def)
  have r': "ras_sptop r' = ras_spfill r" "ras_max_size r' = ?n"
    using assms(1,2) by (auto simp: ras_push_eq)
  show "ras_pos r' 0 = nat (ras_spfill r)" using r' f by (simp add: ras_pos_def)
  have "(ras_spfill r - int (Suc i)) mod ?n = (?t - int i) mod ?n"
    unfolding f by (simp add: mod_diff_left_eq algebra_simps)
  then show "ras_pos r' (Suc i) = ras_pos r i" using r' by (simp add: ras_pos_def)
  have "(?t - int i) mod ?n \<noteq> (?t + 1) mod ?n"
  proof
    assume "(?t - int i) mod ?n = (?t + 1) mod ?n"
    then have "?n dvd (?t + 1) - (?t - int i)" by (metis mod_eq_dvd_iff)
    then have "?n dvd int (Suc i)" by (simp add: algebra_simps)
    then have "?n \<le> int (Suc i)" by (rule zdvd_imp_le) simp
    then show False using assms(3) by simp
  qed
  then show "ras_pos r i \<noteq> nat (ras_spfill r)"
    unfolding ras_pos_def f using n pos_mod_sign [of ?n] by (simp add: nat_eq_iff)
qed

lemma ras_pos_pop:
  assumes "ras_inv r" and "ras_cur_size r \<noteq> 0" and "ras_pop r = Inr (v, r')"
  shows "ras_pos r' i = ras_pos r (Suc i)"
proof -
  have "ras_sptop r' = (ras_sptop r - 1) mod ras_max_size r" "ras_max_size r' = ras_max_size r"
    using assms by (auto simp: ras_pop_eq)
  then show ?thesis by (simp add: ras_pos_def mod_diff_left_eq algebra_simps)
qed

lemma ras_rel_push:
  assumes "ras_rel r (s, lost, e)"
  shows "\<exists>r'. ras_push r a = Inr r' \<and> ras_max_size r' = ras_max_size r
    \<and> ras_rel r' (take (nat (ras_max_size r)) (a # s), lost \<or> nat (ras_max_size r) \<le> length s, e)"
proof -
  let ?n = "ras_max_size r" and ?s = "take (nat (ras_max_size r)) (a # s)"
  have inv: "ras_inv r" and len: "int (length s) \<le> ?n" using assms by (auto simp: ras_rel_def)
  obtain r' where r': "ras_push r a = Inr r'" "ras_inv r'" "ras_max_size r' = ?n"
    using ras_inv_push [OF inv] by blast
  then have eq: "ras_entry r' = (ras_entry r)[nat (ras_spfill r) := a]"
    "ras_cur_size r' = ras_cur_size r + 1" "ras_empty_reg r' = ras_empty_reg r"
    by (auto simp: ras_push_eq [OF inv])
  have "ras_entry r' ! ras_pos r' i = ?s ! i" if i: "i < length ?s" for i
  proof (cases i)
    case 0
    have "ras_pos r' 0 = nat (ras_spfill r)"
      using r' inv by (auto simp: ras_push_eq ras_pos_def ras_inv_def)
    moreover have "nat (ras_spfill r) < length (ras_entry r)"
      using ras_inv_fill [OF inv] ras_invD(2) [OF inv] by simp
    ultimately show ?thesis using 0 eq ras_invD(1) [OF inv] by (simp add: nth_Cons' take_Cons')
  next
    case (Suc k)
    then have k: "Suc k < nat ?n" "k < length s" using i by simp_all
    show ?thesis
      using Suc k eq ras_pos_push [OF inv r'(1) k(1)] assms by (simp add: ras_rel_def)
  qed
  then show ?thesis using r' eq assms len by (auto simp: ras_rel_def)
qed

lemma ras_rel_pop:
  assumes "ras_rel r (s, lost, e)"
  shows "\<exists>v r'. ras_pop r = Inr (v, r') \<and> ras_max_size r' = ras_max_size r
    \<and> (case stack_step n Ras_pop (s, lost, e) of (st, w) \<Rightarrow> ras_rel r' st \<and> (w = None \<or> w = Some v))"
proof (cases "ras_cur_size r = 0")
  case True
  then show ?thesis using assms by (auto simp: ras_rel_def ras_pop_def ras_empty_def)
next
  case False
  have inv: "ras_inv r" using assms by (simp add: ras_rel_def)
  obtain v r' where r': "ras_pop r = Inr (v, r')" "ras_inv r'" "ras_max_size r' = ras_max_size r"
    using ras_inv_pop [OF inv] by blast
  then have eq: "ras_entry r' = ras_entry r" "ras_cur_size r' = ras_cur_size r - 1"
    "ras_empty_reg r' = v" "v = ras_entry r ! ras_pos r 0"
    using False by (auto simp: ras_pop_eq [OF inv])
  have pos: "ras_pos r' i = ras_pos r (Suc i)" for i by (rule ras_pos_pop [OF inv False r'(1)])
  have c: "0 < ras_cur_size r" using False inv by (simp add: ras_inv_def)
  show ?thesis
  proof (cases s)
    case Nil
    then show ?thesis using assms r' eq c by (auto simp: ras_rel_def)
  next
    case (Cons b s')
    then have "\<forall>i<length s'. ras_entry r ! ras_pos r (Suc i) = s' ! i" and "v = b"
      using assms eq(4) by (auto simp: ras_rel_def)
    then show ?thesis using assms r' eq pos Cons by (auto simp: ras_rel_def)
  qed
qed

lemma ras_rel_flush: "ras_rel r st \<Longrightarrow> ras_rel (ras_flush r) ([], False, 0)"
  using ras_inv_flush [of r] by (auto simp: ras_rel_def ras_flush_def ras_inv_def split: prod.splits)

lemma ras_run_rel:
  assumes "ras_rel r st" and "nat (ras_max_size r) = n"
  shows "\<exists>vs. ras_run ps r = Inr vs \<and> list_all2 (\<lambda>v w. w = None \<or> w = v) vs (stack_run n ps st)"
  using assms
proof (induction ps arbitrary: r st)
  case (Cons p ps)
  obtain s lost e where st: "st = (s, lost, e)" by (cases st) auto
  show ?case
  proof (cases p)
    case (Ras_push a)
    obtain r' where r': "ras_push r a = Inr r'" "ras_max_size r' = ras_max_size r"
      "ras_rel r' (take n (a # s), lost \<or> n \<le> length s, e)"
      using ras_rel_push [of r s lost e a] Cons.prems st by auto
    then show ?thesis
      using Cons.IH [OF r'(3)] Cons.prems Ras_push st by (auto simp: ras_step_def)
  next
    case Ras_pop
    obtain v r' where r': "ras_pop r = Inr (v, r')" "ras_max_size r' = ras_max_size r"
      "case stack_step n Ras_pop (s, lost, e) of (st, w) \<Rightarrow> ras_rel r' st \<and> (w = None \<or> w = Some v)"
      using ras_rel_pop [OF Cons.prems(1) [unfolded st], of n] by (elim exE conjE)
    obtain st' w where sw: "stack_step n Ras_pop (s, lost, e) = (st', w)" by fastforce
    with r' have "ras_rel r' st'" "w = None \<or> w = Some v" by auto
    then show ?thesis
      using Cons.IH [of r' st'] Cons.prems r' sw Ras_pop st by (auto simp: ras_step_def)
  next
    case Ras_flush
    then show ?thesis
      using Cons.IH [OF ras_rel_flush [OF Cons.prems(1)]] Cons.prems
      by (auto simp: ras_step_def ras_flush_def st)
  qed
qed simp

section \<open>Properties\<close>



end
