(* ===== verification/Btb.thy ===== *)
theory Btb
  imports Sim_Params
begin

text \<open>
  The branch target buffer of \<^verbatim>\<open>bpu/btb.c\<close>: a set-associative table of branch
  addresses and targets over a replacement policy. A \<^verbatim>\<open>BtbEntry *\<close> handed out by
  \<^verbatim>\<open>btb_probe\<close> is the address (set, way) of the entry: a caller may still hold it after
  the entry was reallocated to another branch.
\<close>

section \<open>The code\<close>

abbreviation (input) BRANCH_UNCOND :: int where "BRANCH_UNCOND \<equiv> 0"
abbreviation (input) BRANCH_COND :: int where "BRANCH_COND \<equiv> 1"
abbreviation (input) BPU_MISS :: bool where "BPU_MISS \<equiv> False"
abbreviation (input) BPU_HIT :: bool where "BPU_HIT \<equiv> True"

record BtbEntry =
  be_pc :: target_ulong
  be_target :: target_ulong
  be_type :: int

abbreviation zero_btb_entry :: BtbEntry where
  "zero_btb_entry \<equiv> \<lparr>be_pc = 0, be_target = 0, be_type = 0\<rparr>"

type_synonym btb_addr = "nat \<times> nat"

record BranchTargetBuffer =
  btb_data :: "BtbEntry list list"
  btb_entries :: int
  btb_sets :: int
  btb_set_bits :: nat
  btb_num_ways :: int
  btb_evict_policy :: EvictPolicy

definition btb_set_addr :: "BranchTargetBuffer \<Rightarrow> target_ulong \<Rightarrow> nat" where
  "btb_set_addr b pc = unat (GET_SET_ADDR (drop_bit 1 pc) (btb_set_bits b))"

fun fill_rows :: "nat \<Rightarrow> nat \<Rightarrow> 'a \<Rightarrow> 'a list list \<Rightarrow> sim_error + 'a list list" where
  "fill_rows 0 w z rows = Inr rows"
| "fill_rows (Suc n) w z [] = Inl Out_of_bounds"
| "fill_rows (Suc n) w z (r # rows) =
     bindR (fill w z r) (\<lambda>r'. bindR (fill_rows n w z rows) (\<lambda>rows'. Inr (r' # rows')))"

definition btb_flush :: "BranchTargetBuffer \<Rightarrow> sim_error + BranchTargetBuffer" where
  "btb_flush b =
     bindR (fill_rows (nat (btb_sets b)) (nat (btb_num_ways b)) zero_btb_entry (btb_data b)) (\<lambda>d.
       Inr (b\<lparr>btb_evict_policy := evict_policy_reset (btb_evict_policy b), btb_data := d\<rparr>))"

text \<open>The loop of \<^verbatim>\<open>btb_probe\<close> over the ways of a set.\<close>

function btb_scan :: "BtbEntry list \<Rightarrow> nat \<Rightarrow> target_ulong \<Rightarrow> nat \<Rightarrow> sim_error + nat option" where
  "btb_scan row ways pc j =
     (if ways \<le> j then Inr None
      else bindR (aget row j) (\<lambda>e.
        if be_pc e = pc then Inr (Some j) else btb_scan row ways pc (Suc j)))"
  by pat_completeness auto
termination
  by (relation "measure (\<lambda>(row, ways, pc, j). ways - j)") auto

declare btb_scan.simps [simp del]

definition btb_probe ::
  "BranchTargetBuffer \<Rightarrow> target_ulong \<Rightarrow> sim_error + bool \<times> btb_addr option \<times> BranchTargetBuffer" where
  "btb_probe b pc =
     (let set_addr = btb_set_addr b pc
      in bindR (aget (btb_data b) set_addr) (\<lambda>row.
         bindR (btb_scan row (nat (btb_num_ways b)) pc 0) (\<lambda>r. case r of
           Some j \<Rightarrow> bindR (evict_use (btb_evict_policy b) set_addr j) (\<lambda>ep.
             Inr (BPU_HIT, Some (set_addr, j), b\<lparr>btb_evict_policy := ep\<rparr>))
         | None \<Rightarrow> Inr (BPU_MISS, None, b))))"

definition btb_get :: "BranchTargetBuffer \<Rightarrow> btb_addr \<Rightarrow> sim_error + BtbEntry" where
  "btb_get b a = bindR (aget (btb_data b) (fst a)) (\<lambda>row. aget row (snd a))"

definition btb_put :: "BranchTargetBuffer \<Rightarrow> btb_addr \<Rightarrow> BtbEntry \<Rightarrow> sim_error + BranchTargetBuffer" where
  "btb_put b a e =
     bindR (aget (btb_data b) (fst a)) (\<lambda>row.
     bindR (aset row (snd a) e) (\<lambda>row'.
     bindR (aset (btb_data b) (fst a) row') (\<lambda>d. Inr (b\<lparr>btb_data := d\<rparr>))))"

definition btb_add ::
  "BranchTargetBuffer \<Rightarrow> rand_state \<Rightarrow> target_ulong \<Rightarrow> int \<Rightarrow> sim_error + BranchTargetBuffer \<times> rand_state" where
  "btb_add b r pc ty =
     (let set_addr = btb_set_addr b pc
      in bindR (evict_evict (btb_evict_policy b) r set_addr) (\<lambda>(pos, r').
         bindR (btb_put b (set_addr, pos) \<lparr>be_pc = pc, be_target = 0, be_type = ty\<rparr>) (\<lambda>b'.
         bindR (evict_use (btb_evict_policy b') set_addr pos) (\<lambda>ep.
           Inr (b'\<lparr>btb_evict_policy := ep\<rparr>, r')))))"

definition btb_update ::
  "BranchTargetBuffer \<Rightarrow> btb_addr \<Rightarrow> target_ulong \<Rightarrow> int \<Rightarrow> sim_error + BranchTargetBuffer" where
  "btb_update b a target ty =
     bindR (btb_get b a) (\<lambda>e. btb_put b a (e\<lparr>be_target := target, be_type := ty\<rparr>))"

definition btb_init :: "SimParams \<Rightarrow> sim_error + BranchTargetBuffer" where
  "btb_init p =
     (if btb_ways p = 0 then Inl Division_by_zero
      else let sets = btb_size p sdiv btb_ways p
      in bindR (calloc sets (replicate (nat (btb_ways p)) zero_btb_entry)) (\<lambda>d.
         bindR (sim_assert (0 \<le> btb_ways p)) (\<lambda>_.
           Inr \<lparr>btb_data = d, btb_entries = btb_size p, btb_sets = sets,
                btb_set_bits = GET_NUM_BITS (nat sets), btb_num_ways = btb_ways p,
                btb_evict_policy = evict_policy_create (nat sets) (nat (btb_ways p)) (btb_eviction_policy p)\<rparr>)))"

section \<open>Invariant\<close>

definition btb_inv :: "BranchTargetBuffer \<Rightarrow> bool" where
  "btb_inv b \<longleftrightarrow>
     (let n = length (btb_data b); ep = btb_evict_policy b
      in btb_sets b = int n \<and> is_pow2 n \<and> btb_set_bits b = GET_NUM_BITS n
         \<and> btb_num_ways b = int (ep_num_ways ep) \<and> ep_inv ep \<and> ep_num_sets ep = n
         \<and> list_all (\<lambda>row. length row = ep_num_ways ep) (btb_data b))"

abbreviation btb_nways :: "BranchTargetBuffer \<Rightarrow> nat" where
  "btb_nways b \<equiv> ep_num_ways (btb_evict_policy b)"

definition btb_valid :: "BranchTargetBuffer \<Rightarrow> btb_addr \<Rightarrow> bool" where
  "btb_valid b a \<longleftrightarrow> fst a < length (btb_data b) \<and> snd a < btb_nways b"

lemma btb_set_addr_less: "btb_inv b \<Longrightarrow> btb_set_addr b pc < length (btb_data b)"
  by (simp add: btb_inv_def btb_set_addr_def GET_SET_ADDR_def GET_INDEX_in_range Let_def)

lemma btb_row_length: "btb_inv b \<Longrightarrow> s < length (btb_data b) \<Longrightarrow> length (btb_data b ! s) = btb_nways b"
  by (auto simp: btb_inv_def Let_def intro: list_all_nth)

lemma btb_scan_spec:
  assumes "n \<le> length row"
  shows "btb_scan row n pc j =
    Inr (if \<exists>i. j \<le> i \<and> i < n \<and> be_pc (row ! i) = pc
         then Some (LEAST i. j \<le> i \<and> i < n \<and> be_pc (row ! i) = pc) else None)"
  using assms
proof (induction row n pc j rule: btb_scan.induct)
  case (1 row n pc j)
  consider (over) "n \<le> j" | (hit) "j < n" "be_pc (row ! j) = pc" | (skip) "j < n" "be_pc (row ! j) \<noteq> pc"
    by linarith
  then show ?case
  proof cases
    case over
    then show ?thesis by (auto simp: btb_scan.simps [of row n pc j])
  next
    case hit
    then have "(LEAST i. j \<le> i \<and> i < n \<and> be_pc (row ! i) = pc) = j"
      by (intro Least_equality) auto
    then show ?thesis using hit "1.prems" by (auto simp: btb_scan.simps [of row n pc j])
  next
    case skip
    then have "(\<lambda>i. j \<le> i \<and> i < n \<and> be_pc (row ! i) = pc)
        = (\<lambda>i. Suc j \<le> i \<and> i < n \<and> be_pc (row ! i) = pc)"
      by (auto simp: fun_eq_iff Suc_le_eq le_less)
    then show ?thesis using skip "1.IH" "1.prems" by (auto simp: btb_scan.simps [of row n pc j])
  qed
qed

lemma btb_scan_Some:
  assumes "n \<le> length row" and "btb_scan row n pc 0 = Inr (Some j)"
  shows "j < n" "be_pc (row ! j) = pc"
  using assms LeastI_ex [of "\<lambda>i. 0 \<le> i \<and> i < n \<and> be_pc (row ! i) = pc"]
  by (auto simp: btb_scan_spec split: if_splits)

lemma btb_get_eq: "btb_inv b \<Longrightarrow> btb_valid b a \<Longrightarrow> btb_get b a = Inr (btb_data b ! fst a ! snd a)"
  by (simp add: btb_get_def btb_valid_def btb_row_length)

lemma btb_inv_ep:
  "btb_inv b \<Longrightarrow> ep_inv ep \<Longrightarrow> ep_num_sets ep = ep_num_sets (btb_evict_policy b) \<Longrightarrow>
   ep_num_ways ep = btb_nways b \<Longrightarrow> btb_inv (b\<lparr>btb_evict_policy := ep\<rparr>)"
  by (simp add: btb_inv_def Let_def)

lemma btb_put_ok:
  assumes "btb_inv b" and "btb_valid b a"
  shows "btb_put b a e = Inr (b\<lparr>btb_data := (btb_data b)[fst a := (btb_data b ! fst a)[snd a := e]]\<rparr>)"
    and "btb_inv (b\<lparr>btb_data := (btb_data b)[fst a := (btb_data b ! fst a)[snd a := e]]\<rparr>)"
  using assms btb_row_length [OF assms(1), of "fst a"]
  by (simp_all add: btb_put_def btb_valid_def btb_inv_def Let_def list_all_update)

lemma btb_flush_rows:
  "list_all (\<lambda>r. length r = w) rows \<Longrightarrow>
     fill_rows (length rows) w z rows = Inr (replicate (length rows) (replicate w z))"
  by (induction rows) auto

lemma btb_flush_ok:
  assumes "btb_inv b"
  shows "\<exists>b'. btb_flush b = Inr b' \<and> btb_inv b'
    \<and> btb_data b' = replicate (length (btb_data b)) (replicate (btb_nways b) zero_btb_entry)
    \<and> btb_nways b' = btb_nways b"
proof -
  let ?ep = "btb_evict_policy b"
  have "fill_rows (nat (btb_sets b)) (nat (btb_num_ways b)) zero_btb_entry (btb_data b)
      = Inr (replicate (length (btb_data b)) (replicate (btb_nways b) zero_btb_entry))"
    using assms btb_flush_rows [of "btb_nways b" "btb_data b"] by (simp add: btb_inv_def Let_def)
  moreover have "ep_inv (evict_policy_reset ?ep)" "ep_num_sets (evict_policy_reset ?ep) = ep_num_sets ?ep"
    "ep_num_ways (evict_policy_reset ?ep) = ep_num_ways ?ep"
    using assms ep.reset_ok [of ?ep] by (simp_all add: btb_inv_def Let_def)
  ultimately show ?thesis using assms
    by (simp add: btb_flush_def) (simp add: btb_inv_def Let_def list_all_length)
qed

lemma btb_probe_ok:
  assumes "btb_inv b"
  shows "\<exists>h a b'. btb_probe b pc = Inr (h, a, b') \<and> btb_inv b' \<and> btb_data b' = btb_data b
    \<and> btb_nways b' = btb_nways b \<and> btb_set_bits b' = btb_set_bits b
    \<and> (h \<longrightarrow> (\<exists>x. a = Some x \<and> btb_valid b x \<and> fst x = btb_set_addr b pc
        \<and> be_pc (btb_data b ! fst x ! snd x) = pc))
    \<and> (\<not> h \<longrightarrow> a = None \<and> b' = b \<and> (\<forall>j<btb_nways b. be_pc (btb_data b ! btb_set_addr b pc ! j) \<noteq> pc))"
proof -
  let ?s = "btb_set_addr b pc" and ?ep = "btb_evict_policy b"
  let ?row = "btb_data b ! ?s" and ?n = "btb_nways b"
  have s: "?s < length (btb_data b)" and len: "length ?row = ?n" and w: "nat (btb_num_ways b) = ?n"
    using assms btb_set_addr_less btb_row_length by (auto simp: btb_inv_def Let_def)
  obtain r where r: "btb_scan ?row ?n pc 0 = Inr r" using btb_scan_spec [of ?n ?row] len by auto
  show ?thesis
  proof (cases r)
    case None
    then have "\<forall>j<?n. be_pc (?row ! j) \<noteq> pc"
      using r len by (auto simp: btb_scan_spec split: if_splits)
    then show ?thesis using assms None r s w by (auto simp: btb_probe_def Let_def)
  next
    case (Some j)
    then have j: "j < ?n" "be_pc (?row ! j) = pc" using btb_scan_Some [of ?n ?row pc j] r len by auto
    obtain ep where "evict_use ?ep ?s j = Inr ep" "ep_inv ep" "ep_num_sets ep = ep_num_sets ?ep"
      "ep_num_ways ep = ?n"
      using ep.use_cases [of ?ep ?s j] assms j s by (auto simp: btb_inv_def Let_def)
    then show ?thesis using assms Some r s w j btb_inv_ep [of b ep]
      by (auto simp: btb_probe_def btb_valid_def Let_def)
  qed
qed

lemma btb_add_ok:
  assumes "btb_inv b"
  shows "\<exists>pos b' r'. btb_add b r pc ty = Inr (b', r') \<and> btb_inv b' \<and> pos < btb_nways b
    \<and> btb_nways b' = btb_nways b \<and> btb_set_bits b' = btb_set_bits b
    \<and> evict_evict (btb_evict_policy b) r (btb_set_addr b pc) = Inr (pos, r')
    \<and> evict_use (btb_evict_policy b) (btb_set_addr b pc) pos = Inr (btb_evict_policy b')
    \<and> btb_data b' = (btb_data b)[btb_set_addr b pc := (btb_data b ! btb_set_addr b pc)
        [pos := \<lparr>be_pc = pc, be_target = 0, be_type = ty\<rparr>]]"
proof -
  let ?s = "btb_set_addr b pc" and ?ep = "btb_evict_policy b"
  let ?e = "\<lparr>be_pc = pc, be_target = 0, be_type = ty\<rparr>"
  have s: "?s < length (btb_data b)" "ep_inv ?ep" "?s < ep_num_sets ?ep"
    using assms btb_set_addr_less [OF assms, of pc] by (auto simp: btb_inv_def Let_def)
  obtain w r' ep where ep: "evict_evict ?ep r ?s = Inr (w, r')" "w < btb_nways b"
    "evict_use ?ep ?s w = Inr ep" "ep_inv ep" "ep_num_sets ep = ep_num_sets ?ep" "ep_num_ways ep = btb_nways b"
    using ep.evict_then_use [OF s(2,3)] by metis
  have v: "btb_valid b (?s, w)" using s ep by (simp add: btb_valid_def)
  show ?thesis
    using ep btb_put_ok [OF assms v, of ?e] btb_inv_ep [OF btb_put_ok(2) [OF assms v, of ?e], of ep]
    by (intro exI [of _ w]) (simp add: btb_add_def Let_def)
qed

lemma btb_update_ok:
  assumes "btb_inv b" and "btb_valid b a"
  shows "\<exists>b'. btb_update b a t ty = Inr b' \<and> btb_inv b' \<and> btb_evict_policy b' = btb_evict_policy b
    \<and> btb_set_bits b' = btb_set_bits b
    \<and> btb_data b' = (btb_data b)[fst a := (btb_data b ! fst a)
        [snd a := (btb_data b ! fst a ! snd a)\<lparr>be_target := t, be_type := ty\<rparr>]]"
  using btb_put_ok [OF assms] btb_get_eq [OF assms] by (simp add: btb_update_def)

text \<open>The geometry under which the table is well-formed: the ways divide the size into a power of two of sets.\<close>

definition btb_params_ok :: "SimParams \<Rightarrow> bool" where
  "btb_params_ok p \<longleftrightarrow> 1 \<le> btb_ways p \<and> 0 \<le> btb_size p \<and> is_pow2 (nat (btb_size p div btb_ways p))
     \<and> (btb_eviction_policy p = EVICT_POLICY_RANDOM
        \<or> btb_eviction_policy p = EVICT_POLICY_BIT_PLRU \<and> btb_ways p < 64)"

lemma btb_init_ok:
  assumes "btb_params_ok p"
  shows "\<exists>b. btb_init p = Inr b \<and> btb_inv b \<and> int (btb_nways b) = btb_ways p"
proof -
  have d: "btb_size p sdiv btb_ways p = btb_size p div btb_ways p" "0 \<le> btb_size p div btb_ways p"
    using assms by (simp_all add: btb_params_ok_def sdiv_nonneg pos_imp_zdiv_nonneg_iff)
  then show ?thesis using assms
    by (auto simp: btb_init_def btb_params_ok_def btb_inv_def evict_policy_create_def Let_def
        list_all_length nat_less_iff intro: ep_inv_create [unfolded evict_policy_create_def])
qed

section \<open>Properties\<close>

lemma btb_probe_hits:
  assumes "btb_inv b" and "j < btb_nways b" and "be_pc (btb_data b ! btb_set_addr b pc ! j) = pc"
  obtains x b' where "btb_probe b pc = Inr (BPU_HIT, Some x, b')" and "btb_inv b'"
    and "btb_valid b x" and "btb_data b' = btb_data b" and "fst x = btb_set_addr b pc"
    and "be_pc (btb_data b ! fst x ! snd x) = pc"
  using btb_probe_ok [OF assms(1), of pc] assms(2,3) by auto

lemma btb_set_addr_cong: "btb_set_bits b' = btb_set_bits b \<Longrightarrow> btb_set_addr b' pc = btb_set_addr b pc"
  by (simp add: btb_set_addr_def)

text \<open>
  (C25) Functional: a branch that missed hits once it is added, in an entry with its
  address, its type and no target; the sets of other branches keep their entries.
\<close>

theorem btb_add_then_probe:
  assumes "btb_inv b" and "btb_probe b pc = Inr (BPU_MISS, a, b1)" and "btb_add b1 r pc ty = Inr (b2, r2)"
  shows "(\<exists>x b3. btb_probe b2 pc = Inr (BPU_HIT, Some x, b3) \<and> btb_inv b3
      \<and> btb_get b3 x = Inr \<lparr>be_pc = pc, be_target = 0, be_type = ty\<rparr>)
    \<and> (\<forall>s. s \<noteq> btb_set_addr b pc \<longrightarrow> btb_data b2 ! s = btb_data b ! s)"
proof -
  let ?s = "btb_set_addr b pc" and ?e = "\<lparr>be_pc = pc, be_target = 0, be_type = ty\<rparr>"
  have b1: "b1 = b" and miss: "\<forall>j<btb_nways b. be_pc (btb_data b ! ?s ! j) \<noteq> pc"
    using btb_probe_ok [OF assms(1), of pc] assms(2) by auto
  obtain pos where b2: "btb_inv b2" "pos < btb_nways b" "btb_nways b2 = btb_nways b"
    "btb_set_bits b2 = btb_set_bits b" "btb_data b2 = (btb_data b)[?s := (btb_data b ! ?s)[pos := ?e]]"
    using btb_add_ok [OF assms(1), of r pc ty] assms(3) b1 by auto
  have s: "?s < length (btb_data b)" "length (btb_data b ! ?s) = btb_nways b"
    using assms(1) btb_set_addr_less btb_row_length by auto
  have s2: "btb_set_addr b2 pc = ?s" using b2(4) by (rule btb_set_addr_cong)
  obtain x b3 where x: "btb_probe b2 pc = Inr (BPU_HIT, Some x, b3)" "btb_inv b3" "btb_valid b2 x"
    "btb_data b3 = btb_data b2" "fst x = ?s" "be_pc (btb_data b2 ! fst x ! snd x) = pc"
    using btb_probe_hits [of b2 pos pc] b2 s s2 by (auto simp: nth_list_update)
  have "snd x = pos"
    using x miss b2 s by (cases "snd x = pos") (auto simp: btb_valid_def nth_list_update)
  then have "btb_get b3 x = Inr ?e" using x b2 s by (simp add: btb_get_def)
  then show ?thesis using x b2 by auto
qed

text \<open>A small table for the concrete inputs below: two sets of two ways with bit-PLRU.\<close>

definition small_btb_params :: SimParams where
  "small_btb_params = zero_params\<lparr>btb_size := 4, btb_ways := 2, btb_eviction_policy := 1\<rparr>"

lemma small_btb:
  "btb_init small_btb_params = Inr \<lparr>btb_data = [[zero_btb_entry, zero_btb_entry], [zero_btb_entry, zero_btb_entry]],
     btb_entries = 4, btb_sets = 2, btb_set_bits = 1, btb_num_ways = 2,
     btb_evict_policy = evict_policy_create 2 2 1\<rparr>"
  by (simp add: btb_init_def small_btb_params_def sdiv_nonneg zero_params_def)

lemma small_btb_ok: "btb_params_ok small_btb_params"
  by (simp add: btb_params_ok_def small_btb_params_def EVICT_POLICY_BIT_PLRU_def)

lemma small_btb_miss: "btb_init small_btb_params = Inr b \<Longrightarrow> btb_probe b 4098 = Inr (BPU_MISS, None, b)"
  by (auto simp: small_btb btb_probe_def btb_set_addr_def macro_defs btb_scan.simps)

theorem btb_add_then_probe_witness:
  "\<exists>b b2 x b3. btb_init small_btb_params = Inr b \<and> btb_add b (0, \<lambda>_. 0) 4098 1 = Inr (b2, (0, \<lambda>_. 0))
     \<and> btb_probe b2 4098 = Inr (BPU_HIT, Some x, b3)
     \<and> btb_get b3 x = Inr \<lparr>be_pc = 4098, be_target = 0, be_type = 1\<rparr>"
proof -
  obtain b where b: "btb_init small_btb_params = Inr b" "btb_inv b"
    using btb_init_ok [OF small_btb_ok] by blast
  have miss: "btb_probe b 4098 = Inr (BPU_MISS, None, b)" by (rule small_btb_miss [OF b(1)])
  obtain b2 r2 where b2: "btb_add b (0, \<lambda>_. 0) 4098 1 = Inr (b2, r2)"
    using btb_add_ok [OF b(2)] by blast
  then have "r2 = (0, \<lambda>_. 0)"
    using b(1) by (auto simp: small_btb btb_add_def evict_evict_def evict_policy_create_def
        bindR_eq_Inr_iff EVICT_POLICY_BIT_PLRU_def EVICT_POLICY_RANDOM_def Let_def)
  then show ?thesis using btb_add_then_probe [OF b(2) miss b2] b b2 by blast
qed

lemma plru_next_victim:
  assumes "ep_inv p" and "ep_type p = EVICT_POLICY_BIT_PLRU" and "2 \<le> ep_num_ways p"
    and "s < ep_num_sets p" and "w < ep_num_ways p" and "evict_use p s w = Inr p'"
  shows "ep_type p' = EVICT_POLICY_BIT_PLRU" and "evict_evict p' r s = Inr (v, r') \<Longrightarrow> v \<noteq> w"
proof -
  have "bit_plru_use p s w = Inr p'" using assms(2,6)
    by (simp add: evict_use_def EVICT_POLICY_BIT_PLRU_def EVICT_POLICY_RANDOM_def)
  then have p': "ep_inv p'" "ep_type p' = EVICT_POLICY_BIT_PLRU" "ep_num_sets p' = ep_num_sets p"
    "ep_num_ways p' = ep_num_ways p" "bit (ep_sets p' ! s) w"
    using bit_plru_use_ok [OF assms(1,2,4,5)] assms(2,3) by auto
  then show "ep_type p' = EVICT_POLICY_BIT_PLRU" by simp
  assume "evict_evict p' r s = Inr (v, r')"
  then have "bit_plru_evict p' s = Inr v" using p'(2)
    by (auto simp: evict_evict_def EVICT_POLICY_BIT_PLRU_def EVICT_POLICY_RANDOM_def bindR_eq_Inr_iff)
  then show "v \<noteq> w" using bit_plru_evict_ok [of p' s] p' assms(3,4) by auto
qed

text \<open>
  (C26) Functional: with bit-PLRU and at least two ways, an added branch survives the
  next addition, whatever branch that is: it still hits.
\<close>

theorem btb_keeps_newest:
  assumes "btb_inv b" and "ep_type (btb_evict_policy b) = EVICT_POLICY_BIT_PLRU" and "2 \<le> btb_nways b"
    and "btb_add b r pc ty = Inr (b1, r1)" and "btb_add b1 r1 pc' ty' = Inr (b2, r2)"
  shows "\<exists>x b3. btb_probe b2 pc = Inr (BPU_HIT, Some x, b3)"
proof -
  let ?s = "btb_set_addr b pc" and ?s' = "btb_set_addr b pc'" and ?ep = "btb_evict_policy b"
  obtain pos where b1: "btb_inv b1" "pos < btb_nways b" "btb_nways b1 = btb_nways b"
    "btb_set_bits b1 = btb_set_bits b" "evict_use ?ep ?s pos = Inr (btb_evict_policy b1)"
    "btb_data b1 = (btb_data b)[?s := (btb_data b ! ?s)[pos := \<lparr>be_pc = pc, be_target = 0, be_type = ty\<rparr>]]"
    using btb_add_ok [OF assms(1), of r pc ty] assms(4) by auto
  obtain pos' where b2: "btb_inv b2" "btb_nways b2 = btb_nways b" "btb_set_bits b2 = btb_set_bits b"
    "evict_evict (btb_evict_policy b1) r1 ?s' = Inr (pos', r2)"
    "btb_data b2 = (btb_data b1)[?s' := (btb_data b1 ! ?s')[pos' := \<lparr>be_pc = pc', be_target = 0, be_type = ty'\<rparr>]]"
    using btb_add_ok [OF b1(1), of r1 pc' ty'] assms(5) b1 btb_set_addr_cong [OF b1(4)] by auto
  have s: "?s < length (btb_data b)" "length (btb_data b ! ?s) = btb_nways b"
    using assms(1) btb_set_addr_less btb_row_length by auto
  have "pos' \<noteq> pos" if "?s' = ?s"
    using plru_next_victim(2) [OF _ assms(2,3) _ b1(2,5), of r1 pos' r2] assms(1) b2(4) s that
    by (auto simp: btb_inv_def Let_def)
  then have "be_pc (btb_data b2 ! ?s ! pos) = pc"
    using b1 b2 s by (auto simp: nth_list_update)
  then show ?thesis using btb_probe_hits [of b2 pos pc] b1 b2 btb_set_addr_cong [OF b2(3), of pc] by metis
qed

theorem btb_keeps_newest_witness:
  "\<exists>b b1 b2 r1 r2 x b3. btb_init small_btb_params = Inr b \<and> btb_add b (0, \<lambda>_. 0) 4096 1 = Inr (b1, r1)
     \<and> btb_add b1 r1 8192 1 = Inr (b2, r2) \<and> btb_probe b2 4096 = Inr (BPU_HIT, Some x, b3)"
proof -
  obtain b where b: "btb_init small_btb_params = Inr b" "btb_inv b" "btb_nways b = 2"
    using btb_init_ok [OF small_btb_ok] by (auto simp: small_btb_params_def)
  then have t: "ep_type (btb_evict_policy b) = EVICT_POLICY_BIT_PLRU"
    by (auto simp: small_btb evict_policy_create_def EVICT_POLICY_BIT_PLRU_def)
  obtain b1 r1 where b1: "btb_add b (0, \<lambda>_. 0) 4096 1 = Inr (b1, r1)" "btb_inv b1"
    using btb_add_ok [OF b(2)] by blast
  obtain b2 r2 where b2: "btb_add b1 r1 8192 1 = Inr (b2, r2)" using btb_add_ok [OF b1(2)] by blast
  have "\<exists>x b3. btb_probe b2 4096 = Inr (BPU_HIT, Some x, b3)"
    using btb_keeps_newest [OF b(2) t _ b1(1) b2] b(3) by simp
  then show ?thesis using b b1 b2 by blast
qed

definition odd_btb_params :: SimParams where
  "odd_btb_params = sim_params_init\<lparr>btb_size := 16, btb_ways := 5\<rparr>"

text \<open>
  (C31) Error: \<^verbatim>\<open>sim_params_validate\<close> asks for a power of two of entries but accepts any
  number of ways. With 16 entries in 5 ways the table has 3 sets indexed by 2
  bits, and looking up a branch at address 6 reads past the array of sets.
\<close>

theorem btb_validated_out_of_bounds:
  "\<exists>q. sim_params_validate odd_btb_params = Inr q \<and> bindR (btb_init q) (\<lambda>b. btb_probe b 6) = Inl Out_of_bounds"
proof -
  have b: "GET_NUM_BITS 3 = 2" by (simp add: GET_NUM_BITS_def ceillog2_eqI)
  have "\<exists>q. sim_params_validate odd_btb_params = Inr q \<and> btb_size q = 16 \<and> btb_ways q = 5"
    by (simp add: odd_btb_params_def param_defs)
  then obtain q where q: "sim_params_validate odd_btb_params = Inr q" "btb_size q = 16" "btb_ways q = 5"
    by blast
  then show ?thesis
    by (intro exI [of _ q])
      (simp add: btb_init_def btb_probe_def btb_set_addr_def sdiv_nonneg b GET_SET_ADDR_def
        GET_INDEX_def BITMASK_def aget_def)
qed

end
