(* ===== verification/Adaptive_Predictor.thy ===== *)
theory Adaptive_Predictor
  imports Bht Btb
begin

text \<open>
  The two-level adaptive predictor of \<^verbatim>\<open>bpu/adaptive_predictor.c\<close> in its four schemes
  (GAg with the gshare and gselect aliasing functions, GAp, PAg, PAp). The first
  level (GHT) holds history registers, the second (PHT) arrays of two-bit
  counters indexed by the history. \<open>ap_lookup\<close> is the address computation that
  \<^verbatim>\<open>adaptive_predictor_get_prediction\<close> and \<^verbatim>\<open>adaptive_predictor_update\<close> both start with.
\<close>

section \<open>The code\<close>

abbreviation (input) GAG :: int where "GAG \<equiv> 0"
abbreviation (input) GAP :: int where "GAP \<equiv> 1"
abbreviation (input) PAG :: int where "PAG \<equiv> 2"
abbreviation (input) PAP :: int where "PAP \<equiv> 3"

record GHTEntry =
  ght_pc :: target_ulong
  ght_ghr :: u32

record PHTEntry =
  pht_pc :: target_ulong
  pht_ctr :: "int list"

record AdaptivePredictor =
  ap_ght :: "GHTEntry list"
  ap_pht :: "PHTEntry list"
  ap_ght_size :: int
  ap_pht_size :: int
  ap_ght_index_bits :: nat
  ap_pht_index_bits :: nat
  ap_hreg_bits :: nat
  ap_type :: int
  ap_alias_func_type :: int
  ap_aliasing_func :: "int option"

definition UPDATE_GHR :: "u32 \<Rightarrow> nat \<Rightarrow> bool \<Rightarrow> u32" where
  "UPDATE_GHR ghr bits pred = ucast (GET_INDEX (ucast (push_bit 1 ghr OR of_bool pred)) bits)"

definition xor_aliasing_func :: "AdaptivePredictor \<Rightarrow> u32 \<Rightarrow> target_ulong \<Rightarrow> u32" where
  "xor_aliasing_func a hr pc = ucast (GET_INDEX (ucast hr XOR pc) (ap_hreg_bits a))"

definition and_aliasing_func :: "AdaptivePredictor \<Rightarrow> u32 \<Rightarrow> target_ulong \<Rightarrow> u32" where
  "and_aliasing_func a hr pc = ucast (GET_INDEX (ucast hr AND pc) (ap_hreg_bits a))"

definition none_aliasing_func :: "AdaptivePredictor \<Rightarrow> u32 \<Rightarrow> target_ulong \<Rightarrow> u32" where
  "none_aliasing_func a hr pc = ucast (GET_INDEX (ucast hr) (ap_hreg_bits a))"

text \<open>The call through the function pointer, null unless the scheme is GAg.\<close>

definition ap_alias :: "AdaptivePredictor \<Rightarrow> u32 \<Rightarrow> target_ulong \<Rightarrow> sim_error + u32" where
  "ap_alias a hr pc =
     (case ap_aliasing_func a of
        None \<Rightarrow> Inl Null_pointer
      | Some f \<Rightarrow>
          if f = BPU_ALIAS_FUNC_XOR then Inr (xor_aliasing_func a hr pc)
          else if f = BPU_ALIAS_FUNC_AND then Inr (and_aliasing_func a hr pc)
          else Inr (none_aliasing_func a hr pc))"

definition ght_idx :: "AdaptivePredictor \<Rightarrow> target_ulong \<Rightarrow> nat" where
  "ght_idx a pc = unat (GET_INDEX (drop_bit 1 pc) (ap_ght_index_bits a))"

definition pht_idx :: "AdaptivePredictor \<Rightarrow> target_ulong \<Rightarrow> nat" where
  "pht_idx a pc = unat (GET_INDEX (drop_bit 1 pc) (ap_pht_index_bits a))"

definition adaptive_predictor_ght_probe :: "AdaptivePredictor \<Rightarrow> target_ulong \<Rightarrow> sim_error + bool" where
  "adaptive_predictor_ght_probe a pc =
     bindR (aget (ap_ght a) (ght_idx a pc)) (\<lambda>e. Inr (if ght_pc e = pc then BPU_HIT else BPU_MISS))"

definition adaptive_predictor_pht_probe :: "AdaptivePredictor \<Rightarrow> target_ulong \<Rightarrow> sim_error + bool" where
  "adaptive_predictor_pht_probe a pc =
     bindR (aget (ap_pht a) (pht_idx a pc)) (\<lambda>e. Inr (if pht_pc e = pc then BPU_HIT else BPU_MISS))"

definition adaptive_predictor_probe :: "AdaptivePredictor \<Rightarrow> target_ulong \<Rightarrow> sim_error + bool" where
  "adaptive_predictor_probe a pc =
     (if ap_type a = GAG then Inr BPU_HIT
      else if ap_type a = GAP then adaptive_predictor_pht_probe a pc
      else if ap_type a = PAG then adaptive_predictor_ght_probe a pc
      else if ap_type a = PAP
      then bindR (adaptive_predictor_ght_probe a pc) (\<lambda>h.
             if h then adaptive_predictor_pht_probe a pc else Inr BPU_MISS)
      else Inl Assert_failed)"

definition ap_history :: "AdaptivePredictor \<Rightarrow> GHTEntry \<Rightarrow> u32" where
  "ap_history a e = ucast (GET_INDEX (ucast (ght_ghr e)) (ap_hreg_bits a))"

text \<open>First-level index, second-level index and index of the counter, per scheme.\<close>

definition ap_lookup :: "AdaptivePredictor \<Rightarrow> target_ulong \<Rightarrow> sim_error + nat \<times> nat \<times> u32" where
  "ap_lookup a pc =
     (if ap_type a = GAG
      then bindR (aget (ap_ght a) 0) (\<lambda>e.
           bindR (ap_alias a (ap_history a e) (drop_bit 2 pc)) (\<lambda>ghr. Inr (0, 0, ghr)))
      else if ap_type a = GAP
      then bindR (aget (ap_ght a) 0) (\<lambda>e. Inr (0, pht_idx a pc, ap_history a e))
      else if ap_type a = PAG
      then bindR (aget (ap_ght a) (ght_idx a pc)) (\<lambda>e. Inr (ght_idx a pc, 0, ap_history a e))
      else if ap_type a = PAP
      then bindR (aget (ap_ght a) (ght_idx a pc)) (\<lambda>e. Inr (ght_idx a pc, pht_idx a pc, ap_history a e))
      else Inl Assert_failed)"

definition adaptive_predictor_get_prediction :: "AdaptivePredictor \<Rightarrow> target_ulong \<Rightarrow> sim_error + bool" where
  "adaptive_predictor_get_prediction a pc =
     bindR (ap_lookup a pc) (\<lambda>(l1, l2, ghr).
     bindR (aget (ap_pht a) l2) (\<lambda>e.
     bindR (aget (pht_ctr e) (unat ghr)) (\<lambda>c. Inr (1 < c))))"

definition ght_alloc :: "AdaptivePredictor \<Rightarrow> target_ulong \<Rightarrow> sim_error + AdaptivePredictor" where
  "ght_alloc a pc =
     bindR (aset (ap_ght a) (ght_idx a pc) \<lparr>ght_pc = pc, ght_ghr = 0\<rparr>) (\<lambda>g. Inr (a\<lparr>ap_ght := g\<rparr>))"

definition pht_alloc :: "AdaptivePredictor \<Rightarrow> target_ulong \<Rightarrow> sim_error + AdaptivePredictor" where
  "pht_alloc a pc =
     bindR (aget (ap_pht a) (pht_idx a pc)) (\<lambda>e.
     bindR (fill (2 ^ ap_hreg_bits a) 0 (pht_ctr e)) (\<lambda>c.
     bindR (aset (ap_pht a) (pht_idx a pc) \<lparr>pht_pc = pc, pht_ctr = c\<rparr>) (\<lambda>h. Inr (a\<lparr>ap_pht := h\<rparr>))))"

definition adaptive_predictor_add :: "AdaptivePredictor \<Rightarrow> target_ulong \<Rightarrow> sim_error + AdaptivePredictor" where
  "adaptive_predictor_add a pc =
     (if ap_type a = GAP then pht_alloc a pc
      else if ap_type a = PAG then ght_alloc a pc
      else if ap_type a = PAP then bindR (ght_alloc a pc) (\<lambda>a'. pht_alloc a' pc)
      else Inr a)"

definition adaptive_predictor_update ::
  "AdaptivePredictor \<Rightarrow> target_ulong \<Rightarrow> bool \<Rightarrow> sim_error + AdaptivePredictor" where
  "adaptive_predictor_update a pc pred =
     (if ap_type a \<in> {GAG, GAP, PAG, PAP}
      then bindR (ap_lookup a pc) (\<lambda>(l1, l2, ghr).
           bindR (aget (ap_pht a) l2) (\<lambda>e.
           bindR (aget (pht_ctr e) (unat ghr)) (\<lambda>c.
           bindR (aset (pht_ctr e) (unat ghr) (update_two_bit_counter c pred)) (\<lambda>cs.
           bindR (aset (ap_pht a) l2 (e\<lparr>pht_ctr := cs\<rparr>)) (\<lambda>h.
           bindR (aget (ap_ght a) l1) (\<lambda>g.
           bindR (aset (ap_ght a) l1 (g\<lparr>ght_ghr := UPDATE_GHR (ght_ghr g) (ap_hreg_bits a) pred\<rparr>)) (\<lambda>gs.
             Inr (a\<lparr>ap_pht := h, ap_ght := gs\<rparr>))))))))
      else Inr a)"

text \<open>The loop of \<^verbatim>\<open>adaptive_predictor_flush\<close> over the PHT.\<close>

fun pht_flush :: "nat \<Rightarrow> nat \<Rightarrow> PHTEntry list \<Rightarrow> sim_error + PHTEntry list" where
  "pht_flush 0 bits h = Inr h"
| "pht_flush (Suc n) bits [] = Inl Out_of_bounds"
| "pht_flush (Suc n) bits (e # h) =
     bindR (fill (2 ^ bits) 0 (pht_ctr e)) (\<lambda>c.
     bindR (pht_flush n bits h) (\<lambda>h'. Inr (\<lparr>pht_pc = 0, pht_ctr = c\<rparr> # h')))"

definition adaptive_predictor_flush :: "AdaptivePredictor \<Rightarrow> sim_error + AdaptivePredictor" where
  "adaptive_predictor_flush a =
     bindR (fill (nat (ap_ght_size a)) \<lparr>ght_pc = 0, ght_ghr = 0\<rparr> (ap_ght a)) (\<lambda>g.
     bindR (pht_flush (nat (ap_pht_size a)) (ap_hreg_bits a) (ap_pht a)) (\<lambda>h.
       Inr (a\<lparr>ap_ght := g, ap_pht := h\<rparr>)))"

definition adaptive_predictor_init :: "SimParams \<Rightarrow> sim_error + AdaptivePredictor" where
  "adaptive_predictor_init p =
     (let gs = bpu_ght_size p; ps = bpu_pht_size p; bits = nat (bpu_history_bits p mod 2 ^ 32)
      in bindR (calloc gs \<lparr>ght_pc = 0, ght_ghr = 0\<rparr>) (\<lambda>g.
         if 0 < ps \<and> 31 \<le> bits then Inl Undefined_shift
         else bindR (calloc ps \<lparr>pht_pc = 0, pht_ctr = replicate (2 ^ bits) 0\<rparr>) (\<lambda>h.
           Inr \<lparr>ap_ght = g, ap_pht = h, ap_ght_size = gs, ap_pht_size = ps,
                ap_ght_index_bits = GET_NUM_BITS (nat gs), ap_pht_index_bits = GET_NUM_BITS (nat ps),
                ap_hreg_bits = bits,
                ap_type = (if gs = 1 \<and> 1 < ps then GAP else if 1 < gs \<and> ps = 1 then PAG
                           else if 1 < gs \<and> 1 < ps then PAP else GAG),
                ap_alias_func_type = bpu_aliasing_func_type p,
                ap_aliasing_func =
                  (if gs = 1 \<and> ps = 1
                      \<and> bpu_aliasing_func_type p \<in> {BPU_ALIAS_FUNC_XOR, BPU_ALIAS_FUNC_AND, BPU_ALIAS_FUNC_NONE}
                   then Some (bpu_aliasing_func_type p) else None)\<rparr>)))"

section \<open>Invariant\<close>

definition pht_ok :: "nat \<Rightarrow> PHTEntry \<Rightarrow> bool" where
  "pht_ok bits e \<longleftrightarrow> length (pht_ctr e) = 2 ^ bits \<and> list_all ctr_ok (pht_ctr e)"

definition ap_inv :: "AdaptivePredictor \<Rightarrow> bool" where
  "ap_inv a \<longleftrightarrow>
     ap_ght_size a = int (length (ap_ght a)) \<and> is_pow2 (length (ap_ght a))
     \<and> ap_ght_index_bits a = GET_NUM_BITS (length (ap_ght a))
     \<and> ap_pht_size a = int (length (ap_pht a)) \<and> is_pow2 (length (ap_pht a))
     \<and> ap_pht_index_bits a = GET_NUM_BITS (length (ap_pht a))
     \<and> ap_hreg_bits a < 31 \<and> list_all (pht_ok (ap_hreg_bits a)) (ap_pht a)
     \<and> ap_type a \<in> {GAG, GAP, PAG, PAP} \<and> (ap_type a = GAG \<longrightarrow> ap_aliasing_func a \<noteq> None)"

definition ap_l1 :: "AdaptivePredictor \<Rightarrow> target_ulong \<Rightarrow> nat" where
  "ap_l1 a pc = (if ap_type a = GAG \<or> ap_type a = GAP then 0 else ght_idx a pc)"

definition ap_l2 :: "AdaptivePredictor \<Rightarrow> target_ulong \<Rightarrow> nat" where
  "ap_l2 a pc = (if ap_type a = GAG \<or> ap_type a = PAG then 0 else pht_idx a pc)"

definition ap_index :: "AdaptivePredictor \<Rightarrow> target_ulong \<Rightarrow> GHTEntry \<Rightarrow> u32" where
  "ap_index a pc e =
     (if ap_type a = GAG
      then (case ap_alias a (ap_history a e) (drop_bit 2 pc) of Inr g \<Rightarrow> g | Inl _ \<Rightarrow> 0)
      else ap_history a e)"

lemma ap_l1_less: "ap_inv a \<Longrightarrow> ap_l1 a pc < length (ap_ght a)"
  using GET_INDEX_in_range [of "length (ap_ght a)"] is_pow2_pos [of "length (ap_ght a)"]
  by (auto simp: ap_inv_def ap_l1_def ght_idx_def)

lemma ap_l2_less: "ap_inv a \<Longrightarrow> ap_l2 a pc < length (ap_pht a)"
  using GET_INDEX_in_range [of "length (ap_pht a)"] is_pow2_pos [of "length (ap_pht a)"]
  by (auto simp: ap_inv_def ap_l2_def pht_idx_def)

lemma unat_ucast_index: "bits < 32 \<Longrightarrow> unat (ucast (GET_INDEX x bits) :: u32) < 2 ^ bits"
proof -
  assume "bits < 32"
  then have "(ucast (GET_INDEX x bits) :: u32) = take_bit bits (ucast x)"
    by (intro bit_word_eqI) (auto simp: GET_INDEX_take_bit bit_simps)
  then show ?thesis by (metis take_bit_nat_less_exp unsigned_take_bit_eq)
qed

lemma ap_history_less: "ap_inv a \<Longrightarrow> unat (ap_history a e) < 2 ^ ap_hreg_bits a"
  by (simp add: ap_history_def ap_inv_def unat_ucast_index)

lemma ap_alias_ok:
  assumes "ap_inv a" and "ap_type a = GAG"
  shows "\<exists>g. ap_alias a hr pc = Inr g \<and> unat g < 2 ^ ap_hreg_bits a"
  using assms unat_ucast_index [of "ap_hreg_bits a"]
  by (auto simp: ap_inv_def ap_alias_def xor_aliasing_func_def and_aliasing_func_def
      none_aliasing_func_def split: option.splits)

lemma ap_index_less: "ap_inv a \<Longrightarrow> unat (ap_index a pc e) < 2 ^ ap_hreg_bits a"
  using ap_alias_ok [of a "ap_history a e" "drop_bit 2 pc"] ap_history_less [of a e]
  by (auto simp: ap_index_def split: sum.splits)

lemma ap_lookup_ok:
  assumes "ap_inv a"
  shows "ap_lookup a pc = Inr (ap_l1 a pc, ap_l2 a pc, ap_index a pc (ap_ght a ! ap_l1 a pc))"
proof -
  consider "ap_type a = GAG" | "ap_type a = GAP" | "ap_type a = PAG" | "ap_type a = PAP"
    using assms by (auto simp: ap_inv_def)
  then show ?thesis
    using ap_l1_less [OF assms, of pc] ap_alias_ok [OF assms, of "ap_history a (ap_ght a ! 0)" "drop_bit 2 pc"]
    by cases (auto simp: ap_lookup_def ap_l1_def ap_l2_def ap_index_def)
qed

lemma pht_ok_nth: "ap_inv a \<Longrightarrow> i < length (ap_pht a) \<Longrightarrow> pht_ok (ap_hreg_bits a) (ap_pht a ! i)"
  by (auto simp: ap_inv_def intro: list_all_nth)

definition ap_ctr :: "AdaptivePredictor \<Rightarrow> target_ulong \<Rightarrow> int" where
  "ap_ctr a pc = pht_ctr (ap_pht a ! ap_l2 a pc) ! unat (ap_index a pc (ap_ght a ! ap_l1 a pc))"

lemma ap_get_prediction_ok:
  assumes "ap_inv a"
  shows "adaptive_predictor_get_prediction a pc = Inr (1 < ap_ctr a pc)"
  using ap_lookup_ok [OF assms, of pc] ap_l2_less [OF assms, of pc] ap_index_less [OF assms, of pc]
    pht_ok_nth [OF assms, of "ap_l2 a pc"]
  by (simp add: adaptive_predictor_get_prediction_def pht_ok_def ap_ctr_def)

lemma ap_ctr_ok: "ap_inv a \<Longrightarrow> ctr_ok (ap_ctr a pc)"
  using ap_l2_less [of a pc] ap_index_less [of a pc] pht_ok_nth [of a "ap_l2 a pc"]
  by (auto simp: pht_ok_def ap_ctr_def intro: list_all_nth)

definition ap_updated :: "AdaptivePredictor \<Rightarrow> target_ulong \<Rightarrow> bool \<Rightarrow> AdaptivePredictor" where
  "ap_updated a pc t =
     (let i = unat (ap_index a pc (ap_ght a ! ap_l1 a pc)); e = ap_pht a ! ap_l2 a pc; g = ap_ght a ! ap_l1 a pc
      in a\<lparr>ap_pht := (ap_pht a)[ap_l2 a pc :=
              e\<lparr>pht_ctr := (pht_ctr e)[i := update_two_bit_counter (ap_ctr a pc) t]\<rparr>],
           ap_ght := (ap_ght a)[ap_l1 a pc := g\<lparr>ght_ghr := UPDATE_GHR (ght_ghr g) (ap_hreg_bits a) t\<rparr>]\<rparr>)"

lemma ap_update_ok:
  assumes "ap_inv a"
  shows "adaptive_predictor_update a pc t = Inr (ap_updated a pc t)" and "ap_inv (ap_updated a pc t)"
proof -
  note facts = ap_lookup_ok [OF assms, of pc] ap_l1_less [OF assms, of pc] ap_l2_less [OF assms, of pc]
    ap_index_less [OF assms, of pc] pht_ok_nth [OF assms, of "ap_l2 a pc"]
  have ty: "ap_type a \<in> {GAG, GAP, PAG, PAP}" using assms by (simp add: ap_inv_def)
  show "adaptive_predictor_update a pc t = Inr (ap_updated a pc t)"
    using facts unfolding adaptive_predictor_update_def if_P [OF ty]
    by (simp add: pht_ok_def ap_updated_def ap_ctr_def Let_def)
  show "ap_inv (ap_updated a pc t)"
    using assms facts ap_ctr_ok [OF assms, of pc]
    by (simp add: ap_inv_def ap_updated_def Let_def list_all_update pht_ok_def)
qed

lemma ght_alloc_ok: "ap_inv a \<Longrightarrow> \<exists>a'. ght_alloc a pc = Inr a' \<and> ap_inv a'"
  using GET_INDEX_in_range [of "length (ap_ght a)"] by (simp add: ght_alloc_def ap_inv_def ght_idx_def)

lemma pht_alloc_ok:
  assumes "ap_inv a" shows "\<exists>a'. pht_alloc a pc = Inr a' \<and> ap_inv a'"
proof -
  have i: "pht_idx a pc < length (ap_pht a)"
    using assms GET_INDEX_in_range [of "length (ap_pht a)"] by (simp add: ap_inv_def pht_idx_def)
  have "pht_ok (ap_hreg_bits a) \<lparr>pht_pc = pc, pht_ctr = replicate (2 ^ ap_hreg_bits a) 0\<rparr>"
    by (simp add: pht_ok_def list_all_length)
  then show ?thesis using assms i pht_ok_nth [OF assms i]
    by (simp add: pht_alloc_def ap_inv_def pht_ok_def list_all_update)
qed

lemma ap_add_ok: "ap_inv a \<Longrightarrow> \<exists>a'. adaptive_predictor_add a pc = Inr a' \<and> ap_inv a'"
  using ght_alloc_ok [of a pc] pht_alloc_ok [of _ pc] by (auto simp: adaptive_predictor_add_def)

lemma ap_probe_ok: "ap_inv a \<Longrightarrow> \<exists>h. adaptive_predictor_probe a pc = Inr h"
  using GET_INDEX_in_range [of "length (ap_ght a)"] GET_INDEX_in_range [of "length (ap_pht a)"]
  by (auto simp: adaptive_predictor_probe_def adaptive_predictor_ght_probe_def
      adaptive_predictor_pht_probe_def ap_inv_def ght_idx_def pht_idx_def)

lemma pht_flush_ok:
  "list_all (pht_ok bits) h \<Longrightarrow>
     pht_flush (length h) bits h = Inr (replicate (length h) \<lparr>pht_pc = 0, pht_ctr = replicate (2 ^ bits) 0\<rparr>)"
  by (induction h) (simp_all add: pht_ok_def)

lemma ap_flush_ok:
  assumes "ap_inv a" shows "\<exists>a'. adaptive_predictor_flush a = Inr a' \<and> ap_inv a'"
  using assms pht_flush_ok [of "ap_hreg_bits a" "ap_pht a"]
  by (simp add: adaptive_predictor_flush_def ap_inv_def list_all_length pht_ok_def)

definition ap_params_ok :: "SimParams \<Rightarrow> bool" where
  "ap_params_ok p \<longleftrightarrow> 0 < bpu_ght_size p \<and> is_pow2 (nat (bpu_ght_size p))
     \<and> 0 < bpu_pht_size p \<and> is_pow2 (nat (bpu_pht_size p))
     \<and> 0 \<le> bpu_history_bits p \<and> bpu_history_bits p < 31
     \<and> bpu_aliasing_func_type p \<in> {BPU_ALIAS_FUNC_XOR, BPU_ALIAS_FUNC_AND, BPU_ALIAS_FUNC_NONE}"

lemma ap_init_ok:
  assumes "ap_params_ok p"
  shows "\<exists>a. adaptive_predictor_init p = Inr a \<and> ap_inv a \<and> ap_hreg_bits a = nat (bpu_history_bits p)"
proof -
  have b: "bpu_history_bits p mod 2 ^ 32 = bpu_history_bits p" "nat (bpu_history_bits p) < 31"
    using assms by (auto simp: ap_params_ok_def)
  show ?thesis using assms b unfolding ap_params_ok_def adaptive_predictor_init_def Let_def b(1)
    by (auto simp: ap_inv_def list_all_length pht_ok_def)
qed

section \<open>Learning\<close>

lemma bit_UPDATE_GHR:
  "i < 32 \<Longrightarrow> bit (UPDATE_GHR g bits t) i \<longleftrightarrow> i < bits \<and> (if i = 0 then t else bit g (i - 1))"
  using bit_double_iff [of g i] by (auto simp: UPDATE_GHR_def GET_INDEX_take_bit bit_simps mult.commute)

lemma ap_history_take_bit: "ap_history a e = take_bit (ap_hreg_bits a) (ght_ghr e)"
  by (intro bit_word_eqI) (auto simp: ap_history_def GET_INDEX_take_bit bit_simps)

text \<open>The history a branch sees, and what an update changes of it.\<close>

definition ap_hist :: "AdaptivePredictor \<Rightarrow> target_ulong \<Rightarrow> u32" where
  "ap_hist a pc = ap_history a (ap_ght a ! ap_l1 a pc)"

lemma ap_updated_simps [simp]:
  "ap_hreg_bits (ap_updated a pc t) = ap_hreg_bits a" "ap_l1 (ap_updated a pc t) q = ap_l1 a q"
  "ap_l2 (ap_updated a pc t) q = ap_l2 a q" "ap_type (ap_updated a pc t) = ap_type a"
  "ap_history (ap_updated a pc t) e = ap_history a e" "ap_index (ap_updated a pc t) q e = ap_index a q e"
  by (simp_all add: ap_updated_def Let_def ap_l1_def ap_l2_def ght_idx_def pht_idx_def ap_history_def
      ap_index_def ap_alias_def xor_aliasing_func_def and_aliasing_func_def none_aliasing_func_def
      split: option.split)

lemma ap_hist_updated:
  assumes "ap_inv a" and "i < 32"
  shows "bit (ap_hist (ap_updated a pc t) pc) i
    \<longleftrightarrow> i < ap_hreg_bits a \<and> (if i = 0 then t else bit (ap_hist a pc) (i - 1))"
  using assms ap_l1_less [OF assms(1), of pc]
  by (auto simp: ap_hist_def ap_history_take_bit ap_updated_def Let_def bit_take_bit_iff bit_UPDATE_GHR
      ap_l1_def ght_idx_def)

lemma ap_ctr_updated:
  assumes "ap_inv a" and "ap_hist (ap_updated a pc t) pc = ap_hist a pc"
  shows "ap_ctr (ap_updated a pc t) pc = update_two_bit_counter (ap_ctr a pc) t"
proof -
  let ?a = "ap_updated a pc t"
  have "ap_index a pc (ap_ght ?a ! ap_l1 a pc) = ap_index a pc (ap_ght a ! ap_l1 a pc)"
    using assms(2) by (simp add: ap_hist_def ap_index_def)
  then show ?thesis
    using ap_l2_less [OF assms(1), of pc] ap_index_less [OF assms(1), of pc]
      pht_ok_nth [OF assms(1), of "ap_l2 a pc"]
    by (simp add: ap_ctr_def [of ?a]) (simp add: ap_updated_def Let_def pht_ok_def)
qed

primrec ap_train :: "AdaptivePredictor \<Rightarrow> target_ulong \<Rightarrow> bool list \<Rightarrow> sim_error + AdaptivePredictor" where
  "ap_train a pc [] = Inr a"
| "ap_train a pc (t # ts) = bindR (adaptive_predictor_update a pc t) (\<lambda>a'. ap_train a' pc ts)"

lemma ap_train_append: "ap_train a pc (xs @ ys) = bindR (ap_train a pc xs) (\<lambda>a'. ap_train a' pc ys)"
proof (induction xs arbitrary: a)
  case (Cons x xs)
  then show ?case by (cases "adaptive_predictor_update a pc x") simp_all
qed simp

lemma ap_train_history:
  assumes "ap_inv a"
  shows "\<exists>a'. ap_train a pc (replicate k t) = Inr a' \<and> ap_inv a' \<and> ap_hreg_bits a' = ap_hreg_bits a
    \<and> (\<forall>i<32. bit (ap_hist a' pc) i \<longleftrightarrow> i < ap_hreg_bits a \<and> (if i < k then t else bit (ap_hist a pc) (i - k)))"
  using assms
proof (induction k arbitrary: a)
  case 0
  then show ?case by (auto simp: ap_hist_def ap_history_take_bit bit_take_bit_iff)
next
  case (Suc k)
  let ?a = "ap_updated a pc t"
  obtain a' where a': "ap_train ?a pc (replicate k t) = Inr a'" "ap_inv a'" "ap_hreg_bits a' = ap_hreg_bits a"
    "\<forall>i<32. bit (ap_hist a' pc) i \<longleftrightarrow> i < ap_hreg_bits a \<and> (if i < k then t else bit (ap_hist ?a pc) (i - k))"
    using Suc.IH [of ?a] ap_update_ok [OF Suc.prems] by auto
  have "bit (ap_hist a' pc) i
      \<longleftrightarrow> i < ap_hreg_bits a \<and> (if i < Suc k then t else bit (ap_hist a pc) (i - Suc k))" if "i < 32" for i
    using a'(4) that ap_hist_updated [OF Suc.prems, of "i - k" pc t]
    by (cases i k rule: linorder_cases) auto
  then show ?case using a' ap_update_ok [OF Suc.prems] by auto
qed

text \<open>The history after a long run of one direction; further outcomes of it change nothing.\<close>

definition steady_hist :: "nat \<Rightarrow> bool \<Rightarrow> u32" where
  "steady_hist bits t = (if t then mask bits else 0)"

lemma bit_steady_hist: "i < 32 \<Longrightarrow> bit (steady_hist bits t) i \<longleftrightarrow> i < bits \<and> t"
  by (simp add: steady_hist_def bit_mask_iff)

lemma ap_steady_update:
  assumes "ap_inv a" and "ap_hist a pc = steady_hist (ap_hreg_bits a) t"
  shows "ap_hist (ap_updated a pc t) pc = ap_hist a pc"
proof (rule bit_word_eqI)
  fix n assume "n < LENGTH(32)"
  then show "bit (ap_hist (ap_updated a pc t) pc) n = bit (ap_hist a pc) n"
    using ap_hist_updated [OF assms(1), of n pc t] bit_steady_hist [of n "ap_hreg_bits a" t]
      bit_steady_hist [of "n - 1" "ap_hreg_bits a" t] assms(2) by auto
qed

lemma ap_train_steady:
  assumes "ap_inv a" and "ap_hist a pc = steady_hist (ap_hreg_bits a) t"
  shows "\<exists>a'. ap_train a pc (replicate k t) = Inr a' \<and> ap_inv a'
    \<and> ap_ctr a' pc = foldl update_two_bit_counter (ap_ctr a pc) (replicate k t)"
  using assms
proof (induction k arbitrary: a)
  case (Suc k)
  then show ?case
    using Suc.IH [of "ap_updated a pc t"] ap_update_ok [OF Suc.prems(1)] ap_steady_update [OF Suc.prems]
      ap_ctr_updated [OF Suc.prems(1), of pc t]
    by auto
qed simp

section \<open>Properties\<close>

text \<open>
  (C27) Functional: in every scheme and from any well-formed state, a branch that
  goes the same way \<open>ap_hreg_bits + 2\<close> times in a row, or more, is predicted that
  way; the history register is first filled with that direction and the counter
  it selects then saturates.
\<close>

theorem ap_learns_steady_branch:
  assumes "ap_inv a" and "ap_hreg_bits a + 2 \<le> n"
  shows "\<exists>a'. ap_train a pc (replicate n t) = Inr a' \<and> ap_inv a'
    \<and> adaptive_predictor_get_prediction a' pc = Inr t"
proof -
  let ?b = "ap_hreg_bits a"
  obtain a1 where a1: "ap_train a pc (replicate ?b t) = Inr a1" "ap_inv a1" "ap_hreg_bits a1 = ?b"
    "\<forall>i<32. bit (ap_hist a1 pc) i \<longleftrightarrow> i < ?b \<and> (if i < ?b then t else bit (ap_hist a pc) (i - ?b))"
    using ap_train_history [OF assms(1)] by blast
  have "ap_hist a1 pc = steady_hist (ap_hreg_bits a1) t"
    using a1 by (intro bit_word_eqI) (auto simp: bit_steady_hist)
  then obtain a2 where a2: "ap_train a1 pc (replicate (n - ?b) t) = Inr a2" "ap_inv a2"
    "ap_ctr a2 pc = foldl update_two_bit_counter (ap_ctr a1 pc) (replicate (n - ?b) t)"
    using ap_train_steady [OF a1(2)] by blast
  have "replicate n t = replicate ?b t @ replicate (n - ?b) t"
    using assms(2) by (simp add: flip: replicate_add)
  then have "ap_train a pc (replicate n t) = Inr a2" using a1(1) a2(1) by (simp add: ap_train_append)
  moreover have "1 < ap_ctr a2 pc \<longleftrightarrow> t"
    using a2(3) saturating_run [OF ap_ctr_ok [OF a1(2), of pc], of "n - ?b"] assms(2)
      ap_ctr_ok [OF a1(2), of pc] by (cases t) (auto simp: ctr_ok_def)
  ultimately show ?thesis using a2(2) by (simp add: ap_get_prediction_ok)
qed

definition gshare_params :: SimParams where
  "gshare_params = zero_params\<lparr>bpu_ght_size := 1, bpu_pht_size := 1, bpu_history_bits := 2\<rparr>"

theorem ap_learns_steady_branch_witness:
  "\<exists>a a'. adaptive_predictor_init gshare_params = Inr a \<and> ap_train a 4096 (replicate 4 True) = Inr a'
     \<and> adaptive_predictor_get_prediction a' 4096 = Inr True"
proof -
  have "ap_params_ok gshare_params" by (simp add: ap_params_ok_def gshare_params_def zero_params_def)
  then obtain a where a: "adaptive_predictor_init gshare_params = Inr a" "ap_inv a" "ap_hreg_bits a = 2"
    using ap_init_ok [of gshare_params] by (auto simp: gshare_params_def)
  show ?thesis using ap_learns_steady_branch [OF a(2), of 4 4096 True] a by auto
qed

end
