(* ===== verification/Sim_Stats.thy ===== *)
theory Sim_Stats
  imports Sim_Prelude
begin

text \<open>
  The performance counters of \<^verbatim>\<open>utils/sim_stats.h\<close>, one set per privilege level, and the
  increment of a counter as the components do it.
\<close>

record SimStats =
  cycles :: u64
  insn_mem_delay :: u64
  data_mem_delay :: u64
  exec_unit_delay :: u64
  ins_fetch :: u64
  ins_simulated :: u64
  ins_emulated :: u64
  ins_type :: "u64 list"
  ins_cond_branch_taken :: u64
  csr_reads :: u64
  csr_writes :: u64
  fp_regfile_reads :: u64
  fp_regfile_writes :: u64
  int_regfile_reads :: u64
  int_regfile_writes :: u64
  fu_access :: "u64 list"
  btb_probes :: u64
  btb_hits :: u64
  btb_updates :: u64
  btb_inserts :: u64
  bpu_cond_correct :: u64
  bpu_cond_incorrect :: u64
  bpu_uncond_correct :: u64
  bpu_uncond_incorrect :: u64
  code_tlb_lookups :: u64
  code_tlb_hits :: u64
  load_tlb_lookups :: u64
  load_tlb_hits :: u64
  store_tlb_lookups :: u64
  store_tlb_hits :: u64
  ins_page_walks :: u64
  load_page_walks :: u64
  store_page_walks :: u64
  icache_read :: u64
  icache_read_miss :: u64
  dcache_read :: u64
  dcache_write :: u64
  dcache_read_miss :: u64
  dcache_write_miss :: u64
  l2_cache_read :: u64
  l2_cache_write :: u64
  l2_cache_read_miss :: u64
  l2_cache_write_miss :: u64
  interrupts :: "u64 list"
  exceptions :: "u64 list"
  pipeline_flush :: u64

definition zero_stats :: SimStats where
  "zero_stats = \<lparr>
    cycles = 0, insn_mem_delay = 0, data_mem_delay = 0, exec_unit_delay = 0, ins_fetch = 0,
    ins_simulated = 0, ins_emulated = 0, ins_type = replicate 40 0, ins_cond_branch_taken = 0,
    csr_reads = 0, csr_writes = 0, fp_regfile_reads = 0, fp_regfile_writes = 0,
    int_regfile_reads = 0, int_regfile_writes = 0, fu_access = replicate 5 0, btb_probes = 0,
    btb_hits = 0, btb_updates = 0, btb_inserts = 0, bpu_cond_correct = 0, bpu_cond_incorrect = 0,
    bpu_uncond_correct = 0, bpu_uncond_incorrect = 0, code_tlb_lookups = 0, code_tlb_hits = 0,
    load_tlb_lookups = 0, load_tlb_hits = 0, store_tlb_lookups = 0, store_tlb_hits = 0,
    ins_page_walks = 0, load_page_walks = 0, store_page_walks = 0, icache_read = 0,
    icache_read_miss = 0, dcache_read = 0, dcache_write = 0, dcache_read_miss = 0,
    dcache_write_miss = 0, l2_cache_read = 0, l2_cache_write = 0, l2_cache_read_miss = 0,
    l2_cache_write_miss = 0, interrupts = replicate 24 0, exceptions = replicate 24 0,
    pipeline_flush = 0\<rparr>"

abbreviation (input) NUM_MAX_PRV_LEVELS :: nat where "NUM_MAX_PRV_LEVELS \<equiv> 4"

definition sim_stats_reset :: "SimStats list \<Rightarrow> sim_error + SimStats list" where
  "sim_stats_reset s = fill NUM_MAX_PRV_LEVELS zero_stats s"

text \<open>\<^verbatim>\<open>++(stats[priv].counter)\<close>, with the increment of the counter as an argument.\<close>

definition bump :: "(SimStats \<Rightarrow> SimStats) \<Rightarrow> nat \<Rightarrow> SimStats list \<Rightarrow> sim_error + SimStats list" where
  "bump f priv s = bindR (aget s priv) (\<lambda>x. aset s priv (f x))"

lemma bump_ok [simp]: "priv < length s \<Longrightarrow> bump f priv s = Inr (s[priv := f (s ! priv)])"
  by (simp add: bump_def)

end
