(* ===== verification/Bpu.thy ===== *)
theory Bpu
  imports Bht Ras Btb Adaptive_Predictor Sim_Stats
begin

text \<open>
  The branch prediction unit of \<^verbatim>\<open>bpu/bpu.c\<close>: the branch target buffer with a bimodal
  or an adaptive direction predictor and an optional return address stack. A
  response packet carries the outcome of a probe, and the address of the entry
  that hit, from the fetch of a branch to its resolution.
\<close>

section \<open>The code\<close>

record BPUResponsePkt =
  pk_btb_probe_status :: bool
  pk_ap_probe_status :: bool
  pk_bpu_probe_status :: bool
  pk_btb_entry :: "btb_addr option"

record BranchPredUnit =
  u_btb :: BranchTargetBuffer
  u_bht :: "Bht option"
  u_ras :: "Ras option"
  u_ap :: "AdaptivePredictor option"
  u_stats :: "SimStats list"
  u_bpu_type :: int

definition bpu_flush :: "BranchPredUnit \<Rightarrow> sim_error + BranchPredUnit" where
  "bpu_flush u =
     bindR (btb_flush (u_btb u)) (\<lambda>b.
     bindR (if u_bpu_type u = BPU_TYPE_BIMODAL
            then bindR (deref (u_bht u)) (\<lambda>h. bindR (bht_flush h) (\<lambda>h'. Inr (u\<lparr>u_btb := b, u_bht := Some h'\<rparr>)))
            else if u_bpu_type u = BPU_TYPE_ADAPTIVE
            then bindR (deref (u_ap u)) (\<lambda>a.
                 bindR (adaptive_predictor_flush a) (\<lambda>a'. Inr (u\<lparr>u_btb := b, u_ap := Some a'\<rparr>)))
            else Inr (u\<lparr>u_btb := b\<rparr>)) (\<lambda>u'.
       Inr (u'\<lparr>u_ras := map_option ras_flush (u_ras u')\<rparr>)))"

definition bpu_ap_status ::
  "BranchPredUnit \<Rightarrow> target_ulong \<Rightarrow> bool \<Rightarrow> bool \<Rightarrow> btb_addr option \<Rightarrow> BranchTargetBuffer \<Rightarrow> sim_error + bool" where
  "bpu_ap_status u pc old hit entry b =
     (if u_bpu_type u = BPU_TYPE_BIMODAL then Inr BPU_HIT
      else if u_bpu_type u = BPU_TYPE_ADAPTIVE
      then bindR (deref (u_ap u)) (\<lambda>a.
           bindR (adaptive_predictor_probe a pc) (\<lambda>st.
           if hit
           then bindR (deref entry) (\<lambda>x. bindR (btb_get b x) (\<lambda>e.
                  Inr (if be_type e = BRANCH_UNCOND then BPU_HIT else st)))
           else Inr st))
      else Inr old)"

definition bpu_probe ::
  "BranchPredUnit \<Rightarrow> target_ulong \<Rightarrow> BPUResponsePkt \<Rightarrow> nat \<Rightarrow> sim_error + BPUResponsePkt \<times> BranchPredUnit" where
  "bpu_probe u pc p priv =
     bindR (btb_probe (u_btb u) pc) (\<lambda>(hit, entry, b).
     bindR (bump (btb_probes_update (\<lambda>c. c + 1)) priv (u_stats u)) (\<lambda>s1.
     bindR (if hit then bump (btb_hits_update (\<lambda>c. c + 1)) priv s1 else Inr s1) (\<lambda>s2.
     bindR (bpu_ap_status u pc (pk_ap_probe_status p) hit entry b) (\<lambda>ap.
       Inr (\<lparr>pk_btb_probe_status = hit, pk_ap_probe_status = ap, pk_bpu_probe_status = (hit \<and> ap),
             pk_btb_entry = entry\<rparr>,
            u\<lparr>u_btb := b, u_stats := s2\<rparr>)))))"

definition bpu_get_target ::
  "BranchPredUnit \<Rightarrow> target_ulong \<Rightarrow> btb_addr option \<Rightarrow> sim_error + target_ulong" where
  "bpu_get_target u pc entry =
     bindR (deref entry) (\<lambda>x. bindR (btb_get (u_btb u) x) (\<lambda>e.
       if be_type e = BRANCH_UNCOND then Inr (be_target e)
       else if be_type e = BRANCH_COND
       then (if u_bpu_type u = BPU_TYPE_BIMODAL
             then bindR (deref (u_bht u)) (\<lambda>h. bindR (bht_get_prediction h pc) (\<lambda>c.
                    Inr (if 1 < c then be_target e else 0)))
             else if u_bpu_type u = BPU_TYPE_ADAPTIVE
             then bindR (deref (u_ap u)) (\<lambda>a. bindR (adaptive_predictor_get_prediction a pc) (\<lambda>t.
                    Inr (if t then be_target e else 0)))
             else Inr 0)
       else Inr 0))"

definition bpu_add_pred ::
  "BranchPredUnit \<Rightarrow> target_ulong \<Rightarrow> int \<Rightarrow> BPUResponsePkt \<Rightarrow> sim_error + BranchPredUnit" where
  "bpu_add_pred u pc ty p =
     (if u_bpu_type u = BPU_TYPE_BIMODAL
      then (if ty = BRANCH_COND
            then bindR (deref (u_bht u)) (\<lambda>h. bindR (bht_add h pc) (\<lambda>h'. Inr (u\<lparr>u_bht := Some h'\<rparr>)))
            else Inr u)
      else if u_bpu_type u = BPU_TYPE_ADAPTIVE
      then (if ty = BRANCH_COND \<and> \<not> pk_ap_probe_status p
            then bindR (deref (u_ap u)) (\<lambda>a.
                 bindR (adaptive_predictor_add a pc) (\<lambda>a'. Inr (u\<lparr>u_ap := Some a'\<rparr>)))
            else Inr u)
      else Inr u)"

definition bpu_add ::
  "BranchPredUnit \<Rightarrow> rand_state \<Rightarrow> target_ulong \<Rightarrow> int \<Rightarrow> BPUResponsePkt \<Rightarrow> nat \<Rightarrow> bool
     \<Rightarrow> sim_error + BranchPredUnit \<times> rand_state" where
  "bpu_add u r pc ty p priv fret =
     (if \<not> pk_btb_probe_status p
      then (if u_ras u \<noteq> None \<and> fret then Inr (u, r)
            else bindR (btb_add (u_btb u) r pc ty) (\<lambda>(b, r').
                 bindR (bump (btb_inserts_update (\<lambda>c. c + 1)) priv (u_stats u)) (\<lambda>s.
                 bindR (bpu_add_pred (u\<lparr>u_btb := b, u_stats := s\<rparr>) pc ty p) (\<lambda>u'. Inr (u', r')))))
      else bindR (bpu_add_pred u pc ty p) (\<lambda>u'. Inr (u', r)))"

definition bpu_update_pred ::
  "BranchPredUnit \<Rightarrow> target_ulong \<Rightarrow> bool \<Rightarrow> int \<Rightarrow> BPUResponsePkt \<Rightarrow> sim_error + BranchPredUnit" where
  "bpu_update_pred u pc pred ty p =
     (if u_bpu_type u = BPU_TYPE_BIMODAL
      then (if ty = BRANCH_COND
            then bindR (deref (u_bht u)) (\<lambda>h. bindR (bht_update h pc pred) (\<lambda>h'. Inr (u\<lparr>u_bht := Some h'\<rparr>)))
            else Inr u)
      else if u_bpu_type u = BPU_TYPE_ADAPTIVE
      then (if ty = BRANCH_COND \<and> pk_ap_probe_status p
            then bindR (deref (u_ap u)) (\<lambda>a.
                 bindR (adaptive_predictor_update a pc pred) (\<lambda>a'. Inr (u\<lparr>u_ap := Some a'\<rparr>)))
            else Inr u)
      else Inr u)"

definition bpu_update ::
  "BranchPredUnit \<Rightarrow> target_ulong \<Rightarrow> target_ulong \<Rightarrow> bool \<Rightarrow> int \<Rightarrow> BPUResponsePkt \<Rightarrow> nat
     \<Rightarrow> sim_error + BranchPredUnit" where
  "bpu_update u pc target pred ty p priv =
     bindR (if pk_btb_probe_status p
            then bindR (deref (pk_btb_entry p)) (\<lambda>x.
                 bindR (btb_update (u_btb u) x target ty) (\<lambda>b.
                 bindR (bump (btb_updates_update (\<lambda>c. c + 1)) priv (u_stats u)) (\<lambda>s.
                   Inr (u\<lparr>u_btb := b, u_stats := s\<rparr>))))
            else Inr u) (\<lambda>u'. bpu_update_pred u' pc pred ty p)"

definition bpu_init :: "SimParams \<Rightarrow> SimStats list \<Rightarrow> sim_error + BranchPredUnit" where
  "bpu_init p s =
     bindR (btb_init p) (\<lambda>b.
     bindR (if bpu_type p = BPU_TYPE_BIMODAL then bindR (bht_init p) (\<lambda>h. Inr (Some h)) else Inr None) (\<lambda>h.
     bindR (if bpu_type p = BPU_TYPE_ADAPTIVE
            then bindR (adaptive_predictor_init p) (\<lambda>a. Inr (Some a)) else Inr None) (\<lambda>a.
     bindR (if ras_size p \<noteq> 0 then bindR (ras_init p) (\<lambda>r. Inr (Some r)) else Inr None) (\<lambda>r.
       Inr \<lparr>u_btb = b, u_bht = h, u_ras = r, u_ap = a, u_stats = s, u_bpu_type = bpu_type p\<rparr>))))"

section \<open>Invariant\<close>

definition pred_inv :: "BranchPredUnit \<Rightarrow> bool" where
  "pred_inv u \<longleftrightarrow>
     (u_bpu_type u = BPU_TYPE_BIMODAL \<and> (\<exists>h. u_bht u = Some h \<and> bht_inv h)
      \<or> u_bpu_type u = BPU_TYPE_ADAPTIVE \<and> (\<exists>a. u_ap u = Some a \<and> ap_inv a))
     \<and> (\<forall>r. u_ras u = Some r \<longrightarrow> ras_inv r)"

definition bpu_inv :: "BranchPredUnit \<Rightarrow> bool" where
  "bpu_inv u \<longleftrightarrow> btb_inv (u_btb u) \<and> length (u_stats u) = NUM_MAX_PRV_LEVELS \<and> pred_inv u"

text \<open>The addresses of entries: they do not change while the unit lives.\<close>

definition bpu_geom :: "BranchPredUnit \<Rightarrow> nat \<times> nat" where
  "bpu_geom u = (length (btb_data (u_btb u)), btb_nways (u_btb u))"

definition pkt_ok :: "nat \<times> nat \<Rightarrow> BPUResponsePkt \<Rightarrow> bool" where
  "pkt_ok g p \<longleftrightarrow> (pk_btb_probe_status p \<longrightarrow>
     (\<exists>x. pk_btb_entry p = Some x \<and> fst x < fst g \<and> snd x < snd g))
   \<and> (pk_bpu_probe_status p \<longrightarrow> pk_btb_probe_status p)"

lemma pred_inv_upd [simp]:
  "pred_inv (u\<lparr>u_btb := b\<rparr>) = pred_inv u" "pred_inv (u\<lparr>u_stats := s\<rparr>) = pred_inv u"
  by (simp_all add: pred_inv_def)

lemma pkt_ok_valid:
  "pkt_ok (bpu_geom u) p \<Longrightarrow> pk_btb_probe_status p \<Longrightarrow> \<exists>x. pk_btb_entry p = Some x \<and> btb_valid (u_btb u) x"
  by (auto simp: pkt_ok_def bpu_geom_def btb_valid_def)

lemma bpu_ap_status_ok:
  assumes "pred_inv u" and "btb_inv b" and "hit \<Longrightarrow> \<exists>x. entry = Some x \<and> btb_valid b x"
  shows "\<exists>st. bpu_ap_status u pc old hit entry b = Inr st"
proof -
  consider "u_bpu_type u = BPU_TYPE_BIMODAL"
    | a where "u_bpu_type u = BPU_TYPE_ADAPTIVE" "u_ap u = Some a" "ap_inv a"
    using assms(1) by (auto simp: pred_inv_def)
  then show ?thesis
  proof cases
    case (2 a)
    then obtain st where "adaptive_predictor_probe a pc = Inr st" using ap_probe_ok by blast
    then show ?thesis using 2 assms(2,3) by (auto simp: bpu_ap_status_def btb_get_eq)
  qed (auto simp: bpu_ap_status_def)
qed

lemma bpu_probe_ok:
  assumes "bpu_inv u" and "priv < NUM_MAX_PRV_LEVELS"
  shows "\<exists>p' u'. bpu_probe u pc p priv = Inr (p', u') \<and> bpu_inv u' \<and> bpu_geom u' = bpu_geom u
    \<and> pkt_ok (bpu_geom u) p' \<and> u_bpu_type u' = u_bpu_type u \<and> u_bht u' = u_bht u \<and> u_ap u' = u_ap u
    \<and> u_ras u' = u_ras u \<and> btb_data (u_btb u') = btb_data (u_btb u)
    \<and> btb_probe (u_btb u) pc = Inr (pk_btb_probe_status p', pk_btb_entry p', u_btb u')
    \<and> bpu_ap_status u pc (pk_ap_probe_status p) (pk_btb_probe_status p') (pk_btb_entry p') (u_btb u')
        = Inr (pk_ap_probe_status p')
    \<and> pk_bpu_probe_status p' = (pk_btb_probe_status p' \<and> pk_ap_probe_status p')"
proof -
  have inv: "btb_inv (u_btb u)" "length (u_stats u) = 4" "pred_inv u"
    using assms(1) by (auto simp: bpu_inv_def)
  obtain h a b where b: "btb_probe (u_btb u) pc = Inr (h, a, b)" "btb_inv b"
    "btb_data b = btb_data (u_btb u)" "btb_nways b = btb_nways (u_btb u)"
    "h \<Longrightarrow> \<exists>x. a = Some x \<and> btb_valid (u_btb u) x"
    using btb_probe_ok [OF inv(1), of pc] by metis
  have v: "h \<Longrightarrow> \<exists>x. a = Some x \<and> btb_valid b x" using b by (auto simp: btb_valid_def)
  obtain st where st: "bpu_ap_status u pc (pk_ap_probe_status p) h a b = Inr st"
    using bpu_ap_status_ok [OF inv(3) b(2) v] by blast
  show ?thesis using b st inv assms(2)
    by (auto simp: bpu_probe_def bpu_inv_def bpu_geom_def pkt_ok_def btb_valid_def)
qed

lemma bpu_get_target_ok:
  assumes "bpu_inv u" and "btb_valid (u_btb u) x"
  shows "\<exists>t. bpu_get_target u pc (Some x) = Inr t"
  using assms by (auto simp: bpu_get_target_def bpu_inv_def pred_inv_def btb_get_eq
      bht_get_prediction_ok ap_get_prediction_ok)

lemma bpu_add_pred_ok:
  assumes "pred_inv u"
  shows "\<exists>u'. bpu_add_pred u pc ty p = Inr u' \<and> pred_inv u' \<and> u_btb u' = u_btb u
    \<and> u_stats u' = u_stats u \<and> u_bpu_type u' = u_bpu_type u"
proof -
  consider h where "u_bpu_type u = BPU_TYPE_BIMODAL" "u_bht u = Some h" "bht_inv h"
    | a where "u_bpu_type u = BPU_TYPE_ADAPTIVE" "u_ap u = Some a" "ap_inv a"
    using assms by (auto simp: pred_inv_def)
  then show ?thesis
  proof cases
    case (1 h)
    then show ?thesis using assms by (simp add: bpu_add_pred_def bht_add_ok pred_inv_def)
  next
    case (2 a)
    then obtain a' where "adaptive_predictor_add a pc = Inr a'" "ap_inv a'" using ap_add_ok by blast
    then show ?thesis using 2 assms by (auto simp: bpu_add_pred_def pred_inv_def)
  qed
qed

lemma bpu_add_ok:
  assumes "bpu_inv u" and "priv < NUM_MAX_PRV_LEVELS"
  shows "\<exists>u' r'. bpu_add u r pc ty p priv fret = Inr (u', r') \<and> bpu_inv u' \<and> bpu_geom u' = bpu_geom u
    \<and> u_bpu_type u' = u_bpu_type u"
proof -
  have inv: "btb_inv (u_btb u)" "length (u_stats u) = 4" "pred_inv u"
    using assms(1) by (auto simp: bpu_inv_def)
  obtain pos b r' where b: "btb_add (u_btb u) r pc ty = Inr (b, r')" "btb_inv b"
    "length (btb_data b) = length (btb_data (u_btb u))" "btb_nways b = btb_nways (u_btb u)"
    using btb_add_ok [OF inv(1), of r pc ty] by auto
  let ?u = "u\<lparr>u_btb := b, u_stats := (u_stats u)[priv := btb_inserts_update (\<lambda>c. c + 1) (u_stats u ! priv)]\<rparr>"
  obtain u1 where "bpu_add_pred ?u pc ty p = Inr u1" "pred_inv u1" "u_btb u1 = b"
    "u_stats u1 = u_stats ?u" "u_bpu_type u1 = u_bpu_type u"
    using bpu_add_pred_ok [of ?u pc ty p] inv(3) by auto
  moreover obtain u2 where "bpu_add_pred u pc ty p = Inr u2" "pred_inv u2" "u_btb u2 = u_btb u"
    "u_stats u2 = u_stats u" "u_bpu_type u2 = u_bpu_type u"
    using bpu_add_pred_ok [OF inv(3)] by blast
  ultimately show ?thesis using b inv assms by (auto simp: bpu_add_def bpu_inv_def bpu_geom_def)
qed

lemma bpu_update_pred_ok:
  assumes "pred_inv u"
  shows "\<exists>u'. bpu_update_pred u pc t ty p = Inr u' \<and> pred_inv u' \<and> u_btb u' = u_btb u
    \<and> u_stats u' = u_stats u \<and> u_bpu_type u' = u_bpu_type u"
proof -
  consider h where "u_bpu_type u = BPU_TYPE_BIMODAL" "u_bht u = Some h" "bht_inv h"
    | a where "u_bpu_type u = BPU_TYPE_ADAPTIVE" "u_ap u = Some a" "ap_inv a"
    using assms by (auto simp: pred_inv_def)
  then show ?thesis
  proof cases
    case (1 h)
    then show ?thesis using assms by (simp add: bpu_update_pred_def bht_update_ok pred_inv_def)
  next
    case (2 a)
    then show ?thesis using assms ap_update_ok [of a pc t] by (auto simp: bpu_update_pred_def pred_inv_def)
  qed
qed

lemma bpu_update_ok:
  assumes "bpu_inv u" and "priv < NUM_MAX_PRV_LEVELS" and "pkt_ok (bpu_geom u) p"
  shows "\<exists>u'. bpu_update u pc tgt t ty p priv = Inr u' \<and> bpu_inv u' \<and> bpu_geom u' = bpu_geom u
    \<and> u_bpu_type u' = u_bpu_type u"
proof (cases "pk_btb_probe_status p")
  case True
  have inv: "btb_inv (u_btb u)" "length (u_stats u) = 4" "pred_inv u"
    using assms(1) by (auto simp: bpu_inv_def)
  obtain x where x: "pk_btb_entry p = Some x" "btb_valid (u_btb u) x"
    using pkt_ok_valid [OF assms(3) True] by blast
  obtain b where b: "btb_update (u_btb u) x tgt ty = Inr b" "btb_inv b"
    "length (btb_data b) = length (btb_data (u_btb u))" "btb_nways b = btb_nways (u_btb u)"
    using btb_update_ok [OF inv(1) x(2), of tgt ty] by auto
  let ?u = "u\<lparr>u_btb := b, u_stats := (u_stats u)[priv := btb_updates_update (\<lambda>c. c + 1) (u_stats u ! priv)]\<rparr>"
  obtain u1 where "bpu_update_pred ?u pc t ty p = Inr u1" "pred_inv u1" "u_btb u1 = b"
    "u_stats u1 = u_stats ?u" "u_bpu_type u1 = u_bpu_type u"
    using bpu_update_pred_ok [of ?u pc t ty p] inv(3) by auto
  then show ?thesis using True x b inv assms by (auto simp: bpu_update_def bpu_inv_def bpu_geom_def)
next
  case False
  then show ?thesis using assms bpu_update_pred_ok [of u pc t ty p]
    by (auto simp: bpu_update_def bpu_inv_def bpu_geom_def)
qed

lemma bpu_flush_ok:
  assumes "bpu_inv u"
  shows "\<exists>u'. bpu_flush u = Inr u' \<and> bpu_inv u' \<and> bpu_geom u' = bpu_geom u"
proof -
  have inv: "btb_inv (u_btb u)" "pred_inv u" "length (u_stats u) = 4" using assms by (auto simp: bpu_inv_def)
  obtain b where b: "btb_flush (u_btb u) = Inr b" "btb_inv b"
    "length (btb_data b) = length (btb_data (u_btb u))" "btb_nways b = btb_nways (u_btb u)"
    using btb_flush_ok [OF inv(1)] by auto
  consider h where "u_bpu_type u = BPU_TYPE_BIMODAL" "u_bht u = Some h" "bht_inv h"
    | a where "u_bpu_type u = BPU_TYPE_ADAPTIVE" "u_ap u = Some a" "ap_inv a"
    using inv(2) by (auto simp: pred_inv_def)
  then show ?thesis
  proof cases
    case (1 h)
    then show ?thesis using b inv ras_inv_flush bht_flush_ok [of h]
      by (auto simp: bpu_flush_def bpu_inv_def pred_inv_def bpu_geom_def)
  next
    case (2 a)
    then obtain a' where "adaptive_predictor_flush a = Inr a'" "ap_inv a'" using ap_flush_ok by blast
    then show ?thesis using 2 b inv ras_inv_flush
      by (auto simp: bpu_flush_def bpu_inv_def pred_inv_def bpu_geom_def)
  qed
qed

definition bpu_params_ok :: "SimParams \<Rightarrow> bool" where
  "bpu_params_ok p \<longleftrightarrow> btb_params_ok p \<and> 0 \<le> ras_size p
     \<and> (bpu_type p = BPU_TYPE_BIMODAL \<and> 0 < bht_size p \<and> is_pow2 (nat (bht_size p))
        \<or> bpu_type p = BPU_TYPE_ADAPTIVE \<and> ap_params_ok p)"

lemma bpu_init_ok:
  assumes "bpu_params_ok p" and "length s = NUM_MAX_PRV_LEVELS"
  shows "\<exists>u. bpu_init p s = Inr u \<and> bpu_inv u \<and> u_bpu_type u = bpu_type p"
proof -
  obtain b where b: "btb_init p = Inr b" "btb_inv b"
    using btb_init_ok assms(1) by (auto simp: bpu_params_ok_def)
  obtain r where r: "(if ras_size p \<noteq> 0 then bindR (ras_init p) (\<lambda>r. Inr (Some r)) else Inr None) = Inr r"
    "\<forall>x. r = Some x \<longrightarrow> ras_inv x"
    using ras_init_ok [of p] assms(1) by (cases "ras_size p = 0") (auto simp: bpu_params_ok_def)
  show ?thesis
    using b r assms bht_init_ok [of p] ap_init_ok [of p]
    by (auto simp: bpu_init_def bpu_inv_def pred_inv_def bpu_params_ok_def)
qed

section \<open>Reachable states\<close>

text \<open>
  A run of the unit: probes at any address and privilege level, additions and updates with any packet a
  probe returned earlier (an instruction keeps its packet while others execute),
  flushes, and the pushes and pops of the decode stage. The second argument
  collects the packets handed out.
\<close>

inductive bpu_reach :: "BranchPredUnit \<Rightarrow> BranchPredUnit \<Rightarrow> BPUResponsePkt set \<Rightarrow> bool" for u0 where
  start: "bpu_reach u0 u0 {}"
| probe: "bpu_reach u0 u ps \<Longrightarrow> priv < NUM_MAX_PRV_LEVELS \<Longrightarrow> bpu_probe u pc p priv = Inr (p', u')
    \<Longrightarrow> bpu_reach u0 u' (insert p' ps)"
| add: "bpu_reach u0 u ps \<Longrightarrow> priv < NUM_MAX_PRV_LEVELS \<Longrightarrow> p \<in> ps
    \<Longrightarrow> bpu_add u r pc ty p priv fret = Inr (u', r') \<Longrightarrow> bpu_reach u0 u' ps"
| update: "bpu_reach u0 u ps \<Longrightarrow> priv < NUM_MAX_PRV_LEVELS \<Longrightarrow> p \<in> ps
    \<Longrightarrow> bpu_update u pc tgt t ty p priv = Inr u' \<Longrightarrow> bpu_reach u0 u' ps"
| flush: "bpu_reach u0 u ps \<Longrightarrow> bpu_flush u = Inr u' \<Longrightarrow> bpu_reach u0 u' ps"
| push: "bpu_reach u0 u ps \<Longrightarrow> u_ras u = Some r \<Longrightarrow> ras_push r pc = Inr r'
    \<Longrightarrow> bpu_reach u0 (u\<lparr>u_ras := Some r'\<rparr>) ps"
| pop: "bpu_reach u0 u ps \<Longrightarrow> u_ras u = Some r \<Longrightarrow> ras_pop r = Inr (v, r')
    \<Longrightarrow> bpu_reach u0 (u\<lparr>u_ras := Some r'\<rparr>) ps"

lemma bpu_inv_ras:
  "bpu_inv u \<Longrightarrow> ras_inv r \<Longrightarrow> bpu_inv (u\<lparr>u_ras := Some r\<rparr>) \<and> bpu_geom (u\<lparr>u_ras := Some r\<rparr>) = bpu_geom u"
  by (auto simp: bpu_inv_def pred_inv_def bpu_geom_def)

lemma bpu_inv_ras_inv: "bpu_inv u \<Longrightarrow> u_ras u = Some r \<Longrightarrow> ras_inv r"
  by (simp add: bpu_inv_def pred_inv_def)

lemma bpu_reach_inv:
  "bpu_reach u0 u ps \<Longrightarrow> bpu_inv u0 \<Longrightarrow> bpu_inv u \<and> bpu_geom u = bpu_geom u0 \<and> (\<forall>p\<in>ps. pkt_ok (bpu_geom u0) p)"
proof (induction rule: bpu_reach.induct)
  case (probe u ps priv pc p p' u')
  then show ?case using bpu_probe_ok [of u priv pc p] by auto
next
  case (add u ps priv p r pc ty fret u' r')
  then show ?case using bpu_add_ok [of u priv r pc ty p fret] by auto
next
  case (update u ps priv p pc tgt t ty u')
  then show ?case using bpu_update_ok [of u priv p pc tgt t ty] by auto
next
  case (flush u ps u')
  then show ?case using bpu_flush_ok [of u] by auto
next
  case (push u ps r pc r')
  then show ?case using ras_inv_push [of r pc] bpu_inv_ras_inv bpu_inv_ras by fastforce
next
  case (pop u ps r v r')
  then show ?case using ras_inv_pop [of r] bpu_inv_ras_inv bpu_inv_ras by fastforce
qed simp

section \<open>Properties\<close>

text \<open>
  (C8) Safety: a unit created from parameters that pass validation, with a power of
  two of sets, at most 63 ways under bit-PLRU, at most 30 history bits and known
  policy and aliasing codes, never fails. After any run, every probe, addition,
  update (also with a packet of a branch whose entry was reallocated since),
  flush, push and pop succeeds, and a hit yields a target: no assertion fails, no
  array is left, no null pointer is followed.
\<close>

theorem bpu_never_fails:
  assumes "sim_params_validate q = Inr p" and "enable_bpu q \<noteq> 0"
    and "is_pow2 (nat (btb_size q div btb_ways q))" and "0 \<le> ras_size q"
    and "btb_eviction_policy q = EVICT_POLICY_RANDOM \<or> btb_eviction_policy q = EVICT_POLICY_BIT_PLRU \<and> btb_ways q < 64"
    and "bpu_history_bits q < 31" and "bpu_aliasing_func_type q \<in> {0, 1, 2}"
    and "bpu_init p s = Inr u0" and "length s = 4" and "bpu_reach u0 u ps" and "priv < 4"
  shows "(\<forall>pc pk. \<exists>pk' u'. bpu_probe u pc pk priv = Inr (pk', u'))
    \<and> (\<forall>pk\<in>ps. \<forall>pc. (\<forall>r ty f. \<exists>u' r'. bpu_add u r pc ty pk priv f = Inr (u', r'))
        \<and> (\<forall>tgt t ty. \<exists>u'. bpu_update u pc tgt t ty pk priv = Inr u')
        \<and> (pk_bpu_probe_status pk \<longrightarrow> (\<exists>t. bpu_get_target u pc (pk_btb_entry pk) = Inr t)))
    \<and> (\<exists>u'. bpu_flush u = Inr u')
    \<and> (\<forall>r. u_ras u = Some r \<longrightarrow> (\<forall>pc. \<exists>r'. ras_push r pc = Inr r') \<and> (\<exists>v r'. ras_pop r = Inr (v, r')))"
proof -
  have p: "p = q\<lparr>sim_trace_file := trace_file_name q\<rparr>" by (rule validated(6) [OF assms(1)])
  have "bpu_params_ok p"
    using validated_bpu [OF assms(1,2)] assms(3-7)
    by (auto simp: bpu_params_ok_def btb_params_ok_def ap_params_ok_def p)
  then have "bpu_inv u0" using bpu_init_ok [of p s] assms(8,9) by auto
  then have u: "bpu_inv u" "\<forall>pk\<in>ps. pkt_ok (bpu_geom u) pk" using bpu_reach_inv [OF assms(10)] by auto
  have "\<exists>t. bpu_get_target u pc (pk_btb_entry pk) = Inr t" if "pk \<in> ps" "pk_bpu_probe_status pk" for pk pc
    using pkt_ok_valid [of u pk] bpu_get_target_ok [OF u(1)] that u(2) by (auto simp: pkt_ok_def)
  moreover have "\<exists>pk' u'. bpu_probe u pc pk priv = Inr (pk', u')" for pc pk
    using bpu_probe_ok [OF u(1) assms(11)] by metis
  moreover have "\<exists>u' r'. bpu_add u r pc ty pk priv f = Inr (u', r')" for r pc ty pk f
    using bpu_add_ok [OF u(1) assms(11)] by metis
  moreover have "\<exists>u'. bpu_update u pc tgt t ty pk priv = Inr u'" if "pk \<in> ps" for pc tgt t ty pk
    using bpu_update_ok [OF u(1) assms(11)] u(2) that by metis
  moreover have "(\<forall>pc. \<exists>r'. ras_push r pc = Inr r') \<and> (\<exists>v r'. ras_pop r = Inr (v, r'))"
    if "u_ras u = Some r" for r
    using ras_inv_push ras_inv_pop bpu_inv_ras_inv [OF u(1) that] by metis
  ultimately show ?thesis using bpu_flush_ok [OF u(1)] by metis
qed

lemma pow2_256: "is_pow2 256"
  using is_pow2_power [of 8] by simp

theorem bpu_never_fails_witness:
  "\<exists>p u0. sim_params_validate sim_params_init = Inr p \<and> bpu_init p (replicate 4 zero_stats) = Inr u0
     \<and> (\<forall>pc pk. \<exists>pk' u'. bpu_probe u0 pc pk 3 = Inr (pk', u')) \<and> (\<exists>u'. bpu_flush u0 = Inr u')"
proof -
  let ?q = sim_params_init and ?s = "replicate 4 zero_stats"
  let ?p = "sim_params_init\<lparr>sim_trace_file := ''./sim.trace''\<rparr>"
  have "bpu_params_ok ?p"
    using pow2_256 by (simp add: bpu_params_ok_def btb_params_ok_def sim_params_init_bpu)
  then obtain u0 where u0: "bpu_init ?p ?s = Inr u0" using bpu_init_ok [of ?p ?s] by auto
  have pre: "enable_bpu ?q \<noteq> 0" "is_pow2 (nat (btb_size ?q div btb_ways ?q))" "0 \<le> ras_size ?q"
    "btb_eviction_policy ?q = EVICT_POLICY_RANDOM \<or> btb_eviction_policy ?q = EVICT_POLICY_BIT_PLRU \<and> btb_ways ?q < 64"
    "bpu_history_bits ?q < 31" "bpu_aliasing_func_type ?q \<in> {0, 1, 2}" "length ?s = 4"
    using pow2_256 by (simp_all add: sim_params_init_bpu)
  have "(\<forall>pc pk. \<exists>pk' u'. bpu_probe u0 pc pk 3 = Inr (pk', u')) \<and> (\<exists>u'. bpu_flush u0 = Inr u')"
    using bpu_never_fails [OF sim_params_init_validates pre(1-6) u0 pre(7) bpu_reach.start, of 3] by simp
  then show ?thesis using u0 sim_params_init_validates by blast
qed

section \<open>Training\<close>

text \<open>The way a branch occupies when no other way of its set holds its address.\<close>

definition btb_at :: "BranchTargetBuffer \<Rightarrow> target_ulong \<Rightarrow> nat \<Rightarrow> bool" where
  "btb_at b pc j \<longleftrightarrow> j < btb_nways b \<and> (\<forall>i<btb_nways b. be_pc (btb_data b ! btb_set_addr b pc ! i) = pc \<longleftrightarrow> i = j)"

lemma btb_probe_at:
  assumes "btb_inv b" and "btb_at b pc j"
  obtains b' where "btb_probe b pc = Inr (BPU_HIT, Some (btb_set_addr b pc, j), b')" and "btb_inv b'"
    and "btb_at b' pc j" and "btb_data b' = btb_data b" and "btb_set_addr b' pc = btb_set_addr b pc"
proof -
  obtain h a b' where b': "btb_probe b pc = Inr (h, a, b')" "btb_inv b'" "btb_data b' = btb_data b"
    "btb_nways b' = btb_nways b" "btb_set_bits b' = btb_set_bits b"
    "h \<Longrightarrow> \<exists>x. a = Some x \<and> btb_valid b x \<and> fst x = btb_set_addr b pc \<and> be_pc (btb_data b ! fst x ! snd x) = pc"
    "\<not> h \<Longrightarrow> \<forall>j<btb_nways b. be_pc (btb_data b ! btb_set_addr b pc ! j) \<noteq> pc"
    using btb_probe_ok [OF assms(1), of pc] by metis
  have h: "h" using b'(7) assms(2) by (auto simp: btb_at_def)
  then obtain x where "a = Some x" "x = (btb_set_addr b pc, j)"
    using b'(6) assms(2) by (force simp: btb_at_def btb_valid_def)
  then show thesis using that [of b'] b' h assms(2) btb_set_addr_cong [OF b'(5)] by (simp add: btb_at_def)
qed

lemma btb_add_at:
  assumes "btb_inv b" and "btb_probe b pc = Inr (BPU_MISS, a, b1)"
  obtains b2 r2 j where "btb_add b r pc ty = Inr (b2, r2)" and "btb_inv b2" and "btb_at b2 pc j"
    and "btb_set_addr b2 pc = btb_set_addr b pc" and "btb_set_addr b pc < length (btb_data b2)"
proof -
  let ?s = "btb_set_addr b pc" and ?e = "\<lparr>be_pc = pc, be_target = 0, be_type = ty\<rparr>"
  have miss: "\<forall>j<btb_nways b. be_pc (btb_data b ! ?s ! j) \<noteq> pc"
    using btb_probe_ok [OF assms(1), of pc] assms(2) by auto
  obtain pos b2 r2 where b2: "btb_add b r pc ty = Inr (b2, r2)" "btb_inv b2" "pos < btb_nways b"
    "btb_nways b2 = btb_nways b" "btb_set_bits b2 = btb_set_bits b"
    "btb_data b2 = (btb_data b)[?s := (btb_data b ! ?s)[pos := ?e]]"
    using btb_add_ok [OF assms(1), of r pc ty] by auto
  have s: "?s < length (btb_data b)" "length (btb_data b ! ?s) = btb_nways b"
    using assms(1) btb_set_addr_less btb_row_length by auto
  have "btb_at b2 pc pos"
    using b2 s miss btb_set_addr_cong [OF b2(5), of pc] by (auto simp: btb_at_def nth_list_update)
  then show thesis using that b2 s btb_set_addr_cong [OF b2(5), of pc] by simp
qed

lemma btb_update_at:
  assumes "btb_inv b" and "btb_at b pc j"
  obtains b' where "btb_update b (btb_set_addr b pc, j) tgt ty = Inr b'" and "btb_inv b'" and "btb_at b' pc j"
    and "btb_get b' (btb_set_addr b' pc, j) = Inr \<lparr>be_pc = pc, be_target = tgt, be_type = ty\<rparr>"
proof -
  let ?s = "btb_set_addr b pc"
  have s: "?s < length (btb_data b)" "length (btb_data b ! ?s) = btb_nways b" "j < btb_nways b"
    "be_pc (btb_data b ! ?s ! j) = pc"
    using assms btb_set_addr_less btb_row_length by (auto simp: btb_at_def)
  then have v: "btb_valid b (?s, j)" by (simp add: btb_valid_def)
  obtain b' where b': "btb_update b (?s, j) tgt ty = Inr b'" "btb_inv b'"
    "btb_evict_policy b' = btb_evict_policy b" "btb_set_bits b' = btb_set_bits b"
    "btb_data b' = (btb_data b)[?s := (btb_data b ! ?s)[j := (btb_data b ! ?s ! j)\<lparr>be_target := tgt, be_type := ty\<rparr>]]"
    using btb_update_ok [OF assms(1) v, of tgt ty] by auto
  have s': "btb_set_addr b' pc = ?s" using b'(4) by (rule btb_set_addr_cong)
  have "btb_at b' pc j" using assms(2) b' s s' by (auto simp: btb_at_def nth_list_update)
  moreover have "btb_get b' (?s, j) = Inr \<lparr>be_pc = pc, be_target = tgt, be_type = ty\<rparr>"
    using b' s by (simp add: btb_get_def)
  ultimately show thesis using that b' s' by simp
qed

lemma bpu_probe_at:
  assumes "bpu_inv u" and "priv < NUM_MAX_PRV_LEVELS" and "btb_at (u_btb u) pc j"
  obtains p' u' where "bpu_probe u pc p priv = Inr (p', u')" and "bpu_inv u'" and "btb_at (u_btb u') pc j"
    and "pk_btb_probe_status p'" and "pk_btb_entry p' = Some (btb_set_addr (u_btb u') pc, j)"
    and "btb_data (u_btb u') = btb_data (u_btb u)" and "btb_set_addr (u_btb u') pc = btb_set_addr (u_btb u) pc"
    and "u_bht u' = u_bht u" and "u_bpu_type u' = u_bpu_type u" and "pkt_ok (bpu_geom u') p'"
    and "u_bpu_type u = BPU_TYPE_BIMODAL
      \<or> be_type (btb_data (u_btb u) ! btb_set_addr (u_btb u) pc ! j) = BRANCH_UNCOND \<Longrightarrow> pk_bpu_probe_status p'"
proof -
  have b: "btb_inv (u_btb u)" using assms(1) by (simp add: bpu_inv_def)
  obtain b' where b': "btb_probe (u_btb u) pc = Inr (BPU_HIT, Some (btb_set_addr (u_btb u) pc, j), b')"
    "btb_inv b'" "btb_at b' pc j" "btb_data b' = btb_data (u_btb u)"
    "btb_set_addr b' pc = btb_set_addr (u_btb u) pc"
    using btb_probe_at [OF b assms(3)] by blast
  obtain p' u' where p': "bpu_probe u pc p priv = Inr (p', u')" "bpu_inv u'" "bpu_geom u' = bpu_geom u"
    "pkt_ok (bpu_geom u) p'" "u_bpu_type u' = u_bpu_type u" "u_bht u' = u_bht u" "u_ap u' = u_ap u"
    "btb_probe (u_btb u) pc = Inr (pk_btb_probe_status p', pk_btb_entry p', u_btb u')"
    "bpu_ap_status u pc (pk_ap_probe_status p) (pk_btb_probe_status p') (pk_btb_entry p') (u_btb u')
        = Inr (pk_ap_probe_status p')"
    "pk_bpu_probe_status p' = (pk_btb_probe_status p' \<and> pk_ap_probe_status p')"
    using bpu_probe_ok [OF assms(1,2), of pc p] by auto
  have e: "pk_btb_probe_status p'" "pk_btb_entry p' = Some (btb_set_addr (u_btb u') pc, j)" "u_btb u' = b'"
    using p'(8) b' by auto
  have g: "btb_get b' (btb_set_addr b' pc, j) = Inr (btb_data (u_btb u) ! btb_set_addr (u_btb u) pc ! j)"
    using b' btb_set_addr_less [OF b'(2), of pc] by (auto simp: btb_get_eq btb_valid_def btb_at_def)
  have "pk_ap_probe_status p'" if "u_bpu_type u = BPU_TYPE_BIMODAL
      \<or> be_type (btb_data (u_btb u) ! btb_set_addr (u_btb u) pc ! j) = BRANCH_UNCOND"
    using p'(9) assms(1) that e g
    by (auto simp: bpu_ap_status_def bpu_inv_def pred_inv_def bindR_eq_Inr_iff)
  then show thesis using that p' e b' by auto
qed

lemma bpu_add_trains:
  assumes "bpu_inv u" and "priv < NUM_MAX_PRV_LEVELS" and "\<not> pk_btb_probe_status p"
    and "btb_probe (u_btb u) pc = Inr (BPU_MISS, a, b1)" and "u_ras u = None \<or> \<not> fret"
  obtains u' r' j where "bpu_add u r pc ty p priv fret = Inr (u', r')" and "bpu_inv u'"
    and "btb_at (u_btb u') pc j" and "u_bpu_type u' = u_bpu_type u"
    and "ty = BRANCH_COND \<and> u_bpu_type u = BPU_TYPE_BIMODAL
      \<Longrightarrow> \<exists>h. u_bht u' = Some h \<and> bht_inv h \<and> bht_entry h ! bht_idx h pc = 1"
proof -
  have inv: "btb_inv (u_btb u)" "length (u_stats u) = 4" "pred_inv u" using assms(1) by (auto simp: bpu_inv_def)
  obtain b r' j where b: "btb_add (u_btb u) r pc ty = Inr (b, r')" "btb_at b pc j"
    using btb_add_at [OF inv(1) assms(4)] by blast
  obtain u' where u': "bpu_add u r pc ty p priv fret = Inr (u', r')" "bpu_inv u'" "u_bpu_type u' = u_bpu_type u"
    using bpu_add_ok [OF assms(1,2), of r pc ty p fret] b assms(3,5)
    by (auto simp: bpu_add_def bindR_eq_Inr_iff)
  let ?u = "u\<lparr>u_btb := b, u_stats := (u_stats u)[priv := btb_inserts_update (\<lambda>c. c + 1) (u_stats u ! priv)]\<rparr>"
  have step: "bpu_add_pred ?u pc ty p = Inr u'"
    using u'(1) b assms inv by (auto simp: bpu_add_def bindR_eq_Inr_iff)
  then have "u_btb u' = b" using bpu_add_pred_ok [of ?u pc ty p] inv(3) by auto
  moreover have "\<exists>h. u_bht u' = Some h \<and> bht_inv h \<and> bht_entry h ! bht_idx h pc = 1"
    if "ty = BRANCH_COND \<and> u_bpu_type u = BPU_TYPE_BIMODAL"
    using step inv(3) that by (auto simp: bpu_add_pred_def pred_inv_def bht_add_ok)
  ultimately show thesis using that u' b by blast
qed

lemma bpu_update_trains:
  assumes "bpu_inv u" and "priv < NUM_MAX_PRV_LEVELS" and "pkt_ok (bpu_geom u) p" and "btb_at (u_btb u) pc j"
    and "pk_btb_probe_status p" and "pk_btb_entry p = Some (btb_set_addr (u_btb u) pc, j)"
  obtains u' where "bpu_update u pc tgt t ty p priv = Inr u'" and "bpu_inv u'" and "btb_at (u_btb u') pc j"
    and "btb_get (u_btb u') (btb_set_addr (u_btb u') pc, j) = Inr \<lparr>be_pc = pc, be_target = tgt, be_type = ty\<rparr>"
    and "u_bpu_type u' = u_bpu_type u"
    and "\<And>h. ty = BRANCH_COND \<Longrightarrow> u_bpu_type u = BPU_TYPE_BIMODAL \<Longrightarrow> u_bht u = Some h \<Longrightarrow> bht_inv h \<Longrightarrow>
      \<exists>h'. u_bht u' = Some h' \<and> bht_inv h'
        \<and> bht_entry h' ! bht_idx h' pc = update_two_bit_counter (bht_entry h ! bht_idx h pc) t"
proof -
  have inv: "btb_inv (u_btb u)" "length (u_stats u) = 4" "pred_inv u" using assms(1) by (auto simp: bpu_inv_def)
  obtain b where b: "btb_update (u_btb u) (btb_set_addr (u_btb u) pc, j) tgt ty = Inr b" "btb_inv b" "btb_at b pc j"
    "btb_get b (btb_set_addr b pc, j) = Inr \<lparr>be_pc = pc, be_target = tgt, be_type = ty\<rparr>"
    using btb_update_at [OF inv(1) assms(4)] by blast
  obtain u' where u': "bpu_update u pc tgt t ty p priv = Inr u'" "bpu_inv u'" "u_bpu_type u' = u_bpu_type u"
    using bpu_update_ok [OF assms(1-3)] by blast
  let ?u = "u\<lparr>u_btb := b, u_stats := (u_stats u)[priv := btb_updates_update (\<lambda>c. c + 1) (u_stats u ! priv)]\<rparr>"
  have step: "bpu_update_pred ?u pc t ty p = Inr u'"
    using u'(1) b assms inv by (auto simp: bpu_update_def bindR_eq_Inr_iff)
  then have "u_btb u' = b" using bpu_update_pred_ok [of ?u pc t ty p] inv(3) by auto
  moreover have "\<exists>h'. u_bht u' = Some h' \<and> bht_inv h'
      \<and> bht_entry h' ! bht_idx h' pc = update_two_bit_counter (bht_entry h ! bht_idx h pc) t"
    if "ty = BRANCH_COND" "u_bpu_type u = BPU_TYPE_BIMODAL" "u_bht u = Some h" "bht_inv h" for h
    using step that by (auto simp: bpu_update_pred_def bht_update_ok)
  ultimately show thesis using that u' b by blast
qed


definition small_bpu_params :: SimParams where
  "small_bpu_params = small_btb_params\<lparr>bht_size := 2\<rparr>"

abbreviation zero_pkt :: BPUResponsePkt where
  "zero_pkt \<equiv> \<lparr>pk_btb_probe_status = False, pk_ap_probe_status = False, pk_bpu_probe_status = False,
     pk_btb_entry = None\<rparr>"

lemma small_bpu_ok: "bpu_params_ok small_bpu_params"
  using small_btb_ok by (simp add: bpu_params_ok_def small_bpu_params_def btb_params_ok_def
      small_btb_params_def zero_params_def)


definition wide_history_params :: SimParams where
  "wide_history_params = sim_params_init\<lparr>bpu_type := BPU_TYPE_ADAPTIVE, bpu_history_bits := 32\<rparr>"

text \<open>
  (C32) Error: validation bounds the history bits from below only. With 32 of them
  the configuration is accepted and creating the predictor shifts a 32-bit 1 by
  32 places, which is undefined.
\<close>

theorem bpu_validated_undefined_shift:
  "\<exists>p. sim_params_validate wide_history_params = Inr p \<and> bpu_init p s = Inl Undefined_shift"
proof -
  let ?p = "wide_history_params\<lparr>sim_trace_file := ''./sim.trace''\<rparr>"
  have "sim_params_validate wide_history_params = Inr ?p"
    by (simp add: wide_history_params_def param_defs)
  moreover have "bpu_init ?p s = Inl Undefined_shift"
    by (simp add: bpu_init_def btb_init_def adaptive_predictor_init_def wide_history_params_def
        sim_params_init_def sim_params_set_defaults_def sdiv_nonneg)
  ultimately show ?thesis by blast
qed

end
