(* ===== verification/Dram.thy ===== *)
theory Dram
  imports Sim_Params "HOL-Library.Multiset"
begin

text \<open>
  The timing model of the memory in \<^verbatim>\<open>memory_hierarchy/dram.c\<close> with the entry and queue
  types of \<^verbatim>\<open>memory_controller_utils.h\<close>. One request is active at a time; it takes a
  number of cycles that the base model computes and that the external simulators
  (DRAMsim3, Ramulator, AiMulator, reached through C++ wrappers) return. Those
  simulators are a stream of results given as an argument.

  The stage queues, which the controller owns and the \<^verbatim>\<open>Dram\<close> struct points to, are
  passed as \<open>MemQueues\<close>; the pointer \<^verbatim>\<open>active_mem_request\<close> is an index of the array of
  the request queue, passed as \<open>reqs\<close>.
\<close>

section \<open>The code\<close>

text \<open>\<open>MEM_ACCESS_NONE\<close> is the value -1, which \<^verbatim>\<open>memory_hierarchy.c\<close> leaves for an unknown instruction.\<close>

datatype MemAccessType =
    MEM_ACCESS_READ | MEM_ACCESS_WRITE
  | AIM_MAC_SBK | AIM_AF_SBK | AIM_COPY_BKGB | AIM_COPY_GBBK
  | AIM_MAC_4BK_INTRA_BG | AIM_AF_4BK_INTRA_BG | AIM_EWMUL | AIM_EWADD
  | AIM_MAC_ABK | AIM_AF_ABK | AIM_WR_AFLUT | AIM_WR_BK
  | AIM_WR_GB | AIM_WR_MAC | AIM_WR_BIAS | AIM_RD_MAC | AIM_RD_AF
  | MEM_ACCESS_NONE

record PendingMemAccessEntry =
  me_valid :: bool
  me_start_access :: bool
  me_access_size_bytes :: int
  me_addr :: target_ulong
  me_req_addr :: target_ulong
  me_req_pte :: target_ulong
  me_stage_queue_index :: int
  me_stage_queue_type :: int
  me_type :: MemAccessType

record StageMemAccessQueue =
  sq_cur_idx :: int
  sq_max_size :: int
  sq_cur_size :: int
  sq_entry :: "PendingMemAccessEntry list"

record MemQueues =
  mq_frontend :: StageMemAccessQueue
  mq_backend :: StageMemAccessQueue
  mq_aim :: StageMemAccessQueue

record Dram =
  dr_model_type :: int
  dr_active :: bool
  dr_elapsed :: int
  dr_max_clock_cycles :: int
  dr_active_request :: "nat option"
  dr_last_page :: u64
  dr_latency :: int

type_synonym ext_state = "nat \<times> (nat \<Rightarrow> int)"

definition LLC_TO_MEM_CONTROLLER_DELAY :: int where
  "LLC_TO_MEM_CONTROLLER_DELAY = 3"

text \<open>
  \<^verbatim>\<open>max_clock_cycles *= 0.6\<close> multiplies in double precision and truncates. The double
  nearest to 0.6 differs from it by less than one part in \<open>2 ^ 54\<close>; for a nonnegative
  \<^verbatim>\<open>int\<close> the rounded product is the integer \<open>3 n / 5\<close> when 5 divides \<open>n\<close>, and otherwise stays
  at least 0.19 away from an integer, so the result is \<open>3 n div 5\<close>.
\<close>

definition scale_06 :: "int \<Rightarrow> int" where
  "scale_06 n = (3 * n) sdiv 5"

definition base_dram_model_get_max_clock_cycles :: "Dram \<Rightarrow> PendingMemAccessEntry \<Rightarrow> int \<times> Dram" where
  "base_dram_model_get_max_clock_cycles d e =
     (let current_page_num = drop_bit 12 (me_addr e)
      in if dr_last_page d = current_page_num then (scale_06 (dr_latency d), d)
         else (dr_latency d, d\<lparr>dr_last_page := current_page_num\<rparr>))"

definition get_max_clock_cycles_for_request ::
  "Dram \<Rightarrow> PendingMemAccessEntry \<Rightarrow> ext_state \<Rightarrow> sim_error + int \<times> Dram \<times> ext_state" where
  "get_max_clock_cycles_for_request d e x =
     (if dr_model_type d = MEM_MODEL_BASE
      then (let (n, d') = base_dram_model_get_max_clock_cycles d e in Inr (n, d', x))
      else if dr_model_type d \<in> {MEM_MODEL_DRAMSIM, MEM_MODEL_RAMULATOR, MEM_MODEL_AIMULATOR}
      then Inr (snd x (fst x), d, (Suc (fst x), snd x))
      else Inl Null_pointer)"

text \<open>
  The loop of the callbacks: the first entry in use that meets the condition is
  invalidated and no longer counted.
\<close>

function complete_scan ::
  "(PendingMemAccessEntry \<Rightarrow> bool) \<Rightarrow> StageMemAccessQueue \<Rightarrow> nat \<Rightarrow> sim_error + StageMemAccessQueue option" where
  "complete_scan P q i =
     (if sq_cur_idx q \<le> int i then Inr None
      else bindR (aget (sq_entry q) i) (\<lambda>e.
        if P e
        then bindR (aset (sq_entry q) i (e\<lparr>me_valid := False\<rparr>)) (\<lambda>es.
               Inr (Some (q\<lparr>sq_entry := es, sq_cur_size := sq_cur_size q - 1\<rparr>)))
        else complete_scan P q (Suc i)))"
  by pat_completeness auto
termination
  by (relation "measure (\<lambda>(P, q, i). nat (sq_cur_idx q) - i)") auto

declare complete_scan.simps [simp del]

definition complete_either ::
  "(PendingMemAccessEntry \<Rightarrow> bool) \<Rightarrow> MemQueues \<Rightarrow> sim_error + MemQueues" where
  "complete_either P qs =
     bindR (complete_scan P (mq_frontend qs) 0) (\<lambda>r. case r of
       Some f \<Rightarrow> Inr (qs\<lparr>mq_frontend := f\<rparr>)
     | None \<Rightarrow> bindR (complete_scan P (mq_backend qs) 0) (\<lambda>r. case r of
         Some b \<Rightarrow> Inr (qs\<lparr>mq_backend := b\<rparr>)
       | None \<Rightarrow> Inr qs))"

definition complete_aim :: "(PendingMemAccessEntry \<Rightarrow> bool) \<Rightarrow> MemQueues \<Rightarrow> sim_error + MemQueues" where
  "complete_aim P qs =
     bindR (complete_scan P (mq_aim qs) 0) (\<lambda>r. case r of
       Some a \<Rightarrow> Inr (qs\<lparr>mq_aim := a\<rparr>)
     | None \<Rightarrow> Inr qs)"

definition read_complete_callback :: "target_ulong \<Rightarrow> MemQueues \<Rightarrow> sim_error + MemQueues" where
  "read_complete_callback addr =
     complete_either (\<lambda>e. me_valid e \<and> me_addr e = addr \<and> me_type e = MEM_ACCESS_READ)"

definition write_complete_callback :: "target_ulong \<Rightarrow> MemQueues \<Rightarrow> sim_error + MemQueues" where
  "write_complete_callback addr =
     complete_either (\<lambda>e. me_valid e \<and> me_addr e = addr \<and> me_type e = MEM_ACCESS_WRITE)"

definition aim_read_complete_callback :: "target_ulong \<Rightarrow> MemQueues \<Rightarrow> sim_error + MemQueues" where
  "aim_read_complete_callback addr =
     complete_aim (\<lambda>e. me_valid e \<and> me_addr e = addr \<and> (me_type e = AIM_RD_MAC \<or> me_type e = AIM_RD_AF))"

definition aim_write_complete_callback :: "target_ulong \<Rightarrow> MemQueues \<Rightarrow> sim_error + MemQueues" where
  "aim_write_complete_callback addr = complete_aim (\<lambda>e. me_valid e \<and> me_addr e = addr)"

definition dram_can_accept_request :: "Dram \<Rightarrow> bool" where
  "dram_can_accept_request d \<longleftrightarrow> \<not> dr_active d"

definition dram_send_request ::
  "Dram \<Rightarrow> MemQueues \<Rightarrow> PendingMemAccessEntry list \<Rightarrow> nat \<Rightarrow> ext_state \<Rightarrow> sim_error + Dram \<times> MemQueues \<times> ext_state" where
  "dram_send_request d qs reqs i x =
     bindR (aget reqs i) (\<lambda>e.
     bindR (get_max_clock_cycles_for_request d e x) (\<lambda>(n, d1, x').
     bindR (sim_assert (n \<noteq> 0)) (\<lambda>_.
     let n' = n + (if me_type e = MEM_ACCESS_READ then 2 * LLC_TO_MEM_CONTROLLER_DELAY
                   else LLC_TO_MEM_CONTROLLER_DELAY)
     in bindR (if me_type e = MEM_ACCESS_WRITE then write_complete_callback (me_addr e) qs
               else if me_type e \<noteq> MEM_ACCESS_READ then aim_write_complete_callback (me_addr e) qs
               else Inr qs) (\<lambda>qs'.
        Inr (d1\<lparr>dr_max_clock_cycles := n', dr_active_request := Some i, dr_active := True, dr_elapsed := 1\<rparr>,
             qs', x')))))"

definition dram_clock ::
  "Dram \<Rightarrow> MemQueues \<Rightarrow> PendingMemAccessEntry list
     \<Rightarrow> sim_error + bool \<times> Dram \<times> MemQueues \<times> PendingMemAccessEntry list" where
  "dram_clock d qs reqs =
     (if dr_active d
      then (if dr_elapsed d = dr_max_clock_cycles d
            then bindR (deref (dr_active_request d)) (\<lambda>i.
                 bindR (aget reqs i) (\<lambda>e.
                 bindR (if me_type e = MEM_ACCESS_READ then read_complete_callback (me_addr e) qs
                        else if me_type e = AIM_RD_MAC \<or> me_type e = AIM_RD_AF
                        then aim_read_complete_callback (me_addr e) qs
                        else Inr qs) (\<lambda>qs'.
                 bindR (aset reqs i (e\<lparr>me_valid := False\<rparr>)) (\<lambda>reqs'.
                   Inr (True, d\<lparr>dr_active := False, dr_max_clock_cycles := 0, dr_elapsed := 0\<rparr>, qs', reqs')))))
            else Inr (False, d\<lparr>dr_elapsed := dr_elapsed d + 1\<rparr>, qs, reqs))
      else Inr (False, d, qs, reqs))"

definition dram_reset :: "Dram \<Rightarrow> Dram" where
  "dram_reset d = d\<lparr>dr_elapsed := 0, dr_max_clock_cycles := 0, dr_active := False,
     dr_active_request := None, dr_last_page := 0\<rparr>"

definition dram_create :: "SimParams \<Rightarrow> Dram" where
  "dram_create p = dram_reset \<lparr>dr_model_type = dram_model_type p, dr_active = False, dr_elapsed = 0,
     dr_max_clock_cycles = 0, dr_active_request = None, dr_last_page = 0, dr_latency = mem_access_latency p\<rparr>"

section \<open>Stage queues\<close>

text \<open>
  A stage queue is well-formed when its entries in use are those below \<open>sq_cur_idx\<close>,
  and \<open>sq_cur_size\<close>, which the waiting pipeline stage compares with 0, counts the
  valid ones.
\<close>

definition sq_used :: "StageMemAccessQueue \<Rightarrow> PendingMemAccessEntry list" where
  "sq_used q = take (nat (sq_cur_idx q)) (sq_entry q)"

definition sq_inv :: "StageMemAccessQueue \<Rightarrow> bool" where
  "sq_inv q \<longleftrightarrow> 0 \<le> sq_cur_idx q \<and> sq_cur_idx q \<le> int (length (sq_entry q))
     \<and> sq_cur_size q = int (length (filter me_valid (sq_used q)))"

definition qs_inv :: "MemQueues \<Rightarrow> bool" where
  "qs_inv qs \<longleftrightarrow> sq_inv (mq_frontend qs) \<and> sq_inv (mq_backend qs) \<and> sq_inv (mq_aim qs)"

text \<open>Invalidating the first element that meets a condition, on lists.\<close>

fun drop_first :: "(PendingMemAccessEntry \<Rightarrow> bool) \<Rightarrow> PendingMemAccessEntry list \<Rightarrow> PendingMemAccessEntry list" where
  "drop_first P [] = []"
| "drop_first P (e # es) = (if P e then e\<lparr>me_valid := False\<rparr> # es else e # drop_first P es)"

lemma drop_first_append:
  "drop_first P (xs @ ys) = (if \<exists>x\<in>set xs. P x then drop_first P xs @ ys else xs @ drop_first P ys)"
  by (induction xs) auto

lemma drop_first_none: "\<forall>e\<in>set es. \<not> P e \<Longrightarrow> drop_first P es = es"
  by (induction es) auto

lemma length_drop_first [simp]: "length (drop_first P es) = length es"
  by (induction es) auto

lemma filter_drop_first:
  "(\<And>e. P e \<Longrightarrow> me_valid e) \<Longrightarrow> \<exists>e\<in>set es. P e \<Longrightarrow>
     Suc (length (filter me_valid (drop_first P es))) = length (filter me_valid es)"
  by (induction es) auto

lemma complete_scan_spec:
  assumes "sq_cur_idx q = int n" and "n \<le> length (sq_entry q)" and "i \<le> n"
  shows "complete_scan P q i =
    (if \<exists>e\<in>set (drop i (take n (sq_entry q))). P e
     then Inr (Some (q\<lparr>sq_entry := take i (sq_entry q) @ drop_first P (drop i (take n (sq_entry q))) @ drop n (sq_entry q),
            sq_cur_size := sq_cur_size q - 1\<rparr>))
     else Inr None)"
  using assms
proof (induction P q i rule: complete_scan.induct)
  case (1 P q i)
  show ?case
  proof (cases "i = n")
    case True
    then show ?thesis using "1.prems" by (simp add: complete_scan.simps [of P q n])
  next
    case False
    let ?es = "sq_entry q"
    have i: "i < n" "i < length ?es" using "1.prems" False by auto
    have d: "drop i (take n ?es) = ?es ! i # drop (Suc i) (take n ?es)"
      using i Cons_nth_drop_Suc [of i "take n ?es"] by simp
    show ?thesis
    proof (cases "P (?es ! i)")
      case True
      have "drop (Suc i) ?es = drop (Suc i) (take n ?es) @ drop n ?es"
        using i "1.prems"(2) drop_append [of "Suc i" "take n ?es" "drop n ?es"] by simp
      then have "?es[i := x] = take i ?es @ x # drop (Suc i) (take n ?es) @ drop n ?es" for x
        using i by (simp add: upd_conv_take_nth_drop)
      then show ?thesis using True i d "1.prems" by (simp add: complete_scan.simps [of P q i])
    next
      case False
      have "take (Suc i) ?es = take i ?es @ [?es ! i]" using i by (simp add: take_Suc_conv_app_nth)
      then show ?thesis using False i d "1.IH" "1.prems" by (simp add: complete_scan.simps [of P q i])
    qed
  qed
qed

definition sq_completed :: "(PendingMemAccessEntry \<Rightarrow> bool) \<Rightarrow> StageMemAccessQueue \<Rightarrow> StageMemAccessQueue" where
  "sq_completed P q =
     (if \<exists>e\<in>set (sq_used q). P e
      then q\<lparr>sq_entry := drop_first P (sq_used q) @ drop (nat (sq_cur_idx q)) (sq_entry q),
             sq_cur_size := sq_cur_size q - 1\<rparr>
      else q)"

lemma complete_scan_0:
  assumes "sq_inv q"
  shows "complete_scan P q 0 = Inr (if \<exists>e\<in>set (sq_used q). P e then Some (sq_completed P q) else None)"
  using assms complete_scan_spec [of q "nat (sq_cur_idx q)" 0 P]
  by (auto simp: sq_inv_def sq_used_def sq_completed_def nat_le_iff)

lemma sq_used_completed: "sq_inv q \<Longrightarrow> sq_used (sq_completed P q) = drop_first P (sq_used q)"
  by (auto simp: sq_used_def sq_completed_def sq_inv_def drop_first_none nat_le_iff min_def)

lemma sq_completed_cur_idx [simp]: "sq_cur_idx (sq_completed P q) = sq_cur_idx q"
  by (simp add: sq_completed_def)

lemma sq_inv_completed:
  assumes "sq_inv q" and "\<And>e. P e \<Longrightarrow> me_valid e"
  shows "sq_inv (sq_completed P q)"
proof -
  have "sq_cur_size (sq_completed P q) = int (length (filter me_valid (drop_first P (sq_used q))))"
  proof (cases "\<exists>e\<in>set (sq_used q). P e")
    case True
    then show ?thesis using assms filter_drop_first [OF assms(2) True]
      by (simp add: sq_completed_def sq_inv_def)
  next
    case False
    then show ?thesis using assms by (simp add: sq_completed_def sq_inv_def drop_first_none)
  qed
  moreover have "length (sq_entry (sq_completed P q)) = length (sq_entry q)"
    using assms(1) by (auto simp: sq_completed_def sq_used_def sq_inv_def nat_le_iff)
  ultimately show ?thesis using assms sq_used_completed [OF assms(1)] by (simp add: sq_inv_def)
qed

lemma sq_completed_length: "sq_inv q \<Longrightarrow> length (sq_entry (sq_completed P q)) = length (sq_entry q)"
  by (auto simp: sq_completed_def sq_used_def sq_inv_def nat_le_iff)

definition sq_idx :: "MemQueues \<Rightarrow> (int \<times> int \<times> int) \<times> nat \<times> nat \<times> nat" where
  "sq_idx qs = ((sq_cur_idx (mq_frontend qs), sq_cur_idx (mq_backend qs), sq_cur_idx (mq_aim qs)),
     length (sq_entry (mq_frontend qs)), length (sq_entry (mq_backend qs)), length (sq_entry (mq_aim qs)))"

lemma complete_either_ok:
  assumes "qs_inv qs" and "\<And>e. P e \<Longrightarrow> me_valid e"
  shows "\<exists>qs'. complete_either P qs = Inr qs' \<and> qs_inv qs' \<and> sq_idx qs' = sq_idx qs"
  using assms complete_scan_0 [of "mq_frontend qs" P] complete_scan_0 [of "mq_backend qs" P]
    sq_inv_completed [of "mq_frontend qs" P] sq_inv_completed [of "mq_backend qs" P]
  by (auto simp: complete_either_def qs_inv_def sq_idx_def sq_completed_length)

lemma complete_aim_ok:
  assumes "qs_inv qs" and "\<And>e. P e \<Longrightarrow> me_valid e"
  shows "complete_aim P qs = Inr (qs\<lparr>mq_aim := sq_completed P (mq_aim qs)\<rparr>)
    \<and> qs_inv (qs\<lparr>mq_aim := sq_completed P (mq_aim qs)\<rparr>)"
  using assms complete_scan_0 [of "mq_aim qs" P] sq_inv_completed [of "mq_aim qs" P]
  by (auto simp: complete_aim_def qs_inv_def sq_completed_def)

text \<open>
  What the stages wait for: the keys (address and type) of the valid entries of the
  fetch and memory queues, and the addresses of those of the accelerator queue.
\<close>

definition sq_waiting :: "(PendingMemAccessEntry \<Rightarrow> 'k) \<Rightarrow> StageMemAccessQueue \<Rightarrow> 'k multiset" where
  "sq_waiting key q = image_mset key (filter_mset me_valid (mset (sq_used q)))"

definition mem_key :: "PendingMemAccessEntry \<Rightarrow> target_ulong \<times> MemAccessType" where
  "mem_key e = (me_addr e, me_type e)"

definition mem_waiting :: "MemQueues \<Rightarrow> (target_ulong \<times> MemAccessType) multiset" where
  "mem_waiting qs = sq_waiting mem_key (mq_frontend qs) + sq_waiting mem_key (mq_backend qs)"

definition aim_waiting :: "MemQueues \<Rightarrow> target_ulong multiset" where
  "aim_waiting qs = sq_waiting me_addr (mq_aim qs)"

lemma waiting_drop_first:
  "image_mset key (filter_mset me_valid (mset (drop_first (\<lambda>e. me_valid e \<and> key e = k) es)))
     = image_mset key (filter_mset me_valid (mset es)) - {#k#}"
  by (induction es) (auto simp: multiset_eq_iff)

lemma waiting_drop_first_le:
  "image_mset key (filter_mset me_valid (mset (drop_first P es))) \<subseteq># image_mset key (filter_mset me_valid (mset es))"
  by (induction es) (auto simp: subseteq_mset_def)

lemma sq_waiting_completed:
  "sq_inv q \<Longrightarrow> sq_waiting key (sq_completed (\<lambda>e. me_valid e \<and> key e = k) q) = sq_waiting key q - {#k#}"
  by (simp add: sq_waiting_def sq_used_completed waiting_drop_first)

lemma sq_waiting_completed_le: "sq_inv q \<Longrightarrow> sq_waiting key (sq_completed P q) \<subseteq># sq_waiting key q"
  by (simp add: sq_waiting_def sq_used_completed waiting_drop_first_le)

lemma sq_waiting_none:
  "\<not> (\<exists>e\<in>set (sq_used q). me_valid e \<and> key e = k) \<Longrightarrow> k \<notin># sq_waiting key q"
  by (auto simp: sq_waiting_def)

lemma sq_waiting_empty: "sq_inv q \<Longrightarrow> sq_waiting key q = {#} \<Longrightarrow> sq_cur_size q = 0"
  by (simp add: sq_waiting_def sq_inv_def flip: mset_filter)

lemma complete_either_waiting:
  assumes "qs_inv qs" and "complete_either (\<lambda>e. me_valid e \<and> mem_key e = k) qs = Inr qs'"
  shows "mem_waiting qs' = mem_waiting qs - {#k#}" and "mq_aim qs' = mq_aim qs"
proof -
  let ?P = "\<lambda>e. me_valid e \<and> mem_key e = k"
  have inv: "sq_inv (mq_frontend qs)" "sq_inv (mq_backend qs)" using assms(1) by (auto simp: qs_inv_def)
  consider (f) "\<exists>e\<in>set (sq_used (mq_frontend qs)). ?P e" "qs' = qs\<lparr>mq_frontend := sq_completed ?P (mq_frontend qs)\<rparr>"
    | (b) "\<not> (\<exists>e\<in>set (sq_used (mq_frontend qs)). ?P e)" "qs' = qs\<lparr>mq_backend := sq_completed ?P (mq_backend qs)\<rparr>"
    using assms(2) complete_scan_0 [OF inv(1), of ?P] complete_scan_0 [OF inv(2), of ?P]
    by (auto simp: complete_either_def sq_completed_def split: if_splits)
  then show "mem_waiting qs' = mem_waiting qs - {#k#}"
  proof cases
    case f
    then have "k \<in># sq_waiting mem_key (mq_frontend qs)" by (auto simp: sq_waiting_def)
    then show ?thesis using f inv by (simp add: mem_waiting_def sq_waiting_completed)
  next
    case b
    then have "k \<notin># sq_waiting mem_key (mq_frontend qs)" by (intro sq_waiting_none) auto
    then show ?thesis using b inv
      by (auto simp: mem_waiting_def sq_waiting_completed multiset_eq_iff not_in_iff)
  qed
  show "mq_aim qs' = mq_aim qs" using assms(2)
    by (auto simp: complete_either_def bindR_eq_Inr_iff split: option.splits)
qed

section \<open>Requests\<close>

text \<open>
  The latencies under which a request is accepted: at least two cycles in the base
  model, at least one from an external simulator; \<open>K\<close> bounds them from above.
\<close>

definition lat_ok :: "int \<Rightarrow> Dram \<Rightarrow> ext_state \<Rightarrow> bool" where
  "lat_ok K d x \<longleftrightarrow>
     (dr_model_type d = MEM_MODEL_BASE \<and> 2 \<le> dr_latency d \<and> dr_latency d \<le> K
      \<or> dr_model_type d \<in> {MEM_MODEL_DRAMSIM, MEM_MODEL_RAMULATOR, MEM_MODEL_AIMULATOR}
        \<and> (\<forall>k. 1 \<le> snd x k \<and> snd x k \<le> K))"

definition dram_inv :: "Dram \<Rightarrow> nat \<Rightarrow> bool" where
  "dram_inv d n \<longleftrightarrow> (dr_active d \<longrightarrow>
     (\<exists>i. dr_active_request d = Some i \<and> i < n) \<and> 1 \<le> dr_elapsed d \<and> dr_elapsed d \<le> dr_max_clock_cycles d)"

lemma scale_06_bounds: "2 \<le> n \<Longrightarrow> 1 \<le> scale_06 n \<and> scale_06 n \<le> n"
  by (simp add: scale_06_def sdiv_nonneg) presburger

lemma cycles_ok:
  assumes "lat_ok K d x"
  shows "\<exists>n d' x'. get_max_clock_cycles_for_request d e x = Inr (n, d', x') \<and> 1 \<le> n \<and> n \<le> K
    \<and> lat_ok K d' x'"
  using assms scale_06_bounds [of "dr_latency d"]
  by (auto simp: lat_ok_def get_max_clock_cycles_for_request_def base_dram_model_get_max_clock_cycles_def Let_def)

lemma send_callback_ok:
  assumes "qs_inv qs"
  shows "\<exists>qs'. (if me_type e = MEM_ACCESS_WRITE then write_complete_callback (me_addr e) qs
      else if me_type e \<noteq> MEM_ACCESS_READ then aim_write_complete_callback (me_addr e) qs
      else Inr qs) = Inr qs' \<and> qs_inv qs' \<and> sq_idx qs' = sq_idx qs"
proof -
  let ?W = "\<lambda>x. me_valid x \<and> me_addr x = me_addr e \<and> me_type x = MEM_ACCESS_WRITE"
  let ?A = "\<lambda>x. me_valid x \<and> me_addr x = me_addr e"
  have "sq_inv (mq_aim qs)" using assms by (simp add: qs_inv_def)
  then show ?thesis
    using complete_either_ok [OF assms, of ?W] complete_aim_ok [OF assms, of ?A] assms
    by (auto simp: write_complete_callback_def aim_write_complete_callback_def sq_idx_def sq_completed_length)
qed

lemma dram_send_ok:
  assumes "lat_ok K d x" and "qs_inv qs" and "i < length reqs"
  shows "\<exists>d' qs' x'. dram_send_request d qs reqs i x = Inr (d', qs', x') \<and> qs_inv qs' \<and> sq_idx qs' = sq_idx qs
    \<and> lat_ok K d' x' \<and> dr_active d' \<and> dr_active_request d' = Some i \<and> dr_elapsed d' = 1
    \<and> 4 \<le> dr_max_clock_cycles d' \<and> dr_max_clock_cycles d' \<le> K + 6"
proof -
  obtain n d1 x1 where n: "get_max_clock_cycles_for_request d (reqs ! i) x = Inr (n, d1, x1)" "1 \<le> n" "n \<le> K"
    "lat_ok K d1 x1" using cycles_ok [OF assms(1)] by blast
  obtain qs' where "(if me_type (reqs ! i) = MEM_ACCESS_WRITE then write_complete_callback (me_addr (reqs ! i)) qs
      else if me_type (reqs ! i) \<noteq> MEM_ACCESS_READ then aim_write_complete_callback (me_addr (reqs ! i)) qs
      else Inr qs) = Inr qs'" "qs_inv qs'" "sq_idx qs' = sq_idx qs"
    using send_callback_ok [OF assms(2)] by blast
  then show ?thesis using n assms(3)
    by (simp add: dram_send_request_def Let_def LLC_TO_MEM_CONTROLLER_DELAY_def lat_ok_def)
qed

lemma mem_key_pred:
  "(\<lambda>e. me_valid e \<and> me_addr e = a \<and> me_type e = t) = (\<lambda>e. me_valid e \<and> mem_key e = (a, t))"
  by (simp add: mem_key_def fun_eq_iff)

lemma dram_send_waiting:
  assumes "qs_inv qs" and "i < length reqs" and "dram_send_request d qs reqs i x = Inr (d', qs', x')"
  shows "mem_waiting qs' = (if me_type (reqs ! i) = MEM_ACCESS_WRITE
      then mem_waiting qs - {#mem_key (reqs ! i)#} else mem_waiting qs)"
    and "aim_waiting qs' = (if me_type (reqs ! i) \<in> {MEM_ACCESS_READ, MEM_ACCESS_WRITE}
      then aim_waiting qs else aim_waiting qs - {#me_addr (reqs ! i)#})"
proof -
  let ?e = "reqs ! i"
  have "sq_inv (mq_aim qs)" using assms(1) by (simp add: qs_inv_def)
  note aim = complete_aim_ok [OF assms(1), of "\<lambda>x. me_valid x \<and> me_addr x = me_addr ?e"]
    sq_waiting_completed [OF this, of me_addr "me_addr ?e"]
  have cb: "(if me_type ?e = MEM_ACCESS_WRITE then write_complete_callback (me_addr ?e) qs
      else if me_type ?e \<noteq> MEM_ACCESS_READ then aim_write_complete_callback (me_addr ?e) qs
      else Inr qs) = Inr qs'"
    using assms(2,3) by (auto simp: dram_send_request_def bindR_eq_Inr_iff Let_def)
  show "mem_waiting qs' = (if me_type ?e = MEM_ACCESS_WRITE then mem_waiting qs - {#mem_key ?e#} else mem_waiting qs)"
    using cb complete_either_waiting(1) [OF assms(1), of "mem_key ?e" qs'] aim
    by (auto simp: write_complete_callback_def aim_write_complete_callback_def mem_key_pred mem_key_def [of ?e]
        mem_waiting_def split: if_splits)
  show "aim_waiting qs' = (if me_type ?e \<in> {MEM_ACCESS_READ, MEM_ACCESS_WRITE}
      then aim_waiting qs else aim_waiting qs - {#me_addr ?e#})"
    using cb complete_either_waiting(2) [OF assms(1), of "mem_key ?e" qs'] aim
    by (auto simp: write_complete_callback_def aim_write_complete_callback_def mem_key_pred mem_key_def [of ?e]
        aim_waiting_def split: if_splits)
qed

lemma clock_callback_ok:
  assumes "qs_inv qs"
  shows "\<exists>qs'. (if me_type e = MEM_ACCESS_READ then read_complete_callback (me_addr e) qs
      else if me_type e = AIM_RD_MAC \<or> me_type e = AIM_RD_AF then aim_read_complete_callback (me_addr e) qs
      else Inr qs) = Inr qs' \<and> qs_inv qs' \<and> sq_idx qs' = sq_idx qs"
proof -
  let ?R = "\<lambda>x. me_valid x \<and> me_addr x = me_addr e \<and> me_type x = MEM_ACCESS_READ"
  let ?A = "\<lambda>x. me_valid x \<and> me_addr x = me_addr e \<and> (me_type x = AIM_RD_MAC \<or> me_type x = AIM_RD_AF)"
  have "sq_inv (mq_aim qs)" using assms by (simp add: qs_inv_def)
  then show ?thesis
    using complete_either_ok [OF assms, of ?R] complete_aim_ok [OF assms, of ?A] assms
    by (auto simp: read_complete_callback_def aim_read_complete_callback_def sq_idx_def sq_completed_length)
qed

text \<open>One clock: idle, waiting, or completing the active request.\<close>

lemma dram_clock_idle: "\<not> dr_active d \<Longrightarrow> dram_clock d qs reqs = Inr (False, d, qs, reqs)"
  by (simp add: dram_clock_def)

lemma dram_clock_wait:
  "dr_active d \<Longrightarrow> dr_elapsed d \<noteq> dr_max_clock_cycles d \<Longrightarrow>
     dram_clock d qs reqs = Inr (False, d\<lparr>dr_elapsed := dr_elapsed d + 1\<rparr>, qs, reqs)"
  by (simp add: dram_clock_def)

lemma dram_clock_complete:
  assumes "dr_active d" and "dr_elapsed d = dr_max_clock_cycles d" and "dr_active_request d = Some i"
    and "i < length reqs" and "qs_inv qs"
  shows "\<exists>qs'. dram_clock d qs reqs = Inr (True, d\<lparr>dr_active := False, dr_max_clock_cycles := 0, dr_elapsed := 0\<rparr>,
      qs', reqs[i := (reqs ! i)\<lparr>me_valid := False\<rparr>]) \<and> qs_inv qs' \<and> sq_idx qs' = sq_idx qs
    \<and> mem_waiting qs' = (if me_type (reqs ! i) = MEM_ACCESS_READ
        then mem_waiting qs - {#mem_key (reqs ! i)#} else mem_waiting qs)
    \<and> aim_waiting qs' \<subseteq># aim_waiting qs"
proof -
  let ?e = "reqs ! i"
  let ?R = "\<lambda>x. me_valid x \<and> me_addr x = me_addr ?e \<and> (me_type x = AIM_RD_MAC \<or> me_type x = AIM_RD_AF)"
  obtain qs' where cb: "(if me_type ?e = MEM_ACCESS_READ then read_complete_callback (me_addr ?e) qs
      else if me_type ?e = AIM_RD_MAC \<or> me_type ?e = AIM_RD_AF then aim_read_complete_callback (me_addr ?e) qs
      else Inr qs) = Inr qs'" "qs_inv qs'" "sq_idx qs' = sq_idx qs"
    using clock_callback_ok [OF assms(5)] by blast
  have "sq_inv (mq_aim qs)" using assms(5) by (simp add: qs_inv_def)
  note aim = complete_aim_ok [OF assms(5), of ?R] sq_waiting_completed_le [OF this, of me_addr ?R]
  have "mem_waiting qs' = (if me_type ?e = MEM_ACCESS_READ then mem_waiting qs - {#mem_key ?e#} else mem_waiting qs)"
    using cb complete_either_waiting(1) [OF assms(5), of "mem_key ?e" qs'] aim
    by (auto simp: read_complete_callback_def aim_read_complete_callback_def mem_key_pred mem_key_def [of ?e]
        mem_waiting_def split: if_splits)
  moreover have "aim_waiting qs' \<subseteq># aim_waiting qs"
    using cb complete_either_waiting(2) [OF assms(5), of "mem_key ?e" qs'] aim
    by (auto simp: read_complete_callback_def aim_read_complete_callback_def mem_key_pred mem_key_def [of ?e]
        aim_waiting_def split: if_splits)
  ultimately show ?thesis using assms cb by (simp add: dram_clock_def)
qed

section \<open>Properties\<close>

text \<open>
  (C34) Error: a request to the page accessed last has a latency of 60 percent of the
  configured one. With the smallest latency that validation accepts, one cycle,
  this truncates to 0 and the assertion on it aborts the simulator.
\<close>

theorem dram_page_hit_aborts_at_latency_one:
  assumes "p = sim_params_init\<lparr>mem_access_latency := 1\<rparr>" and "i < length reqs"
  shows "(\<exists>q. sim_params_validate p = Inr q \<and> dram_create q = dram_create p)
    \<and> dram_send_request ((dram_create p)\<lparr>dr_last_page := drop_bit 12 (me_addr (reqs ! i))\<rparr>) qs reqs i x
        = Inl Assert_failed"
proof
  show "\<exists>q. sim_params_validate p = Inr q \<and> dram_create q = dram_create p"
    unfolding assms(1) by (simp add: param_defs dram_create_def)
  have "dr_model_type (dram_create p) = 0" "dr_latency (dram_create p) = 1"
    unfolding assms(1) by (simp_all add: dram_create_def dram_reset_def param_defs)
  then show "dram_send_request ((dram_create p)\<lparr>dr_last_page := drop_bit 12 (me_addr (reqs ! i))\<rparr>) qs reqs i x
      = Inl Assert_failed"
    using assms(2) by (simp add: dram_send_request_def get_max_clock_cycles_for_request_def
        base_dram_model_get_max_clock_cycles_def scale_06_def sdiv_nonneg)
qed

abbreviation zero_entry :: PendingMemAccessEntry where
  "zero_entry \<equiv> \<lparr>me_valid = False, me_start_access = False, me_access_size_bytes = 0, me_addr = 0,
     me_req_addr = 0, me_req_pte = 0, me_stage_queue_index = 0, me_stage_queue_type = 0, me_type = MEM_ACCESS_READ\<rparr>"

theorem dram_page_hit_aborts_at_latency_one_witness:
  "\<forall>qs x. dram_send_request (dram_create (sim_params_init\<lparr>mem_access_latency := 1\<rparr>)) qs [zero_entry] 0 x
     = Inl Assert_failed"
proof -
  let ?d = "dram_create (sim_params_init\<lparr>mem_access_latency := 1\<rparr>)"
  have "?d\<lparr>dr_last_page := drop_bit 12 (me_addr ([zero_entry] ! 0))\<rparr> = ?d"
    by (simp add: dram_create_def dram_reset_def)
  then show ?thesis
    using dram_page_hit_aborts_at_latency_one [OF refl, of 0 "[zero_entry]"] by simp
qed

lemma sq_completed_size:
  "sq_cur_size (sq_completed P q) = (if \<exists>e\<in>set (sq_used q). P e then sq_cur_size q - 1 else sq_cur_size q)"
  by (simp add: sq_completed_def)

text \<open>
  (C35) Error: a read of the in-memory accelerator is reported complete twice, when it
  is sent to the memory and when it finishes. If two reads of the same address
  wait in the queue, serving the first one removes both.
\<close>

theorem aim_read_completed_twice:
  assumes "qs_inv qs" and "lat_ok K d x" and "i < length reqs" and "me_type (reqs ! i) = AIM_RD_MAC"
    and "sq_used (mq_aim qs) = [a, b]" and "me_valid a" and "me_valid b"
    and "me_addr a = me_addr (reqs ! i)" and "me_addr b = me_addr (reqs ! i)"
    and "me_type a = AIM_RD_MAC" and "me_type b = AIM_RD_MAC"
    and "dram_send_request d qs reqs i x = Inr (d1, qs1, x1)"
  shows "\<exists>d2 qs2 reqs2. dram_clock (d1\<lparr>dr_elapsed := dr_max_clock_cycles d1\<rparr>) qs1 reqs = Inr (True, d2, qs2, reqs2)
    \<and> sq_cur_size (mq_aim qs) = 2 \<and> sq_cur_size (mq_aim qs1) = 1 \<and> sq_cur_size (mq_aim qs2) = 0"
proof -
  let ?e = "reqs ! i" and ?q = "mq_aim qs"
  let ?W = "\<lambda>x. me_valid x \<and> me_addr x = me_addr ?e"
  let ?R = "\<lambda>x. me_valid x \<and> me_addr x = me_addr ?e \<and> (me_type x = AIM_RD_MAC \<or> me_type x = AIM_RD_AF)"
  have q: "sq_inv ?q" "sq_cur_size ?q = 2" using assms(1,5-7) by (auto simp: qs_inv_def sq_inv_def)
  have w: "complete_aim ?W qs = Inr (qs\<lparr>mq_aim := sq_completed ?W ?q\<rparr>)"
    "qs_inv (qs\<lparr>mq_aim := sq_completed ?W ?q\<rparr>)"
    using complete_aim_ok [OF assms(1), of ?W] by auto
  then have qs1: "qs1 = qs\<lparr>mq_aim := sq_completed ?W ?q\<rparr>" and d1: "dr_active d1" "dr_active_request d1 = Some i"
    using assms(3,4,12) by (auto simp: dram_send_request_def aim_write_complete_callback_def bindR_eq_Inr_iff Let_def)
  have u: "sq_used (mq_aim qs1) = [a\<lparr>me_valid := False\<rparr>, b]"
    using assms(5,6,8) by (simp add: qs1 sq_used_completed [OF q(1)])
  have "sq_cur_size (mq_aim qs1) = 1" using q(2) assms(5,6,8) by (simp add: qs1 sq_completed_size)
  moreover have "complete_aim ?R qs1 = Inr (qs1\<lparr>mq_aim := sq_completed ?R (mq_aim qs1)\<rparr>)"
    using complete_aim_ok [of qs1 ?R] w(2) qs1 by auto
  moreover have "sq_cur_size (sq_completed ?R (mq_aim qs1)) = sq_cur_size (mq_aim qs1) - 1"
    unfolding sq_completed_size u using assms(7,9,11) by simp
  ultimately show ?thesis
    using q(2) d1 assms(3,4) by (simp add: dram_clock_def aim_read_complete_callback_def)
qed

theorem aim_read_completed_twice_witness:
  "let e = zero_entry\<lparr>me_valid := True, me_type := AIM_RD_MAC\<rparr>;
       q = \<lparr>sq_cur_idx = 2, sq_max_size = 2, sq_cur_size = 2, sq_entry = [e, e]\<rparr>;
       z = \<lparr>sq_cur_idx = 0, sq_max_size = 0, sq_cur_size = 0, sq_entry = []\<rparr>;
       qs = \<lparr>mq_frontend = z, mq_backend = z, mq_aim = q\<rparr>;
       d = dram_create sim_params_init; x = (0, \<lambda>_. 1)
   in \<exists>d1 qs1 x1 d2 qs2 reqs2. dram_send_request d qs [e] 0 x = Inr (d1, qs1, x1)
      \<and> dram_clock (d1\<lparr>dr_elapsed := dr_max_clock_cycles d1\<rparr>) qs1 [e] = Inr (True, d2, qs2, reqs2)
      \<and> sq_cur_size (mq_aim qs1) = 1 \<and> sq_cur_size (mq_aim qs2) = 0"
proof -
  define e where "e = zero_entry\<lparr>me_valid := True, me_type := AIM_RD_MAC\<rparr>"
  define q where "q = \<lparr>sq_cur_idx = 2, sq_max_size = 2, sq_cur_size = 2, sq_entry = [e, e]\<rparr>"
  define z where "z = \<lparr>sq_cur_idx = 0, sq_max_size = 0, sq_cur_size = 0, sq_entry = []\<rparr>"
  define qs where "qs = \<lparr>mq_frontend = z, mq_backend = z, mq_aim = q\<rparr>"
  let ?d = "dram_create sim_params_init" and ?x = "(0, \<lambda>_. 1) :: ext_state"
  have inv: "qs_inv qs" by (simp add: qs_inv_def sq_inv_def sq_used_def qs_def q_def z_def e_def)
  have lat: "lat_ok 46 ?d ?x" by (simp add: lat_ok_def dram_create_def dram_reset_def param_defs)
  obtain d1 qs1 x1 where send: "dram_send_request ?d qs [e] 0 ?x = Inr (d1, qs1, x1)"
    using dram_send_ok [OF lat inv, of 0 "[e]"] by auto
  have "\<exists>d2 qs2 reqs2. dram_clock (d1\<lparr>dr_elapsed := dr_max_clock_cycles d1\<rparr>) qs1 [e] = Inr (True, d2, qs2, reqs2)
      \<and> sq_cur_size (mq_aim qs) = 2 \<and> sq_cur_size (mq_aim qs1) = 1 \<and> sq_cur_size (mq_aim qs2) = 0"
    by (rule aim_read_completed_twice [OF inv lat _ _ _ _ _ _ _ _ _ send, of e e])
      (simp_all add: qs_def q_def e_def sq_used_def)
  then show ?thesis using send unfolding Let_def e_def [symmetric] q_def [symmetric] z_def [symmetric] qs_def [symmetric]
    by blast
qed

end
