(* ===== verification/Circular_Queue.thy ===== *)
theory Circular_Queue
  imports Sim_Prelude
begin

text \<open>
  The index allocator of \<^verbatim>\<open>utils/circular_queue.c\<close>, which the memory controller,
  the reorder buffer and the load-store queue use as a ring buffer. The queue
  holds no data: it hands out the slots of an array owned by its client. The
  abstraction \<open>cq_slots\<close> lists the occupied slots from front to rear; the locale
  \<open>slot_queue\<close> is the contract a client relies on, and in it the FIFO behaviour
  of a client's array is proved once.
\<close>

section \<open>The code\<close>

record CQ =
  front :: int
  rear :: int
  max_size :: int

definition cq_init :: "CQ \<Rightarrow> int \<Rightarrow> CQ" where
  "cq_init p max_size_val = p\<lparr>front := -1, rear := -1, max_size := max_size_val\<rparr>"

definition cq_empty :: "CQ \<Rightarrow> bool" where
  "cq_empty p = (front p = -1)"

text \<open>\<^verbatim>\<open>%\<close> on \<^verbatim>\<open>int\<close> truncates towards zero: it is \<open>smod\<close>.\<close>

definition cq_full :: "CQ \<Rightarrow> bool" where
  "cq_full p =
     ((front p = 0 \<and> rear p = max_size p - 1)
      \<or> (max_size p > 1 \<and> rear p = (front p - 1) smod (max_size p - 1)))"

definition cq_enqueue :: "CQ \<Rightarrow> int \<times> CQ" where
  "cq_enqueue p =
     (if cq_full p then (-1, p)
      else if cq_empty p then (0, p\<lparr>front := 0, rear := 0\<rparr>)
      else if rear p = max_size p - 1 \<and> front p \<noteq> 0 then (0, p\<lparr>rear := 0\<rparr>)
      else (rear p + 1, p\<lparr>rear := rear p + 1\<rparr>))"

definition cq_dequeue :: "CQ \<Rightarrow> int \<times> CQ" where
  "cq_dequeue p =
     (if cq_empty p then (-1, p)
      else (front p,
            if front p = rear p then p\<lparr>front := -1, rear := -1\<rparr>
            else if front p = max_size p - 1 then p\<lparr>front := 0\<rparr>
            else p\<lparr>front := front p + 1\<rparr>))"

definition cq_reset :: "CQ \<Rightarrow> CQ" where
  "cq_reset p = p\<lparr>front := -1, rear := -1\<rparr>"

definition cq_front :: "CQ \<Rightarrow> int" where
  "cq_front p = front p"

definition cq_rear :: "CQ \<Rightarrow> int" where
  "cq_rear p = rear p"

definition cq_set_rear :: "CQ \<Rightarrow> int \<Rightarrow> CQ" where
  "cq_set_rear p r = p\<lparr>rear := r\<rparr>"

section \<open>Abstraction and invariant\<close>

definition cq_inv :: "CQ \<Rightarrow> bool" where
  "cq_inv p \<longleftrightarrow>
     1 \<le> max_size p
     \<and> ((front p = -1 \<and> rear p = -1)
        \<or> (0 \<le> front p \<and> front p < max_size p \<and> 0 \<le> rear p \<and> rear p < max_size p))"

definition cq_slots :: "CQ \<Rightarrow> int list" where
  "cq_slots p =
     (if front p = -1 then []
      else if front p \<le> rear p then [front p..rear p]
      else [front p..max_size p - 1] @ [0..rear p])"

lemmas cq_defs = cq_init_def cq_empty_def cq_full_def cq_enqueue_def cq_dequeue_def
  cq_reset_def cq_front_def cq_rear_def cq_set_rear_def

section \<open>The contract\<close>

text \<open>
  A slot queue over states \<open>'q\<close>: \<open>slots q\<close> are the occupied slots in order. An
  enqueue that succeeds returns a slot not in use and appends it; one that fails
  returns \<open>-1\<close>, changes nothing, and happens exactly when all the slots are taken.
\<close>

locale slot_queue =
  fixes enq :: "'q \<Rightarrow> int \<times> 'q"
    and deq :: "'q \<Rightarrow> int \<times> 'q"
    and is_empty :: "'q \<Rightarrow> bool"
    and is_full :: "'q \<Rightarrow> bool"
    and slots :: "'q \<Rightarrow> int list"
    and cap :: "'q \<Rightarrow> int"
    and inv :: "'q \<Rightarrow> bool"
  assumes cap_pos: "inv q \<Longrightarrow> 1 \<le> cap q"
    and slots_range: "inv q \<Longrightarrow> i \<in> set (slots q) \<Longrightarrow> 0 \<le> i \<and> i < cap q"
    and slots_distinct: "inv q \<Longrightarrow> distinct (slots q)"
    and is_empty_iff: "inv q \<Longrightarrow> is_empty q \<longleftrightarrow> slots q = []"
    and is_full_iff: "inv q \<Longrightarrow> is_full q \<longleftrightarrow> int (length (slots q)) = cap q"
    and enq_full: "inv q \<Longrightarrow> is_full q \<Longrightarrow> enq q = (-1, q)"
    and enq_slot: "inv q \<Longrightarrow> \<not> is_full q \<Longrightarrow> enq q = (i, q') \<Longrightarrow>
          0 \<le> i \<and> i < cap q \<and> i \<notin> set (slots q) \<and> slots q' = slots q @ [i]"
    and deq_empty: "inv q \<Longrightarrow> is_empty q \<Longrightarrow> deq q = (-1, q)"
    and deq_slot: "inv q \<Longrightarrow> \<not> is_empty q \<Longrightarrow> deq q = (i, q') \<Longrightarrow>
          slots q = i # slots q'"
    and inv_enq: "inv q \<Longrightarrow> inv (snd (enq q)) \<and> cap (snd (enq q)) = cap q"
    and inv_deq: "inv q \<Longrightarrow> inv (snd (deq q)) \<and> cap (snd (deq q)) = cap q"
begin

text \<open>The client's array read through the queue.\<close>

definition contents :: "'q \<Rightarrow> 'b list \<Rightarrow> 'b list" where
  "contents q xs = map (\<lambda>i. xs ! nat i) (slots q)"

lemma length_slots_le:
  assumes "inv q"
  shows "int (length (slots q)) \<le> cap q"
proof -
  have sub: "set (slots q) \<subseteq> {0..<cap q}" using slots_range [OF assms] by auto
  have "length (slots q) = card (set (slots q))"
    using slots_distinct [OF assms] by (simp add: distinct_card)
  also have "\<dots> \<le> card {0..<cap q}" by (rule card_mono [OF _ sub]) simp
  finally show ?thesis using cap_pos [OF assms] by simp
qed

lemma contents_store:
  assumes "inv q" and "\<not> is_full q" and "enq q = (i, q')" and "cap q \<le> int (length xs)"
  shows "contents q' (xs[nat i := x]) = contents q xs @ [x]"
proof -
  note e = enq_slot [OF assms(1-3)]
  have i: "nat i < length xs" using e assms(4) by linarith
  have "xs[nat i := x] ! nat j = xs ! nat j" if "j \<in> set (slots q)" for j
  proof -
    have "j \<noteq> i" using that e by blast
    then have "nat j \<noteq> nat i" using slots_range [OF assms(1) that] e by linarith
    then show ?thesis by simp
  qed
  then show ?thesis using e i by (simp add: contents_def)
qed

lemma contents_deq:
  assumes "inv q" and "\<not> is_empty q" and "deq q = (i, q')"
  shows "contents q xs = xs ! nat i # contents q' xs"
  using deq_slot [OF assms] by (simp add: contents_def)

text \<open>
  A write to an occupied slot replaces one element of the contents, a write to
  any other slot does not show.
\<close>

lemma contents_upd_other:
  assumes "inv q" and "\<And>j. j \<in> set (slots q) \<Longrightarrow> nat j \<noteq> k"
  shows "contents q (xs[k := x]) = contents q xs"
  using assms(2) by (fastforce simp: contents_def)

end

section \<open>The implementation meets the contract\<close>

lemma smod_below: "0 \<le> a \<Longrightarrow> a < b \<Longrightarrow> a smod b = (a::int)"
  by (simp add: signed_modulo_int_def sgn_if)

lemma minus_one_smod: "1 < b \<Longrightarrow> (-1) smod b = (-1::int)"
  by (simp add: signed_modulo_int_def)

lemma minus_two_smod: "1 \<le> b \<Longrightarrow> (-2) smod b \<noteq> (-1::int)"
  by (cases "b = 1"; cases "b = 2") (auto simp: signed_modulo_int_def)

lemma cq_slots_length:
  "cq_inv p \<Longrightarrow> int (length (cq_slots p)) =
     (if front p = -1 then 0
      else if front p \<le> rear p then rear p - front p + 1
      else max_size p - front p + rear p + 1)"
  by (auto simp: cq_slots_def cq_inv_def)

text \<open>
  The full test is exact except at capacity two, where \<^verbatim>\<open>(front - 1) % (max_size - 1)\<close>
  is \<^verbatim>\<open>% 1\<close>, i.e. 0, whatever \<^verbatim>\<open>front\<close> is.
\<close>

lemma cq_full_exact:
  assumes "cq_inv p"
  shows "cq_full p \<longleftrightarrow>
     int (length (cq_slots p)) = max_size p \<or> (max_size p = 2 \<and> front p = 0 \<and> rear p = 0)"
proof (cases "front p = -1")
  case True
  then show ?thesis using assms minus_two_smod [of "max_size p - 1"]
    by (auto simp: cq_full_def cq_slots_length cq_inv_def)
next
  case False
  with assms have r: "0 \<le> front p" "front p < max_size p" "0 \<le> rear p" "rear p < max_size p"
    by (auto simp: cq_inv_def)
  show ?thesis
  proof (cases "front p = 0")
    case True
    consider "max_size p = 1" | "max_size p = 2" | "2 < max_size p" using r by linarith
    then show ?thesis
      by cases (use True r assms minus_one_smod [of "max_size p - 1"] in
          \<open>auto simp: cq_full_def cq_slots_length signed_modulo_int_def\<close>)
  next
    case f: False
    then have "(front p - 1) smod (max_size p - 1) = front p - 1"
      using r by (intro smod_below) auto
    then show ?thesis using f False r assms
      by (auto simp: cq_full_def cq_slots_length)
  qed
qed

text \<open>The invariant under which the contract holds: the capacity is not two.\<close>

definition cq_ok :: "CQ \<Rightarrow> bool" where
  "cq_ok p \<longleftrightarrow> cq_inv p \<and> max_size p \<noteq> 2"

lemma cq_inv_enqueue: "cq_inv p \<Longrightarrow> cq_inv (snd (cq_enqueue p))"
  by (auto simp: cq_defs cq_inv_def)

lemma cq_inv_dequeue: "cq_inv p \<Longrightarrow> cq_inv (snd (cq_dequeue p))"
  by (auto simp: cq_defs cq_inv_def)

lemma cq_enqueue_max_size [simp]: "max_size (snd (cq_enqueue p)) = max_size p"
  by (simp add: cq_enqueue_def)

lemma cq_dequeue_max_size [simp]: "max_size (snd (cq_dequeue p)) = max_size p"
  by (simp add: cq_dequeue_def)

lemma cq_slots_enqueue:
  assumes "cq_inv p" and "\<not> cq_full p" and "cq_enqueue p = (i, p')"
  shows "0 \<le> i \<and> i < max_size p \<and> i \<notin> set (cq_slots p) \<and> cq_slots p' = cq_slots p @ [i]"
proof -
  note nf = assms(2) [unfolded cq_full_exact [OF assms(1)]]
  consider (empty) "front p = -1" | (wrap) "front p \<noteq> -1" "rear p = max_size p - 1" "front p \<noteq> 0"
    | (step) "front p \<noteq> -1" "\<not> (rear p = max_size p - 1 \<and> front p \<noteq> 0)" by blast
  then show ?thesis
  proof cases
    case empty
    then show ?thesis using assms by (auto simp: cq_defs cq_inv_def cq_slots_def)
  next
    case wrap
    then show ?thesis using assms by (auto simp: cq_defs cq_inv_def cq_slots_def)
  next
    case step
    then have i: "i = rear p + 1" and p': "p' = p\<lparr>rear := rear p + 1\<rparr>"
      using assms by (auto simp: cq_enqueue_def cq_empty_def)
    show ?thesis
      using step assms(1) nf unfolding i p' cq_slots_length [OF assms(1)]
      by (auto simp: cq_inv_def cq_slots_def upto_rec2 split: if_splits)
  qed
qed

lemma cq_slots_dequeue:
  assumes "cq_inv p" and "\<not> cq_empty p" and "cq_dequeue p = (i, p')"
  shows "cq_slots p = i # cq_slots p'"
  using assms by (auto simp: cq_defs cq_inv_def cq_slots_def upto_rec1 split: if_splits)

lemma cq_slots_distinct: "distinct (cq_slots p)"
  by (auto simp: cq_slots_def)

lemma cq_slots_range: "cq_inv p \<Longrightarrow> i \<in> set (cq_slots p) \<Longrightarrow> 0 \<le> i \<and> i < max_size p"
  by (auto simp: cq_slots_def cq_inv_def split: if_splits)

lemma cq_empty_iff: "cq_inv p \<Longrightarrow> cq_empty p \<longleftrightarrow> cq_slots p = []"
  by (auto simp: cq_slots_def cq_inv_def cq_empty_def)

interpretation ring: slot_queue cq_enqueue cq_dequeue cq_empty cq_full cq_slots max_size cq_ok
proof unfold_locales
  fix q i q'
  show "cq_ok q \<Longrightarrow> 1 \<le> max_size q" by (simp add: cq_ok_def cq_inv_def)
  show "cq_ok q \<Longrightarrow> i \<in> set (cq_slots q) \<Longrightarrow> 0 \<le> i \<and> i < max_size q"
    using cq_slots_range [of q i] by (simp add: cq_ok_def)
  show "distinct (cq_slots q)" by (rule cq_slots_distinct)
  show "cq_ok q \<Longrightarrow> cq_empty q \<longleftrightarrow> cq_slots q = []"
    by (simp add: cq_ok_def cq_empty_iff)
  show "cq_ok q \<Longrightarrow> cq_full q \<longleftrightarrow> int (length (cq_slots q)) = max_size q"
    by (auto simp: cq_ok_def cq_full_exact)
  show "cq_full q \<Longrightarrow> cq_enqueue q = (-1, q)" by (simp add: cq_enqueue_def)
  show "cq_empty q \<Longrightarrow> cq_dequeue q = (-1, q)" by (simp add: cq_dequeue_def)
  show "cq_ok q \<Longrightarrow> \<not> cq_full q \<Longrightarrow> cq_enqueue q = (i, q') \<Longrightarrow>
      0 \<le> i \<and> i < max_size q \<and> i \<notin> set (cq_slots q) \<and> cq_slots q' = cq_slots q @ [i]"
    using cq_slots_enqueue [of q i q'] by (simp add: cq_ok_def)
  show "cq_ok q \<Longrightarrow> \<not> cq_empty q \<Longrightarrow> cq_dequeue q = (i, q') \<Longrightarrow> cq_slots q = i # cq_slots q'"
    by (simp add: cq_ok_def cq_slots_dequeue)
  show "cq_ok q \<Longrightarrow> cq_ok (snd (cq_enqueue q)) \<and> max_size (snd (cq_enqueue q)) = max_size q"
    by (simp add: cq_ok_def cq_inv_enqueue)
  show "cq_ok q \<Longrightarrow> cq_ok (snd (cq_dequeue q)) \<and> max_size (snd (cq_dequeue q)) = max_size q"
    by (simp add: cq_ok_def cq_inv_dequeue)
qed

section \<open>FIFO behaviour of a client's array\<close>

text \<open>
  A client stores into the slot an enqueue returns and reads the slot a dequeue
  returns, as \<^verbatim>\<open>mem_controller_create_mem_request\<close> and \<^verbatim>\<open>mem_controller_clock\<close> do. Its
  specification is a list bounded by the capacity.
\<close>

datatype 'a ring_op = Push 'a | Pop

fun ring_step :: "CQ \<times> 'a list \<Rightarrow> 'a ring_op \<Rightarrow> 'a option \<times> CQ \<times> 'a list" where
  "ring_step (q, xs) (Push x) =
     (let (i, q') = cq_enqueue q
      in if i = -1 then (None, q', xs) else (None, q', xs[nat i := x]))"
| "ring_step (q, xs) Pop =
     (let (i, q') = cq_dequeue q
      in if i = -1 then (None, q', xs) else (Some (xs ! nat i), q', xs))"

fun fifo_step :: "nat \<Rightarrow> 'a list \<Rightarrow> 'a ring_op \<Rightarrow> 'a option \<times> 'a list" where
  "fifo_step n ys (Push x) = (None, if length ys = n then ys else ys @ [x])"
| "fifo_step n [] Pop = (None, [])"
| "fifo_step n (y # ys) Pop = (Some y, ys)"

fun ring_run :: "CQ \<times> 'a list \<Rightarrow> 'a ring_op list \<Rightarrow> 'a option list" where
  "ring_run s [] = []"
| "ring_run s (oper # ops) = (let (r, s') = ring_step s oper in r # ring_run s' ops)"

fun fifo_run :: "nat \<Rightarrow> 'a list \<Rightarrow> 'a ring_op list \<Rightarrow> 'a option list" where
  "fifo_run n ys [] = []"
| "fifo_run n ys (oper # ops) = (let (r, ys') = fifo_step n ys oper in r # fifo_run n ys' ops)"

definition ring_rel :: "CQ \<times> 'a list \<Rightarrow> nat \<Rightarrow> 'a list \<Rightarrow> bool" where
  "ring_rel s n ys \<longleftrightarrow>
     cq_ok (fst s) \<and> max_size (fst s) = int n \<and> n \<le> length (snd s)
     \<and> ring.contents (fst s) (snd s) = ys"

lemma ring_rel_init:
  "0 < n \<Longrightarrow> n \<noteq> 2 \<Longrightarrow> n \<le> length xs \<Longrightarrow> ring_rel (cq_init q (int n), xs) n []"
  by (simp add: ring_rel_def cq_ok_def cq_inv_def cq_init_def ring.contents_def cq_slots_def)

lemma ring_rel_length: "ring_rel s n ys \<Longrightarrow> length ys = length (cq_slots (fst s))"
  by (auto simp: ring_rel_def ring.contents_def)

lemma ring_step_push:
  assumes "ring_rel s n ys"
  shows "fst (ring_step s (Push x)) = None \<and>
    ring_rel (snd (ring_step s (Push x))) n (snd (fifo_step n ys (Push x)))"
proof (cases s)
  case (Pair q xs)
  with assms have ok: "cq_ok q" "max_size q = int n" "n \<le> length xs"
    and ys: "ys = ring.contents q xs" by (auto simp: ring_rel_def)
  obtain i q' where e: "cq_enqueue q = (i, q')" by fastforce
  have inv': "cq_ok q'" "max_size q' = int n" using ring.inv_enq [OF ok(1)] e ok by auto
  have len: "length ys = length (cq_slots q)" by (simp add: ys ring.contents_def)
  show ?thesis
  proof (cases "cq_full q")
    case True
    then have "i = -1" "q' = q" using ring.enq_full [OF ok(1)] e by auto
    moreover have "length ys = n" using ring.is_full_iff [OF ok(1)] True len ok(2) by simp
    ultimately show ?thesis using ok e ys Pair by (simp add: ring_rel_def)
  next
    case False
    note sl = ring.enq_slot [OF ok(1) False e]
    have "length ys \<noteq> n" using ring.is_full_iff [OF ok(1)] False len ok(2) by simp
    moreover have "ring.contents q' (xs[nat i := x]) = ys @ [x]"
      using ring.contents_store [OF ok(1) False e] ok ys by simp
    ultimately show ?thesis using sl inv' ok e Pair by (simp add: ring_rel_def)
  qed
qed

lemma ring_step_pop:
  assumes "ring_rel s n ys"
  shows "fst (ring_step s Pop) = fst (fifo_step n ys Pop) \<and>
    ring_rel (snd (ring_step s Pop)) n (snd (fifo_step n ys Pop))"
proof (cases s)
  case (Pair q xs)
  with assms have ok: "cq_ok q" "max_size q = int n" "n \<le> length xs"
    and ys: "ys = ring.contents q xs" by (auto simp: ring_rel_def)
  obtain i q' where d: "cq_dequeue q = (i, q')" by fastforce
  have inv': "cq_ok q'" "max_size q' = int n" using ring.inv_deq [OF ok(1)] d ok by auto
  show ?thesis
  proof (cases "cq_empty q")
    case True
    then have "i = -1" "q' = q" using ring.deq_empty [OF ok(1)] d by auto
    moreover have "ys = []" using ring.is_empty_iff [OF ok(1)] True ys by (simp add: ring.contents_def)
    ultimately show ?thesis using ok d ys Pair by (simp add: ring_rel_def)
  next
    case False
    note c = ring.contents_deq [OF ok(1) False d, of xs]
    have "i \<in> set (cq_slots q)" using ring.deq_slot [OF ok(1) False d] by simp
    then have "i \<noteq> -1" using ring.slots_range [OF ok(1)] by fastforce
    then show ?thesis using c inv' ok d ys Pair by (simp add: ring_rel_def)
  qed
qed




end
