(* ===== verification/Memory_Controller.thy ===== *)
theory Memory_Controller
  imports Dram Circular_Queue
begin

text \<open>
  The memory controller of \<^verbatim>\<open>memory_hierarchy/memory_controller.c\<close>: accesses of the fetch
  and memory stages are split into bursts, recorded in the queue of the stage and
  in one FIFO of requests, which the memory serves one at a time. The request
  queue is a ring over the slots of \<open>Circular_Queue\<close>; its contract \<open>slot_queue\<close> gives
  the FIFO reading \<open>mc_pending\<close>.
\<close>

section \<open>The code\<close>

record MemoryController =
  mc_dram_model_type :: int
  mc_burst_length :: int
  mc_queues :: MemQueues
  mc_cq :: CQ
  mc_reqs :: "PendingMemAccessEntry list"
  mc_page_walk_delay :: int
  mc_dram :: Dram

abbreviation (input) FETCH :: int where "FETCH \<equiv> 1"
abbreviation (input) MEMORY :: int where "MEMORY \<equiv> 3"

definition MEM_REQUEST_QUEUE_SIZE :: nat where
  "MEM_REQUEST_QUEUE_SIZE = 16384"

text \<open>The slots in use, in the order the two loops below visit them.\<close>

definition request_range :: "CQ \<Rightarrow> int list" where
  "request_range cq =
     (if cq_empty cq then []
      else if front cq \<le> rear cq then [front cq..rear cq]
      else [front cq..max_size cq - 1] @ [0..rear cq])"

definition mark_requests ::
  "(PendingMemAccessEntry \<Rightarrow> PendingMemAccessEntry) \<Rightarrow> MemoryController \<Rightarrow> StageMemAccessQueue
     \<Rightarrow> sim_error + MemoryController" where
  "mark_requests f m q =
     bindR (foldR (\<lambda>j reqs. bindR (aget (sq_entry q) j) (\<lambda>s.
              foldR (\<lambda>i rs. bindR (iget rs i) (\<lambda>e.
                       if me_addr e = me_addr s then iset rs i (f e) else Inr rs))
                    (request_range (mc_cq m)) reqs))
            [0..<nat (sq_cur_idx q)] (mc_reqs m)) (\<lambda>reqs.
       Inr (m\<lparr>mc_reqs := reqs\<rparr>))"

definition mem_controller_cache_lookup_complete_signal ::
  "MemoryController \<Rightarrow> StageMemAccessQueue \<Rightarrow> sim_error + MemoryController" where
  "mem_controller_cache_lookup_complete_signal = mark_requests (\<lambda>e. e\<lparr>me_start_access := True\<rparr>)"

definition mem_controller_invalidate_mem_request_queue_entries ::
  "MemoryController \<Rightarrow> StageMemAccessQueue \<Rightarrow> sim_error + MemoryController" where
  "mem_controller_invalidate_mem_request_queue_entries = mark_requests (\<lambda>e. e\<lparr>me_valid := False\<rparr>)"

definition mem_controller_reset_cpu_stage_queue :: "StageMemAccessQueue \<Rightarrow> StageMemAccessQueue" where
  "mem_controller_reset_cpu_stage_queue q = q\<lparr>sq_cur_idx := 0, sq_cur_size := 0\<rparr>"

definition mem_controller_reset_mem_request_queue :: "MemoryController \<Rightarrow> MemoryController" where
  "mem_controller_reset_mem_request_queue m = m\<lparr>mc_cq := cq_reset (mc_cq m)\<rparr>"

definition mem_controller_set_burst_length :: "MemoryController \<Rightarrow> int \<Rightarrow> MemoryController" where
  "mem_controller_set_burst_length m b = m\<lparr>mc_burst_length := b\<rparr>"

definition mem_controller_reset :: "MemoryController \<Rightarrow> sim_error + MemoryController" where
  "mem_controller_reset m =
     bindR (mem_controller_invalidate_mem_request_queue_entries m (mq_frontend (mc_queues m))) (\<lambda>m.
     bindR (mem_controller_invalidate_mem_request_queue_entries m (mq_backend (mc_queues m))) (\<lambda>m.
     let m = m\<lparr>mc_queues := (mc_queues m)\<lparr>
               mq_frontend := mem_controller_reset_cpu_stage_queue (mq_frontend (mc_queues m)),
               mq_backend := mem_controller_reset_cpu_stage_queue (mq_backend (mc_queues m))\<rparr>\<rparr>
     in bindR (mem_controller_invalidate_mem_request_queue_entries m (mq_aim (mc_queues m))) (\<lambda>m.
        let m = m\<lparr>mc_queues := (mc_queues m)\<lparr>
                  mq_aim := mem_controller_reset_cpu_stage_queue (mq_aim (mc_queues m))\<rparr>\<rparr>;
            m = mem_controller_reset_mem_request_queue m
        in Inr (m\<lparr>mc_dram := dram_reset (mc_dram m)\<rparr>))))"

definition fill_memory_request_entry ::
  "MemoryController \<Rightarrow> PendingMemAccessEntry \<Rightarrow> target_ulong \<Rightarrow> MemAccessType \<Rightarrow> bool \<Rightarrow> PendingMemAccessEntry" where
  "fill_memory_request_entry m e paddr ty is_pte =
     e\<lparr>me_addr := paddr, me_type := ty, me_req_pte := of_bool is_pte, me_valid := True,
       me_access_size_bytes := mc_burst_length m, me_start_access := False\<rparr>"

definition stage_append ::
  "MemoryController \<Rightarrow> StageMemAccessQueue \<Rightarrow> target_ulong \<Rightarrow> MemAccessType \<Rightarrow> sim_error + StageMemAccessQueue" where
  "stage_append m q paddr ty =
     bindR (iget (sq_entry q) (sq_cur_idx q)) (\<lambda>e.
     bindR (iset (sq_entry q) (sq_cur_idx q) (fill_memory_request_entry m e paddr ty False)) (\<lambda>es.
       Inr (q\<lparr>sq_entry := es, sq_cur_idx := sq_cur_idx q + 1, sq_cur_size := sq_cur_size q + 1\<rparr>)))"

text \<open>One iteration of the loop of \<^verbatim>\<open>mem_controller_create_mem_request\<close>.\<close>

definition create_one ::
  "MemoryController \<Rightarrow> target_ulong \<Rightarrow> MemAccessType \<Rightarrow> int \<Rightarrow> sim_error + MemoryController" where
  "create_one m paddr ty stage =
     (let qs = mc_queues m
      in bindR (if stage = FETCH
                then bindR (stage_append m (mq_frontend qs) paddr ty) (\<lambda>q. Inr (qs\<lparr>mq_frontend := q\<rparr>))
                else if stage = MEMORY
                then (if ty = MEM_ACCESS_READ \<or> ty = MEM_ACCESS_WRITE
                      then bindR (stage_append m (mq_backend qs) paddr ty) (\<lambda>q. Inr (qs\<lparr>mq_backend := q\<rparr>))
                      else bindR (stage_append m (mq_aim qs) paddr ty) (\<lambda>q. Inr (qs\<lparr>mq_aim := q\<rparr>)))
                else Inl Assert_failed) (\<lambda>qs'.
         case cq_enqueue (mc_cq m) of (index, cq') \<Rightarrow>
         bindR (sim_assert (index \<noteq> -1)) (\<lambda>_.
         bindR (iget (mc_reqs m) index) (\<lambda>e.
         bindR (iset (mc_reqs m) index (fill_memory_request_entry m e paddr ty False)) (\<lambda>reqs.
           Inr (m\<lparr>mc_queues := qs', mc_cq := cq', mc_reqs := reqs\<rparr>))))))"

text \<open>
  The loop, with the burst length as an argument. Without a positive burst length it
  would go on until the request queue is full, which fails the assertion.
\<close>

function create_loop ::
  "int \<Rightarrow> MemoryController \<Rightarrow> target_ulong \<Rightarrow> int \<Rightarrow> MemAccessType \<Rightarrow> int \<Rightarrow> sim_error + MemoryController" where
  "create_loop b m paddr bytes ty stage =
     (if bytes \<le> 0 then Inr m
      else if b \<le> 0 then Inl Assert_failed
      else bindR (create_one m paddr ty stage) (\<lambda>m'.
             create_loop b m' (paddr + of_int b) (bytes - b) ty stage))"
  by pat_completeness auto
termination
  by (relation "measure (\<lambda>(b, m, paddr, bytes, ty, stage). nat bytes)") auto

declare create_loop.simps [simp del]

definition mem_controller_create_mem_request ::
  "MemoryController \<Rightarrow> target_ulong \<Rightarrow> int \<Rightarrow> MemAccessType \<Rightarrow> int \<Rightarrow> sim_error + MemoryController" where
  "mem_controller_create_mem_request m paddr bytes ty stage =
     (if (ty = MEM_ACCESS_READ \<or> ty = MEM_ACCESS_WRITE) \<and> paddr \<noteq> 0
      then (if mc_burst_length m = 0 then Inl Division_by_zero
            else let start_offset = paddr mod of_int (mc_burst_length m)
                 in create_loop (mc_burst_length m) m (paddr - start_offset) (bytes + uint start_offset) ty stage)
      else create_loop (mc_burst_length m) m paddr (mc_burst_length m) ty stage)"

definition mem_controller_clock ::
  "MemoryController \<Rightarrow> ext_state \<Rightarrow> sim_error + MemoryController \<times> ext_state" where
  "mem_controller_clock m x =
     bindR (if dram_can_accept_request (mc_dram m) \<and> \<not> cq_empty (mc_cq m)
            then bindR (iget (mc_reqs m) (cq_front (mc_cq m))) (\<lambda>e.
                 if me_valid e
                 then (if me_start_access e
                       then bindR (dram_send_request (mc_dram m) (mc_queues m) (mc_reqs m)
                                     (nat (cq_front (mc_cq m))) x) (\<lambda>(d, qs, x').
                              Inr (m\<lparr>mc_dram := d, mc_queues := qs\<rparr>, x'))
                       else Inr (m, x))
                 else Inr (m\<lparr>mc_cq := snd (cq_dequeue (mc_cq m))\<rparr>, x))
            else Inr (m, x)) (\<lambda>(m1, x1).
     bindR (dram_clock (mc_dram m1) (mc_queues m1) (mc_reqs m1)) (\<lambda>(done, d, qs, reqs).
       Inr (m1\<lparr>mc_dram := d, mc_queues := qs, mc_reqs := reqs,
               mc_cq := (if done then snd (cq_dequeue (mc_cq m1)) else mc_cq m1)\<rparr>, x1)))"

definition zero_stage_queue :: "nat \<Rightarrow> StageMemAccessQueue" where
  "zero_stage_queue n = \<lparr>sq_cur_idx = 0, sq_max_size = int n, sq_cur_size = 0, sq_entry = replicate n zero_entry\<rparr>"

definition mem_controller_init :: "SimParams \<Rightarrow> int \<Rightarrow> sim_error + MemoryController" where
  "mem_controller_init p dramsim_burst_size =
     (let z = zero_stage_queue MEM_REQUEST_QUEUE_SIZE;
          m = \<lparr>mc_dram_model_type = dram_model_type p, mc_burst_length = burst_length p,
               mc_queues = \<lparr>mq_frontend = z, mq_backend = z, mq_aim = z\<rparr>,
               mc_cq = cq_init \<lparr>front = 0, rear = 0, max_size = 0\<rparr> (int MEM_REQUEST_QUEUE_SIZE),
               mc_reqs = replicate MEM_REQUEST_QUEUE_SIZE zero_entry, mc_page_walk_delay = 0,
               mc_dram = dram_create p\<rparr>
      in if dram_model_type p = MEM_MODEL_DRAMSIM then Inr (mem_controller_set_burst_length m dramsim_burst_size)
         else if dram_model_type p \<in> {MEM_MODEL_BASE, MEM_MODEL_RAMULATOR, MEM_MODEL_AIMULATOR}
         then Inr (mem_controller_set_burst_length m (burst_length p))
         else Inl Assert_failed)"

section \<open>Invariant\<close>

text \<open>The active request of the memory is the oldest request of the queue.\<close>

definition mc_inv :: "MemoryController \<Rightarrow> bool" where
  "mc_inv m \<longleftrightarrow> qs_inv (mc_queues m) \<and> cq_ok (mc_cq m) \<and> max_size (mc_cq m) = int (length (mc_reqs m))
     \<and> (dr_active (mc_dram m) \<longrightarrow> \<not> cq_empty (mc_cq m)
        \<and> dr_active_request (mc_dram m) = Some (nat (cq_front (mc_cq m)))
        \<and> 1 \<le> dr_elapsed (mc_dram m) \<and> dr_elapsed (mc_dram m) \<le> dr_max_clock_cycles (mc_dram m))"

definition mc_pending :: "MemoryController \<Rightarrow> PendingMemAccessEntry list" where
  "mc_pending m = ring.contents (mc_cq m) (mc_reqs m)"

lemma request_range_eq: "cq_inv q \<Longrightarrow> request_range q = cq_slots q"
  by (simp add: request_range_def cq_slots_def cq_empty_def)

lemma cq_ok_inv: "cq_ok q \<Longrightarrow> cq_inv q"
  by (simp add: cq_ok_def)

lemma cq_front_slot:
  assumes "cq_ok q" and "\<not> cq_empty q" and "max_size q = int (length xs)"
  shows "0 \<le> cq_front q" "nat (cq_front q) < length xs"
    "ring.contents q xs = xs ! nat (cq_front q) # ring.contents (snd (cq_dequeue q)) xs"
    "cq_front q \<notin> set (cq_slots (snd (cq_dequeue q)))"
proof -
  have d: "cq_dequeue q = (cq_front q, snd (cq_dequeue q))"
    using assms(2) by (simp add: cq_dequeue_def cq_front_def)
  have s: "cq_slots q = cq_front q # cq_slots (snd (cq_dequeue q))"
    using ring.deq_slot [OF assms(1,2) d] .
  then have r: "0 \<le> cq_front q \<and> cq_front q < max_size q" using ring.slots_range [OF assms(1)] by auto
  then show "0 \<le> cq_front q" "nat (cq_front q) < length xs" using assms(3) by auto
  show "ring.contents q xs = xs ! nat (cq_front q) # ring.contents (snd (cq_dequeue q)) xs"
    by (rule ring.contents_deq [OF assms(1,2) d])
  show "cq_front q \<notin> set (cq_slots (snd (cq_dequeue q)))"
    using ring.slots_distinct [OF assms(1)] s by simp
qed

lemma contents_front_upd:
  assumes "cq_ok q" and "\<not> cq_empty q" and "max_size q = int (length xs)"
  shows "ring.contents (snd (cq_dequeue q)) (xs[nat (cq_front q) := e]) = ring.contents (snd (cq_dequeue q)) xs"
proof (rule ring.contents_upd_other)
  show ok: "cq_ok (snd (cq_dequeue q))" using ring.inv_deq [OF assms(1)] by simp
  fix j assume "j \<in> set (cq_slots (snd (cq_dequeue q)))"
  moreover from this have "0 \<le> j" using ring.slots_range [OF ok] by blast
  ultimately show "nat j \<noteq> nat (cq_front q)" using cq_front_slot [OF assms] by (metis nat_eq_iff2)
qed

text \<open>
  The requests that still have to release a waiting stage entry (a request other than
  a read releases its entry when it is sent), and that they suffice: every valid
  stage entry has its own pending request.
\<close>

definition is_mem :: "PendingMemAccessEntry \<Rightarrow> bool" where
  "is_mem e \<longleftrightarrow> me_type e = MEM_ACCESS_READ \<or> me_type e = MEM_ACCESS_WRITE"

definition mc_todo :: "MemoryController \<Rightarrow> PendingMemAccessEntry list" where
  "mc_todo m = (if dr_active (mc_dram m) \<and> me_type (hd (mc_pending m)) \<noteq> MEM_ACCESS_READ
     then tl (mc_pending m) else mc_pending m)"

definition served_by :: "MemQueues \<Rightarrow> PendingMemAccessEntry list \<Rightarrow> bool" where
  "served_by qs es \<longleftrightarrow> mem_waiting qs \<subseteq># image_mset mem_key (filter_mset is_mem (mset es))
     \<and> aim_waiting qs \<subseteq># image_mset me_addr (filter_mset (\<lambda>e. \<not> is_mem e) (mset es))"

definition mc_served :: "MemoryController \<Rightarrow> bool" where
  "mc_served m \<longleftrightarrow> served_by (mc_queues m) (mc_todo m)"

lemma served_by_send:
  assumes "served_by qs (e # es)"
    and "mem_waiting qs' = (if me_type e = MEM_ACCESS_WRITE then mem_waiting qs - {#mem_key e#} else mem_waiting qs)"
    and "aim_waiting qs' = (if me_type e \<in> {MEM_ACCESS_READ, MEM_ACCESS_WRITE}
      then aim_waiting qs else aim_waiting qs - {#me_addr e#})"
  shows "served_by qs' (if me_type e \<noteq> MEM_ACCESS_READ then es else e # es)"
  using assms by (auto simp: served_by_def is_mem_def subset_eq_diff_conv)

lemma served_by_complete:
  assumes "served_by qs (if me_type e \<noteq> MEM_ACCESS_READ then es else e # es)"
    and "mem_waiting qs' = (if me_type e = MEM_ACCESS_READ then mem_waiting qs - {#mem_key e#} else mem_waiting qs)"
    and "aim_waiting qs' \<subseteq># aim_waiting qs"
  shows "served_by qs' es"
  using assms by (auto simp: served_by_def is_mem_def subset_eq_diff_conv split: if_splits
      intro: subset_mset.order_trans)

section \<open>The clock\<close>

text \<open>The four things one clock can do.\<close>

lemma clock_empty:
  assumes "mc_inv m" and "mc_pending m = []"
  shows "mem_controller_clock m x = Inr (m, x)"
proof -
  have e: "cq_empty (mc_cq m)"
    using assms ring.is_empty_iff [of "mc_cq m"] by (simp add: mc_inv_def mc_pending_def ring.contents_def)
  then have "\<not> dr_active (mc_dram m)" using assms(1) by (auto simp: mc_inv_def)
  then show ?thesis using e by (simp add: mem_controller_clock_def dram_clock_idle)
qed

lemma pending_ne: "mc_inv m \<Longrightarrow> mc_pending m \<noteq> [] \<longleftrightarrow> \<not> cq_empty (mc_cq m)"
  using ring.is_empty_iff [of "mc_cq m"] by (simp add: mc_inv_def mc_pending_def ring.contents_def)

lemma pending_hd:
  assumes "mc_inv m" and "mc_pending m \<noteq> []"
  shows "iget (mc_reqs m) (cq_front (mc_cq m)) = Inr (hd (mc_pending m))"
    "nat (cq_front (mc_cq m)) < length (mc_reqs m)"
    "hd (mc_pending m) = mc_reqs m ! nat (cq_front (mc_cq m))"
    "tl (mc_pending m) = ring.contents (snd (cq_dequeue (mc_cq m))) (mc_reqs m)"
  using assms cq_front_slot [of "mc_cq m" "mc_reqs m"] pending_ne [OF assms(1)]
  by (simp_all add: mc_inv_def mc_pending_def)

lemma clock_drop:
  assumes "mc_inv m" and "\<not> dr_active (mc_dram m)" and "mc_pending m \<noteq> []" and "\<not> me_valid (hd (mc_pending m))"
  shows "\<exists>m'. mem_controller_clock m x = Inr (m', x) \<and> mc_inv m' \<and> mc_dram m' = mc_dram m
    \<and> mc_queues m' = mc_queues m \<and> mc_burst_length m' = mc_burst_length m \<and> mc_pending m' = tl (mc_pending m)"
proof -
  let ?m = "m\<lparr>mc_cq := snd (cq_dequeue (mc_cq m))\<rparr>"
  have "mem_controller_clock m x = Inr (?m, x)"
    using assms pending_hd [OF assms(1,3)] pending_ne [OF assms(1)]
    by (simp add: mem_controller_clock_def dram_can_accept_request_def dram_clock_idle)
  moreover have "mc_inv ?m"
    using assms(1,2) ring.inv_deq [of "mc_cq m"] by (auto simp: mc_inv_def)
  moreover have "mc_pending ?m = tl (mc_pending m)"
    using pending_hd(4) [OF assms(1,3)] by (simp add: mc_pending_def)
  ultimately show ?thesis by simp
qed

lemma clock_hold:
  assumes "mc_inv m" and "\<not> dr_active (mc_dram m)" and "mc_pending m \<noteq> []"
    and "me_valid (hd (mc_pending m))" and "\<not> me_start_access (hd (mc_pending m))"
  shows "mem_controller_clock m x = Inr (m, x)"
  using assms pending_hd [OF assms(1,3)] pending_ne [OF assms(1)]
  by (simp add: mem_controller_clock_def dram_can_accept_request_def dram_clock_idle)

lemma clock_start:
  assumes "mc_inv m" and "\<not> dr_active (mc_dram m)" and "mc_pending m \<noteq> []"
    and "me_valid (hd (mc_pending m))" and "me_start_access (hd (mc_pending m))" and "lat_ok K (mc_dram m) x"
  shows "\<exists>m' x'. mem_controller_clock m x = Inr (m', x') \<and> mc_inv m' \<and> lat_ok K (mc_dram m') x'
    \<and> sq_idx (mc_queues m') = sq_idx (mc_queues m) \<and> mc_burst_length m' = mc_burst_length m
    \<and> dr_active (mc_dram m') \<and> dr_elapsed (mc_dram m') = 2 \<and> dr_max_clock_cycles (mc_dram m') \<le> K + 6
    \<and> mc_pending m' = mc_pending m \<and> (mc_served m \<longrightarrow> mc_served m')"
proof -
  let ?i = "nat (cq_front (mc_cq m))"
  have q: "qs_inv (mc_queues m)" "cq_ok (mc_cq m)" "max_size (mc_cq m) = int (length (mc_reqs m))"
    using assms(1) by (auto simp: mc_inv_def)
  obtain d qs x' where d: "dram_send_request (mc_dram m) (mc_queues m) (mc_reqs m) ?i x = Inr (d, qs, x')"
    "qs_inv qs" "sq_idx qs = sq_idx (mc_queues m)" "lat_ok K d x'" "dr_active d" "dr_active_request d = Some ?i"
    "dr_elapsed d = 1" "4 \<le> dr_max_clock_cycles d" "dr_max_clock_cycles d \<le> K + 6"
    using dram_send_ok [OF assms(6) q(1) pending_hd(2) [OF assms(1,3)]] by blast
  let ?m = "m\<lparr>mc_dram := d\<lparr>dr_elapsed := 2\<rparr>, mc_queues := qs\<rparr>"
  have "mem_controller_clock m x = Inr (?m, x')"
    using assms d pending_hd [OF assms(1,3)] pending_ne [OF assms(1)]
    by (simp add: mem_controller_clock_def dram_can_accept_request_def dram_clock_wait)
  moreover have "mc_inv ?m" using q d pending_ne [OF assms(1)] assms(3) by (simp add: mc_inv_def)
  moreover have "lat_ok K (d\<lparr>dr_elapsed := 2\<rparr>) x'" using d(4) by (simp add: lat_ok_def)
  moreover have "mc_served ?m" if "mc_served m"
  proof -
    obtain e es where e: "mc_pending m = e # es" using assms(3) by (cases "mc_pending m") auto
    then have "mc_reqs m ! ?i = e" using pending_hd(3) [OF assms(1,3)] by simp
    then have "served_by qs (if me_type e \<noteq> MEM_ACCESS_READ then es else e # es)"
      using dram_send_waiting [OF q(1) pending_hd(2) [OF assms(1,3)] d(1)] that assms(2) e
      by (intro served_by_send [of "mc_queues m"]) (simp_all add: mc_served_def mc_todo_def)
    then show ?thesis using d(5) e by (auto simp: mc_served_def mc_todo_def mc_pending_def split: if_splits)
  qed
  ultimately show ?thesis using d by (simp add: mc_pending_def)
qed

lemma clock_wait:
  assumes "mc_inv m" and "dr_active (mc_dram m)" and "dr_elapsed (mc_dram m) < dr_max_clock_cycles (mc_dram m)"
  shows "mem_controller_clock m x = Inr (m\<lparr>mc_dram := (mc_dram m)\<lparr>dr_elapsed := dr_elapsed (mc_dram m) + 1\<rparr>\<rparr>, x)"
    and "mc_inv (m\<lparr>mc_dram := (mc_dram m)\<lparr>dr_elapsed := dr_elapsed (mc_dram m) + 1\<rparr>\<rparr>)"
  using assms by (simp_all add: mem_controller_clock_def dram_can_accept_request_def dram_clock_wait mc_inv_def)

lemma clock_complete:
  assumes "mc_inv m" and "dr_active (mc_dram m)" and "dr_elapsed (mc_dram m) = dr_max_clock_cycles (mc_dram m)"
  shows "\<exists>m'. mem_controller_clock m x = Inr (m', x) \<and> mc_inv m' \<and> \<not> dr_active (mc_dram m')
    \<and> sq_idx (mc_queues m') = sq_idx (mc_queues m) \<and> mc_burst_length m' = mc_burst_length m
    \<and> (\<forall>K. lat_ok K (mc_dram m) x \<longrightarrow> lat_ok K (mc_dram m') x) \<and> mc_pending m' = tl (mc_pending m)
    \<and> (mc_served m \<longrightarrow> mc_served m')"
proof -
  let ?i = "nat (cq_front (mc_cq m))" and ?d = "mc_dram m"
  have q: "qs_inv (mc_queues m)" "cq_ok (mc_cq m)" "max_size (mc_cq m) = int (length (mc_reqs m))"
    "\<not> cq_empty (mc_cq m)" "dr_active_request ?d = Some ?i" using assms(1,2) by (auto simp: mc_inv_def)
  have ne: "mc_pending m \<noteq> []" using q(4) pending_ne [OF assms(1)] by simp
  let ?reqs = "(mc_reqs m)[?i := (mc_reqs m ! ?i)\<lparr>me_valid := False\<rparr>]"
  let ?d' = "?d\<lparr>dr_active := False, dr_max_clock_cycles := 0, dr_elapsed := 0\<rparr>"
  obtain qs where c: "dram_clock ?d (mc_queues m) (mc_reqs m) = Inr (True, ?d', qs, ?reqs)"
    "qs_inv qs" "sq_idx qs = sq_idx (mc_queues m)"
    "mem_waiting qs = (if me_type (mc_reqs m ! ?i) = MEM_ACCESS_READ
        then mem_waiting (mc_queues m) - {#mem_key (mc_reqs m ! ?i)#} else mem_waiting (mc_queues m))"
    "aim_waiting qs \<subseteq># aim_waiting (mc_queues m)"
    using dram_clock_complete [OF assms(2,3) q(5) pending_hd(2) [OF assms(1) ne] q(1)] by blast
  let ?m = "m\<lparr>mc_dram := ?d', mc_queues := qs, mc_reqs := ?reqs, mc_cq := snd (cq_dequeue (mc_cq m))\<rparr>"
  have "mem_controller_clock m x = Inr (?m, x)"
    using assms(2) c by (simp add: mem_controller_clock_def dram_can_accept_request_def)
  moreover have "mc_inv ?m" using q c ring.inv_deq [OF q(2)] by (simp add: mc_inv_def)
  moreover have p: "mc_pending ?m = tl (mc_pending m)"
    using pending_hd(4) [OF assms(1) ne] contents_front_upd [OF q(2,4,3)] by (simp add: mc_pending_def)
  moreover have "mc_served ?m" if "mc_served m"
  proof -
    obtain e es where e: "mc_pending m = e # es" using ne by (cases "mc_pending m") auto
    then have "mc_reqs m ! ?i = e" using pending_hd(3) [OF assms(1) ne] by simp
    then have "served_by qs es"
      using c(4,5) that assms(2) e
      by (intro served_by_complete [of "mc_queues m" e es])
        (auto simp: mc_served_def mc_todo_def split: if_splits)
    then show ?thesis using p e by (simp add: mc_served_def mc_todo_def)
  qed
  ultimately show ?thesis using c(3) by (simp add: lat_ok_def)
qed

section \<open>Draining the queue\<close>

primrec mc_run :: "nat \<Rightarrow> MemoryController \<Rightarrow> ext_state \<Rightarrow> sim_error + MemoryController \<times> ext_state" where
  "mc_run 0 m x = Inr (m, x)"
| "mc_run (Suc n) m x = bindR (mem_controller_clock m x) (\<lambda>(m', x'). mc_run n m' x')"

lemma mc_run_add:
  "mc_run (a + b) m x = bindR (mc_run a m x) (\<lambda>(m', x'). mc_run b m' x')"
proof (induction a arbitrary: m x)
  case (Suc a)
  then show ?case by (cases "mem_controller_clock m x") auto
qed simp

lemma run_active:
  assumes "mc_inv m" and "dr_active (mc_dram m)" and "lat_ok K (mc_dram m) x"
    and "nat (dr_max_clock_cycles (mc_dram m) - dr_elapsed (mc_dram m)) = n"
  shows "\<exists>m'. mc_run (Suc n) m x = Inr (m', x) \<and> mc_inv m' \<and> \<not> dr_active (mc_dram m')
    \<and> lat_ok K (mc_dram m') x \<and> mc_pending m' = tl (mc_pending m) \<and> (mc_served m \<longrightarrow> mc_served m')"
  using assms
proof (induction n arbitrary: m)
  case 0
  then have "dr_elapsed (mc_dram m) = dr_max_clock_cycles (mc_dram m)" by (auto simp: mc_inv_def)
  then show ?case using clock_complete [OF 0(1,2), of x] 0(3) by auto
next
  case (Suc n)
  let ?m = "m\<lparr>mc_dram := (mc_dram m)\<lparr>dr_elapsed := dr_elapsed (mc_dram m) + 1\<rparr>\<rparr>"
  have lt: "dr_elapsed (mc_dram m) < dr_max_clock_cycles (mc_dram m)" using Suc.prems(4) by linarith
  have "\<exists>m'. mc_run (Suc n) ?m x = Inr (m', x) \<and> mc_inv m' \<and> \<not> dr_active (mc_dram m')
      \<and> lat_ok K (mc_dram m') x \<and> mc_pending m' = tl (mc_pending ?m) \<and> (mc_served ?m \<longrightarrow> mc_served m')"
    using clock_wait(2) [OF Suc.prems(1,2) lt] Suc.prems lt by (intro Suc.IH) (auto simp: lat_ok_def)
  moreover have "mc_run (Suc (Suc n)) m x = mc_run (Suc n) ?m x"
    using clock_wait(1) [OF Suc.prems(1,2) lt, of x] by simp
  moreover have "mc_pending ?m = mc_pending m" by (simp add: mc_pending_def)
  moreover from this have "mc_served ?m = mc_served m" by (simp add: mc_served_def mc_todo_def)
  ultimately show ?case by simp
qed

definition mc_ready :: "MemoryController \<Rightarrow> bool" where
  "mc_ready m \<longleftrightarrow> (\<forall>e\<in>set (mc_pending m). me_valid e \<longrightarrow> me_start_access e)"

lemma run_head:
  assumes "mc_inv m" and "\<not> dr_active (mc_dram m)" and "lat_ok K (mc_dram m) x" and "mc_pending m = e # es"
    and "me_valid e \<longrightarrow> me_start_access e"
  shows "\<exists>n m' x'. n \<le> nat K + 6 \<and> mc_run n m x = Inr (m', x') \<and> mc_inv m' \<and> \<not> dr_active (mc_dram m')
    \<and> lat_ok K (mc_dram m') x' \<and> mc_pending m' = es \<and> (me_valid e \<and> mc_served m \<longrightarrow> mc_served m')"
proof (cases "me_valid e")
  case False
  then obtain m' where "mem_controller_clock m x = Inr (m', x)" "mc_inv m'" "mc_dram m' = mc_dram m" "mc_pending m' = es"
    using clock_drop [OF assms(1,2), of x] assms(4) by auto
  then show ?thesis using assms(2,3) False by (intro exI [of _ 1]) auto
next
  case True
  obtain m1 x1 where m1: "mem_controller_clock m x = Inr (m1, x1)" "mc_inv m1" "lat_ok K (mc_dram m1) x1"
    "dr_active (mc_dram m1)" "dr_elapsed (mc_dram m1) = 2" "dr_max_clock_cycles (mc_dram m1) \<le> K + 6"
    "mc_pending m1 = e # es" "mc_served m \<longrightarrow> mc_served m1"
    using clock_start [OF assms(1,2) _ _ _ assms(3)] assms(4,5) True by auto
  let ?n = "nat (dr_max_clock_cycles (mc_dram m1) - dr_elapsed (mc_dram m1))"
  obtain m2 where m2: "mc_run (Suc ?n) m1 x1 = Inr (m2, x1)" "mc_inv m2" "\<not> dr_active (mc_dram m2)"
    "lat_ok K (mc_dram m2) x1" "mc_pending m2 = es" "mc_served m1 \<longrightarrow> mc_served m2"
    using run_active [OF m1(2,4,3) refl] m1(7) by auto
  have "0 \<le> K" using assms(3) by (auto simp: lat_ok_def intro: order_trans [of 0 1])
  then have "Suc (Suc ?n) \<le> nat K + 6" using m1(5,6) by linarith
  then show ?thesis using m1(1,8) m2 by (intro exI [of _ "Suc (Suc ?n)"]) auto
qed

lemma run_pending:
  assumes "mc_inv m" and "\<not> dr_active (mc_dram m)" and "lat_ok K (mc_dram m) x" and "mc_ready m"
  shows "\<exists>n m' x'. n \<le> length (mc_pending m) * (nat K + 6) \<and> mc_run n m x = Inr (m', x') \<and> mc_inv m'
    \<and> \<not> dr_active (mc_dram m') \<and> mc_pending m' = []
    \<and> (mc_served m \<and> (\<forall>e\<in>set (mc_pending m). me_valid e) \<longrightarrow> mc_served m')"
  using assms
proof (induction "length (mc_pending m)" arbitrary: m x)
  case 0
  then show ?case by (intro exI [of _ 0]) auto
next
  case (Suc k)
  then obtain e es where e: "mc_pending m = e # es" by (cases "mc_pending m") auto
  obtain n1 m1 x1 where m1: "n1 \<le> nat K + 6" "mc_run n1 m x = Inr (m1, x1)" "mc_inv m1" "\<not> dr_active (mc_dram m1)"
    "lat_ok K (mc_dram m1) x1" "mc_pending m1 = es" "me_valid e \<and> mc_served m \<longrightarrow> mc_served m1"
    using run_head [OF Suc.prems(1-3) e] Suc.prems(4) e by (auto simp: mc_ready_def)
  have "mc_ready m1" using Suc.prems(4) e m1(6) by (simp add: mc_ready_def)
  then have "\<exists>n m' x'. n \<le> length (mc_pending m1) * (nat K + 6) \<and> mc_run n m1 x1 = Inr (m', x') \<and> mc_inv m'
      \<and> \<not> dr_active (mc_dram m') \<and> mc_pending m' = []
      \<and> (mc_served m1 \<and> (\<forall>e\<in>set (mc_pending m1). me_valid e) \<longrightarrow> mc_served m')"
    using Suc.hyps(2) m1 e by (intro Suc.hyps(1)) auto
  then obtain n2 m2 x2 where "n2 \<le> length es * (nat K + 6)" "mc_run n2 m1 x1 = Inr (m2, x2)" "mc_inv m2"
    "\<not> dr_active (mc_dram m2)" "mc_pending m2 = []"
    "mc_served m1 \<and> (\<forall>e\<in>set es. me_valid e) \<longrightarrow> mc_served m2"
    unfolding m1(6) by (elim exE conjE)
  then show ?case using m1 e by (intro exI [of _ "n1 + n2"]) (auto simp: mc_run_add)
qed

section \<open>Creating requests\<close>

definition stage_queue :: "MemQueues \<Rightarrow> MemAccessType \<Rightarrow> int \<Rightarrow> StageMemAccessQueue" where
  "stage_queue qs ty stage =
     (if stage = FETCH then mq_frontend qs
      else if ty = MEM_ACCESS_READ \<or> ty = MEM_ACCESS_WRITE then mq_backend qs else mq_aim qs)"

text \<open>The stages and types of the accesses the pipeline makes: the fetch stage only reads and writes.\<close>

definition access_ok :: "MemAccessType \<Rightarrow> int \<Rightarrow> bool" where
  "access_ok ty stage \<longleftrightarrow> stage = MEMORY \<or> stage = FETCH \<and> ty \<in> {MEM_ACCESS_READ, MEM_ACCESS_WRITE}"

definition stage_room :: "MemQueues \<Rightarrow> MemAccessType \<Rightarrow> int \<Rightarrow> nat" where
  "stage_room qs ty stage = (let q = stage_queue qs ty stage in length (sq_entry q) - nat (sq_cur_idx q))"

definition req_view :: "PendingMemAccessEntry \<Rightarrow> target_ulong \<times> MemAccessType \<times> bool \<times> bool \<times> int" where
  "req_view e = (me_addr e, me_type e, me_valid e, me_start_access e, me_access_size_bytes e)"

lemma req_view_fill [simp]:
  "req_view (fill_memory_request_entry m e a t f) = (a, t, True, False, mc_burst_length m)"
  by (simp add: req_view_def fill_memory_request_entry_def)

lemma stage_append_ok:
  assumes "sq_inv q" and "nat (sq_cur_idx q) < length (sq_entry q)"
  shows "\<exists>e q'. stage_append m q a t = Inr q' \<and> sq_inv q' \<and> sq_used q' = sq_used q @ [e]
    \<and> req_view e = (a, t, True, False, mc_burst_length m)
    \<and> sq_cur_idx q' = sq_cur_idx q + 1 \<and> length (sq_entry q') = length (sq_entry q)"
proof -
  let ?i = "nat (sq_cur_idx q)"
  let ?e = "fill_memory_request_entry m (sq_entry q ! ?i) a t False"
  have i: "0 \<le> sq_cur_idx q" using assms(1) by (simp add: sq_inv_def)
  then have n: "nat (sq_cur_idx q + 1) = Suc ?i" by simp
  let ?q = "q\<lparr>sq_entry := (sq_entry q)[?i := ?e], sq_cur_idx := sq_cur_idx q + 1, sq_cur_size := sq_cur_size q + 1\<rparr>"
  have "stage_append m q a t = Inr ?q" using assms i by (simp add: stage_append_def)
  moreover have u: "sq_used ?q = sq_used q @ [?e]"
    using assms(2) by (simp add: sq_used_def n take_Suc_conv_app_nth)
  moreover have "sq_inv ?q"
    using assms u by (simp add: sq_inv_def) (simp add: fill_memory_request_entry_def)
  ultimately show ?thesis by auto
qed

lemma req_view_eqs:
  assumes "req_view e = (a, t, True, False, b)"
  shows "me_addr e = a" "me_type e = t" "me_valid e" "\<not> me_start_access e" "mem_key e = (a, t)"
  using assms by (auto simp: req_view_def mem_key_def)

lemma sq_waiting_append:
  "sq_used q' = sq_used q @ [e] \<Longrightarrow> me_valid e \<Longrightarrow> sq_waiting key q' = add_mset (key e) (sq_waiting key q)"
  by (simp add: sq_waiting_def)

lemma served_by_append:
  assumes "served_by qs es" and "is_mem e"
    and "mem_waiting qs' = add_mset (mem_key e) (mem_waiting qs)" and "aim_waiting qs' = aim_waiting qs"
  shows "served_by qs' (es @ [e])"
  using assms by (simp add: served_by_def)

lemma served_by_append_aim:
  assumes "served_by qs es" and "\<not> is_mem e"
    and "mem_waiting qs' = mem_waiting qs" and "aim_waiting qs' = add_mset (me_addr e) (aim_waiting qs)"
  shows "served_by qs' (es @ [e])"
  using assms by (simp add: served_by_def)

lemma stage_step_ok:
  assumes "qs_inv qs" and "access_ok ty stage" and "0 < stage_room qs ty stage" and "req_view e = (a, ty, True, False, b)"
    and "b = mc_burst_length m"
  shows "\<exists>qs' e'. (if stage = FETCH
      then bindR (stage_append m (mq_frontend qs) a ty) (\<lambda>q. Inr (qs\<lparr>mq_frontend := q\<rparr>))
      else if stage = MEMORY
      then (if ty = MEM_ACCESS_READ \<or> ty = MEM_ACCESS_WRITE
            then bindR (stage_append m (mq_backend qs) a ty) (\<lambda>q. Inr (qs\<lparr>mq_backend := q\<rparr>))
            else bindR (stage_append m (mq_aim qs) a ty) (\<lambda>q. Inr (qs\<lparr>mq_aim := q\<rparr>)))
      else Inl Assert_failed) = Inr qs' \<and> qs_inv qs'
    \<and> stage_room qs' ty stage = stage_room qs ty stage - 1
    \<and> sq_used (stage_queue qs' ty stage) = sq_used (stage_queue qs ty stage) @ [e'] \<and> req_view e' = (a, ty, True, False, b)
    \<and> (\<forall>es. served_by qs es \<longrightarrow> served_by qs' (es @ [e]))"
proof -
  let ?q = "stage_queue qs ty stage"
  have inv: "sq_inv ?q" using assms(1) by (auto simp: stage_queue_def qs_inv_def)
  have "nat (sq_cur_idx ?q) < length (sq_entry ?q)" using assms(3) by (simp add: stage_room_def Let_def)
  then obtain e' q' where q': "stage_append m ?q a ty = Inr q'" "sq_inv q'" "sq_used q' = sq_used ?q @ [e']"
    "req_view e' = (a, ty, True, False, b)" "sq_cur_idx q' = sq_cur_idx ?q + 1" "length (sq_entry q') = length (sq_entry ?q)"
    using stage_append_ok [OF inv] assms(5) by metis
  have idx: "nat (sq_cur_idx ?q + 1) = Suc (nat (sq_cur_idx ?q))"
    using inv by (auto simp: sq_inv_def nat_add_distrib)
  note v = req_view_eqs [OF assms(4)] req_view_eqs [OF q'(4)]
  have w: "sq_waiting key q' = add_mset (key e') (sq_waiting key ?q)" for key :: "PendingMemAccessEntry \<Rightarrow> 'k"
    using sq_waiting_append [OF q'(3) v(8)] .
  have k: "mem_key e' = mem_key e" "me_addr e' = me_addr e" using v by simp_all
  consider (f) "stage = FETCH" "is_mem e" | (b) "stage = MEMORY" "is_mem e" | (a) "stage = MEMORY" "\<not> is_mem e"
    using assms(2) v(2) by (auto simp: access_ok_def is_mem_def)
  then show ?thesis
  proof cases
    case f
    then have q: "?q = mq_frontend qs" by (simp add: stage_queue_def)
    have "served_by (qs\<lparr>mq_frontend := q'\<rparr>) (es @ [e])" if "served_by qs es" for es
      using that f(2) w [of mem_key] k by (intro served_by_append [of qs])
        (simp_all add: q mem_waiting_def aim_waiting_def)
    then show ?thesis using f q' idx assms(1) q
      by (auto simp: qs_inv_def stage_room_def stage_queue_def Let_def)
  next
    case b
    then have t: "ty = MEM_ACCESS_READ \<or> ty = MEM_ACCESS_WRITE" using v(2) by (simp add: is_mem_def)
    then have q: "?q = mq_backend qs" using b by (simp add: stage_queue_def)
    have "served_by (qs\<lparr>mq_backend := q'\<rparr>) (es @ [e])" if "served_by qs es" for es
      using that b(2) w [of mem_key] k by (intro served_by_append [of qs])
        (simp_all add: q mem_waiting_def aim_waiting_def)
    then show ?thesis using b t q' idx assms(1) q
      by (auto simp: qs_inv_def stage_room_def stage_queue_def Let_def)
  next
    case a
    then have t: "\<not> (ty = MEM_ACCESS_READ \<or> ty = MEM_ACCESS_WRITE)" using v(2) by (simp add: is_mem_def)
    then have q: "?q = mq_aim qs" using a by (simp add: stage_queue_def)
    have "served_by (qs\<lparr>mq_aim := q'\<rparr>) (es @ [e])" if "served_by qs es" for es
      using that a(2) w [of me_addr] k by (intro served_by_append_aim [of qs])
        (simp_all add: q mem_waiting_def aim_waiting_def)
    then show ?thesis using a t q' idx assms(1) q
      by (auto simp: qs_inv_def stage_room_def stage_queue_def Let_def)
  qed
qed

lemma pending_length: "length (mc_pending m) = length (cq_slots (mc_cq m))"
  by (simp add: mc_pending_def ring.contents_def)

lemma create_one_ok:
  assumes "mc_inv m" and "access_ok ty stage" and "0 < stage_room (mc_queues m) ty stage"
    and "length (mc_pending m) < length (mc_reqs m)"
  shows "\<exists>m' e e'. create_one m a ty stage = Inr m' \<and> mc_inv m' \<and> mc_pending m' = mc_pending m @ [e]
    \<and> req_view e = (a, ty, True, False, mc_burst_length m) \<and> mc_burst_length m' = mc_burst_length m
    \<and> mc_dram m' = mc_dram m \<and> length (mc_reqs m') = length (mc_reqs m)
    \<and> stage_room (mc_queues m') ty stage = stage_room (mc_queues m) ty stage - 1
    \<and> sq_used (stage_queue (mc_queues m') ty stage) = sq_used (stage_queue (mc_queues m) ty stage) @ [e']
    \<and> req_view e' = (a, ty, True, False, mc_burst_length m) \<and> (mc_served m \<longrightarrow> mc_served m')"
proof -
  have q: "qs_inv (mc_queues m)" "cq_ok (mc_cq m)" "max_size (mc_cq m) = int (length (mc_reqs m))"
    using assms(1) by (auto simp: mc_inv_def)
  have nf: "\<not> cq_full (mc_cq m)"
    using ring.is_full_iff [OF q(2)] assms(4) q(3) by (simp add: pending_length)
  obtain i cq' where enq: "cq_enqueue (mc_cq m) = (i, cq')" by fastforce
  note slot = ring.enq_slot [OF q(2) nf enq]
  then have i: "0 \<le> i" "nat i < length (mc_reqs m)" using q(3) by auto
  let ?e = "fill_memory_request_entry m (mc_reqs m ! nat i) a ty False"
  obtain qs' e' where qs': "(if stage = FETCH
      then bindR (stage_append m (mq_frontend (mc_queues m)) a ty) (\<lambda>q. Inr ((mc_queues m)\<lparr>mq_frontend := q\<rparr>))
      else if stage = MEMORY
      then (if ty = MEM_ACCESS_READ \<or> ty = MEM_ACCESS_WRITE
            then bindR (stage_append m (mq_backend (mc_queues m)) a ty) (\<lambda>q. Inr ((mc_queues m)\<lparr>mq_backend := q\<rparr>))
            else bindR (stage_append m (mq_aim (mc_queues m)) a ty) (\<lambda>q. Inr ((mc_queues m)\<lparr>mq_aim := q\<rparr>)))
      else Inl Assert_failed) = Inr qs'" "qs_inv qs'" "stage_room qs' ty stage = stage_room (mc_queues m) ty stage - 1"
    "sq_used (stage_queue qs' ty stage) = sq_used (stage_queue (mc_queues m) ty stage) @ [e']"
    "req_view e' = (a, ty, True, False, mc_burst_length m)"
    "\<forall>es. served_by (mc_queues m) es \<longrightarrow> served_by qs' (es @ [?e])"
    using stage_step_ok [OF q(1) assms(2,3) req_view_fill refl] by blast
  let ?m = "m\<lparr>mc_queues := qs', mc_cq := cq', mc_reqs := (mc_reqs m)[nat i := ?e]\<rparr>"
  have one: "create_one m a ty stage = Inr ?m"
    using qs'(1) enq i by (simp add: create_one_def Let_def)
  have p: "mc_pending ?m = mc_pending m @ [?e]"
    using ring.contents_store [OF q(2) nf enq, of "mc_reqs m" ?e] q(3) by (simp add: mc_pending_def)
  have "cq_front cq' = cq_front (mc_cq m)" "\<not> cq_empty cq'" if "\<not> cq_empty (mc_cq m)"
    using enq nf that by (auto simp: cq_enqueue_def cq_front_def cq_empty_def split: if_splits)
  moreover have "cq_ok cq'" "max_size cq' = max_size (mc_cq m)" using ring.inv_enq [OF q(2)] enq by auto
  ultimately have inv: "mc_inv ?m" using assms(1) qs'(2) by (auto simp: mc_inv_def)
  have "mc_todo ?m = mc_todo m @ [?e]"
    using p assms(1) pending_ne [OF assms(1)] by (auto simp: mc_todo_def mc_inv_def)
  then have "mc_served m \<longrightarrow> mc_served ?m" using qs'(6) by (simp add: mc_served_def)
  then show ?thesis using one inv p qs'(3-5) by auto
qed

text \<open>The number of bursts of an access, and the requests a loop of that many iterations adds.\<close>

definition bursts :: "int \<Rightarrow> int \<Rightarrow> nat" where
  "bursts b bytes = nat ((bytes + b - 1) div b)"

definition burst_views :: "int \<Rightarrow> target_ulong \<Rightarrow> MemAccessType \<Rightarrow> nat
    \<Rightarrow> (target_ulong \<times> MemAccessType \<times> bool \<times> bool \<times> int) list" where
  "burst_views b a ty k = map (\<lambda>j. (a + of_nat j * of_int b, ty, True, False, b)) [0..<k]"

lemma bursts_0: "bytes \<le> 0 \<Longrightarrow> 0 < b \<Longrightarrow> bursts b bytes = 0"
  using zdiv_mono1 [of "bytes + b - 1" "b - 1" b] by (simp add: bursts_def)

lemma bursts_Suc: "0 < bytes \<Longrightarrow> 0 < b \<Longrightarrow> bursts b bytes = Suc (bursts b (bytes - b))"
proof -
  assume a: "0 < bytes" "0 < b"
  have "bytes + b - 1 = bytes - 1 + b" by simp
  then have "(bytes + b - 1) div b = (bytes - b + b - 1) div b + 1"
    using a div_add_self2 [of b "bytes - 1"] by (metis diff_add_cancel less_irrefl)
  moreover have "0 \<le> (bytes - b + b - 1) div b" using a by (simp add: pos_imp_zdiv_nonneg_iff)
  ultimately show ?thesis by (simp add: bursts_def)
qed

lemma burst_views_Suc: "burst_views b a ty (Suc k) = (a, ty, True, False, b) # burst_views b (a + of_int b) ty k"
  by (simp add: burst_views_def upt_conv_Cons algebra_simps del: upt_Suc flip: map_Suc_upt)

lemma create_loop_ok:
  assumes "mc_inv m" and "mc_burst_length m = b" and "0 < b" and "access_ok ty stage"
    and "bursts b bytes \<le> stage_room (mc_queues m) ty stage"
    and "length (mc_pending m) + bursts b bytes \<le> length (mc_reqs m)"
  shows "\<exists>m' es us. create_loop b m a bytes ty stage = Inr m' \<and> mc_inv m' \<and> mc_pending m' = mc_pending m @ es
    \<and> map req_view es = burst_views b a ty (bursts b bytes) \<and> mc_burst_length m' = b \<and> mc_dram m' = mc_dram m
    \<and> sq_used (stage_queue (mc_queues m') ty stage) = sq_used (stage_queue (mc_queues m) ty stage) @ us
    \<and> map req_view us = burst_views b a ty (bursts b bytes) \<and> (mc_served m \<longrightarrow> mc_served m')
    \<and> length (mc_reqs m') = length (mc_reqs m)
    \<and> stage_room (mc_queues m') ty stage = stage_room (mc_queues m) ty stage - bursts b bytes"
  using assms
proof (induction b m a bytes ty stage rule: create_loop.induct)
  case (1 b m a bytes ty stage)
  show ?case
  proof (cases "bytes \<le> 0")
    case True
    then show ?thesis using "1.prems" by (simp add: create_loop.simps [of b m a bytes] bursts_0 burst_views_def)
  next
    case False
    then have k: "bursts b bytes = Suc (bursts b (bytes - b))" using "1.prems" by (intro bursts_Suc) auto
    obtain m1 e u where m1: "create_one m a ty stage = Inr m1" "mc_inv m1" "mc_pending m1 = mc_pending m @ [e]"
      "req_view e = (a, ty, True, False, b)" "mc_burst_length m1 = b" "mc_dram m1 = mc_dram m"
      "length (mc_reqs m1) = length (mc_reqs m)"
      "stage_room (mc_queues m1) ty stage = stage_room (mc_queues m) ty stage - 1"
      "sq_used (stage_queue (mc_queues m1) ty stage) = sq_used (stage_queue (mc_queues m) ty stage) @ [u]"
      "req_view u = (a, ty, True, False, b)" "mc_served m \<longrightarrow> mc_served m1"
      using create_one_ok [OF "1.prems"(1,4), of a] "1.prems" k by auto
    have nb: "\<not> b \<le> 0" and pre: "bursts b (bytes - b) \<le> stage_room (mc_queues m1) ty stage"
      "length (mc_pending m1) + bursts b (bytes - b) \<le> length (mc_reqs m1)"
      using m1 "1.prems" k by auto
    obtain m' es us where m': "create_loop b m1 (a + of_int b) (bytes - b) ty stage = Inr m'" "mc_inv m'"
      "mc_pending m' = mc_pending m1 @ es" "map req_view es = burst_views b (a + of_int b) ty (bursts b (bytes - b))"
      "mc_burst_length m' = b" "mc_dram m' = mc_dram m1"
      "sq_used (stage_queue (mc_queues m') ty stage) = sq_used (stage_queue (mc_queues m1) ty stage) @ us"
      "map req_view us = burst_views b (a + of_int b) ty (bursts b (bytes - b))" "mc_served m1 \<longrightarrow> mc_served m'"
      "length (mc_reqs m') = length (mc_reqs m1)"
      "stage_room (mc_queues m') ty stage = stage_room (mc_queues m1) ty stage - bursts b (bytes - b)"
      using "1.IH" [OF False nb m1(2,5) "1.prems"(3,4) pre] by (elim exE conjE)
    then show ?thesis using m1 False "1.prems"(3)
      by (simp add: create_loop.simps [of b m a bytes] k burst_views_Suc)
  qed
qed

text \<open>The aligned start of an access and the bytes from there.\<close>

definition access_base :: "int \<Rightarrow> target_ulong \<Rightarrow> MemAccessType \<Rightarrow> target_ulong" where
  "access_base b a ty = (if (ty = MEM_ACCESS_READ \<or> ty = MEM_ACCESS_WRITE) \<and> a \<noteq> 0 then a - a mod of_int b else a)"

definition access_bytes :: "int \<Rightarrow> target_ulong \<Rightarrow> int \<Rightarrow> MemAccessType \<Rightarrow> int" where
  "access_bytes b a n ty =
     (if (ty = MEM_ACCESS_READ \<or> ty = MEM_ACCESS_WRITE) \<and> a \<noteq> 0 then n + uint (a mod of_int b) else b)"

lemma create_request_eq:
  "0 < mc_burst_length m \<Longrightarrow> mem_controller_create_mem_request m a n ty stage =
     create_loop (mc_burst_length m) m (access_base (mc_burst_length m) a ty)
       (access_bytes (mc_burst_length m) a n ty) ty stage"
  by (auto simp: mem_controller_create_mem_request_def access_base_def access_bytes_def Let_def)

section \<open>Marking requests\<close>

lemma mark_slots:
  assumes "distinct slots" and "\<And>i. i \<in> set slots \<Longrightarrow> 0 \<le> i \<and> nat i < length rs"
  shows "\<exists>rs'. foldR (\<lambda>i rs. bindR (iget rs i) (\<lambda>e. if me_addr e = a then iset rs i (f e) else Inr rs)) slots rs = Inr rs'
    \<and> length rs' = length rs
    \<and> (\<forall>k<length rs. rs' ! k = (if int k \<in> set slots \<and> me_addr (rs ! k) = a then f (rs ! k) else rs ! k))"
  using assms
proof (induction slots arbitrary: rs)
  case (Cons i slots)
  have i: "0 \<le> i" "nat i < length rs" using Cons.prems(2) [of i] by auto
  let ?rs = "if me_addr (rs ! nat i) = a then rs[nat i := f (rs ! nat i)] else rs"
  have len: "length ?rs = length rs" by simp
  obtain rs' where rs': "foldR (\<lambda>i rs. bindR (iget rs i) (\<lambda>e. if me_addr e = a then iset rs i (f e) else Inr rs)) slots ?rs
      = Inr rs'" "length rs' = length rs"
    "\<forall>k<length rs. rs' ! k = (if int k \<in> set slots \<and> me_addr (?rs ! k) = a then f (?rs ! k) else ?rs ! k)"
    using Cons.IH [of ?rs] Cons.prems unfolding len by auto
  have "rs' ! k = (if int k \<in> set (i # slots) \<and> me_addr (rs ! k) = a then f (rs ! k) else rs ! k)"
    if "k < length rs" for k
  proof (cases "int k = i")
    case True
    then have "k = nat i" "int k \<notin> set slots" using Cons.prems(1) by auto
    then show ?thesis using rs'(3) that True by auto
  next
    case False
    then have "?rs ! k = rs ! k" using i by auto
    then show ?thesis using rs'(3) that False by auto
  qed
  then show ?case using rs' i by auto
qed simp

lemma mark_stage:
  assumes "distinct slots" and "\<And>i. i \<in> set slots \<Longrightarrow> 0 \<le> i \<and> nat i < length rs"
    and "\<And>j. j \<in> set js \<Longrightarrow> j < length ss" and "\<And>e. f (f e) = f e" and "\<And>e. me_addr (f e) = me_addr e"
  shows "\<exists>rs'. foldR (\<lambda>j rs. bindR (aget ss j) (\<lambda>s.
        foldR (\<lambda>i rs. bindR (iget rs i) (\<lambda>e. if me_addr e = me_addr s then iset rs i (f e) else Inr rs)) slots rs)) js rs
      = Inr rs' \<and> length rs' = length rs
    \<and> (\<forall>k<length rs. rs' ! k =
        (if int k \<in> set slots \<and> (\<exists>j\<in>set js. me_addr (ss ! j) = me_addr (rs ! k)) then f (rs ! k) else rs ! k))"
  using assms(2,3)
proof (induction js arbitrary: rs)
  case (Cons j js)
  let ?g = "\<lambda>s rs. foldR (\<lambda>i rs. bindR (iget rs i) (\<lambda>e. if me_addr e = me_addr s then iset rs i (f e) else Inr rs)) slots rs"
  obtain r1 where r1: "?g (ss ! j) rs = Inr r1" "length r1 = length rs"
    "\<forall>k<length rs. r1 ! k = (if int k \<in> set slots \<and> me_addr (rs ! k) = me_addr (ss ! j) then f (rs ! k) else rs ! k)"
    using mark_slots [OF assms(1) Cons.prems(1), of "me_addr (ss ! j)" f] by auto
  obtain r2 where r2: "foldR (\<lambda>j rs. bindR (aget ss j) (\<lambda>s. ?g s rs)) js r1 = Inr r2" "length r2 = length rs"
    "\<forall>k<length rs. r2 ! k =
        (if int k \<in> set slots \<and> (\<exists>j\<in>set js. me_addr (ss ! j) = me_addr (r1 ! k)) then f (r1 ! k) else r1 ! k)"
    using Cons.IH [of r1] Cons.prems r1(2) by auto
  have "r2 ! k = (if int k \<in> set slots \<and> (\<exists>i\<in>set (j # js). me_addr (ss ! i) = me_addr (rs ! k))
      then f (rs ! k) else rs ! k)" if "k < length rs" for k
    using r1(3) r2(3) that assms(4,5) by auto
  then show ?case using r1 r2 Cons.prems(2) by auto
qed simp

lemma mark_requests_ok:
  assumes "mc_inv m" and "sq_inv q" and "\<And>e. f (f e) = f e" and "\<And>e. me_addr (f e) = me_addr e"
  shows "\<exists>reqs. mark_requests f m q = Inr (m\<lparr>mc_reqs := reqs\<rparr>) \<and> mc_inv (m\<lparr>mc_reqs := reqs\<rparr>)
    \<and> mc_pending (m\<lparr>mc_reqs := reqs\<rparr>)
        = map (\<lambda>e. if me_addr e \<in> me_addr ` set (sq_used q) then f e else e) (mc_pending m)"
proof -
  let ?n = "nat (sq_cur_idx q)"
  have cq: "cq_ok (mc_cq m)" "max_size (mc_cq m) = int (length (mc_reqs m))" using assms(1) by (auto simp: mc_inv_def)
  have r: "0 \<le> i \<and> nat i < length (mc_reqs m)" if "i \<in> set (cq_slots (mc_cq m))" for i
    using ring.slots_range [OF cq(1) that] cq(2) by auto
  have n: "j < length (sq_entry q)" if "j \<in> set [0..<?n]" for j
    using that assms(2) by (auto simp: sq_inv_def)
  have used: "set (sq_used q) = (\<lambda>j. sq_entry q ! j) ` set [0..<?n]"
    using assms(2) by (auto simp: sq_used_def sq_inv_def nat_le_iff nth_image simp flip: atLeast0LessThan)
  have range: "request_range (mc_cq m) = cq_slots (mc_cq m)" by (rule request_range_eq [OF cq_ok_inv [OF cq(1)]])
  have "\<exists>rs'. foldR (\<lambda>j rs. bindR (aget (sq_entry q) j) (\<lambda>s.
        foldR (\<lambda>i rs. bindR (iget rs i) (\<lambda>e. if me_addr e = me_addr s then iset rs i (f e) else Inr rs))
          (cq_slots (mc_cq m)) rs)) [0..<?n] (mc_reqs m) = Inr rs' \<and> length rs' = length (mc_reqs m)
    \<and> (\<forall>k<length (mc_reqs m). rs' ! k = (if int k \<in> set (cq_slots (mc_cq m))
        \<and> (\<exists>j\<in>set [0..<?n]. me_addr (sq_entry q ! j) = me_addr (mc_reqs m ! k)) then f (mc_reqs m ! k) else mc_reqs m ! k))"
    by (rule mark_stage) (use ring.slots_distinct [OF cq(1)] r n assms(3,4) in blast)+
  then obtain reqs where reqs: "foldR (\<lambda>j rs. bindR (aget (sq_entry q) j) (\<lambda>s.
        foldR (\<lambda>i rs. bindR (iget rs i) (\<lambda>e. if me_addr e = me_addr s then iset rs i (f e) else Inr rs))
          (cq_slots (mc_cq m)) rs)) [0..<?n] (mc_reqs m) = Inr reqs" "length reqs = length (mc_reqs m)"
    "\<forall>k<length (mc_reqs m). reqs ! k = (if int k \<in> set (cq_slots (mc_cq m))
        \<and> (\<exists>j\<in>set [0..<?n]. me_addr (sq_entry q ! j) = me_addr (mc_reqs m ! k)) then f (mc_reqs m ! k) else mc_reqs m ! k)"
    by blast
  have "reqs ! nat i = (if me_addr (mc_reqs m ! nat i) \<in> me_addr ` set (sq_used q) then f (mc_reqs m ! nat i) else mc_reqs m ! nat i)"
    if "i \<in> set (cq_slots (mc_cq m))" for i
    using reqs(3) r [OF that] that unfolding used by (auto simp: image_iff)
  then have "mc_pending (m\<lparr>mc_reqs := reqs\<rparr>)
      = map (\<lambda>e. if me_addr e \<in> me_addr ` set (sq_used q) then f e else e) (mc_pending m)"
    by (simp add: mc_pending_def ring.contents_def)
  moreover have "mc_inv (m\<lparr>mc_reqs := reqs\<rparr>)" using assms(1) reqs(2) by (simp add: mc_inv_def)
  moreover have "mark_requests f m q = Inr (m\<lparr>mc_reqs := reqs\<rparr>)" using reqs(1) by (simp add: mark_requests_def range)
  ultimately show ?thesis by blast
qed

definition mc_signal :: "PendingMemAccessEntry \<Rightarrow> PendingMemAccessEntry" where
  "mc_signal e = e\<lparr>me_start_access := True\<rparr>"

lemma mem_key_mark [simp]:
  "mem_key (e\<lparr>me_start_access := s\<rparr>) = mem_key e" "mem_key (e\<lparr>me_valid := v\<rparr>) = mem_key e"
  "is_mem (e\<lparr>me_start_access := s\<rparr>) = is_mem e" "is_mem (e\<lparr>me_valid := v\<rparr>) = is_mem e"
  by (simp_all add: mem_key_def is_mem_def)

lemma served_by_map:
  assumes "\<And>e. mem_key (g e) = mem_key e"
  shows "served_by qs (map g es) = served_by qs es"
proof -
  have a: "me_addr (g e) = me_addr e" "is_mem (g e) = is_mem e" for e
    using assms [of e] by (auto simp: mem_key_def is_mem_def)
  have "image_mset h (filter_mset P (mset (map g es))) = image_mset h (filter_mset P (mset es))"
    if "\<And>e. h (g e) = h e" "\<And>e. P (g e) = P e" for h :: "PendingMemAccessEntry \<Rightarrow> 'k" and P
    using that by (induction es) auto
  from this [of mem_key is_mem] this [of me_addr "\<lambda>e. \<not> is_mem e"] show ?thesis
    using assms a by (simp add: served_by_def)
qed

lemma signal_ok:
  assumes "mc_inv m" and "sq_inv q"
  shows "\<exists>m'. mem_controller_cache_lookup_complete_signal m q = Inr m' \<and> mc_inv m'
    \<and> mc_pending m' = map (\<lambda>e. if me_addr e \<in> me_addr ` set (sq_used q) then e\<lparr>me_start_access := True\<rparr> else e) (mc_pending m)
    \<and> mc_dram m' = mc_dram m \<and> mc_queues m' = mc_queues m \<and> (mc_served m \<longrightarrow> mc_served m')"
proof -
  let ?g = "\<lambda>e. if me_addr e \<in> me_addr ` set (sq_used q) then e\<lparr>me_start_access := True\<rparr> else e"
  obtain reqs where r: "mark_requests (\<lambda>e. e\<lparr>me_start_access := True\<rparr>) m q = Inr (m\<lparr>mc_reqs := reqs\<rparr>)"
    "mc_inv (m\<lparr>mc_reqs := reqs\<rparr>)" "mc_pending (m\<lparr>mc_reqs := reqs\<rparr>) = map ?g (mc_pending m)"
    using mark_requests_ok [OF assms, of "\<lambda>e. e\<lparr>me_start_access := True\<rparr>"] by auto
  have "mc_todo (m\<lparr>mc_reqs := reqs\<rparr>) = map ?g (mc_todo m)"
    using r(3) by (cases "mc_pending m") (auto simp: mc_todo_def)
  moreover have "mem_key (?g e) = mem_key e" for e by simp
  ultimately have "mc_served (m\<lparr>mc_reqs := reqs\<rparr>) = mc_served m"
    using served_by_map [of ?g "mc_queues m" "mc_todo m"] by (simp add: mc_served_def)
  then show ?thesis using r by (simp add: mem_controller_cache_lookup_complete_signal_def)
qed

text \<open>Signalled requests of an idle controller complete, and nothing waits afterwards.\<close>

lemma requests_complete:
  assumes "mc_inv m" and "mc_served m" and "\<not> dr_active (mc_dram m)" and "lat_ok K (mc_dram m) x" and "sq_inv q"
    and "\<forall>e\<in>set (mc_pending m). me_valid e \<and> me_addr e \<in> me_addr ` set (sq_used q)"
  shows "\<exists>m2 c m3 x3. mem_controller_cache_lookup_complete_signal m q = Inr m2
    \<and> c \<le> length (mc_pending m) * (nat K + 6) \<and> mc_run c m2 x = Inr (m3, x3) \<and> mc_pending m3 = [] \<and> \<not> dr_active (mc_dram m3)
    \<and> sq_cur_size (mq_frontend (mc_queues m3)) = 0 \<and> sq_cur_size (mq_backend (mc_queues m3)) = 0
    \<and> sq_cur_size (mq_aim (mc_queues m3)) = 0"
proof -
  obtain m2 where m2: "mem_controller_cache_lookup_complete_signal m q = Inr m2" "mc_inv m2"
    "mc_pending m2 = map (\<lambda>e. if me_addr e \<in> me_addr ` set (sq_used q) then e\<lparr>me_start_access := True\<rparr> else e) (mc_pending m)"
    "mc_dram m2 = mc_dram m" "mc_served m2"
    using signal_ok [OF assms(1,5)] assms(2) by auto
  have all: "\<forall>e\<in>set (mc_pending m2). me_valid e" and ready: "mc_ready m2"
    using assms(6) by (auto simp: m2(3) mc_ready_def)
  obtain c m3 x3 where m3: "c \<le> length (mc_pending m2) * (nat K + 6)" "mc_run c m2 x = Inr (m3, x3)" "mc_inv m3"
    "\<not> dr_active (mc_dram m3)" "mc_pending m3 = []" "mc_served m3"
    using run_pending [OF m2(2) _ _ ready, of K x] assms(3,4) m2(4,5) all by auto
  have "mem_waiting (mc_queues m3) = {#}" "aim_waiting (mc_queues m3) = {#}"
    using m3(4-6) by (auto simp: mc_served_def served_by_def mc_todo_def)
  then have "sq_cur_size (mq_frontend (mc_queues m3)) = 0 \<and> sq_cur_size (mq_backend (mc_queues m3)) = 0
      \<and> sq_cur_size (mq_aim (mc_queues m3)) = 0"
    using m3(3) sq_waiting_empty [of _ mem_key] sq_waiting_empty [of _ me_addr]
    by (auto simp: mem_waiting_def aim_waiting_def mc_inv_def qs_inv_def)
  then show ?thesis using m2(1,3) m3 by auto
qed

section \<open>Properties\<close>

text \<open>
  (C2) Liveness: on an idle controller, an access of any size by the fetch or the
  memory stage (or a command of the accelerator), once the cache lookup is
  signalled, is served. If every latency is between 1 and \<open>K\<close> cycles, then within
  \<open>K + 6\<close> cycles per burst the request queue is empty and no stage waits any more.
\<close>

theorem mem_access_completes:
  assumes "mc_inv m" and "mc_pending m = []" and "mc_served m" and "mc_burst_length m = b" and "0 < b"
    and "access_ok ty stage" and "k = bursts b (access_bytes b a n ty)"
    and "k \<le> stage_room (mc_queues m) ty stage" and "k \<le> length (mc_reqs m)" and "lat_ok K (mc_dram m) x"
  shows "\<exists>m1 m2 c m3 x3. mem_controller_create_mem_request m a n ty stage = Inr m1
    \<and> mem_controller_cache_lookup_complete_signal m1 (stage_queue (mc_queues m1) ty stage) = Inr m2
    \<and> c \<le> k * (nat K + 6) \<and> mc_run c m2 x = Inr (m3, x3) \<and> mc_pending m3 = [] \<and> \<not> dr_active (mc_dram m3)
    \<and> sq_cur_size (mq_frontend (mc_queues m3)) = 0 \<and> sq_cur_size (mq_backend (mc_queues m3)) = 0
    \<and> sq_cur_size (mq_aim (mc_queues m3)) = 0"
proof -
  let ?a = "access_base b a ty" and ?n = "access_bytes b a n ty"
  have idle: "\<not> dr_active (mc_dram m)" using assms(1,2) pending_ne [OF assms(1)] by (auto simp: mc_inv_def)
  obtain m1 es us where m1: "create_loop b m ?a ?n ty stage = Inr m1" "mc_inv m1" "mc_pending m1 = es"
    "map req_view es = burst_views b ?a ty k" "mc_dram m1 = mc_dram m"
    "sq_used (stage_queue (mc_queues m1) ty stage) = sq_used (stage_queue (mc_queues m) ty stage) @ us"
    "map req_view us = burst_views b ?a ty k" "mc_served m1"
    using create_loop_ok [OF assms(1,4-6), of ?n ?a] assms(2,3,7-9) by auto
  let ?q = "stage_queue (mc_queues m1) ty stage"
  have q: "sq_inv ?q" using m1(2) by (auto simp: stage_queue_def mc_inv_def qs_inv_def)
  have "map req_view us = map req_view es" using m1(4,7) by simp
  then have "map fst (map req_view us) = map fst (map req_view es)" by simp
  then have "map me_addr us = map me_addr es" by (simp add: req_view_def comp_def)
  then have "me_addr ` set us = me_addr ` set es" by (metis list.set_map)
  then have addr: "me_addr ` set es \<subseteq> me_addr ` set (sq_used ?q)" unfolding m1(6) by auto
  have "length es = k" using m1(4) map_eq_imp_length_eq by (fastforce simp: burst_views_def)
  have v: "me_valid e" if "e \<in> set es" for e
  proof -
    have "req_view e \<in> set (burst_views b ?a ty k)" using that m1(4) by (metis image_eqI list.set_map)
    then show ?thesis by (auto simp: burst_views_def req_view_def)
  qed
  have "\<forall>e\<in>set (mc_pending m1). me_valid e \<and> me_addr e \<in> me_addr ` set (sq_used ?q)" using v addr m1(3) by auto
  then show ?thesis
    using requests_complete [OF m1(2,8) _ _ q, of K x] idle assms(10) m1(1,3,5) create_request_eq [of m a n ty stage]
      assms(4,5) \<open>length es = k\<close> by auto
qed

lemma zero_stage_queue_inv: "sq_inv (zero_stage_queue n) \<and> sq_used (zero_stage_queue n) = []"
  by (simp add: zero_stage_queue_def sq_inv_def sq_used_def)

lemma mem_controller_init_ok:
  assumes "dram_model_type p \<in> {MEM_MODEL_BASE, MEM_MODEL_RAMULATOR, MEM_MODEL_AIMULATOR}"
  shows "\<exists>m. mem_controller_init p d = Inr m \<and> mc_inv m \<and> mc_pending m = [] \<and> mc_served m
    \<and> mc_burst_length m = burst_length p \<and> mc_dram m = dram_create p \<and> length (mc_reqs m) = MEM_REQUEST_QUEUE_SIZE
    \<and> (\<forall>ty stage. stage_room (mc_queues m) ty stage = MEM_REQUEST_QUEUE_SIZE)"
proof -
  let ?z = "zero_stage_queue MEM_REQUEST_QUEUE_SIZE"
  let ?m = "\<lparr>mc_dram_model_type = dram_model_type p, mc_burst_length = burst_length p,
      mc_queues = \<lparr>mq_frontend = ?z, mq_backend = ?z, mq_aim = ?z\<rparr>,
      mc_cq = cq_init \<lparr>front = 0, rear = 0, max_size = 0\<rparr> (int MEM_REQUEST_QUEUE_SIZE),
      mc_reqs = replicate MEM_REQUEST_QUEUE_SIZE zero_entry, mc_page_walk_delay = 0, mc_dram = dram_create p\<rparr>"
  have "mem_controller_init p d = Inr ?m"
    using assms by (auto simp: mem_controller_init_def mem_controller_set_burst_length_def Let_def)
  moreover have "mc_inv ?m" using zero_stage_queue_inv [of MEM_REQUEST_QUEUE_SIZE]
    by (simp add: mc_inv_def qs_inv_def cq_ok_def cq_inv_def cq_init_def MEM_REQUEST_QUEUE_SIZE_def
        dram_create_def dram_reset_def del: replicate_numeral_rec)
  moreover have p: "mc_pending ?m = []"
    by (simp add: mc_pending_def ring.contents_def cq_slots_def cq_init_def)
  moreover have "mc_served ?m" using p zero_stage_queue_inv [of MEM_REQUEST_QUEUE_SIZE]
    by (simp add: mc_served_def served_by_def mc_todo_def mem_waiting_def aim_waiting_def sq_waiting_def)
  ultimately show ?thesis
    by (auto simp: stage_room_def stage_queue_def Let_def zero_stage_queue_def)
qed

theorem mem_access_completes_witness:
  "\<exists>m m1 m2 c m3 x3. mem_controller_init sim_params_init 0 = Inr m
     \<and> mem_controller_create_mem_request m 2147483664 100 MEM_ACCESS_READ MEMORY = Inr m1
     \<and> mem_controller_cache_lookup_complete_signal m1 (mq_backend (mc_queues m1)) = Inr m2
     \<and> c \<le> 208 \<and> mc_run c m2 (0, \<lambda>_. 1) = Inr (m3, x3) \<and> mc_pending m3 = []
     \<and> sq_cur_size (mq_backend (mc_queues m3)) = 0"
proof -
  obtain m where m: "mem_controller_init sim_params_init 0 = Inr m" "mc_inv m" "mc_pending m = []" "mc_served m"
    "mc_burst_length m = burst_length sim_params_init" "mc_dram m = dram_create sim_params_init"
    "length (mc_reqs m) = MEM_REQUEST_QUEUE_SIZE" "\<forall>ty stage. stage_room (mc_queues m) ty stage = MEM_REQUEST_QUEUE_SIZE"
    using mem_controller_init_ok [of sim_params_init 0] by (auto simp: param_defs)
  have b: "mc_burst_length m = 32" using m(5) by (simp add: param_defs)
  have lat: "lat_ok 46 (mc_dram m) (0, \<lambda>_. 1)"
    by (simp add: m(6) lat_ok_def dram_create_def dram_reset_def param_defs)
  have k: "bursts 32 (access_bytes 32 2147483664 100 MEM_ACCESS_READ) = 4"
    by (simp add: bursts_def access_bytes_def)
  have ok: "access_ok MEM_ACCESS_READ MEMORY" by (simp add: access_ok_def)
  have sq: "stage_queue qs MEM_ACCESS_READ MEMORY = mq_backend qs" for qs by (simp add: stage_queue_def)
  have c: "4 * (nat 46 + 6) = 208" by simp
  have room: "4 \<le> stage_room (mc_queues m) MEM_ACCESS_READ MEMORY" "4 \<le> length (mc_reqs m)"
    using m(7,8) by (simp_all add: MEM_REQUEST_QUEUE_SIZE_def)
  show ?thesis
    using mem_access_completes [OF m(2-4) b zero_less_numeral ok k [symmetric] room lat] m(1)
    unfolding sq c by blast
qed





text \<open>The flush of the fetch stage on a misprediction, as \<^verbatim>\<open>core/ooo_branch.c\<close> does it.\<close>

definition frontend_flush :: "MemoryController \<Rightarrow> sim_error + MemoryController" where
  "frontend_flush m =
     bindR (mem_controller_invalidate_mem_request_queue_entries m (mq_frontend (mc_queues m))) (\<lambda>m.
       Inr (m\<lparr>mc_queues := (mc_queues m)\<lparr>mq_frontend := mem_controller_reset_cpu_stage_queue (mq_frontend (mc_queues m))\<rparr>\<rparr>))"

lemma run_flushed:
  assumes "mc_inv m" and "\<not> dr_active (mc_dram m)" and "\<forall>e\<in>set (mc_pending m). \<not> me_valid e"
  shows "\<exists>m'. mc_run n m x = Inr (m', x) \<and> mc_queues m' = mc_queues m"
  using assms
proof (induction n arbitrary: m)
  case (Suc n)
  show ?case
  proof (cases "mc_pending m = []")
    case True
    then show ?thesis using clock_empty [OF Suc.prems(1)] Suc.IH [OF Suc.prems] by simp
  next
    case False
    then have "\<not> me_valid (hd (mc_pending m))" using Suc.prems(3) by simp
    then obtain m1 where m1: "mem_controller_clock m x = Inr (m1, x)" "mc_inv m1" "mc_dram m1 = mc_dram m"
      "mc_queues m1 = mc_queues m" "mc_pending m1 = tl (mc_pending m)"
      using clock_drop [OF Suc.prems(1,2) False, of x] by blast
    have "\<forall>e\<in>set (mc_pending m1). \<not> me_valid e" using Suc.prems(3) m1(5) list.set_sel(2) [OF False] by auto
    then show ?thesis using Suc.IH [OF m1(2)] Suc.prems(2) m1 by auto
  qed
qed simp

text \<open>
  (C33) Error: flushing the fetch stage invalidates every pending request with the
  address of one of its own, also those of the memory stage. If the memory stage
  waits for a read of the burst that the fetch stage was fetching, its request is
  dropped and it waits for ever: no number of cycles changes its queue.
\<close>

theorem flush_loses_wakeup:
  assumes "mc_inv m" and "\<not> dr_active (mc_dram m)"
    and "\<forall>e\<in>set (mc_pending m). me_addr e \<in> me_addr ` set (sq_used (mq_frontend (mc_queues m)))"
  shows "\<exists>m1. frontend_flush m = Inr m1
    \<and> (\<forall>n. \<exists>m2. mc_run n m1 x = Inr (m2, x) \<and> mq_backend (mc_queues m2) = mq_backend (mc_queues m))"
proof -
  let ?q = "mq_frontend (mc_queues m)"
  have q: "sq_inv ?q" using assms(1) by (simp add: mc_inv_def qs_inv_def)
  obtain reqs where r: "mark_requests (\<lambda>e. e\<lparr>me_valid := False\<rparr>) m ?q = Inr (m\<lparr>mc_reqs := reqs\<rparr>)"
    "mc_inv (m\<lparr>mc_reqs := reqs\<rparr>)"
    "mc_pending (m\<lparr>mc_reqs := reqs\<rparr>)
       = map (\<lambda>e. if me_addr e \<in> me_addr ` set (sq_used ?q) then e\<lparr>me_valid := False\<rparr> else e) (mc_pending m)"
    using mark_requests_ok [OF assms(1) q, of "\<lambda>e. e\<lparr>me_valid := False\<rparr>"] by auto
  let ?m = "m\<lparr>mc_reqs := reqs, mc_queues := (mc_queues m)\<lparr>mq_frontend := mem_controller_reset_cpu_stage_queue ?q\<rparr>\<rparr>"
  have f: "frontend_flush m = Inr ?m"
    using r(1) by (simp add: frontend_flush_def mem_controller_invalidate_mem_request_queue_entries_def)
  have "mc_inv ?m" using r(2)
    by (simp add: mc_inv_def qs_inv_def mem_controller_reset_cpu_stage_queue_def sq_inv_def sq_used_def)
  moreover have "\<forall>e\<in>set (mc_pending ?m). \<not> me_valid e"
    using r(3) assms(3) by (auto simp: mc_pending_def)
  ultimately have "\<forall>n. \<exists>m2. mc_run n ?m x = Inr (m2, x) \<and> mc_queues m2 = mc_queues ?m"
    using run_flushed [of ?m] assms(2) by simp
  then show ?thesis using f by fastforce
qed

text \<open>Both stages wait for the burst at the start of the guest memory.\<close>

definition shared_burst_entry :: PendingMemAccessEntry where
  "shared_burst_entry = zero_entry\<lparr>me_valid := True, me_addr := 2147483648\<rparr>"

definition shared_burst_queue :: StageMemAccessQueue where
  "shared_burst_queue = \<lparr>sq_cur_idx = 1, sq_max_size = 2, sq_cur_size = 1, sq_entry = [shared_burst_entry, zero_entry]\<rparr>"

definition shared_burst :: MemoryController where
  "shared_burst = \<lparr>mc_dram_model_type = 0, mc_burst_length = 32,
     mc_queues = \<lparr>mq_frontend = shared_burst_queue, mq_backend = shared_burst_queue, mq_aim = zero_stage_queue 2\<rparr>,
     mc_cq = \<lparr>front = 0, rear = 1, max_size = 3\<rparr>, mc_reqs = [shared_burst_entry, shared_burst_entry, zero_entry],
     mc_page_walk_delay = 0, mc_dram = dram_create sim_params_init\<rparr>"

theorem flush_loses_wakeup_witness:
  "\<exists>m1. frontend_flush shared_burst = Inr m1 \<and> sq_cur_size (mq_backend (mc_queues shared_burst)) = 1
     \<and> (\<forall>n. \<exists>m2. mc_run n m1 (0, \<lambda>_. 1) = Inr (m2, (0, \<lambda>_. 1)) \<and> sq_cur_size (mq_backend (mc_queues m2)) = 1)"
proof -
  have q: "sq_inv shared_burst_queue" "sq_used shared_burst_queue = [shared_burst_entry]"
    by (simp_all add: shared_burst_queue_def sq_inv_def sq_used_def shared_burst_entry_def)
  have d: "\<not> dr_active (dram_create sim_params_init)" by (simp add: dram_create_def dram_reset_def)
  have inv: "mc_inv shared_burst"
    using q d zero_stage_queue_inv [of 2] by (simp add: shared_burst_def mc_inv_def qs_inv_def cq_ok_def cq_inv_def)
  have "mc_pending shared_burst = [shared_burst_entry, shared_burst_entry]"
    by (simp add: shared_burst_def mc_pending_def ring.contents_def cq_slots_def upto_rec1)
  then have p: "\<forall>e\<in>set (mc_pending shared_burst). me_addr e \<in> me_addr ` set (sq_used (mq_frontend (mc_queues shared_burst)))"
    using q by (simp add: shared_burst_def)
  have "sq_cur_size (mq_backend (mc_queues shared_burst)) = 1" "\<not> dr_active (mc_dram shared_burst)"
    using d by (simp_all add: shared_burst_def shared_burst_queue_def)
  then show ?thesis using flush_loses_wakeup [OF inv _ p, of "(0, \<lambda>_. 1)"] by metis
qed

text \<open>
  (C22) Invariant: a reset, from any well-formed state and whatever is in flight, never
  fails and leaves the idle state from which accesses complete: nothing pending,
  no request active, no stage waiting, all the room of the stage queues.
\<close>

theorem mem_controller_reset_idle:
  assumes "mc_inv m"
  shows "\<exists>m'. mem_controller_reset m = Inr m' \<and> mc_inv m' \<and> mc_pending m' = [] \<and> mc_served m'
    \<and> \<not> dr_active (mc_dram m') \<and> sq_cur_size (mq_frontend (mc_queues m')) = 0
    \<and> sq_cur_size (mq_backend (mc_queues m')) = 0 \<and> sq_cur_size (mq_aim (mc_queues m')) = 0
    \<and> (\<forall>ty stage. stage_room (mc_queues m') ty stage = length (sq_entry (stage_queue (mc_queues m) ty stage)))"
proof -
  let ?f = "\<lambda>e. e\<lparr>me_valid := False\<rparr>" and ?z = mem_controller_reset_cpu_stage_queue
  have mark: "\<exists>reqs. mem_controller_invalidate_mem_request_queue_entries m q = Inr (m\<lparr>mc_reqs := reqs\<rparr>)
      \<and> mc_inv (m\<lparr>mc_reqs := reqs\<rparr>)" if "mc_inv m" "sq_inv q" for m q
    using mark_requests_ok [OF that, of ?f]
    by (auto simp: mem_controller_invalidate_mem_request_queue_entries_def)
  have z: "sq_inv (?z q)" "sq_used (?z q) = []" "sq_cur_size (?z q) = 0" "sq_cur_idx (?z q) = 0"
    "sq_entry (?z q) = sq_entry q" for q
    by (simp_all add: mem_controller_reset_cpu_stage_queue_def sq_inv_def sq_used_def)
  have qs: "qs_inv (mc_queues m)" using assms by (simp add: mc_inv_def)
  obtain r1 where r1: "mem_controller_invalidate_mem_request_queue_entries m (mq_frontend (mc_queues m))
      = Inr (m\<lparr>mc_reqs := r1\<rparr>)" "mc_inv (m\<lparr>mc_reqs := r1\<rparr>)" using mark [OF assms] qs by (auto simp: qs_inv_def)
  obtain r2 where r2: "mem_controller_invalidate_mem_request_queue_entries (m\<lparr>mc_reqs := r1\<rparr>) (mq_backend (mc_queues m))
      = Inr (m\<lparr>mc_reqs := r2\<rparr>)" "mc_inv (m\<lparr>mc_reqs := r2\<rparr>)" using mark [OF r1(2)] qs by (auto simp: qs_inv_def)
  let ?q2 = "(mc_queues m)\<lparr>mq_frontend := ?z (mq_frontend (mc_queues m)), mq_backend := ?z (mq_backend (mc_queues m))\<rparr>"
  let ?m2 = "m\<lparr>mc_reqs := r2, mc_queues := ?q2\<rparr>"
  have "mc_inv ?m2" "sq_inv (mq_aim (mc_queues m))" using r2(2) z qs by (simp_all add: mc_inv_def qs_inv_def)
  from mark [OF this] obtain r3 where
    "mem_controller_invalidate_mem_request_queue_entries ?m2 (mq_aim (mc_queues m)) = Inr (?m2\<lparr>mc_reqs := r3\<rparr>)"
    "mc_inv (?m2\<lparr>mc_reqs := r3\<rparr>)" by (elim exE conjE)
  then have r3: "mem_controller_invalidate_mem_request_queue_entries ?m2 (mq_aim (mc_queues m))
      = Inr (m\<lparr>mc_reqs := r3, mc_queues := ?q2\<rparr>)" "mc_inv (m\<lparr>mc_reqs := r3, mc_queues := ?q2\<rparr>)"
    by (simp_all add: mc_inv_def)
  let ?m = "m\<lparr>mc_reqs := r3, mc_queues := ?q2\<lparr>mq_aim := ?z (mq_aim (mc_queues m))\<rparr>, mc_cq := cq_reset (mc_cq m),
      mc_dram := dram_reset (mc_dram m)\<rparr>"
  have "mem_controller_reset m = Inr ?m"
    using r1(1) r2(1) r3(1) by (simp add: mem_controller_reset_def mem_controller_reset_mem_request_queue_def Let_def)
  moreover have inv: "mc_inv ?m"
    using r3(2) z by (auto simp: mc_inv_def qs_inv_def cq_ok_def cq_inv_def cq_reset_def dram_reset_def)
  moreover have p: "mc_pending ?m = []" by (simp add: mc_pending_def ring.contents_def cq_reset_def cq_slots_def)
  moreover have "mc_served ?m" using z
    by (simp add: mc_served_def served_by_def mem_waiting_def aim_waiting_def sq_waiting_def)
  ultimately show ?thesis using z by (simp add: dram_reset_def stage_room_def stage_queue_def Let_def)
qed

theorem mem_controller_reset_idle_witness:
  "\<exists>m'. mem_controller_reset shared_burst = Inr m' \<and> mc_pending m' = [] \<and> sq_cur_size (mq_backend (mc_queues m')) = 0"
proof -
  have "mc_inv shared_burst"
    by (simp add: shared_burst_def shared_burst_queue_def zero_stage_queue_def mc_inv_def qs_inv_def sq_inv_def sq_used_def
        shared_burst_entry_def cq_ok_def cq_inv_def dram_create_def dram_reset_def)
  from mem_controller_reset_idle [OF this] show ?thesis by blast
qed

end
