(* ===== verification/Cache.thy ===== *)
theory Cache
  imports Memory_Controller Evict_Policy
begin

text \<open>
  The caches of \<^verbatim>\<open>memory_hierarchy/cache.c\<close>. Caches are shared (both first-level
  caches have the same next level), so they live in a store \<open>ms_caches\<close> and a
  \<^verbatim>\<open>Cache *\<close> is an index of it. The store also holds the memory controller all of
  them end in, and the stream of \<^verbatim>\<open>rand()\<close>. An access returns its latency.
\<close>

section \<open>The code\<close>

datatype BlockStatus = Unused | Valid
datatype BlockDirtyStatus = NonDirty | Dirty

abbreviation (input) InstructionCache :: int where "InstructionCache \<equiv> 1"
abbreviation (input) DataCache :: int where "DataCache \<equiv> 2"
abbreviation (input) SharedCache :: int where "SharedCache \<equiv> 3"
abbreviation (input) L1 :: int where "L1 \<equiv> 1"
abbreviation (input) L2 :: int where "L2 \<equiv> 2"
abbreviation (input) WriteAllocate :: int where "WriteAllocate \<equiv> 0"
abbreviation (input) WriteNoAllocate :: int where "WriteNoAllocate \<equiv> 1"
abbreviation (input) ReadAllocate :: int where "ReadAllocate \<equiv> 0"
abbreviation (input) ReadNoAllocate :: int where "ReadNoAllocate \<equiv> 1"
abbreviation (input) WriteBack :: int where "WriteBack \<equiv> 0"
abbreviation (input) WriteThrough :: int where "WriteThrough \<equiv> 1"
abbreviation (input) NUM_MAX_PRV_LEVELS :: nat where "NUM_MAX_PRV_LEVELS \<equiv> 4"
abbreviation (input) WORD_SIZE :: int where "WORD_SIZE \<equiv> 8"

record CacheStats =
  total_read_cnt :: u64
  total_write_cnt :: u64
  read_miss_cnt :: u64
  write_miss_cnt :: u64

record CacheBlk =
  cb_status :: BlockStatus
  cb_dirty :: BlockDirtyStatus
  cb_tag :: target_ulong

record Cache =
  ca_level :: int
  ca_type :: int
  ca_num_ways :: nat
  ca_num_blks :: nat
  ca_num_sets :: nat
  ca_tag_bits :: int
  ca_set_bits :: nat
  ca_word_bits :: nat
  ca_size :: int
  ca_max_words_per_blk :: int
  ca_max_tag_val :: target_ulong
  ca_tag_bits_mask :: target_ulong
  ca_read_latency :: int
  ca_write_latency :: int
  ca_write_policy :: int
  ca_read_alloc_policy :: int
  ca_write_alloc_policy :: int
  ca_blk :: "CacheBlk list list"
  ca_next_level_cache :: "nat option"
  ca_stats :: "CacheStats list"
  ca_evict_policy :: EvictPolicy

record MemSys =
  ms_caches :: "Cache list"
  ms_mc :: MemoryController
  ms_rand :: rand_state

abbreviation zero_stats_cnt :: CacheStats where
  "zero_stats_cnt \<equiv> \<lparr>total_read_cnt = 0, total_write_cnt = 0, read_miss_cnt = 0, write_miss_cnt = 0\<rparr>"

abbreviation zero_blk :: CacheBlk where
  "zero_blk \<equiv> \<lparr>cb_status = Unused, cb_dirty = NonDirty, cb_tag = 0\<rparr>"

text \<open>The type of \<^verbatim>\<open>cache_read\<close> and \<^verbatim>\<open>cache_write\<close>: store, cache, address, bytes, stage, privilege.\<close>

type_synonym access = "MemSys \<Rightarrow> nat \<Rightarrow> target_ulong \<Rightarrow> int \<Rightarrow> int \<Rightarrow> nat \<Rightarrow> sim_error + int \<times> MemSys"

text \<open>Updates of one cache of the store, of one of its blocks, and of the counters of a privilege level.\<close>

definition upd_cache :: "MemSys \<Rightarrow> nat \<Rightarrow> Cache \<Rightarrow> MemSys" where
  "upd_cache s c v = s\<lparr>ms_caches := (ms_caches s)[c := v]\<rparr>"

definition line_bytes :: "Cache \<Rightarrow> int" where
  "line_bytes c = WORD_SIZE * ca_max_words_per_blk c"

definition blk_update :: "(CacheBlk \<Rightarrow> CacheBlk) \<Rightarrow> MemSys \<Rightarrow> nat \<Rightarrow> nat \<Rightarrow> nat \<Rightarrow> sim_error + MemSys" where
  "blk_update f s cid st way =
     bindR (aget (ms_caches s) cid) (\<lambda>c.
     bindR (aget (ca_blk c) st) (\<lambda>row.
     bindR (aget row way) (\<lambda>b.
       Inr (upd_cache s cid (c\<lparr>ca_blk := (ca_blk c)[st := row[way := f b]]\<rparr>)))))"

definition stats_update :: "(CacheStats \<Rightarrow> CacheStats) \<Rightarrow> MemSys \<Rightarrow> nat \<Rightarrow> nat \<Rightarrow> sim_error + MemSys" where
  "stats_update f s cid priv =
     bindR (aget (ms_caches s) cid) (\<lambda>c.
     bindR (aget (ca_stats c) priv) (\<lambda>v.
       Inr (upd_cache s cid (c\<lparr>ca_stats := (ca_stats c)[priv := f v]\<rparr>))))"

text \<open>The call \<^verbatim>\<open>c->evict_policy->use(c->evict_policy, set, way)\<close>.\<close>

definition policy_use :: "MemSys \<Rightarrow> nat \<Rightarrow> nat \<Rightarrow> nat \<Rightarrow> sim_error + MemSys" where
  "policy_use s cid st way =
     bindR (aget (ms_caches s) cid) (\<lambda>c.
     bindR (evict_use (ca_evict_policy c) st way) (\<lambda>p.
       Inr (upd_cache s cid (c\<lparr>ca_evict_policy := p\<rparr>))))"

text \<open>A request to the memory controller, which adds no latency of its own.\<close>

definition mem_request ::
  "MemSys \<Rightarrow> target_ulong \<Rightarrow> int \<Rightarrow> MemAccessType \<Rightarrow> int \<Rightarrow> sim_error + int \<times> MemSys" where
  "mem_request s paddr bytes ty stage =
     bindR (mem_controller_create_mem_request (ms_mc s) paddr bytes ty stage) (\<lambda>m.
       Inr (0, s\<lparr>ms_mc := m\<rparr>))"

definition update_tag_address ::
  "Cache \<Rightarrow> nat \<Rightarrow> target_ulong \<Rightarrow> sim_error + nat \<times> target_ulong \<times> target_ulong" where
  "update_tag_address c st tag =
     (if ca_num_sets c = 0 \<or> ca_max_tag_val c = 0 then Inl Division_by_zero
      else let st' = Suc st mod ca_num_sets c; tag' = (tag + 1) mod ca_max_tag_val c
           in bindR (aget (ca_blk c) st') (\<lambda>_. Inr (st', tag', push_bit (ca_word_bits c) tag')))"

text \<open>
  In the handlers below, \<open>rd\<close> and \<open>wr\<close> are \<^verbatim>\<open>cache_read\<close> and \<^verbatim>\<open>cache_write\<close> on the
  next level; \<open>cache_access\<close> ties the knot.
\<close>

definition read_data_internal :: "access \<Rightarrow> access" where
  "read_data_internal rd s cid paddr bytes stage priv =
     bindR (aget (ms_caches s) cid) (\<lambda>c.
       case ca_next_level_cache c of
         Some n \<Rightarrow> rd s n paddr bytes stage priv
       | None \<Rightarrow> mem_request s paddr bytes MEM_ACCESS_READ stage)"

definition write_data_internal :: "access \<Rightarrow> access" where
  "write_data_internal wr s cid paddr bytes stage priv =
     bindR (aget (ms_caches s) cid) (\<lambda>c.
       case ca_next_level_cache c of
         Some n \<Rightarrow> wr s n paddr bytes stage priv
       | None \<Rightarrow> mem_request s paddr bytes MEM_ACCESS_WRITE stage)"

definition writeback_victim_evict_handler ::
  "access \<Rightarrow> MemSys \<Rightarrow> nat \<Rightarrow> nat \<Rightarrow> nat \<Rightarrow> int \<Rightarrow> nat \<Rightarrow> sim_error + int \<times> MemSys" where
  "writeback_victim_evict_handler wr s cid st way stage priv =
     bindR (aget (ms_caches s) cid) (\<lambda>c.
     bindR (aget (ca_blk c) st) (\<lambda>row.
     bindR (aget row way) (\<lambda>b.
     bindR (if cb_status b = Valid \<and> cb_dirty b = Dirty
            then write_data_internal wr s cid (push_bit (ca_word_bits c) (cb_tag b)) (line_bytes c) stage priv
            else Inr (0, s)) (\<lambda>(latency, s).
     bindR (blk_update (\<lambda>_. zero_blk) s cid st way) (\<lambda>s. Inr (latency, s))))))"

definition writethrough_victim_evict_handler ::
  "MemSys \<Rightarrow> nat \<Rightarrow> nat \<Rightarrow> nat \<Rightarrow> sim_error + int \<times> MemSys" where
  "writethrough_victim_evict_handler s cid st way =
     bindR (blk_update (\<lambda>_. zero_blk) s cid st way) (\<lambda>s. Inr (0, s))"

definition writeback_handler :: "MemSys \<Rightarrow> nat \<Rightarrow> nat \<Rightarrow> nat \<Rightarrow> sim_error + int \<times> MemSys" where
  "writeback_handler s cid st way =
     bindR (blk_update (\<lambda>b. b\<lparr>cb_dirty := Dirty\<rparr>) s cid st way) (\<lambda>s.
     bindR (policy_use s cid st way) (\<lambda>s. Inr (0, s)))"

definition writethrough_handler ::
  "access \<Rightarrow> MemSys \<Rightarrow> nat \<Rightarrow> target_ulong \<Rightarrow> int \<Rightarrow> nat \<Rightarrow> nat \<Rightarrow> int \<Rightarrow> nat \<Rightarrow> sim_error + int \<times> MemSys" where
  "writethrough_handler wr s cid paddr bytes st way stage priv =
     bindR (blk_update (\<lambda>b. b\<lparr>cb_dirty := Dirty\<rparr>) s cid st way) (\<lambda>s.
     bindR (policy_use s cid st way) (\<lambda>s.
       write_data_internal wr s cid paddr bytes stage priv))"

text \<open>
  The function pointers that \<^verbatim>\<open>cache_init\<close> selects; a policy outside the enumeration
  leaves the pointer unset.
\<close>

definition pfn_victim_evict_handler ::
  "access \<Rightarrow> MemSys \<Rightarrow> nat \<Rightarrow> nat \<Rightarrow> nat \<Rightarrow> int \<Rightarrow> nat \<Rightarrow> sim_error + int \<times> MemSys" where
  "pfn_victim_evict_handler wr s cid st way stage priv =
     bindR (aget (ms_caches s) cid) (\<lambda>c.
       if ca_write_policy c = WriteBack then writeback_victim_evict_handler wr s cid st way stage priv
       else if ca_write_policy c = WriteThrough then writethrough_victim_evict_handler s cid st way
       else Inl Null_pointer)"

definition pfn_write_handler ::
  "access \<Rightarrow> MemSys \<Rightarrow> nat \<Rightarrow> target_ulong \<Rightarrow> int \<Rightarrow> nat \<Rightarrow> nat \<Rightarrow> int \<Rightarrow> nat \<Rightarrow> sim_error + int \<times> MemSys" where
  "pfn_write_handler wr s cid paddr bytes st way stage priv =
     bindR (aget (ms_caches s) cid) (\<lambda>c.
       if ca_write_policy c = WriteBack then writeback_handler s cid st way
       else if ca_write_policy c = WriteThrough then writethrough_handler wr s cid paddr bytes st way stage priv
       else Inl Null_pointer)"

text \<open>\<^verbatim>\<open>c->evict_policy->evict(c->evict_policy, set)\<close>: the random policy draws from the stream.\<close>

definition policy_evict :: "MemSys \<Rightarrow> nat \<Rightarrow> nat \<Rightarrow> sim_error + nat \<times> MemSys" where
  "policy_evict s cid st =
     bindR (aget (ms_caches s) cid) (\<lambda>c.
     bindR (evict_evict (ca_evict_policy c) (ms_rand s) st) (\<lambda>(victim, r).
       Inr (victim, s\<lparr>ms_rand := r\<rparr>)))"

definition read_allocate_handler ::
  "access \<Rightarrow> access \<Rightarrow> MemSys \<Rightarrow> nat \<Rightarrow> target_ulong \<Rightarrow> nat \<Rightarrow> int \<Rightarrow> nat \<Rightarrow> sim_error + int \<times> MemSys" where
  "read_allocate_handler rd wr s cid paddr st stage priv =
     bindR (aget (ms_caches s) cid) (\<lambda>c.
     let paddr = paddr AND ca_tag_bits_mask c;
         bytes_to_read = line_bytes c;
         tag = drop_bit (ca_word_bits c) paddr
     in bindR (policy_evict s cid st) (\<lambda>(victim, s).
        bindR (pfn_victim_evict_handler wr s cid st victim stage priv) (\<lambda>(l1, s).
        bindR (read_data_internal rd s cid paddr bytes_to_read stage priv) (\<lambda>(l2, s).
        bindR (blk_update (\<lambda>b. b\<lparr>cb_tag := tag, cb_status := Valid\<rparr>) s cid st victim) (\<lambda>s.
        bindR (policy_use s cid st victim) (\<lambda>s. Inr (l1 + l2, s)))))))"

definition read_no_allocate_handler :: "access \<Rightarrow> access" where
  "read_no_allocate_handler rd s cid paddr bytes stage priv = read_data_internal rd s cid paddr bytes stage priv"

definition write_allocate_handler ::
  "access \<Rightarrow> access \<Rightarrow> MemSys \<Rightarrow> nat \<Rightarrow> target_ulong \<Rightarrow> int \<Rightarrow> nat \<Rightarrow> int \<Rightarrow> nat \<Rightarrow> sim_error + int \<times> MemSys" where
  "write_allocate_handler rd wr s cid paddr bytes st stage priv =
     bindR (aget (ms_caches s) cid) (\<lambda>c.
     let bytes_to_read = line_bytes c;
         new_paddr = paddr AND ca_tag_bits_mask c;
         tag = drop_bit (ca_word_bits c) paddr
     in bindR (policy_evict s cid st) (\<lambda>(victim, s).
        bindR (pfn_victim_evict_handler wr s cid st victim stage priv) (\<lambda>(l1, s).
        bindR (read_data_internal rd s cid new_paddr bytes_to_read stage priv) (\<lambda>(l2, s).
        bindR (blk_update (\<lambda>b. b\<lparr>cb_tag := tag, cb_status := Valid\<rparr>) s cid st victim) (\<lambda>s.
        bindR (pfn_write_handler wr s cid paddr bytes st victim stage priv) (\<lambda>(l3, s).
          Inr (l1 + l2 + l3, s)))))))"

definition write_no_allocate_handler :: "access \<Rightarrow> access" where
  "write_no_allocate_handler wr s cid paddr bytes stage priv = write_data_internal wr s cid paddr bytes stage priv"

definition pfn_read_alloc_handler ::
  "access \<Rightarrow> access \<Rightarrow> MemSys \<Rightarrow> nat \<Rightarrow> target_ulong \<Rightarrow> int \<Rightarrow> nat \<Rightarrow> int \<Rightarrow> nat \<Rightarrow> sim_error + int \<times> MemSys" where
  "pfn_read_alloc_handler rd wr s cid paddr bytes st stage priv =
     bindR (aget (ms_caches s) cid) (\<lambda>c.
       if ca_read_alloc_policy c = ReadAllocate then read_allocate_handler rd wr s cid paddr st stage priv
       else if ca_read_alloc_policy c = ReadNoAllocate then read_no_allocate_handler rd s cid paddr bytes stage priv
       else Inl Null_pointer)"

definition pfn_write_alloc_handler ::
  "access \<Rightarrow> access \<Rightarrow> MemSys \<Rightarrow> nat \<Rightarrow> target_ulong \<Rightarrow> int \<Rightarrow> nat \<Rightarrow> int \<Rightarrow> nat \<Rightarrow> sim_error + int \<times> MemSys" where
  "pfn_write_alloc_handler rd wr s cid paddr bytes st stage priv =
     bindR (aget (ms_caches s) cid) (\<lambda>c.
       if ca_write_alloc_policy c = WriteAllocate then write_allocate_handler rd wr s cid paddr bytes st stage priv
       else if ca_write_alloc_policy c = WriteNoAllocate then write_no_allocate_handler wr s cid paddr bytes stage priv
       else Inl Null_pointer)"

text \<open>The loop over the ways: the first valid block with the tag.\<close>

function tag_scan :: "CacheBlk list \<Rightarrow> nat \<Rightarrow> target_ulong \<Rightarrow> nat \<Rightarrow> sim_error + nat option" where
  "tag_scan row num_ways tag i =
     (if num_ways \<le> i then Inr None
      else bindR (aget row i) (\<lambda>b.
        if cb_tag b = tag \<and> cb_status b = Valid then Inr (Some i) else tag_scan row num_ways tag (Suc i)))"
  by pat_completeness auto
termination
  by (relation "measure (\<lambda>(row, n, tag, i). n - i)") auto

declare tag_scan.simps [simp del]

definition cache_lookup :: "MemSys \<Rightarrow> nat \<Rightarrow> nat \<Rightarrow> target_ulong \<Rightarrow> sim_error + nat option" where
  "cache_lookup s cid st tag =
     bindR (aget (ms_caches s) cid) (\<lambda>c.
     bindR (aget (ca_blk c) st) (\<lambda>row. tag_scan row (ca_num_ways c) tag 0))"

text \<open>
  The loops of \<^verbatim>\<open>cache_read\<close> and \<^verbatim>\<open>cache_write\<close>. \<open>start_byte\<close> is computed once and
  keeps its value when the access moves on to the next line. A line with no byte
  after \<open>start_byte\<close> (impossible when \<open>line_bytes\<close> is a power of two) would leave the
  loop without progress: \<open>No_progress\<close>.
\<close>

function cache_read_loop ::
  "access \<Rightarrow> access \<Rightarrow> nat \<Rightarrow> int \<Rightarrow> int \<Rightarrow> nat \<Rightarrow> MemSys \<Rightarrow> nat \<Rightarrow> target_ulong \<Rightarrow> target_ulong \<Rightarrow> int
     \<Rightarrow> bool \<Rightarrow> int \<Rightarrow> sim_error + int \<times> MemSys" where
  "cache_read_loop rd wr cid start_byte stage priv s st tag paddr bytes_to_read miss latency =
     (if bytes_to_read \<le> 0 then Inr (latency, s)
      else bindR (aget (ms_caches s) cid) (\<lambda>c.
           let available_bytes = line_bytes c - start_byte in
           bindR (cache_lookup s cid st tag) (\<lambda>way.
           case way of
             Some i \<Rightarrow>
               bindR (policy_use s cid st i) (\<lambda>s.
               if start_byte + bytes_to_read \<le> line_bytes c then Inr (latency, s)
               else if available_bytes \<le> 0 then Inl No_progress
               else bindR (update_tag_address c st tag) (\<lambda>(st, tag, paddr).
                    cache_read_loop rd wr cid start_byte stage priv s st tag paddr
                      (bytes_to_read - available_bytes) miss latency))
           | None \<Rightarrow>
               bindR (if miss then Inr s
                      else stats_update (\<lambda>v. v\<lparr>read_miss_cnt := read_miss_cnt v + 1\<rparr>) s cid priv) (\<lambda>s.
               if start_byte + bytes_to_read \<le> line_bytes c
               then bindR (pfn_read_alloc_handler rd wr s cid paddr bytes_to_read st stage priv) (\<lambda>(l, s).
                      Inr (latency + l, s))
               else if available_bytes \<le> 0 then Inl No_progress
               else bindR (pfn_read_alloc_handler rd wr s cid paddr available_bytes st stage priv) (\<lambda>(l, s).
                    bindR (update_tag_address c st tag) (\<lambda>(st, tag, paddr).
                    cache_read_loop rd wr cid start_byte stage priv s st tag paddr
                      (bytes_to_read - available_bytes) True (latency + l)))))))"
  by pat_completeness auto
termination
  by (relation "measure (\<lambda>(rd, wr, cid, sb, stage, priv, s, st, tag, paddr, n, miss, l). nat n)") auto

declare cache_read_loop.simps [simp del]

function cache_write_loop ::
  "access \<Rightarrow> access \<Rightarrow> nat \<Rightarrow> int \<Rightarrow> int \<Rightarrow> nat \<Rightarrow> MemSys \<Rightarrow> nat \<Rightarrow> target_ulong \<Rightarrow> target_ulong \<Rightarrow> int
     \<Rightarrow> bool \<Rightarrow> int \<Rightarrow> sim_error + int \<times> MemSys" where
  "cache_write_loop rd wr cid start_byte stage priv s st tag paddr bytes_to_write miss latency =
     (if bytes_to_write \<le> 0 then Inr (latency, s)
      else bindR (aget (ms_caches s) cid) (\<lambda>c.
           let available_bytes = line_bytes c - start_byte in
           bindR (cache_lookup s cid st tag) (\<lambda>way.
           case way of
             Some i \<Rightarrow>
               if start_byte + bytes_to_write \<le> line_bytes c
               then bindR (pfn_write_handler wr s cid paddr bytes_to_write st i stage priv) (\<lambda>(l, s).
                      Inr (latency + l, s))
               else if available_bytes \<le> 0 then Inl No_progress
               else bindR (pfn_write_handler wr s cid paddr available_bytes st i stage priv) (\<lambda>(l, s).
                    bindR (update_tag_address c st tag) (\<lambda>(st, tag, paddr).
                    cache_write_loop rd wr cid start_byte stage priv s st tag paddr
                      (bytes_to_write - available_bytes) miss (latency + l)))
           | None \<Rightarrow>
               bindR (if miss then Inr s
                      else stats_update (\<lambda>v. v\<lparr>write_miss_cnt := write_miss_cnt v + 1\<rparr>) s cid priv) (\<lambda>s.
               if start_byte + bytes_to_write \<le> line_bytes c
               then bindR (pfn_write_alloc_handler rd wr s cid paddr bytes_to_write st stage priv) (\<lambda>(l, s).
                      Inr (latency + l, s))
               else if available_bytes \<le> 0 then Inl No_progress
               else bindR (pfn_write_alloc_handler rd wr s cid paddr available_bytes st stage priv) (\<lambda>(l, s).
                    bindR (update_tag_address c st tag) (\<lambda>(st, tag, paddr).
                    cache_write_loop rd wr cid start_byte stage priv s st tag paddr
                      (bytes_to_write - available_bytes) True (latency + l)))))))"
  by pat_completeness auto
termination
  by (relation "measure (\<lambda>(rd, wr, cid, sb, stage, priv, s, st, tag, paddr, n, miss, l). nat n)") auto

declare cache_write_loop.simps [simp del]

definition addr_start_byte :: "Cache \<Rightarrow> target_ulong \<Rightarrow> int" where
  "addr_start_byte c paddr = uint (paddr AND BITMASK (ca_word_bits c))"

definition addr_set :: "Cache \<Rightarrow> target_ulong \<Rightarrow> nat" where
  "addr_set c paddr = unat (drop_bit (ca_word_bits c) paddr AND BITMASK (ca_set_bits c))"

definition addr_tag :: "Cache \<Rightarrow> target_ulong \<Rightarrow> target_ulong" where
  "addr_tag c paddr = drop_bit (ca_word_bits c) paddr"

definition cache_read_with :: "access \<Rightarrow> access \<Rightarrow> access" where
  "cache_read_with rd wr s cid paddr bytes stage priv =
     bindR (aget (ms_caches s) cid) (\<lambda>c.
     bindR (aget (ca_blk c) (addr_set c paddr)) (\<lambda>_.
     bindR (stats_update (\<lambda>v. v\<lparr>total_read_cnt := total_read_cnt v + 1\<rparr>) s cid priv) (\<lambda>s.
       cache_read_loop rd wr cid (addr_start_byte c paddr) stage priv s (addr_set c paddr) (addr_tag c paddr)
         paddr bytes False (ca_read_latency c))))"

definition cache_write_with :: "access \<Rightarrow> access \<Rightarrow> access" where
  "cache_write_with rd wr s cid paddr bytes stage priv =
     bindR (aget (ms_caches s) cid) (\<lambda>c.
     bindR (aget (ca_blk c) (addr_set c paddr)) (\<lambda>_.
     bindR (stats_update (\<lambda>v. v\<lparr>total_write_cnt := total_write_cnt v + 1\<rparr>) s cid priv) (\<lambda>s.
       cache_write_loop rd wr cid (addr_start_byte c paddr) stage priv s (addr_set c paddr) (addr_tag c paddr)
         paddr bytes False (ca_write_latency c))))"

text \<open>
  The recursion of reads and writes through the levels, to a given depth. The next
  level of a cache is created before it, so the number of caches is enough.
\<close>

primrec cache_access :: "nat \<Rightarrow> bool \<Rightarrow> access" where
  "cache_access 0 w = (\<lambda>s cid paddr bytes stage priv. Inl No_progress)"
| "cache_access (Suc d) w =
     (if w then cache_write_with (cache_access d False) (cache_access d True)
      else cache_read_with (cache_access d False) (cache_access d True))"

definition cache_read :: access where
  "cache_read s cid paddr bytes stage priv =
     cache_access (length (ms_caches s)) False s cid paddr bytes stage priv"

definition cache_write :: access where
  "cache_write s cid paddr bytes stage priv =
     cache_access (length (ms_caches s)) True s cid paddr bytes stage priv"

definition cache_flush :: "Cache \<Rightarrow> sim_error + Cache" where
  "cache_flush c =
     bindR (foldR (\<lambda>i blk. bindR (aget blk i) (\<lambda>row.
              bindR (fill (ca_num_ways c) zero_blk row) (aset blk i)))
            [0..<ca_num_sets c] (ca_blk c)) (\<lambda>blk.
       Inr (c\<lparr>ca_evict_policy := evict_policy_reset (ca_evict_policy c), ca_blk := blk\<rparr>))"

definition cache_reset_stats :: "Cache \<Rightarrow> sim_error + Cache" where
  "cache_reset_stats c =
     bindR (fill NUM_MAX_PRV_LEVELS zero_stats_cnt (ca_stats c)) (\<lambda>v. Inr (c\<lparr>ca_stats := v\<rparr>))"

definition get_num_cache_blks :: "int \<Rightarrow> int \<Rightarrow> sim_error + int" where
  "get_num_cache_blks size_kb line_size =
     (if line_size = 0 then Inl Division_by_zero else Inr ((size_kb * 1024) sdiv line_size))"

text \<open>
  Two expressions of \<^verbatim>\<open>cache_init\<close> have no defined value in C: the conversion of
  \<^verbatim>\<open>pow(2, 64) - 1\<close>, which is \<open>2 ^ 64\<close> as a \<^verbatim>\<open>double\<close>, to an unsigned 64-bit integer, and
  \<^verbatim>\<open>1 << c->tag_bits\<close> on \<^verbatim>\<open>int\<close>. What the compiler makes of them are the arguments
  \<open>all_ones\<close> and \<open>shl_1\<close>.
\<close>

definition cache_init ::
  "target_ulong \<Rightarrow> (int \<Rightarrow> int) \<Rightarrow> int \<Rightarrow> int \<Rightarrow> int \<Rightarrow> int \<Rightarrow> int \<Rightarrow> int \<Rightarrow> int \<Rightarrow> nat option \<Rightarrow> int \<Rightarrow> int
     \<Rightarrow> int \<Rightarrow> int \<Rightarrow> int \<Rightarrow> sim_error + Cache" where
  "cache_init all_ones shl_1 type level size_kb line_size ways read_latency write_latency
     next_level words_per_blk evict_policy write_policy read_alloc_policy write_alloc_policy =
     bindR (get_num_cache_blks size_kb line_size) (\<lambda>blks.
     let blks = blks mod 2 ^ 32; ways = ways mod 2 ^ 32
     in if ways = 0 then Inl Division_by_zero
     else let num_sets = blks div ways;
              word_bits = GET_NUM_BITS (nat (WORD_SIZE * words_per_blk));
              tag_bits = 64 - int word_bits
     in bindR (calloc ways zero_blk) (\<lambda>row.
        bindR (calloc num_sets row) (\<lambda>blk.
          Inr \<lparr>ca_level = level, ca_type = type, ca_num_ways = nat ways, ca_num_blks = nat blks,
               ca_num_sets = nat num_sets, ca_tag_bits = tag_bits, ca_set_bits = GET_NUM_BITS (nat num_sets),
               ca_word_bits = word_bits, ca_size = (blks * words_per_blk * WORD_SIZE) div 1024,
               ca_max_words_per_blk = words_per_blk, ca_max_tag_val = of_int (shl_1 tag_bits),
               ca_tag_bits_mask = push_bit word_bits all_ones,
               ca_read_latency = read_latency, ca_write_latency = write_latency,
               ca_write_policy = write_policy, ca_read_alloc_policy = read_alloc_policy,
               ca_write_alloc_policy = write_alloc_policy, ca_blk = blk,
               ca_next_level_cache = next_level,
               ca_stats = replicate NUM_MAX_PRV_LEVELS zero_stats_cnt,
               ca_evict_policy = evict_policy_create (nat num_sets) (nat ways) evict_policy\<rparr>)))"

section \<open>Invariant\<close>

text \<open>
  The geometry \<^verbatim>\<open>cache_init\<close> sets up, for a line of a power of two of bytes, a power of
  two of sets, the policies of the enumerations, and an all-ones conversion.
\<close>

definition cache_wf :: "Cache \<Rightarrow> bool" where
  "cache_wf c \<longleftrightarrow>
     line_bytes c = 2 ^ ca_word_bits c \<and> is_pow2 (ca_num_sets c) \<and> ca_set_bits c = GET_NUM_BITS (ca_num_sets c)
     \<and> length (ca_blk c) = ca_num_sets c \<and> list_all (\<lambda>row. length row = ca_num_ways c) (ca_blk c)
     \<and> ep_inv (ca_evict_policy c) \<and> ep_num_sets (ca_evict_policy c) = ca_num_sets c
     \<and> ep_num_ways (ca_evict_policy c) = ca_num_ways c \<and> length (ca_stats c) = NUM_MAX_PRV_LEVELS
     \<and> ca_max_tag_val c \<noteq> 0 \<and> ca_tag_bits_mask c = push_bit (ca_word_bits c) (- 1)
     \<and> ca_write_policy c \<in> {WriteBack, WriteThrough} \<and> ca_read_alloc_policy c \<in> {ReadAllocate, ReadNoAllocate}
     \<and> ca_write_alloc_policy c \<in> {WriteAllocate, WriteNoAllocate}
     \<and> 0 \<le> ca_read_latency c \<and> 0 \<le> ca_write_latency c"

definition ms_wf :: "nat \<Rightarrow> MemSys \<Rightarrow> bool" where
  "ms_wf k s \<longleftrightarrow> k < 31 \<and> mc_inv (ms_mc s) \<and> mc_burst_length (ms_mc s) = 2 ^ k
     \<and> (\<forall>i < length (ms_caches s). cache_wf (ms_caches s ! i) \<and> ca_word_bits (ms_caches s ! i) = k
        \<and> (case ca_next_level_cache (ms_caches s ! i) of None \<Rightarrow> True | Some n \<Rightarrow> n < i))"

text \<open>The requests the memory controller can still take from a stage.\<close>

definition room :: "int \<Rightarrow> MemSys \<Rightarrow> nat" where
  "room stage s = min (length (mc_reqs (ms_mc s)) - length (mc_pending (ms_mc s)))
     (stage_room (mc_queues (ms_mc s)) MEM_ACCESS_READ stage)"

definition same_cfg :: "Cache \<Rightarrow> Cache \<Rightarrow> bool" where
  "same_cfg c c' \<longleftrightarrow>
     c' = c\<lparr>ca_blk := ca_blk c', ca_stats := ca_stats c', ca_evict_policy := ca_evict_policy c'\<rparr>"

text \<open>Every pending request is one the stage has recorded, so signalling the stage starts it.\<close>

definition covered :: "int \<Rightarrow> MemoryController \<Rightarrow> bool" where
  "covered stage m \<longleftrightarrow> (\<forall>e\<in>set (mc_pending m). me_valid e
     \<and> me_addr e \<in> me_addr ` set (sq_used (stage_queue (mc_queues m) MEM_ACCESS_READ stage)))"

text \<open>
  What a piece of an access does: it keeps the invariant, touches no cache from \<open>b\<close> on,
  adds at most \<open>N\<close> requests to the end of the request queue, and nothing else.
\<close>

definition eff :: "nat \<Rightarrow> int \<Rightarrow> nat \<Rightarrow> nat \<Rightarrow> MemSys \<Rightarrow> MemSys \<Rightarrow> bool" where
  "eff k stage b N s s' \<longleftrightarrow> ms_wf k s' \<and> length (ms_caches s') = length (ms_caches s)
     \<and> (\<forall>j. b \<le> j \<longrightarrow> ms_caches s' ! j = ms_caches s ! j)
     \<and> (\<forall>j < length (ms_caches s). same_cfg (ms_caches s ! j) (ms_caches s' ! j))
     \<and> room stage s \<le> room stage s' + N \<and> length (mc_pending (ms_mc s')) \<le> length (mc_pending (ms_mc s)) + N
     \<and> (\<exists>es. mc_pending (ms_mc s') = mc_pending (ms_mc s) @ es)
     \<and> mc_dram (ms_mc s') = mc_dram (ms_mc s) \<and> (mc_served (ms_mc s) \<longrightarrow> mc_served (ms_mc s'))
     \<and> (covered stage (ms_mc s) \<longrightarrow> covered stage (ms_mc s'))"

definition stage_ok :: "int \<Rightarrow> bool" where
  "stage_ok stage \<longleftrightarrow> stage = FETCH \<or> stage = MEMORY"

text \<open>An access that stays within one line.\<close>

definition inline :: "nat \<Rightarrow> target_ulong \<Rightarrow> int \<Rightarrow> bool" where
  "inline k a n \<longleftrightarrow> 0 < n \<and> uint (take_bit k a) + n \<le> 2 ^ k"

lemma same_cfg_fields:
  assumes "same_cfg c c'"
  shows "ca_level c' = ca_level c" "ca_type c' = ca_type c" "ca_num_ways c' = ca_num_ways c"
    "ca_num_blks c' = ca_num_blks c" "ca_num_sets c' = ca_num_sets c" "ca_set_bits c' = ca_set_bits c"
    "ca_word_bits c' = ca_word_bits c" "ca_max_words_per_blk c' = ca_max_words_per_blk c"
    "line_bytes c' = line_bytes c" "ca_max_tag_val c' = ca_max_tag_val c"
    "ca_tag_bits_mask c' = ca_tag_bits_mask c" "ca_read_latency c' = ca_read_latency c"
    "ca_write_latency c' = ca_write_latency c" "ca_write_policy c' = ca_write_policy c"
    "ca_read_alloc_policy c' = ca_read_alloc_policy c" "ca_write_alloc_policy c' = ca_write_alloc_policy c"
    "ca_next_level_cache c' = ca_next_level_cache c"
proof -
  define bs vs p where "bs = ca_blk c'" and "vs = ca_stats c'" and "p = ca_evict_policy c'"
  then have "c' = c\<lparr>ca_blk := bs, ca_stats := vs, ca_evict_policy := p\<rparr>" using assms by (simp add: same_cfg_def)
  then show "ca_level c' = ca_level c" "ca_type c' = ca_type c" "ca_num_ways c' = ca_num_ways c"
    "ca_num_blks c' = ca_num_blks c" "ca_num_sets c' = ca_num_sets c" "ca_set_bits c' = ca_set_bits c"
    "ca_word_bits c' = ca_word_bits c" "ca_max_words_per_blk c' = ca_max_words_per_blk c"
    "line_bytes c' = line_bytes c" "ca_max_tag_val c' = ca_max_tag_val c"
    "ca_tag_bits_mask c' = ca_tag_bits_mask c" "ca_read_latency c' = ca_read_latency c"
    "ca_write_latency c' = ca_write_latency c" "ca_write_policy c' = ca_write_policy c"
    "ca_read_alloc_policy c' = ca_read_alloc_policy c" "ca_write_alloc_policy c' = ca_write_alloc_policy c"
    "ca_next_level_cache c' = ca_next_level_cache c"
    by (simp_all add: line_bytes_def)
qed

lemma same_cfg_refl [simp]: "same_cfg c c"
  by (simp add: same_cfg_def)

lemma same_cfg_upd [simp]: "same_cfg c (c\<lparr>ca_blk := bs\<rparr>)" "same_cfg c (c\<lparr>ca_stats := vs\<rparr>)"
  "same_cfg c (c\<lparr>ca_evict_policy := p\<rparr>)" "same_cfg c (c\<lparr>ca_blk := bs, ca_evict_policy := p\<rparr>)"
  by (simp_all add: same_cfg_def)

lemma same_cfg_trans: "same_cfg a b \<Longrightarrow> same_cfg b c \<Longrightarrow> same_cfg a c"
proof -
  assume a: "same_cfg a b" "same_cfg b c"
  define bs vs p bs' vs' p' where d: "bs = ca_blk b" "vs = ca_stats b" "p = ca_evict_policy b"
    "bs' = ca_blk c" "vs' = ca_stats c" "p' = ca_evict_policy c"
  have b: "b = a\<lparr>ca_blk := bs, ca_stats := vs, ca_evict_policy := p\<rparr>"
    using a(1) by (simp add: same_cfg_def d)
  have "c = b\<lparr>ca_blk := bs', ca_stats := vs', ca_evict_policy := p'\<rparr>"
    using a(2) by (simp add: same_cfg_def d)
  then have "c = a\<lparr>ca_blk := bs', ca_stats := vs', ca_evict_policy := p'\<rparr>" by (simp add: b)
  then show ?thesis by (simp add: same_cfg_def)
qed

lemma eff_refl: "ms_wf k s \<Longrightarrow> eff k stage b 0 s s"
  by (simp add: eff_def)

lemma eff_trans:
  "eff k stage b N s s' \<Longrightarrow> eff k stage b M s' s'' \<Longrightarrow> eff k stage b (N + M) s s''"
  by (fastforce simp: eff_def intro: same_cfg_trans)

lemma eff_mono: "eff k stage b N s s' \<Longrightarrow> b \<le> b' \<Longrightarrow> N \<le> N' \<Longrightarrow> eff k stage b' N' s s'"
  by (auto simp: eff_def)

lemma eff_wf: "eff k stage b N s s' \<Longrightarrow> ms_wf k s'"
  and eff_length: "eff k stage b N s s' \<Longrightarrow> length (ms_caches s') = length (ms_caches s)"
  and eff_room: "eff k stage b N s s' \<Longrightarrow> room stage s - N \<le> room stage s'"
  and eff_same: "eff k stage b N s s' \<Longrightarrow> b \<le> j \<Longrightarrow> ms_caches s' ! j = ms_caches s ! j"
  and eff_cfg: "eff k stage b N s s' \<Longrightarrow> j < length (ms_caches s) \<Longrightarrow> same_cfg (ms_caches s ! j) (ms_caches s' ! j)"
  by (auto simp: eff_def)

lemma ms_wf_cache: "ms_wf k s \<Longrightarrow> i < length (ms_caches s) \<Longrightarrow>
    cache_wf (ms_caches s ! i) \<and> ca_word_bits (ms_caches s ! i) = k \<and> line_bytes (ms_caches s ! i) = 2 ^ k"
  by (auto simp: ms_wf_def cache_wf_def)

lemma room_upd_cache [simp]: "room stage (upd_cache s i c) = room stage s"
  "room stage (s\<lparr>ms_rand := r\<rparr>) = room stage s"
  "room stage (s\<lparr>ms_caches := cs\<rparr>) = room stage s"
  by (simp_all add: room_def upd_cache_def)

lemma upd_cache_simps [simp]: "ms_mc (upd_cache s i c) = ms_mc s" "ms_rand (upd_cache s i c) = ms_rand s"
  "length (ms_caches (upd_cache s i c)) = length (ms_caches s)"
  "i < length (ms_caches s) \<Longrightarrow> ms_caches (upd_cache s i c) ! i = c"
  "i \<noteq> j \<Longrightarrow> ms_caches (upd_cache s i c) ! j = ms_caches s ! j"
  by (simp_all add: upd_cache_def)

lemma eff_upd_cache:
  assumes "ms_wf k s" and "i < length (ms_caches s)" and "cache_wf c'" and "same_cfg (ms_caches s ! i) c'"
  shows "eff k stage (Suc i) 0 s (upd_cache s i c')"
  using assms same_cfg_fields [OF assms(4)]
  by (auto simp: eff_def ms_wf_def upd_cache_def nth_list_update)

lemma eff_rand: "ms_wf k s \<Longrightarrow> eff k stage b 0 s (s\<lparr>ms_rand := r\<rparr>)"
  by (auto simp: eff_def ms_wf_def)

section \<open>Own state of a cache\<close>

lemma row_length: "cache_wf c \<Longrightarrow> st < ca_num_sets c \<Longrightarrow> length (ca_blk c ! st) = ca_num_ways c"
  using list_all_nth [of "\<lambda>row. length row = ca_num_ways c" "ca_blk c" st] by (simp add: cache_wf_def)

lemma cache_wf_upd:
  assumes "cache_wf c"
  shows "length vs = NUM_MAX_PRV_LEVELS \<Longrightarrow> cache_wf (c\<lparr>ca_stats := vs\<rparr>)"
    and "ep_inv p \<Longrightarrow> ep_num_sets p = ca_num_sets c \<Longrightarrow> ep_num_ways p = ca_num_ways c
      \<Longrightarrow> cache_wf (c\<lparr>ca_evict_policy := p\<rparr>)"
    and "st < ca_num_sets c \<Longrightarrow> cache_wf (c\<lparr>ca_blk := (ca_blk c)[st := (ca_blk c ! st)[w := b]]\<rparr>)"
  using assms row_length [OF assms, of st] by (simp_all add: cache_wf_def line_bytes_def list_all_update)

definition with_blk :: "Cache \<Rightarrow> nat \<Rightarrow> nat \<Rightarrow> CacheBlk \<Rightarrow> Cache" where
  "with_blk c st w b = c\<lparr>ca_blk := (ca_blk c)[st := (ca_blk c ! st)[w := b]]\<rparr>"

lemma with_blk_simps [simp]:
  "cache_wf c \<Longrightarrow> st < ca_num_sets c \<Longrightarrow> w < ca_num_ways c \<Longrightarrow> ca_blk (with_blk c st w b) ! st ! w = b"
  "st < length (ca_blk c) \<Longrightarrow> with_blk (with_blk c st w b) st w b' = with_blk c st w b'"
  "ca_num_sets (with_blk c st w b) = ca_num_sets c" "ca_num_ways (with_blk c st w b) = ca_num_ways c"
  "ca_write_policy (with_blk c st w b) = ca_write_policy c" "ca_next_level_cache (with_blk c st w b) = ca_next_level_cache c"
  "ca_evict_policy (with_blk c st w b) = ca_evict_policy c" "ca_word_bits (with_blk c st w b) = ca_word_bits c"
  using row_length [of c st] by (simp_all add: with_blk_def) (simp add: cache_wf_def)

lemma blk_update_ok:
  assumes "ms_wf k s" and "cid < length (ms_caches s)" and "c = ms_caches s ! cid"
    and "st < ca_num_sets c" and "w < ca_num_ways c"
  shows "blk_update f s cid st w = Inr (upd_cache s cid (with_blk c st w (f (ca_blk c ! st ! w))))"
    and "eff k stage (Suc cid) 0 s (upd_cache s cid (with_blk c st w b))"
proof -
  have wf: "cache_wf c" using ms_wf_cache [OF assms(1,2)] assms(3) by simp
  show "blk_update f s cid st w = Inr (upd_cache s cid (with_blk c st w (f (ca_blk c ! st ! w))))"
    using assms(2-5) wf row_length [OF wf assms(4)]
    by (simp add: blk_update_def with_blk_def) (simp add: cache_wf_def)
  show "eff k stage (Suc cid) 0 s (upd_cache s cid (with_blk c st w b))"
    unfolding with_blk_def
    by (rule eff_upd_cache [OF assms(1,2) cache_wf_upd(3) [OF wf assms(4)]]) (simp add: assms(3))
qed

lemma stats_update_ok:
  assumes "ms_wf k s" and "cid < length (ms_caches s)" and "c = ms_caches s ! cid" and "priv < NUM_MAX_PRV_LEVELS"
  shows "stats_update f s cid priv = Inr (upd_cache s cid (c\<lparr>ca_stats := (ca_stats c)[priv := f (ca_stats c ! priv)]\<rparr>))"
    and "eff k stage (Suc cid) 0 s (upd_cache s cid (c\<lparr>ca_stats := (ca_stats c)[priv := v]\<rparr>))"
proof -
  have wf: "cache_wf c" and l: "length (ca_stats c) = NUM_MAX_PRV_LEVELS"
    using ms_wf_cache [OF assms(1,2)] assms(3) by (simp_all add: cache_wf_def)
  show "stats_update f s cid priv = Inr (upd_cache s cid (c\<lparr>ca_stats := (ca_stats c)[priv := f (ca_stats c ! priv)]\<rparr>))"
    using assms(2-4) l by (simp add: stats_update_def)
  show "eff k stage (Suc cid) 0 s (upd_cache s cid (c\<lparr>ca_stats := (ca_stats c)[priv := v]\<rparr>))"
    using l eff_upd_cache [OF assms(1,2) cache_wf_upd(1) [OF wf]] by (simp add: assms(3))
qed

lemma policy_use_ok:
  assumes "ms_wf k s" and "cid < length (ms_caches s)" and "c = ms_caches s ! cid"
    and "st < ca_num_sets c" and "w < ca_num_ways c"
  shows "\<exists>p. policy_use s cid st w = Inr (upd_cache s cid (c\<lparr>ca_evict_policy := p\<rparr>))
    \<and> eff k stage (Suc cid) 0 s (upd_cache s cid (c\<lparr>ca_evict_policy := p\<rparr>))"
proof -
  have wf: "cache_wf c" using ms_wf_cache [OF assms(1,2)] assms(3) by simp
  then obtain p where p: "evict_use (ca_evict_policy c) st w = Inr p" "ep_inv p"
    "ep_num_sets p = ca_num_sets c" "ep_num_ways p = ca_num_ways c"
    using ep.use_ok [of "ca_evict_policy c" st w] assms(4,5) by (auto simp: cache_wf_def)
  have "policy_use s cid st w = Inr (upd_cache s cid (c\<lparr>ca_evict_policy := p\<rparr>))"
    using assms(2,3) p(1) by (simp add: policy_use_def)
  moreover have "eff k stage (Suc cid) 0 s (upd_cache s cid (c\<lparr>ca_evict_policy := p\<rparr>))"
    by (rule eff_upd_cache [OF assms(1,2) cache_wf_upd(2) [OF wf p(2-4)]]) (simp add: assms(3))
  ultimately show ?thesis by blast
qed

lemma policy_evict_ok:
  assumes "ms_wf k s" and "cid < length (ms_caches s)" and "st < ca_num_sets (ms_caches s ! cid)"
  shows "\<exists>w r. policy_evict s cid st = Inr (w, s\<lparr>ms_rand := r\<rparr>) \<and> w < ca_num_ways (ms_caches s ! cid)"
proof -
  let ?p = "ca_evict_policy (ms_caches s ! cid)"
  have "ep_inv ?p" "ep_num_sets ?p = ca_num_sets (ms_caches s ! cid)" "ep_num_ways ?p = ca_num_ways (ms_caches s ! cid)"
    using ms_wf_cache [OF assms(1,2)] by (simp_all add: cache_wf_def)
  then obtain w r where "evict_evict ?p (ms_rand s) st = Inr (w, r)" "w < ca_num_ways (ms_caches s ! cid)"
    using ep.evict_ok [of ?p st "ms_rand s"] assms(3) by auto
  then show ?thesis using assms(2) by (intro exI [of _ w] exI [of _ r]) (simp add: policy_evict_def)
qed

section \<open>Requests of one line\<close>

definition line_base :: "nat \<Rightarrow> target_ulong \<Rightarrow> target_ulong" where
  "line_base k a = push_bit k (drop_bit k a)"

lemma line_base_diff: "a - take_bit k a = line_base k a"
  using bits_ident [of k a] by (simp add: line_base_def diff_eq_eq)

lemma drop_bit_line_base: "drop_bit k (line_base k a) = drop_bit k a"
  by (rule bit_word_eqI) (auto simp: line_base_def bit_simps dest: bit_imp_le_length)

lemma bursts_one: "0 < n \<Longrightarrow> n \<le> b \<Longrightarrow> bursts b n = 1"
  using bursts_Suc [of n b] bursts_0 [of "n - b" b] by simp

lemma room_stage: "ty \<in> {MEM_ACCESS_READ, MEM_ACCESS_WRITE} \<Longrightarrow>
    stage_room qs ty stage = stage_room qs MEM_ACCESS_READ stage"
  by (auto simp: stage_room_def stage_queue_def)

lemma mem_request_ok:
  assumes "ms_wf k s" and "stage_ok stage" and "ty \<in> {MEM_ACCESS_READ, MEM_ACCESS_WRITE}"
    and "inline k a n" and "1 \<le> room stage s"
  shows "\<exists>s' e. mem_request s a n ty stage = Inr (0, s') \<and> eff k stage 0 1 s s' \<and> ms_caches s' = ms_caches s
    \<and> mc_pending (ms_mc s') = mc_pending (ms_mc s) @ [e] \<and> req_view e = (line_base k a, ty, True, False, 2 ^ k)"
proof -
  let ?m = "ms_mc s" and ?b = "2 ^ k :: int"
  have m: "mc_inv ?m" "mc_burst_length ?m = ?b" using assms(1) by (auto simp: ms_wf_def)
  have tk: "a mod of_int ?b = take_bit k a" by (simp add: take_bit_eq_mod)
  have base: "access_base ?b a ty = line_base k a"
    using assms(3) unfolding access_base_def tk by (auto simp: line_base_diff) (simp_all add: line_base_def)
  have one: "bursts ?b (access_bytes ?b a n ty) = 1"
    using assms(3,4) unfolding access_bytes_def tk inline_def by (intro bursts_one) (auto simp: add_pos_nonneg)
  have acc: "access_ok ty stage" using assms(2,3) by (auto simp: access_ok_def stage_ok_def)
  have pre: "bursts ?b (access_bytes ?b a n ty) \<le> stage_room (mc_queues ?m) ty stage"
    "length (mc_pending ?m) + bursts ?b (access_bytes ?b a n ty) \<le> length (mc_reqs ?m)"
    using assms(5) room_stage [OF assms(3)] by (auto simp: one room_def)
  obtain m' es us where m': "create_loop ?b ?m (line_base k a) (access_bytes ?b a n ty) ty stage = Inr m'" "mc_inv m'"
    "mc_pending m' = mc_pending ?m @ es" "map req_view es = burst_views ?b (line_base k a) ty 1"
    "mc_burst_length m' = ?b" "mc_dram m' = mc_dram ?m" "mc_served ?m \<longrightarrow> mc_served m'"
    "length (mc_reqs m') = length (mc_reqs ?m)"
    "stage_room (mc_queues m') ty stage = stage_room (mc_queues ?m) ty stage - 1"
    "map req_view us = burst_views ?b (line_base k a) ty 1"
    "sq_used (stage_queue (mc_queues m') ty stage) = sq_used (stage_queue (mc_queues ?m) ty stage) @ us"
    using create_loop_ok [OF m zero_less_power [OF zero_less_numeral] acc pre, of "line_base k a"] unfolding one by (elim exE conjE)
  from m'(4) obtain e where e: "es = [e]" "req_view e = (line_base k a, ty, True, False, ?b)"
    by (auto simp: burst_views_def)
  from m'(10) obtain u where u: "us = [u]" "req_view u = (line_base k a, ty, True, False, ?b)"
    by (auto simp: burst_views_def)
  have "stage_queue qs ty stage = stage_queue qs MEM_ACCESS_READ stage" for qs
    using assms(3) by (auto simp: stage_queue_def)
  then have cov: "covered stage ?m \<longrightarrow> covered stage m'"
    using m'(3,11) req_view_eqs [OF e(2)] req_view_eqs [OF u(2)] by (auto simp: covered_def e(1) u(1))
  let ?s = "s\<lparr>ms_mc := m'\<rparr>"
  have "mem_request s a n ty stage = Inr (0, ?s)"
    using create_request_eq [of ?m a n ty stage] m'(1) m(2) by (simp add: mem_request_def base)
  moreover have "room stage s \<le> room stage ?s + 1"
    using m'(3,8,9) room_stage [OF assms(3)] by (simp add: room_def e)
  then have "eff k stage 0 1 s ?s"
    using assms(1) m' cov e(1) by (auto simp: eff_def ms_wf_def)
  ultimately show ?thesis using m'(3) e by (intro exI [of _ ?s] exI [of _ e]) simp
qed

lemma inline_line: "inline k (push_bit k t) (2 ^ k)"
  by (simp add: inline_def take_bit_push_bit)

lemma inline_mask: "inline k (a AND push_bit k (- 1)) (2 ^ k)" "a AND push_bit k (- 1) = line_base k a"
proof -
  show "a AND push_bit k (- 1) = line_base k a"
    by (rule bit_word_eqI) (auto simp: line_base_def bit_simps)
  then show "inline k (a AND push_bit k (- 1)) (2 ^ k)" using inline_line [of k "drop_bit k a"] by (simp add: line_base_def)
qed

section \<open>Looking up a line\<close>

definition holds_tag :: "Cache \<Rightarrow> nat \<Rightarrow> target_ulong \<Rightarrow> nat \<Rightarrow> bool" where
  "holds_tag c st tag i \<longleftrightarrow> cb_tag (ca_blk c ! st ! i) = tag \<and> cb_status (ca_blk c ! st ! i) = Valid"

definition way_of :: "Cache \<Rightarrow> nat \<Rightarrow> target_ulong \<Rightarrow> nat option" where
  "way_of c st tag = find (holds_tag c st tag) [0..<ca_num_ways c]"

lemma tag_scan_find:
  "n \<le> length row \<Longrightarrow>
     tag_scan row n tag i = Inr (find (\<lambda>i. cb_tag (row ! i) = tag \<and> cb_status (row ! i) = Valid) [i..<n])"
proof (induction row n tag i rule: tag_scan.induct)
  case (1 row n tag i)
  then show ?case by (cases "n \<le> i") (simp_all add: tag_scan.simps [of row n tag i] upt_conv_Cons)
qed

lemma cache_lookup_eq:
  assumes "ms_wf k s" and "cid < length (ms_caches s)" and "c = ms_caches s ! cid" and "st < ca_num_sets c"
  shows "cache_lookup s cid st tag = Inr (way_of c st tag)"
proof -
  have "cache_wf c" using ms_wf_cache [OF assms(1,2)] assms(3) by simp
  then have "st < length (ca_blk c)" "length (ca_blk c ! st) = ca_num_ways c"
    using assms(4) row_length [of c st] by (simp_all add: cache_wf_def)
  then show ?thesis using assms(2,3)
    by (simp add: cache_lookup_def tag_scan_find way_of_def holds_tag_def [abs_def])
qed

lemma way_of_Some: "way_of c st tag = Some i \<Longrightarrow> i < ca_num_ways c \<and> holds_tag c st tag i"
  by (auto simp: way_of_def find_Some_iff)

lemma way_of_None: "way_of c st tag = None \<longleftrightarrow> (\<forall>i < ca_num_ways c. \<not> holds_tag c st tag i)"
  by (auto simp: way_of_def find_None_iff)

lemma addr_set_less: "cache_wf c \<Longrightarrow> addr_set c a < ca_num_sets c"
  using GET_INDEX_in_range [of "ca_num_sets c" "drop_bit (ca_word_bits c) a"]
  by (simp add: cache_wf_def addr_set_def GET_INDEX_def)

lemma start_byte_eq: "addr_start_byte c a = uint (take_bit (ca_word_bits c) a)"
  by (simp add: addr_start_byte_def BITMASK_mask take_bit_eq_mask)

lemma start_byte_bound: "uint (take_bit k a) < 2 ^ k" for a :: target_ulong
  by (simp add: unsigned_take_bit_eq)

lemma update_tag_ok:
  assumes "cache_wf c" and "st < ca_num_sets c"
  shows "\<exists>st' t'. update_tag_address c st t = Inr (st', t', push_bit (ca_word_bits c) t') \<and> st' < ca_num_sets c"
proof -
  have "Suc st mod ca_num_sets c < ca_num_sets c" using assms(2) by simp
  then show ?thesis using assms by (auto simp: update_tag_address_def cache_wf_def Let_def)
qed

end
