(* ===== verification/Cache_Levels.thy ===== *)
theory Cache_Levels
  imports Cache
begin

text \<open>
  Correctness of the caches of \<open>Cache\<close>. A cache relies on the next level only through
  the contract \<open>next_level\<close>; the lemmas of the handlers and loops are proved once in
  it, and \<open>cache_access\<close> satisfies it at every depth.
\<close>

section \<open>The contract between the levels\<close>

definition done_ok :: "nat \<Rightarrow> int \<Rightarrow> nat \<Rightarrow> nat \<Rightarrow> MemSys \<Rightarrow> sim_error + int \<times> MemSys \<Rightarrow> bool" where
  "done_ok k stage b N s r \<longleftrightarrow> (\<exists>l s'. r = Inr (l, s') \<and> 0 \<le> l \<and> eff k stage b N s s')"

text \<open>A dirty victim of a write-back cache above the memory leaves a write request for its line behind.\<close>

definition written_back :: "nat \<Rightarrow> Cache \<Rightarrow> nat \<Rightarrow> nat \<Rightarrow> MemSys \<Rightarrow> MemSys \<Rightarrow> bool" where
  "written_back k c st w s s' \<longleftrightarrow>
     (let b = ca_blk c ! st ! w
      in ca_write_policy c = WriteBack \<and> ca_next_level_cache c = None \<and> cb_status b = Valid \<and> cb_dirty b = Dirty \<longrightarrow>
         (\<exists>es e fs. mc_pending (ms_mc s') = mc_pending (ms_mc s) @ es @ e # fs
            \<and> req_view e = (push_bit k (cb_tag b), MEM_ACCESS_WRITE, True, False, 2 ^ k)))"

lemma written_back_mono: "written_back k c st w s s1 \<Longrightarrow> eff k stage b N s1 s' \<Longrightarrow> written_back k c st w s s'"
  by (fastforce simp: written_back_def eff_def Let_def)

lemma written_back_rand: "written_back k c st w (s\<lparr>ms_rand := r\<rparr>) s' = written_back k c st w s s'"
  by (simp add: written_back_def)

lemma miss_count_ok:
  assumes "ms_wf k s" and "cid < length (ms_caches s)" and "priv < NUM_MAX_PRV_LEVELS"
  shows "\<exists>s0 vs. (if miss then Inr s else stats_update f s cid priv) = Inr s0 \<and> eff k stage (Suc cid) 0 s s0
    \<and> ms_caches s0 ! cid = (ms_caches s ! cid)\<lparr>ca_stats := vs\<rparr> \<and> ms_mc s0 = ms_mc s"
proof (cases miss)
  case True
  then show ?thesis using eff_refl [OF assms(1)] by (auto intro: exI [of _ "ca_stats (ms_caches s ! cid)"])
next
  case False
  then show ?thesis using stats_update_ok [OF assms(1,2) refl assms(3)] assms(2) by auto
qed

text \<open>
  What a cache relies on from the next level, for accesses within one line: they
  succeed, cost at most \<open>N\<close> memory requests, and leave the caches above alone.
\<close>

locale next_level =
  fixes k d N :: nat and rd wr :: access
  assumes rd_ok: "cid < d \<Longrightarrow> ms_wf k s \<Longrightarrow> cid < length (ms_caches s) \<Longrightarrow> stage_ok stage
      \<Longrightarrow> priv < NUM_MAX_PRV_LEVELS \<Longrightarrow> inline k a n \<Longrightarrow> N \<le> room stage s
      \<Longrightarrow> done_ok k stage (Suc cid) N s (rd s cid a n stage priv)"
    and wr_ok: "cid < d \<Longrightarrow> ms_wf k s \<Longrightarrow> cid < length (ms_caches s) \<Longrightarrow> stage_ok stage
      \<Longrightarrow> priv < NUM_MAX_PRV_LEVELS \<Longrightarrow> inline k a n \<Longrightarrow> N \<le> room stage s
      \<Longrightarrow> done_ok k stage (Suc cid) N s (wr s cid a n stage priv)"
    and N_pos: "1 \<le> N"
begin

lemma below_ok:
  assumes "cid \<le> d" and "ms_wf k s" and "cid < length (ms_caches s)" and "stage_ok stage"
    and "priv < NUM_MAX_PRV_LEVELS" and "inline k a n" and "N \<le> room stage s"
  shows "done_ok k stage cid N s (read_data_internal rd s cid a n stage priv)"
    and "done_ok k stage cid N s (write_data_internal wr s cid a n stage priv)"
proof -
  have one: "1 \<le> room stage s" using assms(7) N_pos by simp
  show "done_ok k stage cid N s (read_data_internal rd s cid a n stage priv)"
  proof (cases "ca_next_level_cache (ms_caches s ! cid)")
    case None
    then show ?thesis
      using mem_request_ok [OF assms(2,4) _ assms(6) one, of MEM_ACCESS_READ] assms(3) N_pos
      by (auto simp: read_data_internal_def done_ok_def elim!: eff_mono)
  next
    case (Some j)
    then have "j < cid" using assms(2,3) by (fastforce simp: ms_wf_def)
    then show ?thesis
      using rd_ok [of j s stage priv a n] assms Some
      by (auto simp: read_data_internal_def done_ok_def elim!: eff_mono)
  qed
  show "done_ok k stage cid N s (write_data_internal wr s cid a n stage priv)"
  proof (cases "ca_next_level_cache (ms_caches s ! cid)")
    case None
    then show ?thesis
      using mem_request_ok [OF assms(2,4) _ assms(6) one, of MEM_ACCESS_WRITE] assms(3) N_pos
      by (auto simp: write_data_internal_def done_ok_def elim!: eff_mono)
  next
    case (Some j)
    then have "j < cid" using assms(2,3) by (fastforce simp: ms_wf_def)
    then show ?thesis
      using wr_ok [of j s stage priv a n] assms Some
      by (auto simp: write_data_internal_def done_ok_def elim!: eff_mono)
  qed
qed

lemma write_back_request:
  assumes "ms_wf k s" and "cid < length (ms_caches s)" and "stage_ok stage" and "N \<le> room stage s"
    and "ca_next_level_cache (ms_caches s ! cid) = None"
    and "write_data_internal wr s cid (push_bit k t) (2 ^ k) stage priv = Inr (l, s')"
  shows "\<exists>es e fs. mc_pending (ms_mc s') = mc_pending (ms_mc s) @ es @ e # fs
    \<and> req_view e = (push_bit k t, MEM_ACCESS_WRITE, True, False, 2 ^ k)"
proof -
  have "line_base k (push_bit k t) = push_bit k t"
    using line_base_diff [of "push_bit k t" k] by (simp add: take_bit_push_bit)
  then have "\<exists>e. mc_pending (ms_mc s') = mc_pending (ms_mc s) @ [e]
      \<and> req_view e = (push_bit k t, MEM_ACCESS_WRITE, True, False, 2 ^ k)"
    using mem_request_ok [OF assms(1,3) _ inline_line, of MEM_ACCESS_WRITE t] assms N_pos
    by (auto simp: write_data_internal_def)
  then show ?thesis by (metis append_Nil)
qed

lemma victim_ok:
  assumes "cid \<le> d" and "ms_wf k s" and "cid < length (ms_caches s)" and "c = ms_caches s ! cid"
    and "st < ca_num_sets c" and "w < ca_num_ways c" and "stage_ok stage"
    and "priv < NUM_MAX_PRV_LEVELS" and "N \<le> room stage s"
  shows "\<exists>l s1. pfn_victim_evict_handler wr s cid st w stage priv = Inr (l, upd_cache s1 cid (with_blk c st w zero_blk))
    \<and> 0 \<le> l \<and> eff k stage cid N s s1 \<and> written_back k c st w s s1"
proof -
  let ?b = "ca_blk c ! st ! w"
  have wf: "cache_wf c" "ca_word_bits c = k" "line_bytes c = 2 ^ k"
    using ms_wf_cache [OF assms(2,3)] assms(4) by auto
  have nb: "ca_blk c ! st ! w = ?b" "st < length (ca_blk c)" "w < length (ca_blk c ! st)"
    using wf(1) assms(5,6) row_length [OF wf(1) assms(5)] by (auto simp: cache_wf_def)
  have upd: "blk_update (\<lambda>_. zero_blk) s1 cid st w = Inr (upd_cache s1 cid (with_blk c st w zero_blk))"
    if "eff k stage cid N s s1" for s1
    using blk_update_ok(1) [OF eff_wf [OF that], of cid c st w "\<lambda>_. zero_blk"] eff_length [OF that]
      eff_same [OF that le_refl] assms(3-6) by simp
  have refl: "eff k stage cid N s s" by (rule eff_mono [OF eff_refl [OF assms(2)] le_refl]) simp
  consider (wt) "ca_write_policy c = WriteThrough"
    | (clean) "ca_write_policy c = WriteBack" "\<not> (cb_status ?b = Valid \<and> cb_dirty ?b = Dirty)"
    | (dirty) "ca_write_policy c = WriteBack" "cb_status ?b = Valid \<and> cb_dirty ?b = Dirty"
    using wf(1) by (auto simp: cache_wf_def)
  then show ?thesis
  proof cases
    case wt
    then show ?thesis using upd [OF refl] refl assms(3,4)
      by (intro exI [of _ 0] exI [of _ s])
        (simp add: pfn_victim_evict_handler_def writethrough_victim_evict_handler_def written_back_def)
  next
    case clean
    then show ?thesis using upd [OF refl] refl assms(3,4) nb
      by (intro exI [of _ 0] exI [of _ s])
        (auto simp: pfn_victim_evict_handler_def writeback_victim_evict_handler_def written_back_def Let_def)
  next
    case dirty
    obtain l s1 where w1: "write_data_internal wr s cid (push_bit k (cb_tag ?b)) (2 ^ k) stage priv = Inr (l, s1)"
      "0 \<le> l" "eff k stage cid N s s1"
      using below_ok(2) [OF assms(1-3,7,8) inline_line assms(9)] unfolding done_ok_def by blast
    have "written_back k c st w s s1"
      using write_back_request [OF assms(2,3,7,9) _ w1(1)] assms(4)
      by (simp add: written_back_def Let_def)
    then show ?thesis using upd [OF w1(3)] w1 dirty assms(3,4) nb wf
      by (intro exI [of _ l] exI [of _ s1])
        (simp add: pfn_victim_evict_handler_def writeback_victim_evict_handler_def)
  qed
qed

lemma write_handler_ok:
  assumes "cid \<le> d" and "ms_wf k s" and "cid < length (ms_caches s)" and "c = ms_caches s ! cid"
    and "st < ca_num_sets c" and "w < ca_num_ways c" and "stage_ok stage"
    and "priv < NUM_MAX_PRV_LEVELS" and "N \<le> room stage s" and "inline k a n"
  shows "\<exists>l s' p. pfn_write_handler wr s cid a n st w stage priv = Inr (l, s') \<and> 0 \<le> l \<and> eff k stage (Suc cid) N s s'
    \<and> ms_caches s' ! cid = (with_blk c st w ((ca_blk c ! st ! w)\<lparr>cb_dirty := Dirty\<rparr>))\<lparr>ca_evict_policy := p\<rparr>"
proof -
  let ?c1 = "with_blk c st w ((ca_blk c ! st ! w)\<lparr>cb_dirty := Dirty\<rparr>)"
  let ?s1 = "upd_cache s cid ?c1"
  have u1: "blk_update (\<lambda>b. b\<lparr>cb_dirty := Dirty\<rparr>) s cid st w = Inr ?s1" "eff k stage (Suc cid) 0 s ?s1"
    using blk_update_ok [OF assms(2-6)] by auto
  obtain p where u2: "policy_use ?s1 cid st w = Inr (upd_cache ?s1 cid (?c1\<lparr>ca_evict_policy := p\<rparr>))"
    "eff k stage (Suc cid) 0 ?s1 (upd_cache ?s1 cid (?c1\<lparr>ca_evict_policy := p\<rparr>))"
    using policy_use_ok [OF eff_wf [OF u1(2)], of cid ?c1 st w stage] assms(3,5,6) by auto
  let ?c2 = "?c1\<lparr>ca_evict_policy := p\<rparr>"
  let ?s2 = "upd_cache ?s1 cid ?c2"
  have e2: "eff k stage (Suc cid) 0 s ?s2" using eff_trans [OF u1(2) u2(2)] by simp
  have c2: "ms_caches ?s2 ! cid = ?c2" using assms(3) by simp
  consider (wb) "ca_write_policy c = WriteBack" | (wt) "ca_write_policy c = WriteThrough"
    using ms_wf_cache [OF assms(2,3)] assms(4) by (auto simp: cache_wf_def)
  then show ?thesis
  proof cases
    case wb
    then show ?thesis using u1(1) u2(1) c2 assms(3,4) eff_mono [OF e2 le_refl, of N]
      by (intro exI [of _ 0] exI [of _ ?s2] exI [of _ p]) (simp add: pfn_write_handler_def writeback_handler_def)
  next
    case wt
    obtain l s3 where w3: "write_data_internal wr ?s2 cid a n stage priv = Inr (l, s3)" "0 \<le> l"
      "eff k stage cid N ?s2 s3"
      using below_ok(2) [OF assms(1) eff_wf [OF e2] _ assms(7,8,10)] assms(3,9) by (auto simp: done_ok_def)
    have "eff k stage (Suc cid) N s s3" using eff_trans [OF e2 eff_mono [OF w3(3)], of N] by simp
    then show ?thesis using u1(1) u2(1) c2 assms(3,4) wt w3 eff_same [OF w3(3) le_refl]
      by (intro exI [of _ l] exI [of _ s3] exI [of _ p]) (simp add: pfn_write_handler_def writethrough_handler_def)
  qed
qed

text \<open>The part the two allocating handlers share: evict a victim and fetch the line into its place.\<close>

lemma line_fill_ok:
  assumes "cid \<le> d" and "ms_wf k s" and "cid < length (ms_caches s)" and "c = ms_caches s ! cid"
    and "st < ca_num_sets c" and "stage_ok stage" and "priv < NUM_MAX_PRV_LEVELS" and "2 * N \<le> room stage s"
  shows "\<exists>w sr l1 s1 l2 s2 s3. policy_evict s cid st = Inr (w, sr) \<and> w < ca_num_ways c
    \<and> pfn_victim_evict_handler wr sr cid st w stage priv = Inr (l1, s1)
    \<and> read_data_internal rd s1 cid (a AND ca_tag_bits_mask c) (line_bytes c) stage priv = Inr (l2, s2)
    \<and> blk_update (\<lambda>b. b\<lparr>cb_tag := t, cb_status := Valid\<rparr>) s2 cid st w = Inr s3
    \<and> 0 \<le> l1 \<and> 0 \<le> l2 \<and> eff k stage (Suc cid) (2 * N) s s3 \<and> written_back k c st w s s3
    \<and> ms_caches s3 ! cid = with_blk c st w \<lparr>cb_status = Valid, cb_dirty = NonDirty, cb_tag = t\<rparr>"
proof -
  have wf: "cache_wf c" "ca_word_bits c = k" "line_bytes c = 2 ^ k" "ca_tag_bits_mask c = push_bit k (- 1)"
    using ms_wf_cache [OF assms(2,3)] assms(4) by (auto simp: cache_wf_def)
  obtain w r where w: "policy_evict s cid st = Inr (w, s\<lparr>ms_rand := r\<rparr>)" "w < ca_num_ways c"
    using policy_evict_ok [OF assms(2,3)] assms(4,5) by blast
  let ?r = "s\<lparr>ms_rand := r\<rparr>" and ?z = "with_blk c st w zero_blk"
  have er: "eff k stage cid 0 s ?r" by (rule eff_rand [OF assms(2)])
  obtain l1 s1 where v: "pfn_victim_evict_handler wr ?r cid st w stage priv = Inr (l1, upd_cache s1 cid ?z)"
    "0 \<le> l1" "eff k stage cid N ?r s1" "written_back k c st w ?r s1"
    using victim_ok [OF assms(1) eff_wf [OF er], of c st w stage priv] assms(3-8) w(2) by auto
  have e1: "eff k stage cid N s s1" using eff_trans [OF er v(3)] by simp
  have c1: "ms_caches s1 ! cid = c" "cid < length (ms_caches s1)"
    using eff_same [OF e1 le_refl] eff_length [OF e1] assms(3,4) by simp_all
  let ?s1 = "upd_cache s1 cid ?z"
  have ez: "eff k stage (Suc cid) 0 s1 ?s1"
    using blk_update_ok(2) [OF eff_wf [OF e1] c1(2), of c st w stage] c1(1) assms(5) w(2) by simp
  have e1': "eff k stage (Suc cid) N s ?s1"
    using eff_trans [OF eff_mono [OF e1] ez, of N] by simp
  have room1: "N \<le> room stage ?s1" using eff_room [OF e1'] assms(8) by simp
  obtain l2 s2 where rd: "read_data_internal rd ?s1 cid (a AND push_bit k (- 1)) (2 ^ k) stage priv = Inr (l2, s2)"
    "0 \<le> l2" "eff k stage cid N ?s1 s2"
    using below_ok(1) [OF assms(1) eff_wf [OF e1'] _ assms(6,7) inline_mask(1) [of k a] room1] c1(2)
    unfolding done_ok_def by auto
  have e2: "eff k stage (Suc cid) (N + N) s s2" using eff_trans [OF e1' eff_mono [OF rd(3)], of N] by simp
  have c2: "ms_caches s2 ! cid = ?z" "cid < length (ms_caches s2)"
    using eff_same [OF rd(3) le_refl] eff_length [OF e2] assms(3) c1(2) by simp_all
  let ?s3 = "upd_cache s2 cid (with_blk c st w \<lparr>cb_status = Valid, cb_dirty = NonDirty, cb_tag = t\<rparr>)"
  have st: "st < length (ca_blk c)" using wf(1) assms(5) by (simp add: cache_wf_def)
  have u3: "blk_update (\<lambda>b. b\<lparr>cb_tag := t, cb_status := Valid\<rparr>) s2 cid st w = Inr ?s3"
    "eff k stage (Suc cid) 0 s2 ?s3"
    using blk_update_ok [OF eff_wf [OF e2] c2(2), of ?z st w] c2(1) assms(5) w(2) wf(1) st by simp_all
  have e3: "eff k stage (Suc cid) (2 * N) s ?s3" using eff_trans [OF e2 u3(2)] by (simp add: mult_2)
  have "written_back k c st w s s1" using v(4) by (simp add: written_back_rand)
  from written_back_mono [OF written_back_mono [OF written_back_mono [OF this ez] rd(3)] u3(2)]
  have "written_back k c st w s ?s3" .
  then show ?thesis using w v(1,2) rd(1,2) u3(1) e3 c2(2) wf(3,4)
    by (intro exI [of _ w] exI [of _ ?r] exI [of _ l1] exI [of _ ?s1] exI [of _ l2] exI [of _ s2] exI [of _ ?s3]) simp
qed

lemma read_alloc_ok:
  assumes "cid \<le> d" and "ms_wf k s" and "cid < length (ms_caches s)" and "c = ms_caches s ! cid"
    and "st < ca_num_sets c" and "stage_ok stage" and "priv < NUM_MAX_PRV_LEVELS" and "2 * N \<le> room stage s"
    and "inline k a n"
  shows "\<exists>l s'. pfn_read_alloc_handler rd wr s cid a n st stage priv = Inr (l, s') \<and> 0 \<le> l
    \<and> eff k stage (Suc cid) (2 * N) s s'
    \<and> (if ca_read_alloc_policy c = ReadAllocate
       then \<exists>w p. w < ca_num_ways c \<and> written_back k c st w s s' \<and> ms_caches s' ! cid =
          (with_blk c st w \<lparr>cb_status = Valid, cb_dirty = NonDirty, cb_tag = drop_bit k a\<rparr>)\<lparr>ca_evict_policy := p\<rparr>
       else ms_caches s' ! cid = c)"
proof -
  have wf: "cache_wf c" "ca_word_bits c = k" "ca_tag_bits_mask c = push_bit k (- 1)"
    using ms_wf_cache [OF assms(2,3)] assms(4) by (auto simp: cache_wf_def)
  consider (al) "ca_read_alloc_policy c = ReadAllocate" | (no) "ca_read_alloc_policy c = ReadNoAllocate"
    using wf(1) by (auto simp: cache_wf_def)
  then show ?thesis
  proof cases
    case al
    let ?t = "drop_bit k (a AND push_bit k (- 1))"
    obtain w sr l1 s1 l2 s2 s3 where f: "policy_evict s cid st = Inr (w, sr)" "w < ca_num_ways c"
      "pfn_victim_evict_handler wr sr cid st w stage priv = Inr (l1, s1)"
      "read_data_internal rd s1 cid (a AND ca_tag_bits_mask c) (line_bytes c) stage priv = Inr (l2, s2)"
      "blk_update (\<lambda>b. b\<lparr>cb_tag := ?t, cb_status := Valid\<rparr>) s2 cid st w = Inr s3"
      "0 \<le> l1" "0 \<le> l2" "eff k stage (Suc cid) (2 * N) s s3" "written_back k c st w s s3"
      "ms_caches s3 ! cid = with_blk c st w \<lparr>cb_status = Valid, cb_dirty = NonDirty, cb_tag = ?t\<rparr>"
      using line_fill_ok [OF assms(1-8), of a ?t] by (elim exE conjE)
    let ?c3 = "with_blk c st w \<lparr>cb_status = Valid, cb_dirty = NonDirty, cb_tag = ?t\<rparr>"
    have l3: "cid < length (ms_caches s3)" using eff_length [OF f(8)] assms(3) by simp
    obtain p where u: "policy_use s3 cid st w = Inr (upd_cache s3 cid (?c3\<lparr>ca_evict_policy := p\<rparr>))"
      "eff k stage (Suc cid) 0 s3 (upd_cache s3 cid (?c3\<lparr>ca_evict_policy := p\<rparr>))"
      using policy_use_ok [OF eff_wf [OF f(8)] l3, of ?c3 st w stage] f(2,10) assms(5) by auto
    have t: "?t = drop_bit k a" by (simp only: inline_mask(2) drop_bit_line_base)
    let ?s = "upd_cache s3 cid (?c3\<lparr>ca_evict_policy := p\<rparr>)"
    have "pfn_read_alloc_handler rd wr s cid a n st stage priv = Inr (l1 + l2, ?s)"
      using al f(1,3,4,5) u(1) assms(3,4) wf(2,3)
      by (simp add: pfn_read_alloc_handler_def read_allocate_handler_def Let_def del: push_bit_minus_one)
    then show ?thesis
      using eff_trans [OF f(8) u(2)] f(2,6,7) written_back_mono [OF f(9) u(2)] l3 al t
      by (intro exI [of _ "l1 + l2"] exI [of _ ?s]) (auto simp del: push_bit_minus_one)
  next
    case no
    have "N \<le> room stage s" using assms(8) by simp
    then obtain l s' where "read_data_internal rd s cid a n stage priv = Inr (l, s')" "0 \<le> l" "eff k stage cid N s s'"
      using below_ok(1) [OF assms(1-3,6,7,9)] by (auto simp: done_ok_def)
    then show ?thesis using no assms(3,4) eff_mono [of k stage cid N s s' "Suc cid" "2 * N"] eff_same [of k stage cid N s s' cid]
      by (simp add: pfn_read_alloc_handler_def read_no_allocate_handler_def)
  qed
qed

lemma write_alloc_ok:
  assumes "cid \<le> d" and "ms_wf k s" and "cid < length (ms_caches s)" and "c = ms_caches s ! cid"
    and "st < ca_num_sets c" and "stage_ok stage" and "priv < NUM_MAX_PRV_LEVELS" and "3 * N \<le> room stage s"
    and "inline k a n"
  shows "\<exists>l s'. pfn_write_alloc_handler rd wr s cid a n st stage priv = Inr (l, s') \<and> 0 \<le> l
    \<and> eff k stage (Suc cid) (3 * N) s s'
    \<and> (if ca_write_alloc_policy c = WriteAllocate
       then \<exists>w p. w < ca_num_ways c \<and> written_back k c st w s s' \<and> ms_caches s' ! cid =
          (with_blk c st w \<lparr>cb_status = Valid, cb_dirty = Dirty, cb_tag = drop_bit k a\<rparr>)\<lparr>ca_evict_policy := p\<rparr>
       else ms_caches s' ! cid = c)"
proof -
  have wf: "cache_wf c" "ca_word_bits c = k" "st < length (ca_blk c)"
    using ms_wf_cache [OF assms(2,3)] assms(4,5) by (auto simp: cache_wf_def)
  consider (al) "ca_write_alloc_policy c = WriteAllocate" | (no) "ca_write_alloc_policy c = WriteNoAllocate"
    using wf(1) by (auto simp: cache_wf_def)
  then show ?thesis
  proof cases
    case al
    let ?t = "drop_bit k a"
    have r2: "2 * N \<le> room stage s" using assms(8) by simp
    obtain w sr l1 s1 l2 s2 s3 where f: "policy_evict s cid st = Inr (w, sr)" "w < ca_num_ways c"
      "pfn_victim_evict_handler wr sr cid st w stage priv = Inr (l1, s1)"
      "read_data_internal rd s1 cid (a AND ca_tag_bits_mask c) (line_bytes c) stage priv = Inr (l2, s2)"
      "blk_update (\<lambda>b. b\<lparr>cb_tag := ?t, cb_status := Valid\<rparr>) s2 cid st w = Inr s3"
      "0 \<le> l1" "0 \<le> l2" "eff k stage (Suc cid) (2 * N) s s3" "written_back k c st w s s3"
      "ms_caches s3 ! cid = with_blk c st w \<lparr>cb_status = Valid, cb_dirty = NonDirty, cb_tag = ?t\<rparr>"
      using line_fill_ok [OF assms(1-7) r2, of a ?t] by (elim exE conjE)
    let ?c3 = "with_blk c st w \<lparr>cb_status = Valid, cb_dirty = NonDirty, cb_tag = ?t\<rparr>"
    have l3: "cid < length (ms_caches s3)" using eff_length [OF f(8)] assms(3) by simp
    have r3: "N \<le> room stage s3" using eff_room [OF f(8)] assms(8) by simp
    obtain l4 s4 p where h: "pfn_write_handler wr s3 cid a n st w stage priv = Inr (l4, s4)" "0 \<le> l4"
      "eff k stage (Suc cid) N s3 s4"
      "ms_caches s4 ! cid = (with_blk ?c3 st w ((ca_blk ?c3 ! st ! w)\<lparr>cb_dirty := Dirty\<rparr>))\<lparr>ca_evict_policy := p\<rparr>"
      using write_handler_ok [OF assms(1) eff_wf [OF f(8)] l3 f(10) [symmetric] _ _ assms(6,7) r3 assms(9), of st w]
        f(2) assms(5) by auto
    have "pfn_write_alloc_handler rd wr s cid a n st stage priv = Inr (l1 + l2 + l4, s4)"
      using al f(1,3,4,5) h(1) assms(3,4) wf(2)
      by (simp add: pfn_write_alloc_handler_def write_allocate_handler_def Let_def)
    moreover have "eff k stage (Suc cid) (3 * N) s s4" using eff_trans [OF f(8) h(3)] by simp
    ultimately show ?thesis
      using f(2,6,7) h(2,4) written_back_mono [OF f(9) h(3)] al wf assms(5)
      by (intro exI [of _ "l1 + l2 + l4"] exI [of _ s4]) auto
  next
    case no
    have "N \<le> room stage s" using assms(8) by simp
    then obtain l s' where "write_data_internal wr s cid a n stage priv = Inr (l, s')" "0 \<le> l" "eff k stage cid N s s'"
      using below_ok(2) [OF assms(1-3,6,7,9)] by (auto simp: done_ok_def)
    then show ?thesis using no assms(3,4) eff_mono [of k stage cid N s s' "Suc cid" "3 * N"] eff_same [of k stage cid N s s' cid]
      by (simp add: pfn_write_alloc_handler_def write_no_allocate_handler_def)
  qed
qed

lemma read_loop_ok:
  assumes "cid \<le> d" and "stage_ok stage" and "priv < NUM_MAX_PRV_LEVELS" and "sb < 2 ^ k"
    and "ms_wf k s" and "cid < length (ms_caches s)" and "st < ca_num_sets (ms_caches s ! cid)"
    and "uint (take_bit k a) \<le> sb" and "3 * N * bursts (2 ^ k - sb) n \<le> room stage s"
  shows "\<exists>l' s'. cache_read_loop rd wr cid sb stage priv s st tag a n miss l = Inr (l', s') \<and> l \<le> l'
    \<and> eff k stage (Suc cid) (3 * N * bursts (2 ^ k - sb) n) s s'"
  using assms(5-)
proof (induction "bursts (2 ^ k - sb) n" arbitrary: s st tag a n miss l)
  case 0
  then have "n \<le> 0" using bursts_Suc [of n "2 ^ k - sb"] assms(4) by (cases "0 < n") auto
  then show ?case using 0 eff_refl [of k s stage "Suc cid"]
    by (simp add: cache_read_loop.simps [of rd wr cid sb stage priv s st tag a n])
next
  case (Suc j)
  let ?c = "ms_caches s ! cid" and ?av = "2 ^ k - sb"
  note unf = cache_read_loop.simps [of rd wr cid sb stage priv s st tag a n]
  have n: "0 < n" using Suc.hyps(2) bursts_0 [of n ?av] assms(4) by (cases "0 < n") auto
  have j: "j = bursts ?av (n - ?av)" using Suc.hyps(2) bursts_Suc [OF n, of ?av] assms(4) by simp
  have c: "cache_wf ?c" "ca_word_bits ?c = k" "line_bytes ?c = 2 ^ k" using ms_wf_cache [OF Suc.prems(1,2)] by auto
  note look = cache_lookup_eq [OF Suc.prems(1,2) refl Suc.prems(3)]
  obtain st' t' where up: "update_tag_address ?c st tag = Inr (st', t', push_bit k t')" "st' < ca_num_sets ?c"
    using update_tag_ok [OF c(1) Suc.prems(3), of tag] c(2) by auto
  have room: "3 * N + 3 * N * j \<le> room stage s" using Suc.prems(5) unfolding Suc.hyps(2) [symmetric] by simp
  have rest: "\<exists>l' s'. cache_read_loop rd wr cid sb stage priv s1 st' t' (push_bit k t') (n - ?av) m l1 = Inr (l', s')
      \<and> l1 \<le> l' \<and> eff k stage (Suc cid) (3 * N * bursts ?av n) s s'"
    if e: "eff k stage (Suc cid) (2 * N) s s1" for s1 m l1
  proof -
    have "3 * N * bursts ?av (n - ?av) \<le> room stage s1" using eff_room [OF e] room j by simp
    moreover have "st' < ca_num_sets (ms_caches s1 ! cid)" "cid < length (ms_caches s1)"
      using same_cfg_fields [OF eff_cfg [OF e Suc.prems(2)]] up(2) eff_length [OF e] Suc.prems(2) by simp_all
    moreover have "uint (take_bit k (push_bit k t')) \<le> sb"
      using order_trans [OF uint_ge_0 Suc.prems(4)] by (simp add: take_bit_push_bit)
    ultimately obtain l' s' where r: "cache_read_loop rd wr cid sb stage priv s1 st' t' (push_bit k t') (n - ?av) m l1 = Inr (l', s')"
      "l1 \<le> l'" "eff k stage (Suc cid) (3 * N * j) s1 s'"
      using Suc.hyps(1) [OF j eff_wf [OF e]] j by metis
    have "eff k stage (Suc cid) (3 * N * bursts ?av n) s s'"
      by (rule eff_mono [OF eff_trans [OF e r(3)] le_refl]) (simp flip: Suc.hyps(2))
    then show ?thesis using r by blast
  qed
  have stop: "eff k stage (Suc cid) (3 * N * bursts ?av n) s s1" if "eff k stage (Suc cid) (2 * N) s s1" for s1
    by (rule eff_mono [OF that le_refl]) (simp flip: Suc.hyps(2))
  show ?case
  proof (cases "way_of ?c st tag")
    case (Some i)
    obtain p where u: "policy_use s cid st i = Inr (upd_cache s cid (?c\<lparr>ca_evict_policy := p\<rparr>))"
      "eff k stage (Suc cid) 0 s (upd_cache s cid (?c\<lparr>ca_evict_policy := p\<rparr>))"
      using policy_use_ok [OF Suc.prems(1,2) refl Suc.prems(3)] way_of_Some [OF Some] by blast
    let ?s = "upd_cache s cid (?c\<lparr>ca_evict_policy := p\<rparr>)"
    have e: "eff k stage (Suc cid) (2 * N) s ?s" by (rule eff_mono [OF u(2) le_refl]) simp
    show ?thesis using unf n Suc.prems(2) look Some u(1) up(1) c(3) assms(4) rest [OF e] stop [OF e]
      by (simp add: Let_def)
  next
    case None
    obtain s0 vs where s0: "(if miss then Inr s
        else stats_update (\<lambda>v. v\<lparr>read_miss_cnt := read_miss_cnt v + 1\<rparr>) s cid priv) = Inr s0"
      "eff k stage (Suc cid) 0 s s0" "ms_caches s0 ! cid = ?c\<lparr>ca_stats := vs\<rparr>"
      using miss_count_ok [OF Suc.prems(1,2) assms(3)] by blast
    have pre: "cid < length (ms_caches s0)" "st < ca_num_sets (ms_caches s0 ! cid)" "2 * N \<le> room stage s0"
      using eff_length [OF s0(2)] s0(3) Suc.prems(2,3) eff_room [OF s0(2)] room by simp_all
    have al: "\<exists>l1 s1. pfn_read_alloc_handler rd wr s0 cid a n' st stage priv = Inr (l1, s1) \<and> 0 \<le> l1
        \<and> eff k stage (Suc cid) (2 * N) s s1" if "inline k a n'" for n'
      using read_alloc_ok [OF assms(1) eff_wf [OF s0(2)] pre(1) refl pre(2) assms(2,3) pre(3) that]
        eff_trans [OF s0(2)] by (metis add_0)
    show ?thesis
    proof (cases "sb + n \<le> 2 ^ k")
      case True
      then have "inline k a n" using n Suc.prems(4) by (simp add: inline_def)
      then obtain l1 s1 where "pfn_read_alloc_handler rd wr s0 cid a n st stage priv = Inr (l1, s1)" "0 \<le> l1"
        "eff k stage (Suc cid) (2 * N) s s1" using al by blast
      then show ?thesis using unf n Suc.prems(2) look None s0(1) c(3) True stop by (simp add: Let_def)
    next
      case False
      have "inline k a ?av" using assms(4) Suc.prems(4) by (simp add: inline_def)
      then obtain l1 s1 where h: "pfn_read_alloc_handler rd wr s0 cid a ?av st stage priv = Inr (l1, s1)" "0 \<le> l1"
        "eff k stage (Suc cid) (2 * N) s s1" using al by blast
      obtain l' s' where "cache_read_loop rd wr cid sb stage priv s1 st' t' (push_bit k t') (n - ?av) True (l + l1) = Inr (l', s')"
        "l + l1 \<le> l'" "eff k stage (Suc cid) (3 * N * bursts ?av n) s s'" using rest [OF h(3)] by blast
      then show ?thesis using unf n Suc.prems(2) look None s0(1) c(3) False h(1,2) up(1) assms(4) by (simp add: Let_def)
    qed
  qed
qed

lemma write_loop_ok:
  assumes "cid \<le> d" and "stage_ok stage" and "priv < NUM_MAX_PRV_LEVELS" and "sb < 2 ^ k"
    and "ms_wf k s" and "cid < length (ms_caches s)" and "st < ca_num_sets (ms_caches s ! cid)"
    and "uint (take_bit k a) \<le> sb" and "3 * N * bursts (2 ^ k - sb) n \<le> room stage s"
  shows "\<exists>l' s'. cache_write_loop rd wr cid sb stage priv s st tag a n miss l = Inr (l', s') \<and> l \<le> l'
    \<and> eff k stage (Suc cid) (3 * N * bursts (2 ^ k - sb) n) s s'"
  using assms(5-)
proof (induction "bursts (2 ^ k - sb) n" arbitrary: s st tag a n miss l)
  case 0
  then have "n \<le> 0" using bursts_Suc [of n "2 ^ k - sb"] assms(4) by (cases "0 < n") auto
  then show ?case using 0 eff_refl [of k s stage "Suc cid"]
    by (simp add: cache_write_loop.simps [of rd wr cid sb stage priv s st tag a n])
next
  case (Suc j)
  let ?c = "ms_caches s ! cid" and ?av = "2 ^ k - sb"
  note unf = cache_write_loop.simps [of rd wr cid sb stage priv s st tag a n]
  have n: "0 < n" using Suc.hyps(2) bursts_0 [of n ?av] assms(4) by (cases "0 < n") auto
  have j: "j = bursts ?av (n - ?av)" using Suc.hyps(2) bursts_Suc [OF n, of ?av] assms(4) by simp
  have c: "cache_wf ?c" "ca_word_bits ?c = k" "line_bytes ?c = 2 ^ k" using ms_wf_cache [OF Suc.prems(1,2)] by auto
  note look = cache_lookup_eq [OF Suc.prems(1,2) refl Suc.prems(3)]
  obtain st' t' where up: "update_tag_address ?c st tag = Inr (st', t', push_bit k t')" "st' < ca_num_sets ?c"
    using update_tag_ok [OF c(1) Suc.prems(3), of tag] c(2) by auto
  have room: "3 * N + 3 * N * j \<le> room stage s" using Suc.prems(5) unfolding Suc.hyps(2) [symmetric] by simp
  have rest: "\<exists>l' s'. cache_write_loop rd wr cid sb stage priv s1 st' t' (push_bit k t') (n - ?av) m l1 = Inr (l', s')
      \<and> l1 \<le> l' \<and> eff k stage (Suc cid) (3 * N * bursts ?av n) s s'"
    if e: "eff k stage (Suc cid) (3 * N) s s1" for s1 m l1
  proof -
    have "3 * N * bursts ?av (n - ?av) \<le> room stage s1" using eff_room [OF e] room j by simp
    moreover have "st' < ca_num_sets (ms_caches s1 ! cid)" "cid < length (ms_caches s1)"
      using same_cfg_fields [OF eff_cfg [OF e Suc.prems(2)]] up(2) eff_length [OF e] Suc.prems(2) by simp_all
    moreover have "uint (take_bit k (push_bit k t')) \<le> sb"
      using order_trans [OF uint_ge_0 Suc.prems(4)] by (simp add: take_bit_push_bit)
    ultimately obtain l' s' where r: "cache_write_loop rd wr cid sb stage priv s1 st' t' (push_bit k t') (n - ?av) m l1 = Inr (l', s')"
      "l1 \<le> l'" "eff k stage (Suc cid) (3 * N * j) s1 s'"
      using Suc.hyps(1) [OF j eff_wf [OF e]] j by metis
    have "eff k stage (Suc cid) (3 * N * bursts ?av n) s s'"
      by (rule eff_mono [OF eff_trans [OF e r(3)] le_refl]) (simp flip: Suc.hyps(2))
    then show ?thesis using r by blast
  qed
  have stop: "eff k stage (Suc cid) (3 * N * bursts ?av n) s s1" if "eff k stage (Suc cid) (3 * N) s s1" for s1
    by (rule eff_mono [OF that le_refl]) (simp flip: Suc.hyps(2))
  show ?case
  proof (cases "way_of ?c st tag")
    case (Some i)
    have i: "i < ca_num_ways ?c" using way_of_Some [OF Some] by simp
    have rN: "N \<le> room stage s" using room by simp
    have wh: "\<exists>l1 s1. pfn_write_handler wr s cid a n' st i stage priv = Inr (l1, s1) \<and> 0 \<le> l1
        \<and> eff k stage (Suc cid) (3 * N) s s1" if "inline k a n'" for n'
      using write_handler_ok [OF assms(1) Suc.prems(1,2) refl Suc.prems(3) i assms(2,3) rN that]
        eff_mono [of k stage "Suc cid" N s _ "Suc cid" "3 * N"] by fastforce
    show ?thesis
    proof (cases "sb + n \<le> 2 ^ k")
      case True
      then have "inline k a n" using n Suc.prems(4) by (simp add: inline_def)
      then obtain l1 s1 where "pfn_write_handler wr s cid a n st i stage priv = Inr (l1, s1)" "0 \<le> l1"
        "eff k stage (Suc cid) (3 * N) s s1" using wh by blast
      then show ?thesis using unf n Suc.prems(2) look Some c(3) True stop by (simp add: Let_def)
    next
      case False
      have "inline k a ?av" using assms(4) Suc.prems(4) by (simp add: inline_def)
      then obtain l1 s1 where h: "pfn_write_handler wr s cid a ?av st i stage priv = Inr (l1, s1)" "0 \<le> l1"
        "eff k stage (Suc cid) (3 * N) s s1" using wh by blast
      obtain l' s' where "cache_write_loop rd wr cid sb stage priv s1 st' t' (push_bit k t') (n - ?av) miss (l + l1) = Inr (l', s')"
        "l + l1 \<le> l'" "eff k stage (Suc cid) (3 * N * bursts ?av n) s s'" using rest [OF h(3)] by blast
      then show ?thesis using unf n Suc.prems(2) look Some c(3) False h(1,2) up(1) assms(4) by (simp add: Let_def)
    qed
  next
    case None
    obtain s0 vs where s0: "(if miss then Inr s
        else stats_update (\<lambda>v. v\<lparr>write_miss_cnt := write_miss_cnt v + 1\<rparr>) s cid priv) = Inr s0"
      "eff k stage (Suc cid) 0 s s0" "ms_caches s0 ! cid = ?c\<lparr>ca_stats := vs\<rparr>"
      using miss_count_ok [OF Suc.prems(1,2) assms(3)] by blast
    have pre: "cid < length (ms_caches s0)" "st < ca_num_sets (ms_caches s0 ! cid)" "3 * N \<le> room stage s0"
      using eff_length [OF s0(2)] s0(3) Suc.prems(2,3) eff_room [OF s0(2)] room by simp_all
    have al: "\<exists>l1 s1. pfn_write_alloc_handler rd wr s0 cid a n' st stage priv = Inr (l1, s1) \<and> 0 \<le> l1
        \<and> eff k stage (Suc cid) (3 * N) s s1" if "inline k a n'" for n'
      using write_alloc_ok [OF assms(1) eff_wf [OF s0(2)] pre(1) refl pre(2) assms(2,3) pre(3) that]
        eff_trans [OF s0(2)] by (metis add_0)
    show ?thesis
    proof (cases "sb + n \<le> 2 ^ k")
      case True
      then have "inline k a n" using n Suc.prems(4) by (simp add: inline_def)
      then obtain l1 s1 where "pfn_write_alloc_handler rd wr s0 cid a n st stage priv = Inr (l1, s1)" "0 \<le> l1"
        "eff k stage (Suc cid) (3 * N) s s1" using al by blast
      then show ?thesis using unf n Suc.prems(2) look None s0(1) c(3) True stop by (simp add: Let_def)
    next
      case False
      have "inline k a ?av" using assms(4) Suc.prems(4) by (simp add: inline_def)
      then obtain l1 s1 where h: "pfn_write_alloc_handler rd wr s0 cid a ?av st stage priv = Inr (l1, s1)" "0 \<le> l1"
        "eff k stage (Suc cid) (3 * N) s s1" using al by blast
      obtain l' s' where "cache_write_loop rd wr cid sb stage priv s1 st' t' (push_bit k t') (n - ?av) True (l + l1) = Inr (l', s')"
        "l + l1 \<le> l'" "eff k stage (Suc cid) (3 * N * bursts ?av n) s s'" using rest [OF h(3)] by blast
      then show ?thesis using unf n Suc.prems(2) look None s0(1) c(3) False h(1,2) up(1) assms(4) by (simp add: Let_def)
    qed
  qed
qed

lemma access_with_ok:
  assumes "cid \<le> d" and "ms_wf k s" and "cid < length (ms_caches s)" and "stage_ok stage"
    and "priv < NUM_MAX_PRV_LEVELS" and "3 * N * bursts (2 ^ k - uint (take_bit k a)) n \<le> room stage s"
  shows "done_ok k stage (Suc cid) (3 * N * bursts (2 ^ k - uint (take_bit k a)) n) s
      (cache_read_with rd wr s cid a n stage priv)"
    and "done_ok k stage (Suc cid) (3 * N * bursts (2 ^ k - uint (take_bit k a)) n) s
      (cache_write_with rd wr s cid a n stage priv)"
proof -
  let ?c = "ms_caches s ! cid" and ?sb = "uint (take_bit k a)"
  let ?st = "addr_set ?c a" and ?tag = "addr_tag ?c a"
  have c: "cache_wf ?c" "ca_word_bits ?c = k" "0 \<le> ca_read_latency ?c" "0 \<le> ca_write_latency ?c"
    using ms_wf_cache [OF assms(2,3)] by (auto simp: cache_wf_def)
  have st: "?st < ca_num_sets ?c" "?st < length (ca_blk ?c)" using addr_set_less [OF c(1)] c(1) by (auto simp: cache_wf_def)
  have stats: "\<exists>s0. stats_update f s cid priv = Inr s0 \<and> eff k stage (Suc cid) 0 s s0" for f
    using stats_update_ok [OF assms(2,3) refl assms(5)] by blast
  have pre: "ms_wf k s0" "cid < length (ms_caches s0)" "?st < ca_num_sets (ms_caches s0 ! cid)"
    "3 * N * bursts (2 ^ k - ?sb) n \<le> room stage s0" if e: "eff k stage (Suc cid) 0 s s0" for s0
    using eff_wf [OF e] eff_length [OF e] eff_room [OF e] same_cfg_fields [OF eff_cfg [OF e assms(3)]] assms(3,6) st(1)
    by simp_all
  obtain s0 where s0: "stats_update (\<lambda>v. v\<lparr>total_read_cnt := total_read_cnt v + 1\<rparr>) s cid priv = Inr s0"
    "eff k stage (Suc cid) 0 s s0" using stats by blast
  show "done_ok k stage (Suc cid) (3 * N * bursts (2 ^ k - ?sb) n) s (cache_read_with rd wr s cid a n stage priv)"
    using read_loop_ok [OF assms(1,4,5) start_byte_bound pre(1-3) [OF s0(2)] order_refl pre(4) [OF s0(2)],
        of ?tag False "ca_read_latency ?c"] s0 assms(3) st(2) c(2,3) eff_trans [OF s0(2)]
    by (fastforce simp: done_ok_def cache_read_with_def start_byte_eq)
  obtain s1 where s1: "stats_update (\<lambda>v. v\<lparr>total_write_cnt := total_write_cnt v + 1\<rparr>) s cid priv = Inr s1"
    "eff k stage (Suc cid) 0 s s1" using stats by blast
  show "done_ok k stage (Suc cid) (3 * N * bursts (2 ^ k - ?sb) n) s (cache_write_with rd wr s cid a n stage priv)"
    using write_loop_ok [OF assms(1,4,5) start_byte_bound pre(1-3) [OF s1(2)] order_refl pre(4) [OF s1(2)],
        of ?tag False "ca_write_latency ?c"] s1 assms(3) st(2) c(2,4) eff_trans [OF s1(2)]
    by (fastforce simp: done_ok_def cache_write_with_def start_byte_eq)
qed

end

lemma bursts_inline: "inline k a n \<Longrightarrow> bursts (2 ^ k - uint (take_bit k a)) n = 1"
  by (rule bursts_one) (auto simp: inline_def)

lemma cache_level: "next_level k d (3 ^ d) (cache_access d False) (cache_access d True)"
proof (induction d)
  case 0
  show ?case by unfold_locales simp_all
next
  case (Suc d)
  note ok = next_level.access_with_ok [OF Suc.IH]
  show ?case
  proof unfold_locales
    fix cid s stage priv a n
    assume "cid < Suc d" "ms_wf k s" "cid < length (ms_caches s)" "stage_ok stage" "priv < NUM_MAX_PRV_LEVELS"
      "inline k a n" "3 ^ Suc d \<le> room stage s"
    then show "done_ok k stage (Suc cid) (3 ^ Suc d) s (cache_access (Suc d) False s cid a n stage priv)"
      and "done_ok k stage (Suc cid) (3 ^ Suc d) s (cache_access (Suc d) True s cid a n stage priv)"
      using ok(1) [of cid s stage priv a n] ok(2) [of cid s stage priv a n] bursts_inline [of k a n] by simp_all
  qed simp
qed

interpretation level: next_level k d "3 ^ d" "cache_access d False" "cache_access d True" for k d
  by (rule cache_level)

section \<open>Accesses within one line\<close>

lemma cache_read_unfold: "length (ms_caches s) = Suc d \<Longrightarrow>
    cache_read s cid a n stage priv = cache_read_with (cache_access d False) (cache_access d True) s cid a n stage priv"
  and cache_write_unfold: "length (ms_caches s) = Suc d \<Longrightarrow>
    cache_write s cid a n stage priv = cache_write_with (cache_access d False) (cache_access d True) s cid a n stage priv"
  by (simp_all add: cache_read_def cache_write_def)

lemma way_of_stats [simp]: "way_of (c\<lparr>ca_stats := vs\<rparr>) st t = way_of c st t"
  by (simp add: way_of_def holds_tag_def [abs_def])

lemma written_back_stats [simp]: "written_back k (c\<lparr>ca_stats := vs\<rparr>) st w s s' = written_back k c st w s s'"
  by (simp add: written_back_def)

lemma written_back_eff:
  "eff k stage b N s s0 \<Longrightarrow> written_back k c st w s0 s' \<Longrightarrow> written_back k c st w s s'"
  unfolding written_back_def eff_def Let_def by (metis append.assoc)

text \<open>The situation of an access of one line to cache \<open>cid\<close>, with room for the requests it may cause.\<close>

definition line_access :: "nat \<Rightarrow> MemSys \<Rightarrow> nat \<Rightarrow> target_ulong \<Rightarrow> int \<Rightarrow> int \<Rightarrow> nat \<Rightarrow> bool" where
  "line_access k s cid a n stage priv \<longleftrightarrow> ms_wf k s \<and> cid < length (ms_caches s) \<and> stage_ok stage
     \<and> priv < NUM_MAX_PRV_LEVELS \<and> inline k a n \<and> 3 ^ length (ms_caches s) \<le> room stage s"

definition line_way :: "Cache \<Rightarrow> target_ulong \<Rightarrow> nat option" where
  "line_way c a = way_of c (addr_set c a) (addr_tag c a)"

lemma line_access_setup:
  assumes "line_access k s cid a n stage priv" and "c = ms_caches s ! cid"
  obtains d where "length (ms_caches s) = Suc d" and "cid \<le> d" and "addr_set c a < ca_num_sets c"
    and "cache_wf c" and "ca_word_bits c = k" and "line_bytes c = 2 ^ k" and "addr_start_byte c a = uint (take_bit k a)"
    and "uint (take_bit k a) + n \<le> 2 ^ k" and "0 < n" and "addr_tag c a = drop_bit k a"
    and "addr_set c a < length (ca_blk c)"
proof -
  have c: "cache_wf c" "ca_word_bits c = k" "line_bytes c = 2 ^ k"
    using assms ms_wf_cache [of k s cid] by (auto simp: line_access_def)
  show thesis
    by (rule that [of "length (ms_caches s) - 1"])
      (use assms c addr_set_less [OF c(1), of a] in \<open>auto simp: line_access_def start_byte_eq addr_tag_def inline_def cache_wf_def\<close>)
qed

lemma stats_step:
  assumes "line_access k s cid a n stage priv" and "c = ms_caches s ! cid"
  shows "\<exists>s0 vs. stats_update f s cid priv = Inr s0 \<and> eff k stage (Suc cid) 0 s s0
    \<and> ms_caches s0 ! cid = c\<lparr>ca_stats := vs\<rparr> \<and> s0 = upd_cache s cid (c\<lparr>ca_stats := vs\<rparr>)
    \<and> vs = (ca_stats c)[priv := f (ca_stats c ! priv)]"
  using stats_update_ok(1) [of k s cid c priv f] stats_update_ok(2) [of k s cid c priv stage] assms
  by (simp add: line_access_def)

lemma read_loop_line:
  assumes "ms_wf k s" and "cid < length (ms_caches s)" and "c = ms_caches s ! cid" and "st < ca_num_sets c"
    and "sb + n \<le> 2 ^ k" and "0 < n"
  shows "cache_read_loop rd wr cid sb stage priv s st t a n False l =
    (case way_of c st t of
       Some i \<Rightarrow> bindR (policy_use s cid st i) (\<lambda>s. Inr (l, s))
     | None \<Rightarrow> bindR (stats_update (\<lambda>v. v\<lparr>read_miss_cnt := read_miss_cnt v + 1\<rparr>) s cid priv) (\<lambda>s.
         bindR (pfn_read_alloc_handler rd wr s cid a n st stage priv) (\<lambda>(l', s). Inr (l + l', s))))"
  using assms(2,3,5,6) cache_lookup_eq [OF assms(1-4), of t] ms_wf_cache [OF assms(1,2)]
  by (simp add: cache_read_loop.simps [of rd wr cid sb stage priv s] Let_def cong: option.case_cong)

lemma write_loop_line:
  assumes "ms_wf k s" and "cid < length (ms_caches s)" and "c = ms_caches s ! cid" and "st < ca_num_sets c"
    and "sb + n \<le> 2 ^ k" and "0 < n"
  shows "cache_write_loop rd wr cid sb stage priv s st t a n False l =
    (case way_of c st t of
       Some i \<Rightarrow> bindR (pfn_write_handler wr s cid a n st i stage priv) (\<lambda>(l', s). Inr (l + l', s))
     | None \<Rightarrow> bindR (stats_update (\<lambda>v. v\<lparr>write_miss_cnt := write_miss_cnt v + 1\<rparr>) s cid priv) (\<lambda>s.
         bindR (pfn_write_alloc_handler rd wr s cid a n st stage priv) (\<lambda>(l', s). Inr (l + l', s))))"
  using assms(2,3,5,6) cache_lookup_eq [OF assms(1-4), of t] ms_wf_cache [OF assms(1,2)]
  by (simp add: cache_write_loop.simps [of rd wr cid sb stage priv s] Let_def cong: option.case_cong)

text \<open>A read of a line the cache holds takes its read latency; only its counters and its policy change.\<close>

definition read_counted :: "Cache \<Rightarrow> nat \<Rightarrow> CacheStats list" where
  "read_counted c priv = (ca_stats c)[priv := (ca_stats c ! priv)\<lparr>total_read_cnt := total_read_cnt (ca_stats c ! priv) + 1\<rparr>]"

lemma read_line:
  assumes "line_access k s cid a n stage priv" and "c = ms_caches s ! cid"
  obtains s0 d where "cache_read s cid a n stage priv =
      cache_read_loop (cache_access d False) (cache_access d True) cid (uint (take_bit k a)) stage priv s0
        (addr_set c a) (addr_tag c a) a n False (ca_read_latency c)"
    and "eff k stage (Suc cid) 0 s s0" and "s0 = upd_cache s cid (c\<lparr>ca_stats := read_counted c priv\<rparr>)"
    and "length (ms_caches s) = Suc d" and "cid \<le> d"
proof -
  obtain d where d: "length (ms_caches s) = Suc d" "cid \<le> d" "addr_start_byte c a = uint (take_bit k a)"
    "addr_set c a < length (ca_blk c)"
    by (rule line_access_setup [OF assms])
  let ?s0 = "upd_cache s cid (c\<lparr>ca_stats := read_counted c priv\<rparr>)"
  have s0: "stats_update (\<lambda>v. v\<lparr>total_read_cnt := total_read_cnt v + 1\<rparr>) s cid priv = Inr ?s0"
    "eff k stage (Suc cid) 0 s ?s0"
    using stats_step [OF assms, of "\<lambda>v. v\<lparr>total_read_cnt := total_read_cnt v + 1\<rparr>"] by (auto simp: read_counted_def)
  show thesis
    by (rule that [OF _ s0(2) refl d(1,2)])
      (use d s0(1) in \<open>simp add: cache_read_unfold cache_read_with_def flip: assms(2)\<close>)
qed

lemma read_hit:
  assumes "line_access k s cid a n stage priv" and "c = ms_caches s ! cid" and "line_way c a = Some i"
  shows "\<exists>p s'. cache_read s cid a n stage priv = Inr (ca_read_latency c, s') \<and> eff k stage (Suc cid) 0 s s'
    \<and> s' = upd_cache s cid (c\<lparr>ca_stats := read_counted c priv, ca_evict_policy := p\<rparr>)"
proof -
  obtain s0 d where r: "cache_read s cid a n stage priv =
      cache_read_loop (cache_access d False) (cache_access d True) cid (uint (take_bit k a)) stage priv s0
        (addr_set c a) (addr_tag c a) a n False (ca_read_latency c)"
    "eff k stage (Suc cid) 0 s s0" "s0 = upd_cache s cid (c\<lparr>ca_stats := read_counted c priv\<rparr>)"
    by (rule read_line [OF assms(1,2)])
  obtain d' where d: "length (ms_caches s) = Suc d'" "cid \<le> d'" "addr_set c a < ca_num_sets c"
    "uint (take_bit k a) + n \<le> 2 ^ k" "0 < n"
    by (rule line_access_setup [OF assms(1,2)])
  let ?c0 = "c\<lparr>ca_stats := read_counted c priv\<rparr>"
  have c0: "?c0 = ms_caches s0 ! cid" "cid < length (ms_caches s0)" using d r(3) by simp_all
  have i: "way_of c (addr_set c a) (addr_tag c a) = Some i" "i < ca_num_ways c"
    using assms(3) way_of_Some [of c _ _ i] by (auto simp: line_way_def)
  obtain p where p: "policy_use s0 cid (addr_set c a) i = Inr (upd_cache s0 cid (?c0\<lparr>ca_evict_policy := p\<rparr>))"
    "eff k stage (Suc cid) 0 s0 (upd_cache s0 cid (?c0\<lparr>ca_evict_policy := p\<rparr>))"
    using policy_use_ok [OF eff_wf [OF r(2)] c0(2,1), of "addr_set c a" i stage] d(3) i(2) by auto
  have "cache_read s cid a n stage priv = Inr (ca_read_latency c, upd_cache s0 cid (?c0\<lparr>ca_evict_policy := p\<rparr>))"
    using r(1) read_loop_line [OF eff_wf [OF r(2)] c0(2,1) _ d(4,5), of "addr_set c a"] d(3) i(1) p(1) by simp
  moreover have "eff k stage (Suc cid) 0 s (upd_cache s0 cid (?c0\<lparr>ca_evict_policy := p\<rparr>))"
    using eff_trans [OF r(2) p(2)] by simp
  ultimately show ?thesis using r(3) by (auto simp: upd_cache_def)
qed

text \<open>A read that misses fetches the line; an allocating cache puts it in the place of a victim.\<close>

lemma read_miss:
  assumes "line_access k s cid a n stage priv" and "c = ms_caches s ! cid" and "line_way c a = None"
  shows "\<exists>l s'. cache_read s cid a n stage priv = Inr (ca_read_latency c + l, s') \<and> 0 \<le> l
    \<and> eff k stage (Suc cid) (3 ^ length (ms_caches s)) s s'
    \<and> (if ca_read_alloc_policy c = ReadAllocate
       then \<exists>w < ca_num_ways c. written_back k c (addr_set c a) w s s' \<and> ca_blk (ms_caches s' ! cid) =
          ca_blk (with_blk c (addr_set c a) w \<lparr>cb_status = Valid, cb_dirty = NonDirty, cb_tag = addr_tag c a\<rparr>)
       else ca_blk (ms_caches s' ! cid) = ca_blk c)"
proof -
  obtain s0 d where r: "cache_read s cid a n stage priv =
      cache_read_loop (cache_access d False) (cache_access d True) cid (uint (take_bit k a)) stage priv s0
        (addr_set c a) (addr_tag c a) a n False (ca_read_latency c)"
    "eff k stage (Suc cid) 0 s s0" "s0 = upd_cache s cid (c\<lparr>ca_stats := read_counted c priv\<rparr>)"
    "length (ms_caches s) = Suc d" "cid \<le> d"
    by (rule read_line [OF assms(1,2)])
  obtain d' where d: "length (ms_caches s) = Suc d'" "addr_set c a < ca_num_sets c"
    "uint (take_bit k a) + n \<le> 2 ^ k" "0 < n" "addr_tag c a = drop_bit k a"
    by (rule line_access_setup [OF assms(1,2)])
  have acc: "stage_ok stage" "priv < NUM_MAX_PRV_LEVELS" "inline k a n" "3 * 3 ^ d \<le> room stage s"
    using assms(1) r(4) by (auto simp: line_access_def)
  let ?c0 = "c\<lparr>ca_stats := read_counted c priv\<rparr>"
  have c0: "?c0 = ms_caches s0 ! cid" "cid < length (ms_caches s0)" using r(3-5) by simp_all
  obtain s1 vs where s1: "stats_update (\<lambda>v. v\<lparr>read_miss_cnt := read_miss_cnt v + 1\<rparr>) s0 cid priv = Inr s1"
    "eff k stage (Suc cid) 0 s0 s1" "ms_caches s1 ! cid = ?c0\<lparr>ca_stats := vs\<rparr>"
    using miss_count_ok [OF eff_wf [OF r(2)] c0(2) acc(2), of False "\<lambda>v. v\<lparr>read_miss_cnt := read_miss_cnt v + 1\<rparr>" stage] c0(1) by auto
  have e1: "eff k stage (Suc cid) 0 s s1" using eff_trans [OF r(2) s1(2)] by simp
  have pre: "cid < length (ms_caches s1)" "addr_set c a < ca_num_sets (ms_caches s1 ! cid)"
    "2 * 3 ^ d \<le> room stage s1"
    using eff_length [OF e1] r(4,5) s1(3) d(2) eff_room [OF e1] acc(4) by simp_all
  obtain l s' where h: "pfn_read_alloc_handler (cache_access d False) (cache_access d True) s1 cid a n
      (addr_set c a) stage priv = Inr (l, s')" "0 \<le> l" "eff k stage (Suc cid) (2 * 3 ^ d) s1 s'"
    "if ca_read_alloc_policy (ms_caches s1 ! cid) = ReadAllocate
     then \<exists>w p. w < ca_num_ways (ms_caches s1 ! cid) \<and> written_back k (ms_caches s1 ! cid) (addr_set c a) w s1 s'
        \<and> ms_caches s' ! cid = (with_blk (ms_caches s1 ! cid) (addr_set c a) w
            \<lparr>cb_status = Valid, cb_dirty = NonDirty, cb_tag = drop_bit k a\<rparr>)\<lparr>ca_evict_policy := p\<rparr>
     else ms_caches s' ! cid = ms_caches s1 ! cid"
    using level.read_alloc_ok [OF r(5) eff_wf [OF e1] pre(1) refl pre(2) acc(1,2) pre(3) acc(3)] by (elim exE conjE)
  have "cache_read s cid a n stage priv = Inr (ca_read_latency c + l, s')"
    using r(1) read_loop_line [OF eff_wf [OF r(2)] c0(2,1) _ d(3,4), of "addr_set c a"] d(2) assms(3) s1(1) h(1)
    by (simp add: line_way_def)
  moreover have "eff k stage (Suc cid) (3 ^ length (ms_caches s)) s s'"
    using eff_mono [OF eff_trans [OF e1 h(3)] le_refl, of "3 ^ length (ms_caches s)"] r(4) by simp
  ultimately show ?thesis
    using h(2,4) s1(3) written_back_eff [OF e1, of c] d(5) by (auto simp: with_blk_def split: if_splits)
qed

text \<open>The same for writes: the line that is written is dirty afterwards.\<close>

definition write_counted :: "Cache \<Rightarrow> nat \<Rightarrow> CacheStats list" where
  "write_counted c priv = (ca_stats c)[priv := (ca_stats c ! priv)\<lparr>total_write_cnt := total_write_cnt (ca_stats c ! priv) + 1\<rparr>]"

lemma write_line:
  assumes "line_access k s cid a n stage priv" and "c = ms_caches s ! cid"
  obtains s0 d where "cache_write s cid a n stage priv =
      cache_write_loop (cache_access d False) (cache_access d True) cid (uint (take_bit k a)) stage priv s0
        (addr_set c a) (addr_tag c a) a n False (ca_write_latency c)"
    and "eff k stage (Suc cid) 0 s s0" and "s0 = upd_cache s cid (c\<lparr>ca_stats := write_counted c priv\<rparr>)"
    and "length (ms_caches s) = Suc d" and "cid \<le> d"
proof -
  obtain d where d: "length (ms_caches s) = Suc d" "cid \<le> d" "addr_start_byte c a = uint (take_bit k a)"
    "addr_set c a < length (ca_blk c)"
    by (rule line_access_setup [OF assms])
  let ?s0 = "upd_cache s cid (c\<lparr>ca_stats := write_counted c priv\<rparr>)"
  have s0: "stats_update (\<lambda>v. v\<lparr>total_write_cnt := total_write_cnt v + 1\<rparr>) s cid priv = Inr ?s0"
    "eff k stage (Suc cid) 0 s ?s0"
    using stats_step [OF assms, of "\<lambda>v. v\<lparr>total_write_cnt := total_write_cnt v + 1\<rparr>"] by (auto simp: write_counted_def)
  show thesis
    by (rule that [OF _ s0(2) refl d(1,2)])
      (use d s0(1) in \<open>simp add: cache_write_unfold cache_write_with_def flip: assms(2)\<close>)
qed

lemma write_hit:
  assumes "line_access k s cid a n stage priv" and "c = ms_caches s ! cid" and "line_way c a = Some i"
  shows "\<exists>l s'. cache_write s cid a n stage priv = Inr (ca_write_latency c + l, s') \<and> 0 \<le> l
    \<and> eff k stage (Suc cid) (3 ^ length (ms_caches s)) s s'
    \<and> ca_blk (ms_caches s' ! cid) = ca_blk (with_blk c (addr_set c a) i ((ca_blk c ! addr_set c a ! i)\<lparr>cb_dirty := Dirty\<rparr>))"
proof -
  obtain s0 d where r: "cache_write s cid a n stage priv =
      cache_write_loop (cache_access d False) (cache_access d True) cid (uint (take_bit k a)) stage priv s0
        (addr_set c a) (addr_tag c a) a n False (ca_write_latency c)"
    "eff k stage (Suc cid) 0 s s0" "s0 = upd_cache s cid (c\<lparr>ca_stats := write_counted c priv\<rparr>)"
    "length (ms_caches s) = Suc d" "cid \<le> d"
    by (rule write_line [OF assms(1,2)])
  obtain d' where d: "length (ms_caches s) = Suc d'" "addr_set c a < ca_num_sets c"
    "uint (take_bit k a) + n \<le> 2 ^ k" "0 < n" "addr_tag c a = drop_bit k a"
    by (rule line_access_setup [OF assms(1,2)])
  have acc: "stage_ok stage" "priv < NUM_MAX_PRV_LEVELS" "inline k a n" "3 * 3 ^ d \<le> room stage s"
    using assms(1) r(4) by (auto simp: line_access_def)
  let ?c0 = "c\<lparr>ca_stats := write_counted c priv\<rparr>"
  have c0: "?c0 = ms_caches s0 ! cid" "cid < length (ms_caches s0)" using r(3-5) by simp_all
  have i: "way_of c (addr_set c a) (addr_tag c a) = Some i" "i < ca_num_ways ?c0" "addr_set c a < ca_num_sets ?c0"
    using assms(3) way_of_Some [of c _ _ i] d(2) by (auto simp: line_way_def)
  have room: "3 ^ d \<le> room stage s0" using eff_room [OF r(2)] acc(4) by simp
  obtain l s' p where h: "pfn_write_handler (cache_access d True) s0 cid a n (addr_set c a) i stage priv = Inr (l, s')"
    "0 \<le> l" "eff k stage (Suc cid) (3 ^ d) s0 s'"
    "ms_caches s' ! cid = (with_blk ?c0 (addr_set c a) i ((ca_blk ?c0 ! addr_set c a ! i)\<lparr>cb_dirty := Dirty\<rparr>))\<lparr>ca_evict_policy := p\<rparr>"
    using level.write_handler_ok [OF r(5) eff_wf [OF r(2)] c0(2,1) i(3,2) acc(1,2) room acc(3)] by (elim exE conjE)
  have "cache_write s cid a n stage priv = Inr (ca_write_latency c + l, s')"
    using r(1) write_loop_line [OF eff_wf [OF r(2)] c0(2,1) _ d(3,4), of "addr_set c a"] d(2) i(1) h(1) by simp
  moreover have "eff k stage (Suc cid) (3 ^ length (ms_caches s)) s s'"
    using eff_mono [OF eff_trans [OF r(2) h(3)] le_refl, of "3 ^ length (ms_caches s)"] r(4) by simp
  ultimately show ?thesis using h(2,4) by (simp add: with_blk_def)
qed

lemma write_miss:
  assumes "line_access k s cid a n stage priv" and "c = ms_caches s ! cid" and "line_way c a = None"
  shows "\<exists>l s'. cache_write s cid a n stage priv = Inr (ca_write_latency c + l, s') \<and> 0 \<le> l
    \<and> eff k stage (Suc cid) (3 ^ length (ms_caches s)) s s'
    \<and> (if ca_write_alloc_policy c = WriteAllocate
       then \<exists>w < ca_num_ways c. written_back k c (addr_set c a) w s s' \<and> ca_blk (ms_caches s' ! cid) =
          ca_blk (with_blk c (addr_set c a) w \<lparr>cb_status = Valid, cb_dirty = Dirty, cb_tag = addr_tag c a\<rparr>)
       else ca_blk (ms_caches s' ! cid) = ca_blk c)"
proof -
  obtain s0 d where r: "cache_write s cid a n stage priv =
      cache_write_loop (cache_access d False) (cache_access d True) cid (uint (take_bit k a)) stage priv s0
        (addr_set c a) (addr_tag c a) a n False (ca_write_latency c)"
    "eff k stage (Suc cid) 0 s s0" "s0 = upd_cache s cid (c\<lparr>ca_stats := write_counted c priv\<rparr>)"
    "length (ms_caches s) = Suc d" "cid \<le> d"
    by (rule write_line [OF assms(1,2)])
  obtain d' where d: "length (ms_caches s) = Suc d'" "addr_set c a < ca_num_sets c"
    "uint (take_bit k a) + n \<le> 2 ^ k" "0 < n" "addr_tag c a = drop_bit k a"
    by (rule line_access_setup [OF assms(1,2)])
  have acc: "stage_ok stage" "priv < NUM_MAX_PRV_LEVELS" "inline k a n" "3 * 3 ^ d \<le> room stage s"
    using assms(1) r(4) by (auto simp: line_access_def)
  let ?c0 = "c\<lparr>ca_stats := write_counted c priv\<rparr>"
  have c0: "?c0 = ms_caches s0 ! cid" "cid < length (ms_caches s0)" using r(3-5) by simp_all
  obtain s1 vs where s1: "stats_update (\<lambda>v. v\<lparr>write_miss_cnt := write_miss_cnt v + 1\<rparr>) s0 cid priv = Inr s1"
    "eff k stage (Suc cid) 0 s0 s1" "ms_caches s1 ! cid = ?c0\<lparr>ca_stats := vs\<rparr>"
    using miss_count_ok [OF eff_wf [OF r(2)] c0(2) acc(2), of False "\<lambda>v. v\<lparr>write_miss_cnt := write_miss_cnt v + 1\<rparr>" stage] c0(1) by auto
  have e1: "eff k stage (Suc cid) 0 s s1" using eff_trans [OF r(2) s1(2)] by simp
  have pre: "cid < length (ms_caches s1)" "addr_set c a < ca_num_sets (ms_caches s1 ! cid)"
    "3 * 3 ^ d \<le> room stage s1"
    using eff_length [OF e1] r(4,5) s1(3) d(2) eff_room [OF e1] acc(4) by simp_all
  obtain l s' where h: "pfn_write_alloc_handler (cache_access d False) (cache_access d True) s1 cid a n
      (addr_set c a) stage priv = Inr (l, s')" "0 \<le> l" "eff k stage (Suc cid) (3 * 3 ^ d) s1 s'"
    "if ca_write_alloc_policy (ms_caches s1 ! cid) = WriteAllocate
     then \<exists>w p. w < ca_num_ways (ms_caches s1 ! cid) \<and> written_back k (ms_caches s1 ! cid) (addr_set c a) w s1 s'
        \<and> ms_caches s' ! cid = (with_blk (ms_caches s1 ! cid) (addr_set c a) w
            \<lparr>cb_status = Valid, cb_dirty = Dirty, cb_tag = drop_bit k a\<rparr>)\<lparr>ca_evict_policy := p\<rparr>
     else ms_caches s' ! cid = ms_caches s1 ! cid"
    using level.write_alloc_ok [OF r(5) eff_wf [OF e1] pre(1) refl pre(2) acc(1,2) pre(3) acc(3)] by (elim exE conjE)
  have "cache_write s cid a n stage priv = Inr (ca_write_latency c + l, s')"
    using r(1) write_loop_line [OF eff_wf [OF r(2)] c0(2,1) _ d(3,4), of "addr_set c a"] d(2) assms(3) s1(1) h(1)
    by (simp add: line_way_def)
  moreover have "eff k stage (Suc cid) (3 ^ length (ms_caches s)) s s'"
    using eff_mono [OF eff_trans [OF e1 h(3)] le_refl, of "3 ^ length (ms_caches s)"] r(4) by simp
  ultimately show ?thesis
    using h(2,4) s1(3) written_back_eff [OF e1, of c] d(5) by (auto simp: with_blk_def split: if_splits)
qed

end
