(* ===== verification/Riscv_Instruction.thy ===== *)
theory Riscv_Instruction
  imports Sim_Prelude
begin

text \<open>
  The decoded instruction of \<^verbatim>\<open>decoder/riscv_instruction.h\<close> and the constants of
  \<^verbatim>\<open>riscv_sim_macros.h\<close> that name its classes. Fields of 32 bits are words, read with
  \<open>sint\<close> where the code has \<^verbatim>\<open>int32_t\<close>; flags are booleans.
\<close>

record RVInstruction =
  i_pc :: target_ulong
  i_binary :: u32
  i_quad :: u32
  i_major_opcode :: u32
  i_funct3 :: u32
  i_funct4 :: u32
  i_funct5 :: u32
  i_funct7 :: u32
  i_rd :: u32
  i_rs1 :: u32
  i_rs2 :: u32
  i_rs3 :: u32
  i_old_pdest :: int
  i_pdest :: int
  i_prs1 :: int
  i_prs2 :: int
  i_prs3 :: int
  i_imm :: u32
  i_rm :: u32
  i_has_src1 :: bool
  i_has_src2 :: bool
  i_has_dest :: bool
  i_has_fp_dest :: bool
  i_has_fp_src1 :: bool
  i_has_fp_src2 :: bool
  i_has_fp_src3 :: bool
  i_f32_mask :: bool
  i_f64_mask :: bool
  i_set_fs :: bool
  i_current_fs :: int
  i_is_atomic :: bool
  i_is_atomic_load :: bool
  i_is_atomic_store :: bool
  i_is_atomic_operate :: bool
  i_is_load :: bool
  i_is_store :: bool
  i_bytes_to_rw :: int
  i_is_unsigned :: bool
  i_mem_addr :: target_ulong
  i_is_aim :: bool
  i_is_branch :: bool
  i_branch_type :: int
  i_cond :: u32
  i_target :: target_ulong
  i_fu_type :: int
  i_fpu_alu_type :: int
  i_is_system :: bool
  i_is_func_call :: bool
  i_is_func_ret :: bool
  i_buffer :: u64
  i_rs1_val :: u64
  i_rs2_val :: u64
  i_rs3_val :: u64
  i_exception :: bool
  i_exception_cause :: int
  i_type :: int
  i_data_class :: int

text \<open>The cleared instruction of a latch that has just been allocated.\<close>

definition zero_ins :: RVInstruction where
  "zero_ins = \<lparr>i_pc = 0, i_binary = 0, i_quad = 0, i_major_opcode = 0, i_funct3 = 0, i_funct4 = 0,
     i_funct5 = 0, i_funct7 = 0, i_rd = 0, i_rs1 = 0, i_rs2 = 0, i_rs3 = 0, i_old_pdest = 0, i_pdest = 0,
     i_prs1 = 0, i_prs2 = 0, i_prs3 = 0, i_imm = 0, i_rm = 0, i_has_src1 = False, i_has_src2 = False,
     i_has_dest = False, i_has_fp_dest = False, i_has_fp_src1 = False, i_has_fp_src2 = False,
     i_has_fp_src3 = False, i_f32_mask = False, i_f64_mask = False, i_set_fs = False, i_current_fs = 0,
     i_is_atomic = False, i_is_atomic_load = False, i_is_atomic_store = False, i_is_atomic_operate = False,
     i_is_load = False, i_is_store = False, i_bytes_to_rw = 0, i_is_unsigned = False, i_mem_addr = 0,
     i_is_aim = False, i_is_branch = False, i_branch_type = 0, i_cond = 0, i_target = 0, i_fu_type = 0,
     i_fpu_alu_type = 0, i_is_system = False, i_is_func_call = False, i_is_func_ret = False, i_buffer = 0,
     i_rs1_val = 0, i_rs2_val = 0, i_rs3_val = 0, i_exception = False, i_exception_cause = 0, i_type = 0,
     i_data_class = 0\<rparr>"

section \<open>Constants\<close>

abbreviation (input) FU_ALU :: int where "FU_ALU \<equiv> 0"
abbreviation (input) FU_MUL :: int where "FU_MUL \<equiv> 1"
abbreviation (input) FU_DIV :: int where "FU_DIV \<equiv> 2"
abbreviation (input) FU_FPU_ALU :: int where "FU_FPU_ALU \<equiv> 3"
abbreviation (input) FU_FPU_FMA :: int where "FU_FPU_FMA \<equiv> 4"

abbreviation (input) BRANCH_UNCOND :: int where "BRANCH_UNCOND \<equiv> 0"
abbreviation (input) BRANCH_COND :: int where "BRANCH_COND \<equiv> 1"

abbreviation (input) INS_TYPE_LOAD :: int where "INS_TYPE_LOAD \<equiv> 0"
abbreviation (input) INS_TYPE_STORE :: int where "INS_TYPE_STORE \<equiv> 1"
abbreviation (input) INS_TYPE_ATOMIC :: int where "INS_TYPE_ATOMIC \<equiv> 2"
abbreviation (input) INS_TYPE_SYSTEM :: int where "INS_TYPE_SYSTEM \<equiv> 3"
abbreviation (input) INS_TYPE_ARITMETIC :: int where "INS_TYPE_ARITMETIC \<equiv> 4"
abbreviation (input) INS_TYPE_COND_BRANCH :: int where "INS_TYPE_COND_BRANCH \<equiv> 5"
abbreviation (input) INS_TYPE_JAL :: int where "INS_TYPE_JAL \<equiv> 6"
abbreviation (input) INS_TYPE_JALR :: int where "INS_TYPE_JALR \<equiv> 7"
abbreviation (input) INS_TYPE_INT_MUL :: int where "INS_TYPE_INT_MUL \<equiv> 8"
abbreviation (input) INS_TYPE_INT_DIV :: int where "INS_TYPE_INT_DIV \<equiv> 9"
abbreviation (input) INS_TYPE_FP_LOAD :: int where "INS_TYPE_FP_LOAD \<equiv> 10"
abbreviation (input) INS_TYPE_FP_STORE :: int where "INS_TYPE_FP_STORE \<equiv> 11"
abbreviation (input) INS_TYPE_FP_ADD :: int where "INS_TYPE_FP_ADD \<equiv> 12"
abbreviation (input) INS_TYPE_FP_MUL :: int where "INS_TYPE_FP_MUL \<equiv> 13"
abbreviation (input) INS_TYPE_FP_DIV_SQRT :: int where "INS_TYPE_FP_DIV_SQRT \<equiv> 15"
abbreviation (input) INS_TYPE_FP_FMA :: int where "INS_TYPE_FP_FMA \<equiv> 14"
abbreviation (input) INS_TYPE_FP_MISC :: int where "INS_TYPE_FP_MISC \<equiv> 16"
abbreviation (input) INS_TYPE_AIM_MAC_SBK :: int where "INS_TYPE_AIM_MAC_SBK \<equiv> 21"
abbreviation (input) INS_TYPE_AIM_AF_SBK :: int where "INS_TYPE_AIM_AF_SBK \<equiv> 22"
abbreviation (input) INS_TYPE_AIM_COPY_BKGB :: int where "INS_TYPE_AIM_COPY_BKGB \<equiv> 23"
abbreviation (input) INS_TYPE_AIM_COPY_GBBK :: int where "INS_TYPE_AIM_COPY_GBBK \<equiv> 24"
abbreviation (input) INS_TYPE_AIM_MAC_4BK_INTRA_BG :: int where "INS_TYPE_AIM_MAC_4BK_INTRA_BG \<equiv> 25"
abbreviation (input) INS_TYPE_AIM_AF_4BK_INTRA_BG :: int where "INS_TYPE_AIM_AF_4BK_INTRA_BG \<equiv> 26"
abbreviation (input) INS_TYPE_AIM_EWMUL :: int where "INS_TYPE_AIM_EWMUL \<equiv> 27"
abbreviation (input) INS_TYPE_AIM_EWADD :: int where "INS_TYPE_AIM_EWADD \<equiv> 28"
abbreviation (input) INS_TYPE_AIM_MAC_ABK :: int where "INS_TYPE_AIM_MAC_ABK \<equiv> 29"
abbreviation (input) INS_TYPE_AIM_AF_ABK :: int where "INS_TYPE_AIM_AF_ABK \<equiv> 30"
abbreviation (input) INS_TYPE_AIM_WR_AFLUT :: int where "INS_TYPE_AIM_WR_AFLUT \<equiv> 31"
abbreviation (input) INS_TYPE_AIM_WR_BK :: int where "INS_TYPE_AIM_WR_BK \<equiv> 32"
abbreviation (input) INS_TYPE_AIM_WR_GB :: int where "INS_TYPE_AIM_WR_GB \<equiv> 33"
abbreviation (input) INS_TYPE_AIM_WR_MAC :: int where "INS_TYPE_AIM_WR_MAC \<equiv> 34"
abbreviation (input) INS_TYPE_AIM_WR_BIAS :: int where "INS_TYPE_AIM_WR_BIAS \<equiv> 35"
abbreviation (input) INS_TYPE_AIM_RD_MAC :: int where "INS_TYPE_AIM_RD_MAC \<equiv> 36"
abbreviation (input) INS_TYPE_AIM_RD_AF :: int where "INS_TYPE_AIM_RD_AF \<equiv> 37"
abbreviation (input) INS_CLASS_INT :: int where "INS_CLASS_INT \<equiv> 17"
abbreviation (input) INS_CLASS_FP :: int where "INS_CLASS_FP \<equiv> 18"
abbreviation (input) SIM_ILLEGAL_OPCODE_EXCEPTION :: int where "SIM_ILLEGAL_OPCODE_EXCEPTION \<equiv> 1"
abbreviation (input) SIM_COMPLEX_OPCODE_EXCEPTION :: int where "SIM_COMPLEX_OPCODE_EXCEPTION \<equiv> 2"

end
