(* ===== verification/Memory_Hierarchy.thy ===== *)
theory Memory_Hierarchy
  imports Cache_Levels Riscv_Instruction
begin

text \<open>
  The memory hierarchy of \<^verbatim>\<open>memory_hierarchy/memory_hierarchy.c\<close>: it sets up the memory
  controller and the caches, and routes the accesses of the pipeline (instruction
  fetch, data, page table entries, AiM instructions) to them. The delay functions
  that \<^verbatim>\<open>memory_hierarchy_init\<close> selects by pointer are dispatch functions here.
\<close>

section \<open>The code\<close>

record MemoryHierarchy =
  mh_sys :: MemSys
  mh_icache :: "nat option"
  mh_dcache :: "nat option"
  mh_l2_cache :: "nat option"
  mh_page_walk_cache :: "nat option"
  mh_p :: SimParams
  mh_cache_line_size :: int

type_synonym delay = "MemoryHierarchy \<Rightarrow> target_ulong \<Rightarrow> int \<Rightarrow> int \<Rightarrow> nat \<Rightarrow> sim_error + int \<times> MemoryHierarchy"

definition on_sys :: "MemoryHierarchy \<Rightarrow> sim_error + int \<times> MemSys \<Rightarrow> sim_error + int \<times> MemoryHierarchy" where
  "on_sys h r = bindR r (\<lambda>(l, s). Inr (l, h\<lparr>mh_sys := s\<rparr>))"

definition mem_hierarchy_cache_disabled_read :: delay where
  "mem_hierarchy_cache_disabled_read h paddr bytes stage priv =
     on_sys h (bindR (mem_request (mh_sys h) paddr bytes MEM_ACCESS_READ stage) (\<lambda>(_, s). Inr (1, s)))"

definition mem_hierarchy_cache_disabled_write :: delay where
  "mem_hierarchy_cache_disabled_write h paddr bytes stage priv =
     on_sys h (bindR (mem_request (mh_sys h) paddr bytes MEM_ACCESS_WRITE stage) (\<lambda>(_, s). Inr (1, s)))"

definition aim_access_type :: "int \<Rightarrow> MemAccessType" where
  "aim_access_type t =
     (if t = INS_TYPE_AIM_MAC_SBK then AIM_MAC_SBK
      else if t = INS_TYPE_AIM_AF_SBK then AIM_AF_SBK
      else if t = INS_TYPE_AIM_COPY_BKGB then AIM_COPY_BKGB
      else if t = INS_TYPE_AIM_COPY_GBBK then AIM_COPY_GBBK
      else if t = INS_TYPE_AIM_MAC_4BK_INTRA_BG then AIM_MAC_4BK_INTRA_BG
      else if t = INS_TYPE_AIM_AF_4BK_INTRA_BG then AIM_MAC_4BK_INTRA_BG
      else if t = INS_TYPE_AIM_EWMUL then AIM_EWMUL
      else if t = INS_TYPE_AIM_EWADD then AIM_EWADD
      else if t = INS_TYPE_AIM_MAC_ABK then AIM_MAC_ABK
      else if t = INS_TYPE_AIM_AF_ABK then AIM_AF_ABK
      else if t = INS_TYPE_AIM_WR_AFLUT then AIM_WR_AFLUT
      else if t = INS_TYPE_AIM_WR_BK then AIM_WR_BK
      else if t = INS_TYPE_AIM_WR_GB then AIM_WR_GB
      else if t = INS_TYPE_AIM_WR_MAC then AIM_WR_MAC
      else if t = INS_TYPE_AIM_WR_BIAS then AIM_WR_BIAS
      else if t = INS_TYPE_AIM_RD_MAC then AIM_RD_MAC
      else if t = INS_TYPE_AIM_RD_AF then AIM_RD_AF
      else MEM_ACCESS_NONE)"

definition mem_hierarchy_cache_bypass_aim ::
  "MemoryHierarchy \<Rightarrow> target_ulong \<Rightarrow> int \<Rightarrow> int \<Rightarrow> nat \<Rightarrow> RVInstruction \<Rightarrow> sim_error + int \<times> MemoryHierarchy" where
  "mem_hierarchy_cache_bypass_aim h paddr bytes stage priv ins =
     on_sys h (bindR (mem_request (mh_sys h) paddr bytes (aim_access_type (i_type ins)) stage) (\<lambda>(_, s). Inr (1, s)))"

definition mem_hierarchy_icache_read :: delay where
  "mem_hierarchy_icache_read h paddr bytes stage priv =
     bindR (deref (mh_icache h)) (\<lambda>c. on_sys h (cache_read (mh_sys h) c paddr bytes stage priv))"

definition mem_hierarchy_dcache_read :: delay where
  "mem_hierarchy_dcache_read h paddr bytes stage priv =
     bindR (deref (mh_dcache h)) (\<lambda>c. on_sys h (cache_read (mh_sys h) c paddr bytes stage priv))"

definition mem_hierarchy_dcache_write :: delay where
  "mem_hierarchy_dcache_write h paddr bytes stage priv =
     bindR (deref (mh_dcache h)) (\<lambda>c. on_sys h (cache_write (mh_sys h) c paddr bytes stage priv))"

definition mem_hierarchy_pte_read_cache :: delay where
  "mem_hierarchy_pte_read_cache h paddr bytes stage priv =
     bindR (deref (mh_page_walk_cache h)) (\<lambda>c. on_sys h (cache_read (mh_sys h) c paddr bytes stage priv))"

definition mem_hierarchy_pte_write_cache :: delay where
  "mem_hierarchy_pte_write_cache h paddr bytes stage priv =
     bindR (deref (mh_page_walk_cache h)) (\<lambda>c. on_sys h (cache_write (mh_sys h) c paddr bytes stage priv))"

definition mem_hierarchy_set_page_walk_cache :: "MemoryHierarchy \<Rightarrow> SimParams \<Rightarrow> MemoryHierarchy" where
  "mem_hierarchy_set_page_walk_cache h p =
     (let h = h\<lparr>mh_page_walk_cache := None\<rparr>
      in if enable_l1_caches p \<noteq> 0 then h\<lparr>mh_page_walk_cache := mh_dcache h\<rparr> else h)"

text \<open>A cache is appended to the store; its index is the pointer to it.\<close>

definition add_cache :: "MemoryHierarchy \<Rightarrow> sim_error + Cache \<Rightarrow> sim_error + nat \<times> MemoryHierarchy" where
  "add_cache h r = bindR r (\<lambda>c.
     Inr (length (ms_caches (mh_sys h)), h\<lparr>mh_sys := (mh_sys h)\<lparr>ms_caches := ms_caches (mh_sys h) @ [c]\<rparr>\<rparr>))"

text \<open>The three \<^verbatim>\<open>cache_init\<close> calls, with the parameters of each cache.\<close>

definition init_l2_cache :: "target_ulong \<Rightarrow> (int \<Rightarrow> int) \<Rightarrow> SimParams \<Rightarrow> int \<Rightarrow> sim_error + Cache" where
  "init_l2_cache all_ones shl_1 p words =
     cache_init all_ones shl_1 SharedCache L2 (l2_shared_cache_size p) (cache_line_size p) (l2_shared_cache_ways p)
       (l2_shared_cache_read_latency p) (l2_shared_cache_write_latency p) None words (l2_shared_cache_evict p)
       (cache_write_policy p) (cache_read_allocate_policy p) (cache_write_allocate_policy p)"

definition init_icache :: "target_ulong \<Rightarrow> (int \<Rightarrow> int) \<Rightarrow> SimParams \<Rightarrow> int \<Rightarrow> nat option \<Rightarrow> sim_error + Cache" where
  "init_icache all_ones shl_1 p words l2 =
     cache_init all_ones shl_1 InstructionCache L1 (l1_code_cache_size p) (cache_line_size p) (l1_code_cache_ways p)
       (l1_code_cache_read_latency p) 1 l2 words (l1_code_cache_evict p)
       (cache_write_policy p) (cache_read_allocate_policy p) (cache_write_allocate_policy p)"

definition init_dcache :: "target_ulong \<Rightarrow> (int \<Rightarrow> int) \<Rightarrow> SimParams \<Rightarrow> int \<Rightarrow> nat option \<Rightarrow> sim_error + Cache" where
  "init_dcache all_ones shl_1 p words l2 =
     cache_init all_ones shl_1 DataCache L1 (l1_data_cache_size p) (cache_line_size p) (l1_data_cache_ways p)
       (l1_data_cache_read_latency p) (l1_data_cache_write_latency p) l2 words (l1_data_cache_evict p)
       (cache_write_policy p) (cache_read_allocate_policy p) (cache_write_allocate_policy p)"

text \<open>
  \<open>dramsim_burst_size\<close> is the answer of \<^verbatim>\<open>dramsim_get_burst_size()\<close>, \<open>r\<close> the state of
  \<^verbatim>\<open>rand()\<close>.
\<close>

definition memory_hierarchy_init ::
  "target_ulong \<Rightarrow> (int \<Rightarrow> int) \<Rightarrow> int \<Rightarrow> rand_state \<Rightarrow> SimParams \<Rightarrow> sim_error + MemoryHierarchy" where
  "memory_hierarchy_init all_ones shl_1 dramsim_burst_size r p =
     bindR (mem_controller_init p dramsim_burst_size) (\<lambda>m.
     let h = \<lparr>mh_sys = \<lparr>ms_caches = [], ms_mc = m, ms_rand = r\<rparr>, mh_icache = None, mh_dcache = None,
              mh_l2_cache = None, mh_page_walk_cache = None, mh_p = p, mh_cache_line_size = 0\<rparr>
     in bindR (if enable_l1_caches p \<noteq> 0
        then let words = cache_line_size p sdiv 8;
                 m = mem_controller_set_burst_length m (cache_line_size p);
                 h = h\<lparr>mh_cache_line_size := cache_line_size p, mh_sys := (mh_sys h)\<lparr>ms_mc := m\<rparr>\<rparr>
             in bindR (if mc_dram_model_type m = MEM_MODEL_DRAMSIM
                       then sim_assert (mc_burst_length m = dramsim_burst_size) else Inr ()) (\<lambda>_.
                bindR (if enable_l2_cache p \<noteq> 0
                       then bindR (add_cache h (init_l2_cache all_ones shl_1 p words)) (\<lambda>(c, h).
                              Inr (h\<lparr>mh_l2_cache := Some c\<rparr>))
                       else Inr h) (\<lambda>h.
                bindR (add_cache h (init_icache all_ones shl_1 p words (mh_l2_cache h))) (\<lambda>(i, h).
                bindR (add_cache h (init_dcache all_ones shl_1 p words (mh_l2_cache h))) (\<lambda>(d, h).
                  Inr (h\<lparr>mh_icache := Some i, mh_dcache := Some d\<rparr>)))))
        else Inr h) (\<lambda>h.
        Inr (mem_hierarchy_set_page_walk_cache h p)))"

text \<open>The calls through the function pointers.\<close>

definition insn_read_delay :: delay where
  "insn_read_delay h =
     (if enable_l1_caches (mh_p h) \<noteq> 0 then mem_hierarchy_icache_read h else mem_hierarchy_cache_disabled_read h)"

definition data_read_delay :: delay where
  "data_read_delay h =
     (if enable_l1_caches (mh_p h) \<noteq> 0 then mem_hierarchy_dcache_read h else mem_hierarchy_cache_disabled_read h)"

definition data_write_delay :: delay where
  "data_write_delay h =
     (if enable_l1_caches (mh_p h) \<noteq> 0 then mem_hierarchy_dcache_write h else mem_hierarchy_cache_disabled_write h)"

definition pte_read_delay :: delay where
  "pte_read_delay h =
     (if mh_page_walk_cache h \<noteq> None then mem_hierarchy_pte_read_cache h else mem_hierarchy_cache_disabled_read h)"

definition pte_write_delay :: delay where
  "pte_write_delay h =
     (if mh_page_walk_cache h \<noteq> None then mem_hierarchy_pte_write_cache h else mem_hierarchy_cache_disabled_write h)"

section \<open>Set-up\<close>

definition cache_geom :: "nat \<Rightarrow> int \<Rightarrow> int \<Rightarrow> int \<Rightarrow> bool" where
  "cache_geom k size_kb ways evict \<longleftrightarrow>
     1 \<le> size_kb \<and> size_kb \<le> 2048 \<and> 1 \<le> ways \<and> ways \<le> 2048 \<and> is_pow2 (nat (size_kb * 1024 div 2 ^ k div ways))
     \<and> (evict = EVICT_POLICY_RANDOM \<or> evict = EVICT_POLICY_BIT_PLRU \<and> ways < 64)"

text \<open>What the two undefined expressions of \<^verbatim>\<open>cache_init\<close> must yield for the caches to work.\<close>

definition ub_ok :: "nat \<Rightarrow> target_ulong \<Rightarrow> (int \<Rightarrow> int) \<Rightarrow> bool" where
  "ub_ok k all_ones shl_1 \<longleftrightarrow> all_ones = - 1 \<and> (of_int (shl_1 (64 - int k)) :: target_ulong) \<noteq> 0"

lemma cache_init_wf:
  assumes "cache_geom k size_kb ways evict" and "3 \<le> k" and "k < 31" and "ub_ok k all_ones shl_1"
    and "0 \<le> rl" and "0 \<le> wl" and "wp \<in> {WriteBack, WriteThrough}" and "rp \<in> {ReadAllocate, ReadNoAllocate}"
    and "ap \<in> {WriteAllocate, WriteNoAllocate}"
  shows "\<exists>c. cache_init all_ones shl_1 ty lv size_kb (2 ^ k) ways rl wl nx (2 ^ k sdiv 8) evict wp rp ap = Inr c
    \<and> cache_wf c \<and> ca_word_bits c = k \<and> ca_next_level_cache c = nx \<and> ca_read_latency c = rl \<and> ca_write_latency c = wl
    \<and> ca_write_policy c = wp \<and> ca_read_alloc_policy c = rp \<and> ca_write_alloc_policy c = ap
    \<and> ca_blk c = replicate (ca_num_sets c) (replicate (ca_num_ways c) zero_blk)
    \<and> ca_num_sets c = nat (size_kb * 1024 div 2 ^ k div ways) \<and> ca_num_ways c = nat ways"
proof -
  let ?blks = "size_kb * 1024 div 2 ^ k" and ?words = "2 ^ k sdiv 8 :: int"
  have g: "1 \<le> size_kb" "size_kb \<le> 2048" "1 \<le> ways" "ways \<le> 2048" "is_pow2 (nat (?blks div ways))"
    using assms(1) by (auto simp: cache_geom_def)
  obtain j where j: "k = 3 + j" using assms(2) le_Suc_ex by blast
  have words: "8 * ?words = 2 ^ k" by (simp add: sdiv_nonneg j power_add)
  have nb: "get_num_cache_blks size_kb (2 ^ k) = Inr ?blks" using g by (simp add: get_num_cache_blks_def sdiv_nonneg)
  have "?blks \<le> size_kb * 1024" using g zdiv_mono2 [of "size_kb * 1024" 1 "2 ^ k"] by simp
  then have b: "0 \<le> ?blks" "?blks < 2 ^ 32" using g by (auto simp: pos_imp_zdiv_nonneg_iff)
  then have m: "?blks mod 4294967296 = ?blks" "ways mod 4294967296 = ways" using g by simp_all
  have wb: "GET_NUM_BITS (nat (2 ^ k)) = k"
    using GET_NUM_BITS_power [of k] by (simp add: nat_power_eq)
  have s: "0 \<le> ?blks div ways" using b g by (simp add: pos_imp_zdiv_nonneg_iff)
  have ep: "ep_inv (evict_policy_create (nat (?blks div ways)) (nat ways) evict)"
    by (rule ep_inv_create) (use assms(1) in \<open>auto simp: cache_geom_def nat_less_iff\<close>)
  define c where "c = \<lparr>ca_level = lv, ca_type = ty, ca_num_ways = nat ways, ca_num_blks = nat ?blks,
    ca_num_sets = nat (?blks div ways), ca_tag_bits = 64 - int k, ca_set_bits = GET_NUM_BITS (nat (?blks div ways)),
    ca_word_bits = k, ca_size = (?blks * ?words * 8) div 1024, ca_max_words_per_blk = ?words,
    ca_max_tag_val = of_int (shl_1 (64 - int k)), ca_tag_bits_mask = push_bit k all_ones, ca_read_latency = rl,
    ca_write_latency = wl, ca_write_policy = wp, ca_read_alloc_policy = rp, ca_write_alloc_policy = ap,
    ca_blk = replicate (nat (?blks div ways)) (replicate (nat ways) zero_blk), ca_next_level_cache = nx,
    ca_stats = replicate NUM_MAX_PRV_LEVELS zero_stats_cnt,
    ca_evict_policy = evict_policy_create (nat (?blks div ways)) (nat ways) evict\<rparr>"
  have "cache_init all_ones shl_1 ty lv size_kb (2 ^ k) ways rl wl nx ?words evict wp rp ap = Inr c"
    using g(3) s unfolding c_def cache_init_def nb by (simp add: m wb words Let_def mult.commute del: replicate_numeral_rec)
  moreover have "cache_wf c"
    using g(5) ep assms(4-9) words
    by (simp add: c_def cache_wf_def line_bytes_def list_all_length ub_ok_def) (simp add: evict_policy_create_def)
  ultimately show ?thesis by (intro exI [of _ c]) (simp add: c_def)
qed

text \<open>The caches of a configuration: its geometry fits a line of \<open>2 ^ k\<close> bytes.\<close>

definition params_geom :: "nat \<Rightarrow> SimParams \<Rightarrow> bool" where
  "params_geom k p \<longleftrightarrow> enable_l1_caches p \<noteq> 0 \<and> enable_l2_cache p \<noteq> 0 \<and> cache_line_size p = 2 ^ k \<and> 3 \<le> k \<and> k < 31
     \<and> dram_model_type p \<in> {MEM_MODEL_BASE, MEM_MODEL_RAMULATOR, MEM_MODEL_AIMULATOR}
     \<and> cache_geom k (l1_code_cache_size p) (l1_code_cache_ways p) (l1_code_cache_evict p)
     \<and> cache_geom k (l1_data_cache_size p) (l1_data_cache_ways p) (l1_data_cache_evict p)
     \<and> cache_geom k (l2_shared_cache_size p) (l2_shared_cache_ways p) (l2_shared_cache_evict p)
     \<and> 0 \<le> l1_code_cache_read_latency p \<and> 0 \<le> l1_data_cache_read_latency p \<and> 0 \<le> l1_data_cache_write_latency p
     \<and> 0 \<le> l2_shared_cache_read_latency p \<and> 0 \<le> l2_shared_cache_write_latency p
     \<and> cache_write_policy p \<in> {WriteBack, WriteThrough} \<and> cache_read_allocate_policy p \<in> {ReadAllocate, ReadNoAllocate}
     \<and> cache_write_allocate_policy p \<in> {WriteAllocate, WriteNoAllocate}"

lemma mc_set_burst:
  "mc_inv m \<Longrightarrow> mc_inv (mem_controller_set_burst_length m b)" "mc_pending (mem_controller_set_burst_length m b) = mc_pending m"
  "mc_served m \<Longrightarrow> mc_served (mem_controller_set_burst_length m b)"
  by (auto simp: mem_controller_set_burst_length_def mc_inv_def mc_pending_def mc_served_def mc_todo_def split: if_splits)

lemma memory_hierarchy_init_ok:
  assumes "params_geom k p" and "ub_ok k all_ones shl_1"
  shows "\<exists>h l2 ic dc. memory_hierarchy_init all_ones shl_1 bs r p = Inr h \<and> ms_caches (mh_sys h) = [l2, ic, dc]
    \<and> mh_l2_cache h = Some 0 \<and> mh_icache h = Some 1 \<and> mh_dcache h = Some 2 \<and> mh_page_walk_cache h = Some 2 \<and> mh_p h = p
    \<and> ms_wf k (mh_sys h) \<and> mc_pending (ms_mc (mh_sys h)) = [] \<and> mc_served (ms_mc (mh_sys h))
    \<and> mc_dram (ms_mc (mh_sys h)) = dram_create p \<and> (\<forall>stage. room stage (mh_sys h) = MEM_REQUEST_QUEUE_SIZE)
    \<and> ca_next_level_cache l2 = None \<and> ca_next_level_cache ic = Some 0 \<and> ca_next_level_cache dc = Some 0
    \<and> ca_read_latency dc = l1_data_cache_read_latency p
    \<and> list_all (\<lambda>c. ca_read_alloc_policy c = cache_read_allocate_policy p \<and> ca_write_policy c = cache_write_policy p
        \<and> ca_blk c = replicate (ca_num_sets c) (replicate (ca_num_ways c) zero_blk)) [l2, ic, dc]
    \<and> ca_num_sets l2 = nat (l2_shared_cache_size p * 1024 div 2 ^ k div l2_shared_cache_ways p)
    \<and> ca_num_sets dc = nat (l1_data_cache_size p * 1024 div 2 ^ k div l1_data_cache_ways p)"
proof -
  note g = assms(1) [unfolded params_geom_def]
  obtain m where m: "mem_controller_init p bs = Inr m" "mc_inv m" "mc_pending m = []" "mc_served m"
    "mc_dram m = dram_create p" "length (mc_reqs m) = MEM_REQUEST_QUEUE_SIZE"
    "\<forall>ty stage. stage_room (mc_queues m) ty stage = MEM_REQUEST_QUEUE_SIZE"
    using mem_controller_init_ok [of p bs] g by blast
  have mt: "mc_dram_model_type m = dram_model_type p"
    using m(1) by (auto simp: mem_controller_init_def mem_controller_set_burst_length_def Let_def split: if_splits)
  let ?w = "cache_line_size p sdiv 8"
  have k: "cache_line_size p = 2 ^ k" "3 \<le> k" "k < 31" using g by simp_all
  have pol: "cache_write_policy p \<in> {WriteBack, WriteThrough}" "cache_read_allocate_policy p \<in> {ReadAllocate, ReadNoAllocate}"
    "cache_write_allocate_policy p \<in> {WriteAllocate, WriteNoAllocate}" using g by simp_all
  have geom: "cache_geom k (l1_code_cache_size p) (l1_code_cache_ways p) (l1_code_cache_evict p)"
    "cache_geom k (l1_data_cache_size p) (l1_data_cache_ways p) (l1_data_cache_evict p)"
    "cache_geom k (l2_shared_cache_size p) (l2_shared_cache_ways p) (l2_shared_cache_evict p)" using g by simp_all
  have lat: "0 \<le> l1_code_cache_read_latency p" "0 \<le> l1_data_cache_read_latency p" "0 \<le> l1_data_cache_write_latency p"
    "0 \<le> l2_shared_cache_read_latency p" "0 \<le> l2_shared_cache_write_latency p" using g by simp_all
  obtain l2 where l2: "init_l2_cache all_ones shl_1 p ?w = Inr l2" "cache_wf l2" "ca_word_bits l2 = k"
    "ca_next_level_cache l2 = None" "ca_read_alloc_policy l2 = cache_read_allocate_policy p" "ca_write_policy l2 = cache_write_policy p"
    "ca_blk l2 = replicate (ca_num_sets l2) (replicate (ca_num_ways l2) zero_blk)"
    "ca_num_sets l2 = nat (l2_shared_cache_size p * 1024 div 2 ^ k div l2_shared_cache_ways p)"
    using cache_init_wf [OF geom(3) k(2,3) assms(2) lat(4,5) pol, where ty = SharedCache and lv = L2 and nx = None]
    unfolding init_l2_cache_def k(1) by (elim exE conjE)
  obtain ic where ic: "init_icache all_ones shl_1 p ?w (Some 0) = Inr ic" "cache_wf ic" "ca_word_bits ic = k"
    "ca_next_level_cache ic = Some 0" "ca_read_alloc_policy ic = cache_read_allocate_policy p" "ca_write_policy ic = cache_write_policy p"
    "ca_blk ic = replicate (ca_num_sets ic) (replicate (ca_num_ways ic) zero_blk)"
    using cache_init_wf [OF geom(1) k(2,3) assms(2) lat(1) zero_le_one pol, where ty = InstructionCache and lv = L1 and nx = "Some 0"]
    unfolding init_icache_def k(1) by (elim exE conjE)
  obtain dc where dc: "init_dcache all_ones shl_1 p ?w (Some 0) = Inr dc" "cache_wf dc" "ca_word_bits dc = k"
    "ca_next_level_cache dc = Some 0" "ca_read_alloc_policy dc = cache_read_allocate_policy p" "ca_write_policy dc = cache_write_policy p"
    "ca_blk dc = replicate (ca_num_sets dc) (replicate (ca_num_ways dc) zero_blk)" "ca_read_latency dc = l1_data_cache_read_latency p"
    "ca_num_sets dc = nat (l1_data_cache_size p * 1024 div 2 ^ k div l1_data_cache_ways p)"
    using cache_init_wf [OF geom(2) k(2,3) assms(2) lat(2,3) pol, where ty = DataCache and lv = L1 and nx = "Some 0"]
    unfolding init_dcache_def k(1) by (elim exE conjE)
  have nd: "mc_dram_model_type m \<noteq> MEM_MODEL_DRAMSIM" using g mt by auto
  let ?m = "mem_controller_set_burst_length m (cache_line_size p)"
  let ?s = "\<lparr>ms_caches = [l2, ic, dc], ms_mc = ?m, ms_rand = r\<rparr>"
  have wf: "ms_wf k ?s"
    using g mc_set_burst(1) [OF m(2), of "cache_line_size p"] l2 ic dc
    by (auto simp: ms_wf_def less_Suc_eq numeral_3_eq_3 mem_controller_set_burst_length_def)
  have rm: "room stage ?s = MEM_REQUEST_QUEUE_SIZE" for stage
    using m by (simp add: room_def mc_set_burst) (simp add: mem_controller_set_burst_length_def)
  have "memory_hierarchy_init all_ones shl_1 bs r p =
      Inr \<lparr>mh_sys = ?s, mh_icache = Some 1, mh_dcache = Some 2, mh_l2_cache = Some 0, mh_page_walk_cache = Some 2,
        mh_p = p, mh_cache_line_size = cache_line_size p\<rparr>"
    using g m(1) mt nd l2(1) ic(1) dc(1)
    by (simp add: numeral_2_eq_2 memory_hierarchy_init_def add_cache_def mem_hierarchy_set_page_walk_cache_def Let_def
        mem_controller_set_burst_length_def)
  then show ?thesis
    using wf rm l2 ic dc m by (simp add: mc_set_burst) (simp add: mem_controller_set_burst_length_def)
qed

end
