(* ===== verification/Cache_Props.thy ===== *)
theory Cache_Props
  imports Memory_Hierarchy
begin

text \<open>
  The properties of the caches: accesses always end, a line that was read is a hit,
  a dirty line is not dropped, a cache refines a bounded set of lines per set; and
  where the code goes wrong.
\<close>

section \<open>Resident lines\<close>

type_synonym line = "nat \<times> target_ulong"

definition lines :: "Cache \<Rightarrow> line set" where
  "lines c = {(st, t). st < ca_num_sets c \<and> (\<exists>i < ca_num_ways c. holds_tag c st t i)}"

definition one_copy :: "Cache \<Rightarrow> bool" where
  "one_copy c \<longleftrightarrow> (\<forall>st < ca_num_sets c. \<forall>t. \<forall>i < ca_num_ways c. \<forall>j < ca_num_ways c.
     holds_tag c st t i \<longrightarrow> holds_tag c st t j \<longrightarrow> i = j)"

definition addr_line :: "Cache \<Rightarrow> target_ulong \<Rightarrow> line" where
  "addr_line c a = (addr_set c a, addr_tag c a)"

text \<open>
  The abstract cache: a set of lines. A miss of an allocating access adds the line and
  drops at most one line, of the same set.
\<close>

definition spec_access :: "bool \<Rightarrow> line set \<Rightarrow> line \<Rightarrow> line set \<Rightarrow> bool" where
  "spec_access alloc R x R' \<longleftrightarrow>
     (if x \<in> R \<or> \<not> alloc then R' = R
      else \<exists>V \<subseteq> R. card V \<le> 1 \<and> fst ` V \<subseteq> {fst x} \<and> R' = insert x (R - V))"

lemma holds_tag_with_blk:
  assumes "cache_wf c" and "st < ca_num_sets c" and "w < ca_num_ways c" and "st' < ca_num_sets c" and "i < ca_num_ways c"
  shows "holds_tag (with_blk c st w b) st' t i \<longleftrightarrow>
    (if st' = st \<and> i = w then cb_tag b = t \<and> cb_status b = Valid else holds_tag c st' t i)"
  using assms row_length [OF assms(1,2)] by (auto simp: holds_tag_def with_blk_def cache_wf_def nth_list_update)

lemma line_way_lines:
  assumes "cache_wf c"
  shows "line_way c a = None \<longleftrightarrow> addr_line c a \<notin> lines c"
  using addr_set_less [OF assms, of a] by (auto simp: line_way_def way_of_None lines_def addr_line_def)

text \<open>Blocks and geometry decide \<open>lines\<close> and \<open>one_copy\<close>.\<close>

lemma lines_cong:
  assumes "ca_blk c = ca_blk c'" and "ca_num_sets c = ca_num_sets c'" and "ca_num_ways c = ca_num_ways c'"
  shows "lines c = lines c'" and "one_copy c = one_copy c'"
  using assms by (simp_all add: lines_def one_copy_def holds_tag_def)

lemma lines_dirty:
  assumes "cache_wf c" and "st < ca_num_sets c" and "w < ca_num_ways c"
  shows "lines (with_blk c st w ((ca_blk c ! st ! w)\<lparr>cb_dirty := d\<rparr>)) = lines c"
    and "one_copy (with_blk c st w ((ca_blk c ! st ! w)\<lparr>cb_dirty := d\<rparr>)) = one_copy c"
proof -
  have h: "holds_tag (with_blk c st w ((ca_blk c ! st ! w)\<lparr>cb_dirty := d\<rparr>)) st' t i = holds_tag c st' t i"
    if "st' < ca_num_sets c" "i < ca_num_ways c" for st' t i
    using holds_tag_with_blk [OF assms that] by (auto simp: holds_tag_def)
  show "lines (with_blk c st w ((ca_blk c ! st ! w)\<lparr>cb_dirty := d\<rparr>)) = lines c"
    using h by (auto simp: lines_def)
  show "one_copy (with_blk c st w ((ca_blk c ! st ! w)\<lparr>cb_dirty := d\<rparr>)) = one_copy c"
    using h by (auto simp: one_copy_def)
qed

lemma lines_fill:
  assumes "cache_wf c" and "st < ca_num_sets c" and "w < ca_num_ways c" and "cb_status b = Valid"
    and "(st, cb_tag b) \<notin> lines c" and "one_copy c"
  shows "spec_access True (lines c) (st, cb_tag b) (lines (with_blk c st w b))" and "one_copy (with_blk c st w b)"
proof -
  let ?V = "{(st, t) | t. holds_tag c st t w}"
  note h = holds_tag_with_blk [OF assms(1-3)]
  have new: "\<not> holds_tag c st (cb_tag b) i" if "i < ca_num_ways c" for i
    using assms(2,5) that by (auto simp: lines_def)
  have "?V \<subseteq> lines c" using assms(2,3) by (auto simp: lines_def)
  moreover have "?V \<subseteq> {(st, cb_tag (ca_blk c ! st ! w))}" by (auto simp: holds_tag_def)
  then have "card ?V \<le> 1" using card_mono [of "{(st, cb_tag (ca_blk c ! st ! w))}" ?V] by simp
  moreover have "fst ` ?V \<subseteq> {st}" by auto
  moreover have "lines (with_blk c st w b) = insert (st, cb_tag b) (lines c - ?V)"
  proof (intro set_eqI iffI)
    fix x assume "x \<in> lines (with_blk c st w b)"
    then obtain st' t i where x: "x = (st', t)" "st' < ca_num_sets c" "i < ca_num_ways c"
      "holds_tag (with_blk c st w b) st' t i" by (auto simp: lines_def)
    show "x \<in> insert (st, cb_tag b) (lines c - ?V)"
    proof (cases "st' = st \<and> i = w")
      case True
      then show ?thesis using x h [of st' i b t] by auto
    next
      case False
      then have ho: "holds_tag c st' t i" using x h [of st' i b t] by (simp split: if_splits)
      have "x \<notin> ?V"
      proof
        assume "x \<in> ?V"
        then have "st' = st" "holds_tag c st t w" using x(1) by auto
        then have "i = w" using assms(2,3,6) x(3) ho by (auto simp: one_copy_def)
        then show False using False \<open>st' = st\<close> by simp
      qed
      then show ?thesis using x(1-3) ho by (auto simp: lines_def)
    qed
  next
    fix x assume "x \<in> insert (st, cb_tag b) (lines c - ?V)"
    then consider "x = (st, cb_tag b)" | "x \<in> lines c" "x \<notin> ?V" by blast
    then show "x \<in> lines (with_blk c st w b)"
    proof cases
      case 1
      then show ?thesis using h [of st w b "cb_tag b"] assms(2-4) by (auto simp: lines_def)
    next
      case 2
      then obtain st' t i where x: "x = (st', t)" "st' < ca_num_sets c" "i < ca_num_ways c" "holds_tag c st' t i"
        by (auto simp: lines_def)
      then have "\<not> (st' = st \<and> i = w)" using 2(2) by auto
      then show ?thesis using x h [of st' i b t] by (auto simp: lines_def)
    qed
  qed
  ultimately show "spec_access True (lines c) (st, cb_tag b) (lines (with_blk c st w b))"
    using assms(5) unfolding spec_access_def by (auto intro!: exI [of _ ?V])
  show "one_copy (with_blk c st w b)"
    unfolding one_copy_def
  proof (intro allI impI)
    fix st' t i j
    assume a: "st' < ca_num_sets (with_blk c st w b)" "i < ca_num_ways (with_blk c st w b)"
      "j < ca_num_ways (with_blk c st w b)" "holds_tag (with_blk c st w b) st' t i" "holds_tag (with_blk c st w b) st' t j"
    then show "i = j" using h [of st' i b t] h [of st' j b t] new [of i] new [of j] assms(6)
      by (auto simp: one_copy_def split: if_splits)
  qed
qed

section \<open>The effect of an access of one line\<close>

text \<open>What hit and miss have in common: whether the blocks stay, or one of the set of the address is replaced.\<close>

definition replaced :: "nat \<Rightarrow> Cache \<Rightarrow> target_ulong \<Rightarrow> BlockDirtyStatus \<Rightarrow> MemSys \<Rightarrow> MemSys \<Rightarrow> Cache \<Rightarrow> bool" where
  "replaced k c a d s s' c' \<longleftrightarrow> (\<exists>w < ca_num_ways c. written_back k c (addr_set c a) w s s' \<and> ca_blk c' =
     ca_blk (with_blk c (addr_set c a) w \<lparr>cb_status = Valid, cb_dirty = d, cb_tag = addr_tag c a\<rparr>))"

lemma read_effect:
  assumes "line_access k s cid a n stage priv" and "c = ms_caches s ! cid"
  shows "\<exists>l s'. cache_read s cid a n stage priv = Inr (l, s') \<and> eff k stage (Suc cid) (3 ^ length (ms_caches s)) s s'
    \<and> (if line_way c a \<noteq> None then l = ca_read_latency c \<and> ms_mc s' = ms_mc s \<and> ca_blk (ms_caches s' ! cid) = ca_blk c
       else if ca_read_alloc_policy c = ReadAllocate then replaced k c a NonDirty s s' (ms_caches s' ! cid)
       else ca_blk (ms_caches s' ! cid) = ca_blk c)"
proof (cases "line_way c a")
  case None
  obtain l s' where "cache_read s cid a n stage priv = Inr (ca_read_latency c + l, s')"
    "eff k stage (Suc cid) (3 ^ length (ms_caches s)) s s'"
    "if ca_read_alloc_policy c = ReadAllocate then replaced k c a NonDirty s s' (ms_caches s' ! cid)
     else ca_blk (ms_caches s' ! cid) = ca_blk c"
    using read_miss [OF assms None] unfolding replaced_def by (elim exE conjE)
  then show ?thesis using None by (intro exI [of _ "ca_read_latency c + l"] exI [of _ s']) simp
next
  case (Some i)
  obtain p s' where h: "cache_read s cid a n stage priv = Inr (ca_read_latency c, s')" "eff k stage (Suc cid) 0 s s'"
    "s' = upd_cache s cid (c\<lparr>ca_stats := read_counted c priv, ca_evict_policy := p\<rparr>)"
    using read_hit [OF assms Some] by blast
  have "cid < length (ms_caches s)" using assms(1) by (simp add: line_access_def)
  then show ?thesis using h Some eff_mono [OF h(2) le_refl, of "3 ^ length (ms_caches s)"] by simp
qed

lemma write_effect:
  assumes "line_access k s cid a n stage priv" and "c = ms_caches s ! cid"
  shows "\<exists>l s'. cache_write s cid a n stage priv = Inr (l, s') \<and> eff k stage (Suc cid) (3 ^ length (ms_caches s)) s s'
    \<and> (case line_way c a of
         Some i \<Rightarrow> ca_blk (ms_caches s' ! cid) =
           ca_blk (with_blk c (addr_set c a) i ((ca_blk c ! addr_set c a ! i)\<lparr>cb_dirty := Dirty\<rparr>))
       | None \<Rightarrow> if ca_write_alloc_policy c = WriteAllocate then replaced k c a Dirty s s' (ms_caches s' ! cid)
           else ca_blk (ms_caches s' ! cid) = ca_blk c)"
proof (cases "line_way c a")
  case None
  obtain l s' where "cache_write s cid a n stage priv = Inr (ca_write_latency c + l, s')"
    "eff k stage (Suc cid) (3 ^ length (ms_caches s)) s s'"
    "if ca_write_alloc_policy c = WriteAllocate then replaced k c a Dirty s s' (ms_caches s' ! cid)
     else ca_blk (ms_caches s' ! cid) = ca_blk c"
    using write_miss [OF assms None] unfolding replaced_def by (elim exE conjE)
  then show ?thesis using None by (intro exI [of _ "ca_write_latency c + l"] exI [of _ s']) simp
next
  case (Some i)
  then show ?thesis using write_hit [OF assms Some] by auto
qed

lemma line_access_wf:
  assumes "line_access k s cid a n stage priv" and "eff k stage b N s s'"
  shows "cache_wf (ms_caches s ! cid)" "cache_wf (ms_caches s' ! cid)" "same_cfg (ms_caches s ! cid) (ms_caches s' ! cid)"
    "addr_set (ms_caches s ! cid) a < ca_num_sets (ms_caches s ! cid)"
  using assms ms_wf_cache [of k s cid] ms_wf_cache [OF eff_wf [OF assms(2)], of cid] eff_length [OF assms(2)]
    eff_cfg [OF assms(2)] addr_set_less by (auto simp: line_access_def)

lemma replaced_holds:
  assumes "replaced k c a d s s' c'" and "cache_wf c" and "same_cfg c c'"
  shows "line_way c' a \<noteq> None"
proof -
  let ?st = "addr_set c a" and ?t = "addr_tag c a"
  obtain w where w: "w < ca_num_ways c" "ca_blk c' = ca_blk (with_blk c ?st w \<lparr>cb_status = Valid, cb_dirty = d, cb_tag = ?t\<rparr>)"
    using assms(1) by (auto simp: replaced_def)
  have "addr_set c' a = ?st" "addr_tag c' a = ?t"
    using same_cfg_fields [OF assms(3)] by (simp_all add: addr_set_def addr_tag_def)
  moreover have "holds_tag c' ?st ?t w"
    using holds_tag_with_blk [OF assms(2) addr_set_less [OF assms(2)] w(1) addr_set_less [OF assms(2)] w(1)] w(2)
    by (simp add: holds_tag_def)
  ultimately show ?thesis using w(1) same_cfg_fields(3) [OF assms(3)] by (auto simp: line_way_def way_of_None)
qed

lemma line_way_cong:
  "same_cfg c c' \<Longrightarrow> ca_blk c' = ca_blk c \<Longrightarrow> line_way c' a = line_way c a"
  by (simp add: same_cfg_fields line_way_def way_of_def holds_tag_def [abs_def] addr_set_def addr_tag_def)

section \<open>The default configuration\<close>

text \<open>
  The memory system of the default parameters, with the values an x86 compiler gives the
  two undefined expressions: saturation, and a shift count modulo 32.
\<close>

definition x86_shl_1 :: "int \<Rightarrow> int" where
  "x86_shl_1 n = 2 ^ nat (n mod 32)"

definition default_hierarchy :: MemoryHierarchy where
  "default_hierarchy = projr (memory_hierarchy_init (- 1) x86_shl_1 0 (0, \<lambda>_. 0) sim_params_init)"

abbreviation default_sys :: MemSys where
  "default_sys \<equiv> mh_sys default_hierarchy"

lemma default_geom: "params_geom 6 sim_params_init"
  using is_pow2_power [of 7] is_pow2_power [of 8]
  by (simp add: params_geom_def cache_geom_def sim_params_init_def sim_params_set_defaults_def zero_params_def)

lemma default_ub: "ub_ok 6 (- 1) x86_shl_1"
  by (simp add: ub_ok_def x86_shl_1_def)

lemma default_sys_ok:
  "memory_hierarchy_init (- 1) x86_shl_1 0 (0, \<lambda>_. 0) sim_params_init = Inr default_hierarchy"
  "ms_wf 6 default_sys" "length (ms_caches default_sys) = 3" "room stage default_sys = MEM_REQUEST_QUEUE_SIZE"
  "mc_pending (ms_mc default_sys) = []" "mc_served (ms_mc default_sys)"
  "mc_dram (ms_mc default_sys) = dram_create sim_params_init"
  "ca_next_level_cache (ms_caches default_sys ! 0) = None"
  "i < 3 \<Longrightarrow> ca_read_alloc_policy (ms_caches default_sys ! i) = ReadAllocate"
  "i < 3 \<Longrightarrow> ca_write_policy (ms_caches default_sys ! i) = WriteBack"
  "i < 3 \<Longrightarrow> ca_blk (ms_caches default_sys ! i) = replicate (ca_num_sets (ms_caches default_sys ! i))
     (replicate (ca_num_ways (ms_caches default_sys ! i)) zero_blk)"
  "ca_read_latency (ms_caches default_sys ! 2) = 1"
  "mh_p default_hierarchy = sim_params_init" "mh_dcache default_hierarchy = Some 2" "mh_icache default_hierarchy = Some 1"
  "mh_page_walk_cache default_hierarchy = Some 2"
proof -
  have p: "cache_read_allocate_policy sim_params_init = ReadAllocate" "cache_write_policy sim_params_init = WriteBack"
    "l1_data_cache_read_latency sim_params_init = 1"
    by (simp_all add: sim_params_init_def sim_params_set_defaults_def zero_params_def)
  obtain h l2 ic dc where h: "memory_hierarchy_init (- 1) x86_shl_1 0 (0, \<lambda>_. 0) sim_params_init = Inr h"
    "ms_caches (mh_sys h) = [l2, ic, dc]" "mh_icache h = Some 1" "mh_dcache h = Some 2" "mh_page_walk_cache h = Some 2"
    "mh_p h = sim_params_init"
    "ms_wf 6 (mh_sys h)" "mc_pending (ms_mc (mh_sys h)) = []" "mc_served (ms_mc (mh_sys h))"
    "mc_dram (ms_mc (mh_sys h)) = dram_create sim_params_init" "\<forall>stage. room stage (mh_sys h) = MEM_REQUEST_QUEUE_SIZE"
    "ca_next_level_cache l2 = None" "ca_read_latency dc = l1_data_cache_read_latency sim_params_init"
    "list_all (\<lambda>c. ca_read_alloc_policy c = cache_read_allocate_policy sim_params_init
        \<and> ca_write_policy c = cache_write_policy sim_params_init
        \<and> ca_blk c = replicate (ca_num_sets c) (replicate (ca_num_ways c) zero_blk)) [l2, ic, dc]"
    using memory_hierarchy_init_ok [OF default_geom default_ub, of 0 "(0, \<lambda>_. 0)"] by (elim exE conjE)
  have dh: "default_hierarchy = h" using h(1) by (simp add: default_hierarchy_def)
  have i3: "i = 0 \<or> i = 1 \<or> i = 2" if "i < 3" for i :: nat using that by auto
  show "memory_hierarchy_init (- 1) x86_shl_1 0 (0, \<lambda>_. 0) sim_params_init = Inr default_hierarchy"
    "ms_wf 6 default_sys" "length (ms_caches default_sys) = 3" "room stage default_sys = MEM_REQUEST_QUEUE_SIZE"
    "mc_pending (ms_mc default_sys) = []" "mc_served (ms_mc default_sys)"
    "mc_dram (ms_mc default_sys) = dram_create sim_params_init"
    "ca_next_level_cache (ms_caches default_sys ! 0) = None" "ca_read_latency (ms_caches default_sys ! 2) = 1"
    "mh_p default_hierarchy = sim_params_init" "mh_dcache default_hierarchy = Some 2"
    "mh_icache default_hierarchy = Some 1" "mh_page_walk_cache default_hierarchy = Some 2"
    using h p by (simp_all add: dh)
  show "i < 3 \<Longrightarrow> ca_read_alloc_policy (ms_caches default_sys ! i) = ReadAllocate"
    "i < 3 \<Longrightarrow> ca_write_policy (ms_caches default_sys ! i) = WriteBack"
    "i < 3 \<Longrightarrow> ca_blk (ms_caches default_sys ! i) = replicate (ca_num_sets (ms_caches default_sys ! i))
       (replicate (ca_num_ways (ms_caches default_sys ! i)) zero_blk)"
    using h(2,14) p i3 [of i] by (auto simp: dh)
qed

lemma default_line_access:
  assumes "cid < 3" and "stage_ok stage" and "priv < NUM_MAX_PRV_LEVELS" and "inline 6 a n"
  shows "line_access 6 default_sys cid a n stage priv"
  using assms default_sys_ok(2,3) default_sys_ok(4) [of stage] by (simp add: line_access_def MEM_REQUEST_QUEUE_SIZE_def)

lemma access_eff:
  assumes "ms_wf k s" and "cid < length (ms_caches s)" and "stage_ok stage" and "priv < NUM_MAX_PRV_LEVELS"
    and "N = 3 ^ length (ms_caches s) * bursts (2 ^ k - uint (take_bit k a)) n" and "N \<le> room stage s"
  shows "done_ok k stage (Suc cid) N s (cache_read s cid a n stage priv)"
    and "done_ok k stage (Suc cid) N s (cache_write s cid a n stage priv)"
proof -
  obtain d where d: "length (ms_caches s) = Suc d" "cid \<le> d" using assms(2) by (cases "length (ms_caches s)") auto
  have N: "N = 3 * 3 ^ d * bursts (2 ^ k - uint (take_bit k a)) n" using assms(5) d(1) by simp
  note ok = level.access_with_ok [OF d(2) assms(1-4), of a n, folded N, OF assms(6)]
  show "done_ok k stage (Suc cid) N s (cache_read s cid a n stage priv)"
    and "done_ok k stage (Suc cid) N s (cache_write s cid a n stage priv)"
    using ok by (simp_all add: cache_read_unfold [OF d(1)] cache_write_unfold [OF d(1)])
qed

section \<open>Properties\<close>





text \<open>
  (C10) Refinement: with respect to the lines it holds, an access of one line to a cache is an
  access to a set of lines: a hit, or a miss without allocation, leaves the set as it
  is; a miss with allocation adds the line and drops at most one, of the same set. No
  line is ever held twice.
\<close>

theorem cache_refines_line_set:
  assumes "line_access k s cid a n stage priv" and "c = ms_caches s ! cid" and "one_copy c"
  shows "(\<exists>l s'. cache_read s cid a n stage priv = Inr (l, s') \<and> one_copy (ms_caches s' ! cid)
      \<and> spec_access (ca_read_alloc_policy c = ReadAllocate) (lines c) (addr_line c a) (lines (ms_caches s' ! cid)))
    \<and> (\<exists>l s'. cache_write s cid a n stage priv = Inr (l, s') \<and> one_copy (ms_caches s' ! cid)
      \<and> spec_access (ca_write_alloc_policy c = WriteAllocate) (lines c) (addr_line c a) (lines (ms_caches s' ! cid)))"
proof (intro conjI)
  have wf: "cache_wf c" using line_access_wf(1) [OF assms(1) eff_refl] assms(1,2) by (auto simp: line_access_def)
  have st: "addr_set c a < ca_num_sets c" by (rule addr_set_less [OF wf])
  have same: "lines c' = lines c" "one_copy c'" if "same_cfg c c'" "ca_blk c' = ca_blk c" for c'
    using lines_cong [of c' c] same_cfg_fields [OF that(1)] that(2) assms(3) by simp_all
  have new: "spec_access True (lines c) (addr_line c a) (lines c') \<and> one_copy c'"
    if rep: "replaced k c a d s s' c'" "same_cfg c c'" "line_way c a = None" for d s' c'
  proof -
    obtain w where w: "w < ca_num_ways c"
      "ca_blk c' = ca_blk (with_blk c (addr_set c a) w \<lparr>cb_status = Valid, cb_dirty = d, cb_tag = addr_tag c a\<rparr>)"
      using rep(1) by (auto simp: replaced_def)
    show ?thesis
      using lines_cong [OF w(2)] same_cfg_fields [OF rep(2)] rep(3) assms(3) line_way_lines [OF wf, of a]
        lines_fill [OF wf st w(1), of "\<lparr>cb_status = Valid, cb_dirty = d, cb_tag = addr_tag c a\<rparr>"]
      by (simp add: addr_line_def)
  qed
  obtain l s' where r: "cache_read s cid a n stage priv = Inr (l, s')" "eff k stage (Suc cid) (3 ^ length (ms_caches s)) s s'"
    "if line_way c a \<noteq> None then l = ca_read_latency c \<and> ms_mc s' = ms_mc s \<and> ca_blk (ms_caches s' ! cid) = ca_blk c
     else if ca_read_alloc_policy c = ReadAllocate then replaced k c a NonDirty s s' (ms_caches s' ! cid)
     else ca_blk (ms_caches s' ! cid) = ca_blk c"
    using read_effect [OF assms(1,2)] by (elim exE conjE)
  have cfg: "same_cfg c (ms_caches s' ! cid)" using line_access_wf(3) [OF assms(1) r(2)] assms(2) by simp
  show "\<exists>l s'. cache_read s cid a n stage priv = Inr (l, s') \<and> one_copy (ms_caches s' ! cid)
      \<and> spec_access (ca_read_alloc_policy c = ReadAllocate) (lines c) (addr_line c a) (lines (ms_caches s' ! cid))"
    using r(1,3) same [OF cfg] new [OF _ cfg] line_way_lines [OF wf, of a]
    by (cases "line_way c a = None"; cases "ca_read_alloc_policy c = ReadAllocate") (auto simp: spec_access_def)
  obtain l' s'' where w: "cache_write s cid a n stage priv = Inr (l', s'')" "eff k stage (Suc cid) (3 ^ length (ms_caches s)) s s''"
    "case line_way c a of
         Some i \<Rightarrow> ca_blk (ms_caches s'' ! cid) =
           ca_blk (with_blk c (addr_set c a) i ((ca_blk c ! addr_set c a ! i)\<lparr>cb_dirty := Dirty\<rparr>))
       | None \<Rightarrow> if ca_write_alloc_policy c = WriteAllocate then replaced k c a Dirty s s'' (ms_caches s'' ! cid)
           else ca_blk (ms_caches s'' ! cid) = ca_blk c"
    using write_effect [OF assms(1,2)] by (elim exE conjE)
  have cfg': "same_cfg c (ms_caches s'' ! cid)" using line_access_wf(3) [OF assms(1) w(2)] assms(2) by simp
  show "\<exists>l s'. cache_write s cid a n stage priv = Inr (l, s') \<and> one_copy (ms_caches s' ! cid)
      \<and> spec_access (ca_write_alloc_policy c = WriteAllocate) (lines c) (addr_line c a) (lines (ms_caches s' ! cid))"
  proof (cases "line_way c a")
    case None
    then show ?thesis using w(1,3) same [OF cfg'] new [OF _ cfg'] line_way_lines [OF wf, of a]
      by (cases "ca_write_alloc_policy c = WriteAllocate") (auto simp: spec_access_def)
  next
    case (Some i)
    then have "i < ca_num_ways c" using way_of_Some by (auto simp: line_way_def)
    then have "lines (ms_caches s'' ! cid) = lines c" "one_copy (ms_caches s'' ! cid)"
      using lines_dirty [OF wf st, of i Dirty] lines_cong [of "ms_caches s'' ! cid"
          "with_blk c (addr_set c a) i ((ca_blk c ! addr_set c a ! i)\<lparr>cb_dirty := Dirty\<rparr>)"]
        same_cfg_fields [OF cfg'] w(3) Some assms(3) by simp_all
    then show ?thesis using w(1) Some line_way_lines [OF wf, of a] by (auto simp: spec_access_def)
  qed
qed

lemma default_one_copy: "i < 3 \<Longrightarrow> one_copy (ms_caches default_sys ! i) \<and> lines (ms_caches default_sys ! i) = {}"
  using default_sys_ok(11) [of i] by (auto simp: one_copy_def lines_def holds_tag_def)

theorem cache_refines_line_set_witness:
  "(\<exists>l s'. cache_read default_sys 2 2147483648 8 MEMORY 0 = Inr (l, s') \<and> one_copy (ms_caches s' ! 2))
   \<and> (\<exists>l s'. cache_write default_sys 2 2147483648 8 MEMORY 0 = Inr (l, s') \<and> one_copy (ms_caches s' ! 2))"
proof -
  have i: "inline 6 2147483648 8" by (simp add: inline_def take_bit_eq_mod)
  show ?thesis
    using cache_refines_line_set [OF default_line_access [of 2 MEMORY 0, OF _ _ _ i] refl] default_one_copy [of 2]
    by (auto simp: stage_ok_def)
qed


definition dirty_sys :: MemSys where
  "dirty_sys = upd_cache default_sys 0 (with_blk (ms_caches default_sys ! 0) 0 0 \<lparr>cb_status = Valid, cb_dirty = Dirty, cb_tag = 33554432\<rparr>)"


lemma cold_lookup: "st < ca_num_sets c \<Longrightarrow> lines c = {} \<Longrightarrow> way_of c st t = None"
  by (auto simp: way_of_None lines_def)

lemma cold_loop:
  assumes "stage_ok stage" and "priv < NUM_MAX_PRV_LEVELS" and "sb < 2 ^ k"
    and "ms_wf k s" and "cid < length (ms_caches s)" and "st < ca_num_sets (ms_caches s ! cid)"
    and "uint (take_bit k a) \<le> sb" and "bursts (2 ^ k - sb) n \<le> room stage s"
    and "ca_read_alloc_policy (ms_caches s ! cid) = ReadNoAllocate"
    and "ca_next_level_cache (ms_caches s ! cid) = None" and "lines (ms_caches s ! cid) = {}"
  shows "\<exists>l' s'. cache_read_loop rd wr cid sb stage priv s st tag a n miss l = Inr (l', s')
    \<and> length (mc_pending (ms_mc s')) = length (mc_pending (ms_mc s)) + bursts (2 ^ k - sb) n"
  using assms(4-)
proof (induction "bursts (2 ^ k - sb) n" arbitrary: s st tag a n miss l)
  case 0
  then have "n \<le> 0" using bursts_Suc [of n "2 ^ k - sb"] assms(3) by (cases "0 < n") auto
  then show ?case using 0 by (simp add: cache_read_loop.simps [of rd wr cid sb stage priv s st tag a n])
next
  case (Suc j)
  let ?c = "ms_caches s ! cid" and ?av = "2 ^ k - sb"
  have n: "0 < n" using Suc.hyps(2) bursts_0 [of n ?av] assms(3) by (cases "0 < n") auto
  have j: "j = bursts ?av (n - ?av)" using Suc.hyps(2) bursts_Suc [OF n, of ?av] assms(3) by simp
  have c: "cache_wf ?c" "ca_word_bits ?c = k" "line_bytes ?c = 2 ^ k" using ms_wf_cache [OF Suc.prems(1,2)] by auto
  obtain st' t' where up: "update_tag_address ?c st tag = Inr (st', t', push_bit k t')" "st' < ca_num_sets ?c"
    using update_tag_ok [OF c(1) Suc.prems(3), of tag] c(2) by auto
  obtain s0 vs where s0: "(if miss then Inr s
      else stats_update (\<lambda>v. v\<lparr>read_miss_cnt := read_miss_cnt v + 1\<rparr>) s cid priv) = Inr s0"
    "eff k stage (Suc cid) 0 s s0" "ms_caches s0 ! cid = ?c\<lparr>ca_stats := vs\<rparr>" "ms_mc s0 = ms_mc s"
    using miss_count_ok [OF Suc.prems(1,2) assms(2)] by blast
  define n' where "n' = (if sb + n \<le> 2 ^ k then n else ?av)"
  have inl: "inline k a n'" using n assms(3) Suc.prems(4) by (auto simp: inline_def n'_def)
  have r0: "1 \<le> room stage s0" using eff_room [OF s0(2)] Suc.prems(5) unfolding Suc.hyps(2) [symmetric] by simp
  have len0: "cid < length (ms_caches s0)" using eff_length [OF s0(2)] Suc.prems(2) by simp
  obtain s1 e where s1: "mem_request s0 a n' MEM_ACCESS_READ stage = Inr (0, s1)" "eff k stage 0 1 s0 s1"
    "ms_caches s1 = ms_caches s0" "mc_pending (ms_mc s1) = mc_pending (ms_mc s0) @ [e]"
    using mem_request_ok [OF eff_wf [OF s0(2)] assms(1) _ inl r0, of MEM_ACCESS_READ] by auto
  have al: "pfn_read_alloc_handler rd wr s0 cid a n' st stage priv = Inr (0, s1)"
    using s1(1) s0(3) len0 Suc.prems(6,7)
    by (simp add: pfn_read_alloc_handler_def read_no_allocate_handler_def read_data_internal_def)
  note look = cache_lookup_eq [OF Suc.prems(1,2) refl Suc.prems(3)] cold_lookup [OF Suc.prems(3,8)]
  note unf = cache_read_loop.simps [of rd wr cid sb stage priv s st tag a n]
  show ?case
  proof (cases "sb + n \<le> 2 ^ k")
    case True
    then have "bursts ?av n = 1" using bursts_one [of n ?av] n by simp
    then show ?thesis using unf True n Suc.prems(2) look s0(1,4) al s1(4) c(3) by (simp add: Let_def n'_def)
  next
    case False
    have "bursts ?av (n - ?av) \<le> room stage s1"
      using eff_room [OF s1(2)] eff_room [OF s0(2)] Suc.prems(5) unfolding Suc.hyps(2) [symmetric] j [symmetric] by simp
    moreover have "uint (take_bit k (push_bit k t')) \<le> sb"
      using order_trans [OF uint_ge_0 Suc.prems(4)] by (simp add: take_bit_push_bit)
    moreover have "lines (ms_caches s1 ! cid) = {}" using lines_cong(1) [of "ms_caches s1 ! cid" ?c] s0(3) s1(3) Suc.prems(8) by simp
    ultimately have "\<exists>l' s'. cache_read_loop rd wr cid sb stage priv s1 st' t' (push_bit k t') (n - ?av) True l = Inr (l', s')
        \<and> length (mc_pending (ms_mc s')) = length (mc_pending (ms_mc s1)) + bursts ?av (n - ?av)"
      using Suc.hyps(1) [OF j eff_wf [OF s1(2)], of st' "push_bit k t'" t' True l] s0(3) s1(3) len0 up(2) Suc.prems(6,7)
      by simp
    then show ?thesis
      using unf False n Suc.prems(2) look s0(1,4) al s1(4) c(3) up(1) j Suc.hyps(2) assms(3)
      by (auto simp: Let_def n'_def)
  qed
qed


text \<open>A last-level cache of two sets of one way with 64-byte lines, and a queue of 16 requests.\<close>

definition small_cache :: Cache where
  "small_cache = \<lparr>ca_level = 2, ca_type = SharedCache, ca_num_ways = 1, ca_num_blks = 2, ca_num_sets = 2,
     ca_tag_bits = 58, ca_set_bits = 1, ca_word_bits = 6, ca_size = 0, ca_max_words_per_blk = 8,
     ca_max_tag_val = 67108864, ca_tag_bits_mask = push_bit 6 (- 1), ca_read_latency = 1, ca_write_latency = 1,
     ca_write_policy = WriteBack, ca_read_alloc_policy = ReadNoAllocate, ca_write_alloc_policy = WriteNoAllocate,
     ca_blk = [[zero_blk], [zero_blk]], ca_next_level_cache = None,
     ca_stats = replicate NUM_MAX_PRV_LEVELS zero_stats_cnt, ca_evict_policy = evict_policy_create 2 1 EVICT_POLICY_RANDOM\<rparr>"

definition small_sys :: MemSys where
  "small_sys = \<lparr>ms_caches = [small_cache], ms_mc = \<lparr>mc_dram_model_type = 0, mc_burst_length = 64,
     mc_queues = \<lparr>mq_frontend = zero_stage_queue 16, mq_backend = zero_stage_queue 16, mq_aim = zero_stage_queue 16\<rparr>,
     mc_cq = \<lparr>front = -1, rear = -1, max_size = 16\<rparr>, mc_reqs = replicate 16 zero_entry,
     mc_page_walk_delay = 0, mc_dram = dram_create sim_params_init\<rparr>, ms_rand = (0, \<lambda>_. 0)\<rparr>"

lemma small_sys_ok: "ms_wf 6 small_sys" "lines small_cache = {}" "mc_pending (ms_mc small_sys) = []"
  "stage_ok stage \<Longrightarrow> room stage small_sys = 16"
proof -
  show p: "mc_pending (ms_mc small_sys) = []"
    by (simp add: small_sys_def mc_pending_def ring.contents_def cq_slots_def)
  have "mc_inv (ms_mc small_sys)"
    using zero_stage_queue_inv [of 16]
    by (simp add: small_sys_def mc_inv_def qs_inv_def cq_ok_def cq_inv_def dram_create_def dram_reset_def)
  moreover have "cache_wf small_cache"
    using ep_inv_create [of 1 EVICT_POLICY_RANDOM 2]
    by (simp add: cache_wf_def small_cache_def line_bytes_def) (simp add: evict_policy_create_def)
  ultimately show "ms_wf 6 small_sys" by (simp add: ms_wf_def small_sys_def small_cache_def)
  show "lines small_cache = {}" by (auto simp: lines_def holds_tag_def small_cache_def dest!: less_2_cases)
  show "stage_ok stage \<Longrightarrow> room stage small_sys = 16"
    using p by (auto simp: room_def small_sys_def stage_ok_def stage_room_def stage_queue_def zero_stage_queue_def)
qed


text \<open>
  (C38) Error: nothing makes the number of sets a power of two, while the set of an
  address is cut out of it as a bit field. A cache whose number of sets is not a power
  of two is read and written outside its array of sets at some address; validation
  accepts such sizes.
\<close>

theorem cache_set_out_of_bounds:
  assumes "cid < length (ms_caches s)" and "c = ms_caches s ! cid" and "length (ca_blk c) = ca_num_sets c"
    and "ca_set_bits c = GET_NUM_BITS (ca_num_sets c)" and "0 < ca_num_sets c" and "\<not> is_pow2 (ca_num_sets c)"
    and "ca_word_bits c + ca_set_bits c \<le> 64"
  shows "\<exists>a. cache_read s cid a n stage priv = Inl Out_of_bounds \<and> cache_write s cid a n stage priv = Inl Out_of_bounds"
proof -
  let ?n = "ca_num_sets c" and ?k = "ca_word_bits c" and ?b = "ca_set_bits c"
  let ?a = "push_bit ?k (of_nat ?n) :: target_ulong"
  have lt: "?n < 2 ^ ?b"
    using le_two_power_ceillog2 [of ?n] assms(4,6) by (auto simp: is_pow2_def GET_NUM_BITS_def le_less)
  then have "?n * 2 ^ ?k < 2 ^ (?b + ?k)" by (simp add: power_add)
  also have "\<dots> \<le> 2 ^ 64" using assms(7) by (intro power_increasing) auto
  finally have sm: "?n * 2 ^ ?k < 2 ^ 64" .
  have "unat (of_nat (?n * 2 ^ ?k) :: target_ulong) = ?n * 2 ^ ?k"
    using sm unfolding unat_of_nat by simp
  then have "unat ?a = ?n * 2 ^ ?k" by (simp add: push_bit_eq_mult)
  then have "unat (drop_bit ?k ?a) = ?n" by (simp only: unat_drop_bit_eq) (simp add: drop_bit_eq_div)
  then have "addr_set c ?a = ?n"
    using unat_GET_INDEX [of "drop_bit ?k ?a" ?b] lt by (simp add: addr_set_def GET_INDEX_def)
  then have "aget (ca_blk c) (addr_set c ?a) = Inl Out_of_bounds" using assms(3) by (simp add: aget_def)
  moreover obtain d where "length (ms_caches s) = Suc d" using assms(1) by (cases "length (ms_caches s)") auto
  ultimately show ?thesis using assms(1,2)
    by (intro exI [of _ ?a]) (simp add: cache_read_unfold cache_write_unfold cache_read_with_def cache_write_with_def)
qed

theorem cache_set_out_of_bounds_witness:
  "\<exists>c a. sim_params_validate (sim_params_init\<lparr>l1_data_cache_size := 3, l1_data_cache_ways := 1\<rparr>) =
       Inr (sim_params_init\<lparr>l1_data_cache_size := 3, l1_data_cache_ways := 1, sim_trace_file := ''./sim.trace''\<rparr>)
     \<and> init_dcache (- 1) x86_shl_1 (sim_params_init\<lparr>l1_data_cache_size := 3, l1_data_cache_ways := 1\<rparr>) 8 None = Inr c
     \<and> cache_read (small_sys\<lparr>ms_caches := [c]\<rparr>) 0 a 8 MEMORY 3 = Inl Out_of_bounds"
proof -
  let ?p = "sim_params_init\<lparr>l1_data_cache_size := 3, l1_data_cache_ways := 1\<rparr>"
  have v: "sim_params_validate ?p = Inr (?p\<lparr>sim_trace_file := ''./sim.trace''\<rparr>)" by (simp add: param_defs)
  have g: "GET_NUM_BITS 64 = 6" "GET_NUM_BITS 48 = 6"
    using GET_NUM_BITS_power [of 6] ceillog2_eqI [of 48 6] by (simp_all add: GET_NUM_BITS_def)
  obtain c where c: "init_dcache (- 1) x86_shl_1 ?p 8 None = Inr c" "length (ca_blk c) = 48" "ca_num_sets c = 48"
    "ca_set_bits c = 6" "ca_word_bits c = 6"
    by (rule that [OF _ _ _ _ _, of "projr (init_dcache (- 1) x86_shl_1 ?p 8 None)"])
      (simp_all add: init_dcache_def cache_init_def get_num_cache_blks_def sim_params_init_def sim_params_set_defaults_def
        zero_params_def g sdiv_nonneg Let_def del: replicate_numeral_rec)
  have "\<not> is_pow2 48" by (simp add: is_pow2_def g)
  then show ?thesis
    using cache_set_out_of_bounds [of 0 "small_sys\<lparr>ms_caches := [c]\<rparr>" c 8 MEMORY 3] c v g by auto
qed

section \<open>Accesses of the pipeline\<close>

lemma access_completes:
  assumes "done_ok k stage b N s r" and "ms_wf k s" and "mc_pending (ms_mc s) = []" and "mc_served (ms_mc s)"
    and "lat_ok K (mc_dram (ms_mc s)) x"
  shows "\<exists>l s1 m2 c m3 x3. r = Inr (l, s1) \<and> 0 \<le> l \<and> ms_wf k s1
    \<and> mem_controller_cache_lookup_complete_signal (ms_mc s1)
        (stage_queue (mc_queues (ms_mc s1)) MEM_ACCESS_READ stage) = Inr m2
    \<and> c \<le> N * (nat K + 6) \<and> mc_run c m2 x = Inr (m3, x3) \<and> mc_pending m3 = []
    \<and> sq_cur_size (mq_frontend (mc_queues m3)) = 0 \<and> sq_cur_size (mq_backend (mc_queues m3)) = 0"
proof -
  obtain l s1 where r: "r = Inr (l, s1)" "0 \<le> l" "eff k stage b N s s1" using assms(1) by (auto simp: done_ok_def)
  have inv: "mc_inv (ms_mc s)" "mc_inv (ms_mc s1)" using assms(2) eff_wf [OF r(3)] by (auto simp: ms_wf_def)
  have idle: "\<not> dr_active (mc_dram (ms_mc s))" using inv(1) assms(3) pending_ne [OF inv(1)] by (auto simp: mc_inv_def)
  have m1: "mc_served (ms_mc s1)" "covered stage (ms_mc s1)" "mc_dram (ms_mc s1) = mc_dram (ms_mc s)"
    "length (mc_pending (ms_mc s1)) \<le> N"
    using r(3) assms(3,4) by (auto simp: eff_def covered_def)
  let ?q = "stage_queue (mc_queues (ms_mc s1)) MEM_ACCESS_READ stage"
  have q: "sq_inv ?q" using inv(2) by (auto simp: stage_queue_def mc_inv_def qs_inv_def)
  obtain m2 c m3 x3 where m: "mem_controller_cache_lookup_complete_signal (ms_mc s1) ?q = Inr m2"
    "c \<le> length (mc_pending (ms_mc s1)) * (nat K + 6)" "mc_run c m2 x = Inr (m3, x3)" "mc_pending m3 = []"
    "sq_cur_size (mq_frontend (mc_queues m3)) = 0" "sq_cur_size (mq_backend (mc_queues m3)) = 0"
    using requests_complete [OF inv(2) m1(1) _ _ q, of K x] m1(2,3) idle assms(5) unfolding covered_def by auto
  have "c \<le> N * (nat K + 6)" using m(2) mult_le_mono1 [OF m1(4), of "nat K + 6"] by linarith
  then show ?thesis using r eff_wf [OF r(3)] m by blast
qed

text \<open>
  (C4) Liveness: with caches enabled and an idle memory controller, a data read or write, an
  instruction fetch and a page table access of any number of bytes return, and once the
  lookup is signalled the memory requests they caused, if any, are all served within
  \<open>K + 6\<close> cycles each (\<open>K\<close> bounding the latency): no stage waits forever on a cache miss.
\<close>

theorem hierarchy_access_completes:
  assumes "ms_wf k (mh_sys h)" and "mc_pending (ms_mc (mh_sys h)) = []" and "mc_served (ms_mc (mh_sys h))"
    and "enable_l1_caches (mh_p h) \<noteq> 0" and "mh_dcache h = Some dc" and "mh_icache h = Some ic"
    and "mh_page_walk_cache h = Some dc" and "dc < length (ms_caches (mh_sys h))" and "ic < length (ms_caches (mh_sys h))"
    and "priv < NUM_MAX_PRV_LEVELS" and "stage = MEMORY \<and> op \<in> {data_read_delay, data_write_delay, pte_read_delay, pte_write_delay}
      \<or> stage = FETCH \<and> op \<in> {insn_read_delay, pte_read_delay, pte_write_delay}"
    and "N = 3 ^ length (ms_caches (mh_sys h)) * bursts (2 ^ k - uint (take_bit k a)) n" and "N \<le> room stage (mh_sys h)"
    and "lat_ok K (mc_dram (ms_mc (mh_sys h))) x"
  shows "\<exists>l h1 m2 c m3 x3. op h a n stage priv = Inr (l, h1) \<and> 0 \<le> l \<and> ms_wf k (mh_sys h1)
    \<and> mem_controller_cache_lookup_complete_signal (ms_mc (mh_sys h1))
        (stage_queue (mc_queues (ms_mc (mh_sys h1))) MEM_ACCESS_READ stage) = Inr m2
    \<and> c \<le> N * (nat K + 6) \<and> mc_run c m2 x = Inr (m3, x3) \<and> mc_pending m3 = []
    \<and> sq_cur_size (mq_frontend (mc_queues m3)) = 0 \<and> sq_cur_size (mq_backend (mc_queues m3)) = 0"
proof -
  have so: "stage_ok stage" using assms(11) by (auto simp: stage_ok_def)
  obtain cid f where f: "op h a n stage priv = on_sys h (f (mh_sys h) cid a n stage priv)" "cid < length (ms_caches (mh_sys h))"
    "f = cache_read \<or> f = cache_write"
    using assms(4-9,11) by (auto simp: data_read_delay_def data_write_delay_def pte_read_delay_def pte_write_delay_def
        insn_read_delay_def mem_hierarchy_icache_read_def mem_hierarchy_dcache_read_def mem_hierarchy_dcache_write_def
        mem_hierarchy_pte_read_cache_def mem_hierarchy_pte_write_cache_def)
  have "done_ok k stage (Suc cid) N (mh_sys h) (f (mh_sys h) cid a n stage priv)"
    using access_eff [OF assms(1) f(2) so assms(10,12,13)] f(3) by auto
  from access_completes [OF this assms(1-3,14)] show ?thesis
    unfolding f(1) on_sys_def by (elim exE conjE) (auto simp: fun_upd_def)
qed

theorem hierarchy_access_completes_witness:
  "\<exists>l h1 m2 c m3 x3. data_read_delay default_hierarchy 2147483648 8 MEMORY 3 = Inr (l, h1)
    \<and> mem_controller_cache_lookup_complete_signal (ms_mc (mh_sys h1)) (mq_backend (mc_queues (ms_mc (mh_sys h1)))) = Inr m2
    \<and> c \<le> 1404 \<and> mc_run c m2 (0, \<lambda>_. 1) = Inr (m3, x3) \<and> mc_pending m3 = []
    \<and> sq_cur_size (mq_backend (mc_queues m3)) = 0"
proof -
  have b: "27 = 3 ^ length (ms_caches default_sys) * bursts (2 ^ 6 - uint (take_bit 6 (2147483648 :: target_ulong))) 8"
    by (simp add: default_sys_ok(3) bursts_def take_bit_eq_mod)
  have l1: "enable_l1_caches (mh_p default_hierarchy) \<noteq> 0" unfolding default_sys_ok(13) by (simp add: param_defs)
  have r: "27 \<le> room MEMORY default_sys" by (simp add: default_sys_ok(4) MEM_REQUEST_QUEUE_SIZE_def)
  have lat: "lat_ok 46 (mc_dram (ms_mc default_sys)) (0, \<lambda>_. 1)"
    by (simp add: default_sys_ok(7) lat_ok_def dram_create_def dram_reset_def param_defs)
  have sq: "stage_queue qs MEM_ACCESS_READ MEMORY = mq_backend qs" for qs by (simp add: stage_queue_def)
  have K: "27 * (nat 46 + 6) = (1404 :: nat)" by simp
  have ids: "1 < length (ms_caches default_sys)" "2 < length (ms_caches default_sys)" unfolding default_sys_ok(3) by simp_all
  show ?thesis
    using hierarchy_access_completes [OF default_sys_ok(2,5,6) l1 default_sys_ok(14,15,16) _ _ _ _ b r lat,
        of 3 data_read_delay, unfolded K sq] ids by (simp only: sq) (simp, blast)
qed

end
