(* ===== verification/Decoder.thy ===== *)
theory Decoder
  imports Riscv_Instruction
begin

text \<open>
  The instruction decoder, \<^verbatim>\<open>decoder/riscv_isa_decoder.c\<close> with the floating-point cases of
  \<^verbatim>\<open>decoder/fp_decode_template.h\<close>, for the 64-bit build (\<^verbatim>\<open>RV64\<close>, \<^verbatim>\<open>SIM_FLEN\<close> 64). An \<^verbatim>\<open>int32_t\<close>
  is a 32-bit word; \<^verbatim>\<open>>>\<close> on it is \<open>signed_drop_bit\<close> and \<^verbatim>\<open><<\<close> keeps the low 32 bits, as the
  compilers of the build do. Building the printed form of the instruction is left out.
\<close>

section \<open>Opcodes\<close>

abbreviation (input) C_QUADRANT0 :: u32 where "C_QUADRANT0 \<equiv> 0"
abbreviation (input) C_QUADRANT1 :: u32 where "C_QUADRANT1 \<equiv> 1"
abbreviation (input) C_QUADRANT2 :: u32 where "C_QUADRANT2 \<equiv> 2"
abbreviation (input) OP_IMM_MASK :: u32 where "OP_IMM_MASK \<equiv> 0x13"
abbreviation (input) OP_IMM_32_MASK :: u32 where "OP_IMM_32_MASK \<equiv> 0x1b"
abbreviation (input) OP_MASK :: u32 where "OP_MASK \<equiv> 0x33"
abbreviation (input) OP_MASK_32 :: u32 where "OP_MASK_32 \<equiv> 0x3b"
abbreviation (input) LUI_MASK :: u32 where "LUI_MASK \<equiv> 0x37"
abbreviation (input) AUIPC_MASK :: u32 where "AUIPC_MASK \<equiv> 0x17"
abbreviation (input) JAL_MASK :: u32 where "JAL_MASK \<equiv> 0x6f"
abbreviation (input) JALR_MASK :: u32 where "JALR_MASK \<equiv> 0x67"
abbreviation (input) BRANCH_MASK :: u32 where "BRANCH_MASK \<equiv> 0x63"
abbreviation (input) LOAD_MASK :: u32 where "LOAD_MASK \<equiv> 0x3"
abbreviation (input) STORE_MASK :: u32 where "STORE_MASK \<equiv> 0x23"
abbreviation (input) FENCE_MASK :: u32 where "FENCE_MASK \<equiv> 0xf"
abbreviation (input) CSR_MASK :: u32 where "CSR_MASK \<equiv> 0x73"
abbreviation (input) ATOMIC_MASK :: u32 where "ATOMIC_MASK \<equiv> 0x2f"
abbreviation (input) AIM_CUSTOM_1_MASK :: u32 where "AIM_CUSTOM_1_MASK \<equiv> 0x2b"
abbreviation (input) FLOAD_MASK :: u32 where "FLOAD_MASK \<equiv> 0x07"
abbreviation (input) FSTORE_MASK :: u32 where "FSTORE_MASK \<equiv> 0x27"
abbreviation (input) FMADD_MASK :: u32 where "FMADD_MASK \<equiv> 0x43"
abbreviation (input) FMSUB_MASK :: u32 where "FMSUB_MASK \<equiv> 0x47"
abbreviation (input) FNMSUB_MASK :: u32 where "FNMSUB_MASK \<equiv> 0x4b"
abbreviation (input) FNMADD_MASK :: u32 where "FNMADD_MASK \<equiv> 0x4f"
abbreviation (input) F_ARITHMETIC_MASK :: u32 where "F_ARITHMETIC_MASK \<equiv> 0x53"
abbreviation (input) BIT_SIZE :: u32 where "BIT_SIZE \<equiv> 64"

section \<open>Fields\<close>

definition sextc :: "u32 \<Rightarrow> nat \<Rightarrow> u32" where
  "sextc val n = signed_drop_bit (32 - n) (push_bit (32 - n) val)"

definition cget_field1 :: "u32 \<Rightarrow> nat \<Rightarrow> nat \<Rightarrow> nat \<Rightarrow> sim_error + u32" where
  "cget_field1 val src_pos dst_pos dst_pos_max =
    (if dst_pos \<le> dst_pos_max
     then let m = push_bit dst_pos (push_bit (dst_pos_max - dst_pos + 1) 1 - 1) in
       Inr (if src_pos \<le> dst_pos then push_bit (dst_pos - src_pos) val AND m
            else drop_bit (src_pos - dst_pos) val AND m)
     else Inl Assert_failed)"

text \<open>A union \<^verbatim>\<open>cget_field1(..) | cget_field1(..) | ..\<close> of fields of one instruction.\<close>

primrec cget_fields :: "u32 \<Rightarrow> (nat \<times> nat \<times> nat) list \<Rightarrow> sim_error + u32" where
  "cget_fields insn [] = Inr 0"
| "cget_fields insn (f # fs) = (case f of (src, dst, dst_max) \<Rightarrow>
     bindR (cget_field1 insn src dst dst_max) (\<lambda>x. bindR (cget_fields insn fs) (\<lambda>y. Inr (x OR y))))"

text \<open>The label \<^verbatim>\<open>illegal_insn\<close> (\<^verbatim>\<open>exception\<close> in \<^verbatim>\<open>decode_riscv_binary\<close>).\<close>

definition illegal_insn :: "RVInstruction \<Rightarrow> RVInstruction" where
  "illegal_insn ins = ins\<lparr>i_exception := True, i_exception_cause := SIM_ILLEGAL_OPCODE_EXCEPTION\<rparr>"

section \<open>Compressed instructions\<close>

definition q0_load :: "int \<Rightarrow> RVInstruction \<Rightarrow> RVInstruction" where
  "q0_load n ins = ins\<lparr>i_is_load := True, i_has_dest := True, i_has_src1 := True, i_bytes_to_rw := n,
     i_type := INS_TYPE_LOAD\<rparr>"

definition q0_fp_load :: "RVInstruction \<Rightarrow> RVInstruction" where
  "q0_fp_load ins = ins\<lparr>i_is_load := True, i_has_fp_dest := True, i_has_src1 := True, i_bytes_to_rw := 8,
     i_f64_mask := True, i_set_fs := True, i_type := INS_TYPE_FP_LOAD\<rparr>"

definition q0_store :: "int \<Rightarrow> RVInstruction \<Rightarrow> RVInstruction" where
  "q0_store n ins = ins\<lparr>i_is_store := True, i_has_src1 := True, i_has_src2 := True, i_bytes_to_rw := n,
     i_type := INS_TYPE_STORE\<rparr>"

definition q0_fp_store :: "RVInstruction \<Rightarrow> RVInstruction" where
  "q0_fp_store ins = ins\<lparr>i_is_store := True, i_has_src1 := True, i_has_fp_src2 := True, i_bytes_to_rw := 8,
     i_type := INS_TYPE_FP_STORE\<rparr>"

definition q0_end :: "u32 \<Rightarrow> u32 \<Rightarrow> u32 \<Rightarrow> RVInstruction \<Rightarrow> u32 \<Rightarrow> sim_error + RVInstruction" where
  "q0_end funct3 rd rs1 ins imm = Inr (ins\<lparr>i_rd := rd, i_rs1 := rs1, i_rs2 := rd, i_funct3 := funct3,
     i_imm := imm, i_quad := C_QUADRANT0\<rparr>)"

definition decode_compressed_q0 :: "RVInstruction \<Rightarrow> sim_error + RVInstruction" where
  "decode_compressed_q0 ins =
    (let insn = i_binary ins; funct3 = drop_bit 13 insn AND 7; rd = (drop_bit 2 insn AND 7) OR 8;
         rs1 = (drop_bit 7 insn AND 7) OR 8;
         w = [(10, 3, 5), (6, 2, 2), (5, 6, 6)]; d = [(10, 3, 5), (5, 6, 7)] in
     if funct3 = 0 then let ins = ins\<lparr>i_has_dest := True, i_has_src1 := True\<rparr> in
       bindR (cget_fields insn [(11, 4, 5), (7, 6, 9), (6, 2, 2), (5, 3, 3)]) (\<lambda>imm.
         if imm = 0 then Inr (illegal_insn ins) else q0_end funct3 rd 2 ins imm)
     else if funct3 = 1 then
       if i_current_fs ins = 0 then Inr (illegal_insn ins)
       else bindR (cget_fields insn d) (q0_end funct3 rd rs1 (q0_fp_load ins))
     else if funct3 = 2 then bindR (cget_fields insn w) (q0_end funct3 rd rs1 (q0_load 4 ins))
     else if funct3 = 3 then bindR (cget_fields insn d) (q0_end funct3 rd rs1 (q0_load 8 ins))
     else if funct3 = 5 then bindR (cget_fields insn d) (q0_end funct3 rd rs1 (q0_fp_store ins))
     else if funct3 = 6 then bindR (cget_fields insn w) (q0_end funct3 rd rs1 (q0_store 4 ins))
     else if funct3 = 7 then bindR (cget_fields insn d) (q0_end funct3 rd rs1 (q0_store 8 ins))
     else Inr (illegal_insn ins))"

definition q1_end :: "u32 \<Rightarrow> u32 \<Rightarrow> u32 \<Rightarrow> u32 \<Rightarrow> u32 \<Rightarrow> u32 \<Rightarrow> RVInstruction \<Rightarrow> u32
    \<Rightarrow> sim_error + RVInstruction" where
  "q1_end funct3 funct4 funct5 rd rs1 rs2 ins imm = Inr (ins\<lparr>i_rd := rd, i_rs1 := rs1, i_rs2 := rs2,
     i_imm := imm, i_quad := C_QUADRANT1, i_funct3 := funct3, i_funct4 := funct4, i_funct5 := funct5\<rparr>)"

definition q1_branch :: "RVInstruction \<Rightarrow> RVInstruction" where
  "q1_branch ins = ins\<lparr>i_is_branch := True, i_branch_type := BRANCH_COND, i_type := INS_TYPE_COND_BRANCH,
     i_has_src1 := True\<rparr>"

definition decode_q1_arith :: "RVInstruction \<Rightarrow> sim_error + RVInstruction" where
  "decode_q1_arith ins0 =
    (let insn = i_binary ins0; ins = ins0\<lparr>i_has_dest := True, i_has_src1 := True\<rparr>;
         funct4 = drop_bit 10 insn AND 3; rd = (drop_bit 7 insn AND 7) OR 8; i6 = [(12, 5, 5), (2, 0, 4)] in
     if funct4 = 0 \<or> funct4 = 1 then bindR (cget_fields insn i6) (q1_end 4 funct4 0 rd rd 0 ins)
     else if funct4 = 2 then bindR (cget_fields insn i6) (\<lambda>imm. q1_end 4 funct4 0 rd rd 0 ins (sextc imm 6))
     else let rs2 = (drop_bit 2 insn AND 7) OR 8; ins = ins\<lparr>i_has_src2 := True\<rparr>;
              funct5 = (drop_bit 5 insn AND 3) OR (drop_bit (12 - 2) insn AND 4) in
       if funct5 \<in> {0, 1, 2, 3, 4, 5} then q1_end 4 funct4 funct5 rd rd rs2 ins 0
       else Inr (illegal_insn ins))"

definition decode_compressed_q1 :: "RVInstruction \<Rightarrow> sim_error + RVInstruction" where
  "decode_compressed_q1 ins =
    (let insn = i_binary ins; funct3 = drop_bit 13 insn AND 7; rd = drop_bit 7 insn AND 0x1f;
         rs1' = (drop_bit 7 insn AND 7) OR 8; i6 = [(12, 5, 5), (2, 0, 4)];
         b = [(12, 8, 8), (10, 3, 4), (5, 6, 7), (3, 1, 2), (2, 5, 5)] in
     if funct3 = 0 \<or> funct3 = 1 then bindR (cget_fields insn i6) (\<lambda>imm.
       q1_end funct3 0 0 rd rd 0 (ins\<lparr>i_has_dest := True, i_has_src1 := True\<rparr>) (sextc imm 6))
     else if funct3 = 2 then bindR (cget_fields insn i6) (\<lambda>imm.
       q1_end funct3 0 0 rd rd 0 (ins\<lparr>i_has_dest := True\<rparr>) (sextc imm 6))
     else if funct3 = 3 then
       if rd = 2 then let ins = ins\<lparr>i_has_dest := True, i_has_src1 := True\<rparr> in
         bindR (cget_fields insn [(12, 9, 9), (6, 4, 4), (5, 6, 6), (3, 7, 8), (2, 5, 5)]) (\<lambda>imm.
           if sextc imm 10 = 0 then Inr (illegal_insn ins) else q1_end funct3 0 0 2 2 0 ins (sextc imm 10))
       else if rd \<noteq> 0 then bindR (cget_fields insn [(12, 17, 17), (2, 12, 16)]) (\<lambda>imm.
         q1_end funct3 0 0 rd rd 0 (ins\<lparr>i_has_dest := True\<rparr>) (sextc imm 18))
       else q1_end funct3 0 0 rd rd 0 ins 0
     else if funct3 = 4 then decode_q1_arith ins
     else if funct3 = 5 then bindR (cget_fields insn [(12, 11, 11), (11, 4, 4), (9, 8, 9), (8, 10, 10),
         (7, 6, 6), (6, 7, 7), (3, 1, 3), (2, 5, 5)]) (\<lambda>imm.
       q1_end funct3 0 0 rd rd 0 (ins\<lparr>i_is_branch := True, i_branch_type := BRANCH_UNCOND,
         i_type := INS_TYPE_JAL\<rparr>) (sextc imm 12))
     else if funct3 = 6 \<or> funct3 = 7 then bindR (cget_fields insn b) (\<lambda>imm.
       q1_end funct3 0 0 rd rs1' 0 (q1_branch ins) (sextc imm 9))
     else Inr (illegal_insn ins))"

definition q2_end :: "u32 \<Rightarrow> u32 \<Rightarrow> u32 \<Rightarrow> u32 \<Rightarrow> RVInstruction \<Rightarrow> u32 \<Rightarrow> sim_error + RVInstruction" where
  "q2_end funct3 rd rs1 rs2 ins imm = Inr (ins\<lparr>i_rd := rd, i_rs1 := rs1, i_rs2 := rs2, i_imm := imm,
     i_quad := C_QUADRANT2, i_funct3 := funct3\<rparr>)"

definition decode_q2_jump :: "RVInstruction \<Rightarrow> sim_error + RVInstruction" where
  "decode_q2_jump ins =
    (let insn = i_binary ins; rd = drop_bit 7 insn AND 0x1f; rs2 = drop_bit 2 insn AND 0x1f in
     if drop_bit 12 insn AND 1 = 0 then
       if rs2 = 0 then
         let ins = ins\<lparr>i_is_branch := True, i_branch_type := BRANCH_UNCOND, i_type := INS_TYPE_JALR,
               i_has_src1 := True\<rparr> in
         if rd = 0 then Inr (illegal_insn ins)
         else q2_end 4 rd rd rs2 (if rd = 1 then ins\<lparr>i_is_func_ret := True\<rparr> else ins) 0
       else q2_end 4 rd rd rs2 (ins\<lparr>i_has_dest := True, i_has_src2 := True\<rparr>) 0
     else if rs2 = 0 then
       if rd = 0 then q2_end 4 rd rd rs2 (ins\<lparr>i_exception := True,
         i_exception_cause := SIM_COMPLEX_OPCODE_EXCEPTION, i_type := INS_TYPE_SYSTEM\<rparr>) 0
       else q2_end 4 1 rd rs2 (ins\<lparr>i_is_branch := True, i_branch_type := BRANCH_UNCOND,
         i_type := INS_TYPE_JALR, i_has_dest := True, i_has_src1 := True, i_is_func_call := True\<rparr>) 0
     else q2_end 4 rd rd rs2 (ins\<lparr>i_has_dest := True, i_has_src1 := True, i_has_src2 := True\<rparr>) 0)"

definition decode_compressed_q2 :: "RVInstruction \<Rightarrow> sim_error + RVInstruction" where
  "decode_compressed_q2 ins =
    (let insn = i_binary ins; funct3 = drop_bit 13 insn AND 7; rd = drop_bit 7 insn AND 0x1f;
         rs2 = drop_bit 2 insn AND 0x1f; d = [(10, 3, 5), (7, 6, 8)] in
     if funct3 = 0 then bindR (cget_field1 insn 12 5 5) (\<lambda>x.
       q2_end funct3 rd rd rs2 (ins\<lparr>i_has_dest := True, i_has_src1 := True\<rparr>) (x OR rs2))
     else if funct3 = 1 then bindR (cget_field1 insn 12 5 5) (\<lambda>x. bindR (cget_field1 insn 2 6 8) (\<lambda>y.
       q2_end funct3 rd 2 rs2 (q0_fp_load ins) (x OR (rs2 AND push_bit 3 3) OR y)))
     else if funct3 = 2 then bindR (cget_field1 insn 12 5 5) (\<lambda>x. bindR (cget_field1 insn 2 6 7) (\<lambda>y.
       q2_end funct3 rd 2 rs2 (q0_load 4 ins) (x OR (rs2 AND push_bit 2 7) OR y)))
     else if funct3 = 3 then bindR (cget_field1 insn 12 5 5) (\<lambda>x. bindR (cget_field1 insn 2 6 8) (\<lambda>y.
       q2_end funct3 rd 2 rs2 (q0_load 8 ins) (x OR (rs2 AND push_bit 3 3) OR y)))
     else if funct3 = 4 then decode_q2_jump ins
     else if funct3 = 5 then bindR (cget_fields insn d) (q2_end funct3 rd 2 rs2 (q0_fp_store ins))
     else if funct3 = 6 then bindR (cget_fields insn [(9, 2, 5), (7, 6, 7)]) (q2_end funct3 rd 2 rs2 (q0_store 4 ins))
     else if funct3 = 7 then bindR (cget_fields insn d) (q2_end funct3 rd 2 rs2 (q0_store 8 ins))
     else Inr (illegal_insn ins))"

definition decode_compressed_type :: "RVInstruction \<Rightarrow> sim_error + RVInstruction" where
  "decode_compressed_type ins =
    (let quad = i_binary ins AND 3 in
     if quad = C_QUADRANT0 then decode_compressed_q0 ins
     else if quad = C_QUADRANT1 then decode_compressed_q1 ins
     else if quad = C_QUADRANT2 then decode_compressed_q2 ins
     else Inl Program_exit)"

section \<open>Instructions of 32 bits\<close>

definition set_op_fu :: "RVInstruction \<Rightarrow> RVInstruction" where
  "set_op_fu i =
    (let insn = i_binary i in
     if drop_bit 25 insn = 1
     then if drop_bit 12 insn AND 7 \<in> {0, 1, 2, 3} then i\<lparr>i_fu_type := FU_MUL, i_type := INS_TYPE_INT_MUL\<rparr>
          else i\<lparr>i_fu_type := FU_DIV, i_type := INS_TYPE_INT_DIV\<rparr>
     else i)"

definition chk_op_imm_exceptions :: "RVInstruction \<Rightarrow> u32 \<Rightarrow> int" where
  "chk_op_imm_exceptions i bit_size =
    (let funct3 = drop_bit 12 (i_binary i) AND 7 in
     if funct3 = 1 then if i_imm i AND NOT (bit_size - 1) \<noteq> 0 then - 1 else 0
     else if funct3 = 5 then if i_imm i AND NOT ((bit_size - 1) OR 0x400) \<noteq> 0 then - 1 else 0
     else 0)"

definition chk_op_exceptions :: "RVInstruction \<Rightarrow> int" where
  "chk_op_exceptions i =
    (let imm = drop_bit 25 (i_binary i) in if imm \<noteq> 1 \<and> imm AND NOT 0x20 \<noteq> 0 then - 1 else 0)"

text \<open>The immediates \<^verbatim>\<open>(int32_t)insn >> 20\<close> and \<^verbatim>\<open>rd | ((insn >> 20) & 0xfe0)\<close>, sign-extended.\<close>

definition imm_i :: "u32 \<Rightarrow> u32" where
  "imm_i insn = signed_drop_bit 20 insn"

definition imm_s :: "u32 \<Rightarrow> u32 \<Rightarrow> u32" where
  "imm_s rd insn = signed_drop_bit 20 (push_bit 20 (rd OR (drop_bit (25 - 5) insn AND 0xfe0)))"

definition imm_j :: "u32 \<Rightarrow> u32" where
  "imm_j insn = signed_drop_bit 11 (push_bit 11 ((drop_bit (31 - 20) insn AND push_bit 20 1)
     OR (drop_bit (21 - 1) insn AND 0x7fe) OR (drop_bit (20 - 11) insn AND push_bit 11 1) OR (insn AND 0xff000)))"

definition imm_b :: "u32 \<Rightarrow> u32" where
  "imm_b insn = signed_drop_bit 19 (push_bit 19 ((drop_bit (31 - 12) insn AND push_bit 12 1)
     OR (drop_bit (25 - 5) insn AND 0x7e0) OR (drop_bit (8 - 1) insn AND 0x1e) OR (push_bit (11 - 7) insn AND push_bit 11 1)))"

definition decode_load :: "RVInstruction \<Rightarrow> u32 \<Rightarrow> RVInstruction" where
  "decode_load ins0 insn =
    (let ins = ins0\<lparr>i_is_load := True, i_has_src1 := True, i_has_dest := True, i_imm := imm_i insn\<rparr>;
         f = i_funct3 ins; l = ins\<lparr>i_type := INS_TYPE_LOAD\<rparr> in
     if f = 7 then ins\<lparr>i_type := INS_TYPE_AIM_RD_AF, i_is_aim := True, i_bytes_to_rw := 4\<rparr>
     else if f = 0 then l\<lparr>i_bytes_to_rw := 1\<rparr>
     else if f = 1 then l\<lparr>i_bytes_to_rw := 2\<rparr>
     else if f = 2 then l\<lparr>i_bytes_to_rw := 4\<rparr>
     else if f = 3 then l\<lparr>i_bytes_to_rw := 8\<rparr>
     else if f = 4 then l\<lparr>i_bytes_to_rw := 1, i_is_unsigned := True\<rparr>
     else if f = 5 then l\<lparr>i_bytes_to_rw := 2, i_is_unsigned := True\<rparr>
     else if f = 6 then l\<lparr>i_bytes_to_rw := 4, i_is_unsigned := True\<rparr>
     else l)"

definition decode_op_imm :: "RVInstruction \<Rightarrow> u32 \<Rightarrow> RVInstruction" where
  "decode_op_imm ins insn =
    (if chk_op_imm_exceptions ins (if i_major_opcode ins = OP_IMM_MASK then BIT_SIZE else 32) \<noteq> 0
     then illegal_insn ins
     else ins\<lparr>i_has_src1 := True, i_has_dest := True, i_imm := imm_i insn\<rparr>)"

definition decode_op :: "RVInstruction \<Rightarrow> RVInstruction" where
  "decode_op ins =
    (if chk_op_exceptions ins \<noteq> 0 then illegal_insn ins
     else set_op_fu (ins\<lparr>i_has_src1 := True, i_has_src2 := True, i_has_dest := True\<rparr>))"

definition decode_store :: "RVInstruction \<Rightarrow> u32 \<Rightarrow> RVInstruction" where
  "decode_store ins0 insn =
    (let ins = ins0\<lparr>i_is_store := True, i_has_src1 := True, i_has_src2 := True, i_imm := imm_s (i_rd ins0) insn\<rparr>;
         f = i_funct3 ins; s = ins\<lparr>i_type := INS_TYPE_STORE\<rparr>;
         a = ins\<lparr>i_is_aim := True, i_bytes_to_rw := 4\<rparr> in
     if sint f < 4 then
       if f = 0 then s\<lparr>i_bytes_to_rw := 1\<rparr>
       else if f = 1 then s\<lparr>i_bytes_to_rw := 2\<rparr>
       else if f = 2 then s\<lparr>i_bytes_to_rw := 4\<rparr>
       else if f = 3 then s\<lparr>i_bytes_to_rw := 8\<rparr>
       else s
     else if f = 4 then a\<lparr>i_type := INS_TYPE_AIM_MAC_SBK\<rparr>
     else if f = 5 then a\<lparr>i_type := INS_TYPE_AIM_AF_SBK\<rparr>
     else if f = 6 then a\<lparr>i_type := INS_TYPE_AIM_COPY_BKGB\<rparr>
     else if f = 7 then a\<lparr>i_type := INS_TYPE_AIM_COPY_GBBK\<rparr>
     else a)"

definition decode_system :: "RVInstruction \<Rightarrow> RVInstruction" where
  "decode_system ins = ins\<lparr>i_is_system := True, i_exception := True, i_type := INS_TYPE_SYSTEM,
     i_exception_cause := SIM_COMPLEX_OPCODE_EXCEPTION\<rparr>"

definition decode_jal :: "RVInstruction \<Rightarrow> u32 \<Rightarrow> RVInstruction" where
  "decode_jal ins0 insn =
    (let ins = ins0\<lparr>i_is_branch := True, i_branch_type := BRANCH_UNCOND, i_has_dest := True,
           i_imm := imm_j insn, i_type := INS_TYPE_JAL\<rparr> in
     if i_rd ins = 1 then ins\<lparr>i_is_func_call := True\<rparr> else ins)"

definition decode_jalr :: "RVInstruction \<Rightarrow> u32 \<Rightarrow> RVInstruction" where
  "decode_jalr ins0 insn =
    (let ins = ins0\<lparr>i_is_branch := True, i_branch_type := BRANCH_UNCOND, i_has_src1 := True, i_has_dest := True,
           i_imm := imm_i insn, i_type := INS_TYPE_JALR\<rparr>;
         call = (if i_rd ins = 1 then ins\<lparr>i_is_func_call := True\<rparr> else ins) in
     if i_rs1 call = 1 then call\<lparr>i_is_func_ret := True\<rparr> else call)"

definition decode_branch :: "RVInstruction \<Rightarrow> u32 \<Rightarrow> RVInstruction" where
  "decode_branch ins insn = ins\<lparr>i_is_branch := True, i_branch_type := BRANCH_COND, i_has_src1 := True,
     i_has_src2 := True, i_imm := imm_b insn, i_type := INS_TYPE_COND_BRANCH\<rparr>"

definition decode_atomic :: "RVInstruction \<Rightarrow> u32 \<Rightarrow> RVInstruction" where
  "decode_atomic ins0 insn =
    (let ins = ins0\<lparr>i_is_atomic := True, i_has_dest := True, i_type := INS_TYPE_ATOMIC\<rparr>;
         funct5 = drop_bit 27 (i_binary ins) in
     if drop_bit 12 insn AND 7 \<in> {2, 3} then
       if funct5 = 2 then
         if i_rs2 ins \<noteq> 0 then illegal_insn ins
         else ins\<lparr>i_has_src1 := True, i_is_atomic_load := True, i_bytes_to_rw := 8\<rparr>
       else if funct5 = 3 then
         ins\<lparr>i_has_src1 := True, i_has_src2 := True, i_is_atomic_store := True, i_bytes_to_rw := 8\<rparr>
       else if funct5 \<in> {1, 0, 4, 0xc, 0x8, 0x10, 0x14, 0x18, 0x1c} then
         ins\<lparr>i_has_src1 := True, i_has_src2 := True, i_is_atomic_operate := True, i_is_atomic_load := True,
           i_is_atomic_store := True, i_bytes_to_rw := 8\<rparr>
       else illegal_insn ins
     else illegal_insn ins)"

definition decode_fload :: "RVInstruction \<Rightarrow> u32 \<Rightarrow> RVInstruction" where
  "decode_fload ins insn =
    (let f = i_funct3 ins in
     if f = 2 \<or> f = 3 then
       if i_current_fs ins = 0 then illegal_insn ins
       else let l = ins\<lparr>i_is_load := True, i_has_fp_dest := True, i_has_src1 := True, i_set_fs := True,
                  i_imm := imm_i insn, i_type := INS_TYPE_FP_LOAD\<rparr> in
         if f = 2 then l\<lparr>i_bytes_to_rw := 4, i_f32_mask := True\<rparr>
         else l\<lparr>i_bytes_to_rw := 8, i_f64_mask := True\<rparr>
     else let a = ins\<lparr>i_bytes_to_rw := 4, i_is_aim := True\<rparr> in
       if f = 7 then a\<lparr>i_is_load := True, i_has_src1 := True, i_has_dest := True, i_imm := imm_i insn,
         i_type := INS_TYPE_AIM_RD_MAC\<rparr>
       else let s = a\<lparr>i_is_store := True, i_has_src1 := True, i_has_src2 := True, i_imm := imm_s (i_rd a) insn\<rparr> in
         if f = 4 then s\<lparr>i_type := INS_TYPE_AIM_WR_GB\<rparr>
         else if f = 5 then s\<lparr>i_type := INS_TYPE_AIM_WR_MAC\<rparr>
         else if f = 6 then s\<lparr>i_type := INS_TYPE_AIM_WR_BIAS\<rparr>
         else s)"

definition decode_fstore :: "RVInstruction \<Rightarrow> u32 \<Rightarrow> RVInstruction" where
  "decode_fstore ins insn =
    (if i_current_fs ins = 0 then illegal_insn ins
     else let s = ins\<lparr>i_is_store := True, i_has_src1 := True, i_has_fp_src2 := True,
                i_imm := imm_s (i_rd ins) insn, i_type := INS_TYPE_FP_STORE\<rparr> in
       if i_funct3 s = 2 then s\<lparr>i_bytes_to_rw := 4\<rparr>
       else if i_funct3 s = 3 then s\<lparr>i_bytes_to_rw := 8\<rparr>
       else s)"

definition decode_fma :: "RVInstruction \<Rightarrow> RVInstruction" where
  "decode_fma ins =
    (if i_current_fs ins = 0 \<or> i_rm ins < 0 then illegal_insn ins
     else ins\<lparr>i_data_class := INS_CLASS_FP, i_fu_type := FU_FPU_FMA, i_type := INS_TYPE_FP_FMA,
       i_has_fp_dest := True, i_has_fp_src1 := True, i_has_fp_src2 := True, i_has_fp_src3 := True,
       i_set_fs := True, i_funct3 := drop_bit 25 (i_binary ins) AND 3, i_rs3 := drop_bit 27 (i_binary ins)\<rparr>)"

text \<open>
  The cases of one inclusion of \<^verbatim>\<open>fp_decode_template.h\<close>, where \<open>opid\<close> is \<^verbatim>\<open>OPID\<close>; \<open>None\<close> when no
  label matches.
\<close>

definition fp_decode_template :: "u32 \<Rightarrow> RVInstruction \<Rightarrow> RVInstruction option" where
  "fp_decode_template opid ins =
    (let f = i_funct7 ins; op = (\<lambda>k. push_bit 2 k OR opid); bad_rm = i_rm ins < 0;
         fff = ins\<lparr>i_set_fs := True, i_has_fp_src1 := True, i_has_fp_src2 := True, i_has_fp_dest := True\<rparr> in
     if f = op 0x00 \<or> f = op 0x01 \<or> f = op 0x02 \<or> f = op 0x03 then Some (if bad_rm then illegal_insn ins else fff)
     else if f = op 0x0b then Some (if bad_rm then illegal_insn ins
       else ins\<lparr>i_set_fs := True, i_has_fp_src1 := True, i_has_fp_dest := True\<rparr>)
     else if f = op 0x04 then Some fff
     else if f = op 0x05 then Some fff
     else if f = op 0x18 then Some (if bad_rm then illegal_insn ins
       else ins\<lparr>i_has_fp_src1 := True, i_has_dest := True\<rparr>)
     else if f = op 0x14 then Some (ins\<lparr>i_has_dest := True, i_has_fp_src1 := True, i_has_fp_src2 := True\<rparr>)
     else if f = op 0x1a then Some (if bad_rm then illegal_insn ins
       else ins\<lparr>i_set_fs := True, i_has_fp_dest := True, i_has_src1 := True\<rparr>)
     else if f = op 0x08 then Some (if bad_rm then illegal_insn ins
       else ins\<lparr>i_set_fs := True, i_has_fp_dest := True, i_has_fp_src1 := True\<rparr>)
     else if f = op 0x1c then Some (if i_rs2 ins \<noteq> 0 then illegal_insn ins
       else ins\<lparr>i_has_dest := True, i_has_fp_src1 := True\<rparr>)
     else if f = op 0x1e then Some (if i_rs2 ins \<noteq> 0 \<or> i_rm ins \<noteq> 0 then illegal_insn ins
       else ins\<lparr>i_has_fp_dest := True, i_has_src1 := True\<rparr>)
     else None)"

definition decode_f_arithmetic :: "RVInstruction \<Rightarrow> RVInstruction" where
  "decode_f_arithmetic ins0 =
    (if i_current_fs ins0 = 0 then illegal_insn ins0
     else let ins = ins0\<lparr>i_data_class := INS_CLASS_FP, i_fu_type := FU_FPU_ALU, i_rm := i_funct3 ins0,
                i_type := INS_TYPE_FP_MISC\<rparr> in
       case fp_decode_template 0 ins of Some i \<Rightarrow> i
       | None \<Rightarrow> (case fp_decode_template 1 ins of Some i \<Rightarrow> i | None \<Rightarrow> illegal_insn ins))"

definition decode_aim_custom_1 :: "RVInstruction \<Rightarrow> u32 \<Rightarrow> RVInstruction" where
  "decode_aim_custom_1 ins0 insn =
    (let ins = ins0\<lparr>i_is_aim := True, i_is_store := True, i_has_src1 := True, i_has_dest := True,
           i_bytes_to_rw := 4, i_imm := imm_s (i_rd ins0) insn\<rparr>; f = i_funct3 ins in
     if f = 0 then ins\<lparr>i_type := INS_TYPE_AIM_MAC_4BK_INTRA_BG\<rparr>
     else if f = 1 then ins\<lparr>i_type := INS_TYPE_AIM_AF_4BK_INTRA_BG\<rparr>
     else if f = 2 then ins\<lparr>i_type := INS_TYPE_AIM_EWMUL\<rparr>
     else if f = 3 then ins\<lparr>i_type := INS_TYPE_AIM_EWADD\<rparr>
     else if f = 4 then ins\<lparr>i_type := INS_TYPE_AIM_MAC_ABK\<rparr>
     else if f = 5 then ins\<lparr>i_type := INS_TYPE_AIM_AF_ABK\<rparr>
     else if f = 6 then ins\<lparr>i_type := INS_TYPE_AIM_WR_AFLUT\<rparr>
     else if f = 7 then ins\<lparr>i_type := INS_TYPE_AIM_WR_BK\<rparr>
     else ins)"

definition decode_major_opcode :: "RVInstruction \<Rightarrow> u32 \<Rightarrow> RVInstruction" where
  "decode_major_opcode ins insn =
    (let opc = i_major_opcode ins in
     if opc = LOAD_MASK then decode_load ins insn
     else if opc = OP_IMM_MASK \<or> opc = OP_IMM_32_MASK then decode_op_imm ins insn
     else if opc = OP_MASK \<or> opc = OP_MASK_32 then decode_op ins
     else if opc = LUI_MASK \<or> opc = AUIPC_MASK then ins\<lparr>i_has_dest := True, i_imm := insn AND 0xfffff000\<rparr>
     else if opc = STORE_MASK then decode_store ins insn
     else if opc = CSR_MASK \<or> opc = FENCE_MASK then decode_system ins
     else if opc = JAL_MASK then decode_jal ins insn
     else if opc = JALR_MASK then decode_jalr ins insn
     else if opc = BRANCH_MASK then decode_branch ins insn
     else if opc = ATOMIC_MASK then decode_atomic ins insn
     else if opc = FLOAD_MASK then decode_fload ins insn
     else if opc = FSTORE_MASK then decode_fstore ins insn
     else if opc = FMADD_MASK \<or> opc = FMSUB_MASK \<or> opc = FNMSUB_MASK \<or> opc = FNMADD_MASK then decode_fma ins
     else if opc = F_ARITHMETIC_MASK then decode_f_arithmetic ins
     else if opc = AIM_CUSTOM_1_MASK then decode_aim_custom_1 ins insn
     else illegal_insn ins)"

definition decode_riscv_binary :: "RVInstruction \<Rightarrow> u32 \<Rightarrow> sim_error + RVInstruction" where
  "decode_riscv_binary ins0 insn =
    (let ins = ins0\<lparr>i_binary := insn, i_fu_type := FU_ALU, i_data_class := INS_CLASS_INT, i_type := INS_TYPE_ARITMETIC\<rparr> in
     if insn AND 3 \<noteq> 3 then decode_compressed_type ins
     else Inr (decode_major_opcode (ins\<lparr>i_major_opcode := insn AND 0x7f, i_funct3 := drop_bit 12 insn AND 7,
       i_funct7 := drop_bit 25 (insn AND 0xfe000000), i_rd := drop_bit 7 insn AND 0x1f,
       i_rs1 := drop_bit 15 insn AND 0x1f, i_rs2 := drop_bit 20 insn AND 0x1f\<rparr>) insn))"

end
