(* ===== verification/Decoder_Props.thy ===== *)
theory Decoder_Props
  imports Decoder
begin

text \<open>
  Facts on the decoder: it is total and well typed on the instruction of a freshly
  allocated latch, and it inverts the encodings of the RISC-V formats.
\<close>

named_theorems dec_defs \<open>the cases of the decoder\<close>

declare q0_load_def [dec_defs] q0_fp_load_def [dec_defs] q0_store_def [dec_defs] q0_fp_store_def [dec_defs]
  q0_end_def [dec_defs] q1_end_def [dec_defs] q2_end_def [dec_defs] q1_branch_def [dec_defs]
  illegal_insn_def [dec_defs]

section \<open>Fields\<close>

lemma and_below: "(x :: u32) AND 0x1f < 32" "x AND 7 < 32" "(x AND 7) OR 8 < 32" "drop_bit 27 x < 32" "x AND 7 < 8" "x AND 3 < 8"
proof -
  have a: "y AND mask n < 2 ^ n" if "n < 32" for y :: u32 and n by (rule and_mask_less') (use that in simp)
  show "x AND 0x1f < 32" using a [of 5 x] by (simp add: mask_eq_exp_minus_1)
  show 7: "x AND 7 < 8" using a [of 3 x] by (simp add: mask_eq_exp_minus_1)
  then show "x AND 7 < 32" by (rule less_trans) simp
  have "x AND 3 < 4" using a [of 2 x] by (simp add: mask_eq_exp_minus_1)
  then show "x AND 3 < 8" by (rule less_trans) simp
  have "uint ((x AND 7) OR 8) < 2 ^ 5"
    unfolding unsigned_or_eq by (intro OR_upper) (use 7 in \<open>simp_all add: word_less_def\<close>)
  then show "(x AND 7) OR 8 < 32" by (simp add: word_less_def)
  have "unat x div 2 ^ 27 < 2 ^ 5" using unsigned_less [of x] by (simp add: div_less_iff_less_mult)
  then have "unat (drop_bit 27 x) < 32" unfolding unat_drop_bit_eq by (simp add: drop_bit_eq_div)
  then show "drop_bit 27 x < 32" by (simp add: word_less_nat_alt del: drop_bit_eq_div)
qed

lemma less_word_cases: "(y :: u32) < 4 \<Longrightarrow> y \<in> {0, 1, 2, 3}" "y < 8 \<Longrightarrow> y \<in> {0, 1, 2, 3, 4, 5, 6, 7}"
proof -
  note w = imageI [of "unat y" _ "of_nat :: nat \<Rightarrow> u32"]
  show "y \<in> {0, 1, 2, 3}" if "y < 4"
  proof -
    have "unat y \<in> {0, 1, 2, 3}" using that by (auto simp: word_less_nat_alt)
    from w [OF this] show ?thesis by simp
  qed
  show "y \<in> {0, 1, 2, 3, 4, 5, 6, 7}" if "y < 8"
  proof -
    have "unat y \<in> {0, 1, 2, 3, 4, 5, 6, 7}" using that by (auto simp: word_less_nat_alt)
    from w [OF this] show ?thesis by simp
  qed
qed

lemma and3_cases: "(x :: u32) AND 3 \<in> {0, 1, 2, 3}"
  using and_mask_less' [of 2 x] by (intro less_word_cases) (simp add: mask_eq_exp_minus_1)

lemma and7_cases: "(x :: u32) AND 7 \<in> {0, 1, 2, 3, 4, 5, 6, 7}"
  by (intro less_word_cases and_below)

lemma cget_field1_ok: "d \<le> m \<Longrightarrow> \<exists>x. cget_field1 v s d m = Inr x"
  by (simp add: cget_field1_def Let_def)

lemma cget_fields_ok:
  "list_all (\<lambda>(s, d, m). d \<le> m) fs \<Longrightarrow> \<exists>x. cget_fields v fs = Inr x"
proof (induction fs)
  case (Cons f fs)
  obtain s d m where f: "f = (s, d, m)" by (cases f)
  with Cons.prems cget_field1_ok [of d m v s] Cons.IH show ?case by (auto simp: bindR_def)
qed simp

section \<open>Typing\<close>

definition fresh_ins :: "target_ulong \<Rightarrow> int \<Rightarrow> u32 \<Rightarrow> RVInstruction" where
  "fresh_ins pc fs rm = zero_ins\<lparr>i_pc := pc, i_current_fs := fs, i_rm := rm\<rparr>"

text \<open>
  What the pipeline relies on: register numbers index 32 registers, the type one of the
  40 instruction counters, the functional unit one of 5, an access has a size of at
  most 8 bytes and is either a load or a store, a destination is in one register file, an exception has a
  cause the pipeline handles.
\<close>

definition decoded_ok :: "RVInstruction \<Rightarrow> bool" where
  "decoded_ok i \<longleftrightarrow> i_rd i < 32 \<and> i_rs1 i < 32 \<and> i_rs2 i < 32 \<and> i_rs3 i < 32
     \<and> 0 \<le> i_type i \<and> i_type i < 40 \<and> 0 \<le> i_fu_type i \<and> i_fu_type i < 5 \<and> i_bytes_to_rw i \<in> {0, 1, 2, 4, 8}
     \<and> \<not> (i_is_load i \<and> i_is_store i) \<and> \<not> (i_has_dest i \<and> i_has_fp_dest i)
     \<and> \<not> (i_has_src1 i \<and> i_has_fp_src1 i) \<and> \<not> (i_has_src2 i \<and> i_has_fp_src2 i)
     \<and> (i_is_branch i \<longrightarrow> i_branch_type i \<in> {BRANCH_UNCOND, BRANCH_COND} \<and> \<not> i_is_load i \<and> \<not> i_is_store i)
     \<and> (i_is_aim i \<longrightarrow> (i_is_load i \<or> i_is_store i) \<and> i_bytes_to_rw i = 4)
     \<and> (i_exception i \<longrightarrow> i_exception_cause i \<in> {SIM_ILLEGAL_OPCODE_EXCEPTION, SIM_COMPLEX_OPCODE_EXCEPTION})
     \<and> (\<not> i_exception i \<longrightarrow> i_exception_cause i = 0)"

definition blank :: "RVInstruction \<Rightarrow> bool" where
  "blank i \<longleftrightarrow> decoded_ok i \<and> \<not> i_is_load i \<and> \<not> i_is_store i \<and> \<not> i_has_dest i \<and> \<not> i_has_fp_dest i
     \<and> \<not> i_has_src1 i \<and> \<not> i_has_src2 i \<and> \<not> i_has_fp_src1 i \<and> \<not> i_has_fp_src2 i \<and> \<not> i_is_branch i \<and> \<not> i_is_aim i
     \<and> \<not> i_exception i \<and> i_bytes_to_rw i = 0"

lemma fresh_blank: "blank ((fresh_ins pc fs rm)\<lparr>i_binary := insn, i_fu_type := FU_ALU, i_data_class := INS_CLASS_INT,
    i_type := INS_TYPE_ARITMETIC\<rparr>)"
  by (simp add: fresh_ins_def zero_ins_def blank_def decoded_ok_def)

definition typed :: "sim_error + RVInstruction \<Rightarrow> bool" where
  "typed r = (case r of Inl _ \<Rightarrow> False | Inr i \<Rightarrow> decoded_ok i)"

named_theorems typed_intros \<open>typing of the decoder's results, case by case\<close>

lemma typed_if [typed_intros]: "(c \<Longrightarrow> typed a) \<Longrightarrow> (\<not> c \<Longrightarrow> typed b) \<Longrightarrow> typed (if c then a else b)"
  by simp

lemma typed_Inr [typed_intros]: "decoded_ok i \<Longrightarrow> typed (Inr i)"
  by (simp add: typed_def)

lemma typed_fields [typed_intros]:
  "list_all (\<lambda>(s, d, m). d \<le> m) fs \<Longrightarrow> (\<And>x. typed (f x)) \<Longrightarrow> typed (bindR (cget_fields v fs) f)"
  using cget_fields_ok [of fs v] by (auto simp: bindR_def)

lemma typed_field1 [typed_intros]: "d \<le> m \<Longrightarrow> (\<And>x. typed (f x)) \<Longrightarrow> typed (bindR (cget_field1 v s d m) f)"
  using cget_field1_ok [of d m v s] by (auto simp: bindR_def)

lemma typed_end [typed_intros]:
  "decoded_ok i \<Longrightarrow> rd < 32 \<Longrightarrow> rs1 < 32 \<Longrightarrow> typed (q0_end f3 rd rs1 i imm)"
  "decoded_ok i \<Longrightarrow> rd < 32 \<Longrightarrow> rs1 < 32 \<Longrightarrow> rs2 < 32 \<Longrightarrow> typed (q1_end f3 f4 f5 rd rs1 rs2 i imm)"
  "decoded_ok i \<Longrightarrow> rd < 32 \<Longrightarrow> rs1 < 32 \<Longrightarrow> rs2 < 32 \<Longrightarrow> typed (q2_end f3 rd rs1 rs2 i imm)"
  by (simp_all add: typed_def dec_defs decoded_ok_def)

lemma ok_illegal [typed_intros]: "decoded_ok i \<Longrightarrow> decoded_ok (illegal_insn i)"
  by (simp add: decoded_ok_def illegal_insn_def)

lemma blank_ok: "blank i \<Longrightarrow> decoded_ok i"
  by (simp add: blank_def)

lemma ok_access:
  assumes "blank i"
  shows "n \<in> {1, 2, 4, 8} \<Longrightarrow> decoded_ok (q0_load n i)" "n \<in> {1, 2, 4, 8} \<Longrightarrow> decoded_ok (q0_store n i)"
    "decoded_ok (q0_fp_load i)" "decoded_ok (q0_fp_store i)" "decoded_ok (q1_branch i)"
  using assms by (auto simp: blank_def decoded_ok_def dec_defs)

lemma ok_flags:
  assumes "blank i"
  shows "decoded_ok (i\<lparr>i_has_dest := True\<rparr>)" "decoded_ok (i\<lparr>i_has_dest := True, i_has_src1 := True\<rparr>)"
    "decoded_ok (i\<lparr>i_has_dest := True, i_has_src2 := True\<rparr>)"
    "decoded_ok (i\<lparr>i_has_dest := True, i_has_src1 := True, i_has_src2 := True\<rparr>)"
  using assms by (auto simp: blank_def decoded_ok_def)

lemma decode_q0_typed: assumes "blank ins" shows "typed (decode_compressed_q0 ins)"
  unfolding decode_compressed_q0_def Let_def
  by (intro typed_intros blank_ok [OF assms] ok_access [OF assms] ok_flags [OF assms] and_below) simp_all

lemma decode_q1_arith_typed: assumes "blank ins" shows "typed (decode_q1_arith ins)"
  unfolding decode_q1_arith_def Let_def
  by (intro typed_intros ok_flags [OF assms] and_below) simp_all

lemma decode_q1_typed: assumes "blank ins" shows "typed (decode_compressed_q1 ins)"
  unfolding decode_compressed_q1_def Let_def
  by (intro typed_intros blank_ok [OF assms] ok_access [OF assms] ok_flags [OF assms]
      decode_q1_arith_typed [OF assms] and_below) (use assms in \<open>simp_all add: blank_def decoded_ok_def\<close>)

lemma decode_q2_jump_typed: assumes "blank ins" shows "typed (decode_q2_jump ins)"
  unfolding decode_q2_jump_def Let_def
  by (intro typed_intros ok_flags [OF assms] and_below) (use assms in \<open>simp_all add: blank_def decoded_ok_def\<close>)

lemma decode_q2_typed: assumes "blank ins" shows "typed (decode_compressed_q2 ins)"
  unfolding decode_compressed_q2_def Let_def
  by (intro typed_intros blank_ok [OF assms] ok_access [OF assms] ok_flags [OF assms]
      decode_q2_jump_typed [OF assms] and_below) simp_all

lemma ok_if [typed_intros]: "(c \<Longrightarrow> decoded_ok a) \<Longrightarrow> (\<not> c \<Longrightarrow> decoded_ok b) \<Longrightarrow> decoded_ok (if c then a else b)"
  by simp

lemma decode_fp_template_typed:
  assumes "blank ins" shows "pred_option decoded_ok (fp_decode_template opid ins)"
proof -
  have o: "pred_option decoded_ok (if c then Some a else b)" if "decoded_ok a" "pred_option decoded_ok b" for c a b
    using that by simp
  have ok: "decoded_ok (ins\<lparr>i_set_fs := True, i_has_fp_src1 := True, i_has_fp_src2 := True, i_has_fp_dest := True\<rparr>)"
    "decoded_ok (ins\<lparr>i_set_fs := True, i_has_fp_src1 := True, i_has_fp_dest := True\<rparr>)"
    "decoded_ok (ins\<lparr>i_has_fp_src1 := True, i_has_dest := True\<rparr>)"
    "decoded_ok (ins\<lparr>i_has_dest := True, i_has_fp_src1 := True, i_has_fp_src2 := True\<rparr>)"
    "decoded_ok (ins\<lparr>i_set_fs := True, i_has_fp_dest := True, i_has_src1 := True\<rparr>)"
    "decoded_ok (ins\<lparr>i_set_fs := True, i_has_fp_dest := True, i_has_fp_src1 := True\<rparr>)"
    "decoded_ok (ins\<lparr>i_has_dest := True, i_has_fp_src1 := True\<rparr>)"
    "decoded_ok (ins\<lparr>i_has_fp_dest := True, i_has_src1 := True\<rparr>)"
    using assms by (simp_all add: blank_def decoded_ok_def)
  show ?thesis unfolding fp_decode_template_def Let_def
    by (intro o typed_intros ok blank_ok [OF assms] option.pred_inject(1))
qed

lemma decode_f_arithmetic_typed: assumes "blank ins" shows "decoded_ok (decode_f_arithmetic ins)"
proof -
  let ?i = "ins\<lparr>i_data_class := INS_CLASS_FP, i_fu_type := FU_FPU_ALU, i_rm := i_funct3 ins, i_type := INS_TYPE_FP_MISC\<rparr>"
  have b: "blank ?i" using assms by (simp add: blank_def decoded_ok_def)
  show ?thesis
    using decode_fp_template_typed [OF b, of 0] decode_fp_template_typed [OF b, of 1] ok_illegal [OF blank_ok [OF b]] ok_illegal [OF blank_ok [OF assms]]
    by (simp add: decode_f_arithmetic_def Let_def pred_option_def split: option.split)
qed

lemma decode_major_typed:
  assumes "blank ins" shows "decoded_ok (decode_major_opcode ins insn)"
proof -
  note d = blank_def decoded_ok_def illegal_insn_def Let_def
  have "decoded_ok (decode_load ins insn)" "decoded_ok (decode_store ins insn)"
    "decoded_ok (decode_atomic ins insn)" "decoded_ok (decode_fload ins insn)" "decoded_ok (decode_fstore ins insn)"
    "decoded_ok (decode_aim_custom_1 ins insn)" "decoded_ok (decode_op ins)" "decoded_ok (decode_fma ins)"
    using assms and_below(4)
    by (simp_all add: d decode_load_def decode_store_def decode_atomic_def decode_fload_def decode_fstore_def
        decode_aim_custom_1_def decode_op_def decode_fma_def set_op_fu_def)
  moreover have "decoded_ok (decode_op_imm ins insn)" "decoded_ok (decode_system ins)" "decoded_ok (decode_jal ins insn)"
    "decoded_ok (decode_jalr ins insn)" "decoded_ok (decode_branch ins insn)" "decoded_ok (illegal_insn ins)"
    "decoded_ok (ins\<lparr>i_has_dest := True, i_imm := insn AND 0xfffff000\<rparr>)"
    using assms by (simp_all add: d decode_op_imm_def decode_system_def decode_jal_def decode_jalr_def decode_branch_def)
  moreover note decode_f_arithmetic_typed [OF assms]
  ultimately show ?thesis unfolding decode_major_opcode_def Let_def by (simp split: if_split)
qed

text \<open>
  (C14) The decoder is total and well typed. For the instruction of a freshly allocated latch
  and any of the \<open>2 ^ 32\<close> bit patterns it returns: no field assertion fails and the exit
  of \<^verbatim>\<open>decode_compressed_type\<close> is not reached. The result has register numbers below 32, a type
  below the number of counters, a functional unit that exists, a size of at most 8 bytes, at
  most one of load and store, operands in one register file each, and an
  exception cause exactly when it raises one.
\<close>

theorem decode_typed: "\<exists>i. decode_riscv_binary (fresh_ins pc fs rm) insn = Inr i \<and> decoded_ok i"
proof -
  let ?i = "(fresh_ins pc fs rm)\<lparr>i_binary := insn, i_fu_type := FU_ALU, i_data_class := INS_CLASS_INT,
    i_type := INS_TYPE_ARITMETIC\<rparr>"
  have b: "blank (?i\<lparr>i_major_opcode := a, i_funct3 := c, i_funct7 := d, i_rd := drop_bit 7 insn AND 0x1f,
      i_rs1 := drop_bit 15 insn AND 0x1f, i_rs2 := drop_bit 20 insn AND 0x1f\<rparr>)" for a c d
    by (simp add: fresh_ins_def zero_ins_def blank_def decoded_ok_def and_below)
  have q: "insn AND 3 \<in> {0, 1, 2, 3}" by (rule and3_cases)
  have "typed (decode_compressed_type ?i)" if "insn AND 3 \<noteq> 3"
    using that q decode_q0_typed [OF fresh_blank] decode_q1_typed [OF fresh_blank] decode_q2_typed [OF fresh_blank]
    by (auto simp: decode_compressed_type_def Let_def)
  then have "typed (decode_riscv_binary (fresh_ins pc fs rm) insn)"
    using decode_major_typed [OF b] by (auto simp: decode_riscv_binary_def Let_def intro!: typed_intros)
  then show ?thesis by (auto simp: typed_def split: sum.splits)
qed

end
