(* ===== verification/Riscv_Encoding.thy ===== *)
theory Riscv_Encoding
  imports Decoder_Props
begin

text \<open>
  The instruction formats of the RISC-V manual as encoding functions, and the decoder as
  their inverse.
\<close>

section \<open>Encodings\<close>

definition enc_r :: "u32 \<Rightarrow> u32 \<Rightarrow> u32 \<Rightarrow> u32 \<Rightarrow> u32 \<Rightarrow> u32 \<Rightarrow> u32" where
  "enc_r f7 rs2 rs1 f3 rd opc = push_bit 25 f7 OR push_bit 20 (take_bit 5 rs2) OR push_bit 15 (take_bit 5 rs1)
     OR push_bit 12 (take_bit 3 f3) OR push_bit 7 (take_bit 5 rd) OR take_bit 7 opc"

definition enc_i :: "u32 \<Rightarrow> u32 \<Rightarrow> u32 \<Rightarrow> u32 \<Rightarrow> u32 \<Rightarrow> u32" where
  "enc_i imm rs1 f3 rd opc = push_bit 20 imm OR push_bit 15 (take_bit 5 rs1) OR push_bit 12 (take_bit 3 f3)
     OR push_bit 7 (take_bit 5 rd) OR take_bit 7 opc"

definition enc_s :: "u32 \<Rightarrow> u32 \<Rightarrow> u32 \<Rightarrow> u32 \<Rightarrow> u32 \<Rightarrow> u32" where
  "enc_s imm rs2 rs1 f3 opc = push_bit 25 (drop_bit 5 imm) OR push_bit 20 (take_bit 5 rs2) OR push_bit 15 (take_bit 5 rs1)
     OR push_bit 12 (take_bit 3 f3) OR push_bit 7 (take_bit 5 imm) OR take_bit 7 opc"

definition enc_b :: "u32 \<Rightarrow> u32 \<Rightarrow> u32 \<Rightarrow> u32 \<Rightarrow> u32 \<Rightarrow> u32" where
  "enc_b imm rs2 rs1 f3 opc = push_bit 31 (drop_bit 12 imm) OR push_bit 25 (take_bit 6 (drop_bit 5 imm))
     OR push_bit 20 (take_bit 5 rs2) OR push_bit 15 (take_bit 5 rs1) OR push_bit 12 (take_bit 3 f3)
     OR push_bit 8 (take_bit 4 (drop_bit 1 imm)) OR push_bit 7 (take_bit 1 (drop_bit 11 imm)) OR take_bit 7 opc"

definition enc_u :: "u32 \<Rightarrow> u32 \<Rightarrow> u32 \<Rightarrow> u32" where
  "enc_u imm rd opc = push_bit 12 (drop_bit 12 imm) OR push_bit 7 (take_bit 5 rd) OR take_bit 7 opc"

definition enc_j :: "u32 \<Rightarrow> u32 \<Rightarrow> u32 \<Rightarrow> u32" where
  "enc_j imm rd opc = push_bit 31 (drop_bit 20 imm) OR push_bit 21 (take_bit 10 (drop_bit 1 imm))
     OR push_bit 20 (take_bit 1 (drop_bit 11 imm)) OR push_bit 12 (take_bit 8 (drop_bit 12 imm))
     OR push_bit 7 (take_bit 5 rd) OR take_bit 7 opc"

section \<open>Masks as bit fields\<close>

lemma and_take: "(x :: u32) AND 1 = take_bit 1 x" "x AND 3 = take_bit 2 x" "x AND 7 = take_bit 3 x"
  "x AND 0x1f = take_bit 5 x" "x AND 0x7f = take_bit 7 x"
  by (simp_all add: take_bit_eq_mask mask_eq_exp_minus_1)

lemma and_mid: "(x :: u32) AND push_bit k (mask n) = push_bit k (take_bit n (drop_bit k x))"
  by (rule bit_word_eqI) (auto simp: bit_simps)

lemma and_nums: "(x :: u32) AND 0xfe0 = push_bit 5 (take_bit 7 (drop_bit 5 x))"
  "x AND 0x7fe = push_bit 1 (take_bit 10 (drop_bit 1 x))" "x AND push_bit k 1 = push_bit k (take_bit 1 (drop_bit k x))"
  "x AND 0xff000 = push_bit 12 (take_bit 8 (drop_bit 12 x))" "x AND 0x7e0 = push_bit 5 (take_bit 6 (drop_bit 5 x))"
  "x AND 0x1e = push_bit 1 (take_bit 4 (drop_bit 1 x))" "x AND 0xfffff000 = push_bit 12 (take_bit 20 (drop_bit 12 x))"
  "x AND 0xfe000000 = push_bit 25 (take_bit 7 (drop_bit 25 x))"
proof -
  show "x AND 0xfe0 = push_bit 5 (take_bit 7 (drop_bit 5 x))" using and_mid [of x 5 7] by (simp add: mask_eq_exp_minus_1)
  show "x AND 0x7fe = push_bit 1 (take_bit 10 (drop_bit 1 x))" using and_mid [of x 1 10] by (simp add: mask_eq_exp_minus_1)
  show "x AND push_bit k 1 = push_bit k (take_bit 1 (drop_bit k x))" using and_mid [of x k 1] by simp
  show "x AND 0xff000 = push_bit 12 (take_bit 8 (drop_bit 12 x))" using and_mid [of x 12 8] by (simp add: mask_eq_exp_minus_1)
  show "x AND 0x7e0 = push_bit 5 (take_bit 6 (drop_bit 5 x))" using and_mid [of x 5 6] by (simp add: mask_eq_exp_minus_1)
  show "x AND 0x1e = push_bit 1 (take_bit 4 (drop_bit 1 x))" using and_mid [of x 1 4] by (simp add: mask_eq_exp_minus_1)
  show "x AND 0xfffff000 = push_bit 12 (take_bit 20 (drop_bit 12 x))" using and_mid [of x 12 20] by (simp add: mask_eq_exp_minus_1)
  show "x AND 0xfe000000 = push_bit 25 (take_bit 7 (drop_bit 25 x))" using and_mid [of x 25 7] by (simp add: mask_eq_exp_minus_1)
qed

lemma sextc_eq: "0 < n \<Longrightarrow> n \<le> 32 \<Longrightarrow> sextc v n = signed_take_bit (n - 1) v"
  unfolding sextc_def
  by (rule bit_word_eqI) (auto simp: bit_simps min_def not_le le_less_Suc_eq Suc_le_eq dest!: le_antisym)

section \<open>Fields of an encoded instruction\<close>

named_theorems enc_fields \<open>fields of an encoded instruction\<close>

lemma enc_opcode [enc_fields]:
  "enc_r f7 rs2 rs1 f3 rd opc AND 0x7f = take_bit 7 opc" "enc_i imm rs1 f3 rd opc AND 0x7f = take_bit 7 opc"
  "enc_s imm rs2 rs1 f3 opc AND 0x7f = take_bit 7 opc" "enc_b imm rs2 rs1 f3 opc AND 0x7f = take_bit 7 opc"
  "enc_u imm rd opc AND 0x7f = take_bit 7 opc" "enc_j imm rd opc AND 0x7f = take_bit 7 opc"
  unfolding and_take enc_r_def enc_i_def enc_s_def enc_b_def enc_u_def enc_j_def
  by (rule bit_word_eqI; auto simp: bit_simps)+

lemma enc_quadrant [enc_fields]:
  "enc_r f7 rs2 rs1 f3 rd opc AND 3 = take_bit 2 opc" "enc_i imm rs1 f3 rd opc AND 3 = take_bit 2 opc"
  "enc_s imm rs2 rs1 f3 opc AND 3 = take_bit 2 opc" "enc_b imm rs2 rs1 f3 opc AND 3 = take_bit 2 opc"
  "enc_u imm rd opc AND 3 = take_bit 2 opc" "enc_j imm rd opc AND 3 = take_bit 2 opc"
  unfolding and_take enc_r_def enc_i_def enc_s_def enc_b_def enc_u_def enc_j_def
  by (rule bit_word_eqI; auto simp: bit_simps)+

lemma enc_funct3 [enc_fields]:
  "drop_bit 12 (enc_r f7 rs2 rs1 f3 rd opc) AND 7 = take_bit 3 f3" "drop_bit 12 (enc_i imm rs1 f3 rd opc) AND 7 = take_bit 3 f3"
  "drop_bit 12 (enc_s imm rs2 rs1 f3 opc) AND 7 = take_bit 3 f3" "drop_bit 12 (enc_b imm rs2 rs1 f3 opc) AND 7 = take_bit 3 f3"
  unfolding and_take enc_r_def enc_i_def enc_s_def enc_b_def
  by (rule bit_word_eqI; auto simp: bit_simps)+

lemma enc_rd [enc_fields]:
  "drop_bit 7 (enc_r f7 rs2 rs1 f3 rd opc) AND 0x1f = take_bit 5 rd" "drop_bit 7 (enc_i imm rs1 f3 rd opc) AND 0x1f = take_bit 5 rd"
  "drop_bit 7 (enc_s imm rs2 rs1 f3 opc) AND 0x1f = take_bit 5 imm"
  "drop_bit 7 (enc_u imm rd opc) AND 0x1f = take_bit 5 rd" "drop_bit 7 (enc_j imm rd opc) AND 0x1f = take_bit 5 rd"
  unfolding and_take enc_r_def enc_i_def enc_s_def enc_u_def enc_j_def
  by (rule bit_word_eqI; auto simp: bit_simps)+

lemma enc_rs1 [enc_fields]:
  "drop_bit 15 (enc_r f7 rs2 rs1 f3 rd opc) AND 0x1f = take_bit 5 rs1" "drop_bit 15 (enc_i imm rs1 f3 rd opc) AND 0x1f = take_bit 5 rs1"
  "drop_bit 15 (enc_s imm rs2 rs1 f3 opc) AND 0x1f = take_bit 5 rs1" "drop_bit 15 (enc_b imm rs2 rs1 f3 opc) AND 0x1f = take_bit 5 rs1"
  unfolding and_take enc_r_def enc_i_def enc_s_def enc_b_def
  by (rule bit_word_eqI; auto simp: bit_simps)+

lemma enc_rs2 [enc_fields]:
  "drop_bit 20 (enc_r f7 rs2 rs1 f3 rd opc) AND 0x1f = take_bit 5 rs2" "drop_bit 20 (enc_s imm rs2 rs1 f3 opc) AND 0x1f = take_bit 5 rs2"
  "drop_bit 20 (enc_b imm rs2 rs1 f3 opc) AND 0x1f = take_bit 5 rs2" "drop_bit 25 (enc_r f7 rs2 rs1 f3 rd opc) = take_bit 7 f7"
  unfolding and_take enc_r_def enc_s_def enc_b_def
  by (rule bit_word_eqI; auto simp: bit_simps)+

text \<open>Adjacent slices of a word join; \<open>sextc\<close> only reads the low bits.\<close>

lemma slice_join:
  "push_bit k (take_bit m (drop_bit k x)) OR push_bit (k + m) (take_bit j (drop_bit (k + m) x))
    = push_bit k (take_bit (m + j) (drop_bit k (x :: u32)))"
proof (rule bit_word_eqI)
  fix n
  show "bit (push_bit k (take_bit m (drop_bit k x)) OR push_bit (k + m) (take_bit j (drop_bit (k + m) x))) n
      = bit (push_bit k (take_bit (m + j) (drop_bit k x))) n" if "n < LENGTH(32)"
    using that by (cases "n < k"; cases "n < k + m") (auto simp: bit_simps less_diff_conv2)
qed

lemma sextc_take: "0 < n \<Longrightarrow> n \<le> 32 \<Longrightarrow> sextc (take_bit n v) n = sextc v n"
  unfolding sextc_def by (rule bit_word_eqI) (auto simp: bit_simps)

lemma enc_imm_i [enc_fields]: "imm_i (enc_i imm rs1 f3 rd opc) = signed_take_bit 11 imm"
proof -
  have "imm_i (enc_i imm rs1 f3 rd opc) = sextc imm 12"
    unfolding imm_i_def enc_i_def sextc_def by (rule bit_word_eqI) (auto simp: bit_simps)
  then show ?thesis by (simp add: sextc_eq)
qed

lemma enc_imm_s [enc_fields]: "imm_s (take_bit 5 imm) (enc_s imm rs2 rs1 f3 opc) = signed_take_bit 11 imm"
proof -
  have "drop_bit 20 (enc_s imm rs2 rs1 f3 opc) AND 0xfe0 = push_bit 5 (take_bit 7 (drop_bit 5 imm))"
    unfolding and_nums enc_s_def by (rule bit_word_eqI) (auto simp: bit_simps)
  then have "take_bit 5 imm OR (drop_bit 20 (enc_s imm rs2 rs1 f3 opc) AND 0xfe0) = take_bit 12 imm"
    using slice_join [of 0 5 imm 7] by simp
  then show ?thesis using sextc_take [of 12 imm] by (simp add: imm_s_def sextc_eq flip: sextc_def [of _ 12, simplified])
qed

lemma slice_eqI: "(\<And>n. n < k \<Longrightarrow> bit x n = bit y n) \<Longrightarrow> push_bit d (take_bit k x) = push_bit d (take_bit k (y :: u32))"
  by (intro arg_cong [where f = "push_bit d"] bit_word_eqI) (auto simp: bit_simps)

lemma enc_imm_b [enc_fields]: "imm_b (enc_b imm rs2 rs1 f3 opc) = signed_take_bit 12 (push_bit 1 (drop_bit 1 imm))"
proof -
  let ?w = "enc_b imm rs2 rs1 f3 opc" and ?s = "\<lambda>k m. push_bit k (take_bit m (drop_bit k imm))"
  have f: "drop_bit 19 ?w AND push_bit 12 1 = ?s 12 1" "drop_bit 20 ?w AND 0x7e0 = ?s 5 6"
    "drop_bit 7 ?w AND 0x1e = ?s 1 4" "push_bit 4 ?w AND push_bit 11 1 = ?s 11 1"
    unfolding and_nums enc_b_def by (rule slice_eqI, (auto simp: bit_simps simp del: take_bit_Suc_0)[1])+
  have i: "imm_b ?w = sextc ((drop_bit 19 ?w AND push_bit 12 1) OR (drop_bit 20 ?w AND 0x7e0) OR (drop_bit 7 ?w AND 0x1e)
      OR (push_bit 4 ?w AND push_bit 11 1)) 13" by (simp add: imm_b_def sextc_def)
  have "?s 12 1 OR ?s 5 6 OR ?s 1 4 OR ?s 11 1 = ((?s 1 4 OR ?s 5 6) OR ?s 11 1) OR ?s 12 1" by (simp only: ac_simps)
  also have "\<dots> = ?s 1 12"
    using slice_join [of 1 4 imm 6] slice_join [of 1 10 imm 1] slice_join [of 1 11 imm 1] by (simp del: take_bit_Suc_0 push_bit_Suc One_nat_def)
  also have "\<dots> = take_bit 13 (push_bit 1 (drop_bit 1 imm))" by (simp only: take_bit_push_bit) simp
  finally have "imm_b ?w = sextc (take_bit 13 (push_bit 1 (drop_bit 1 imm))) 13"
    unfolding i f by (simp only:)
  then show ?thesis using sextc_take [of 13 "push_bit 1 (drop_bit 1 imm)"] sextc_eq [of 13 "push_bit 1 (drop_bit 1 imm)"] by simp
qed

lemma enc_imm_j [enc_fields]: "imm_j (enc_j imm rd opc) = signed_take_bit 20 (push_bit 1 (drop_bit 1 imm))"
proof -
  let ?w = "enc_j imm rd opc" and ?s = "\<lambda>k m. push_bit k (take_bit m (drop_bit k imm))"
  have f: "drop_bit 11 ?w AND push_bit 20 1 = ?s 20 1" "drop_bit 20 ?w AND 0x7fe = ?s 1 10"
    "drop_bit 9 ?w AND push_bit 11 1 = ?s 11 1" "?w AND 0xff000 = ?s 12 8"
    unfolding and_nums enc_j_def by (rule slice_eqI, (auto simp: bit_simps simp del: take_bit_Suc_0)[1])+
  have i: "imm_j ?w = sextc ((drop_bit 11 ?w AND push_bit 20 1) OR (drop_bit 20 ?w AND 0x7fe)
      OR (drop_bit 9 ?w AND push_bit 11 1) OR (?w AND 0xff000)) 21" by (simp add: imm_j_def sextc_def)
  have "?s 20 1 OR ?s 1 10 OR ?s 11 1 OR ?s 12 8 = ((?s 1 10 OR ?s 11 1) OR ?s 12 8) OR ?s 20 1" by (simp only: ac_simps)
  also have "\<dots> = ?s 1 20"
    using slice_join [of 1 10 imm 1] slice_join [of 1 11 imm 8] slice_join [of 1 19 imm 1] by (simp del: take_bit_Suc_0 push_bit_Suc One_nat_def)
  also have "\<dots> = take_bit 21 (push_bit 1 (drop_bit 1 imm))" by (simp only: take_bit_push_bit) simp
  finally have "imm_j ?w = sextc (take_bit 21 (push_bit 1 (drop_bit 1 imm))) 21"
    unfolding i f by (simp only:)
  then show ?thesis using sextc_take [of 21 "push_bit 1 (drop_bit 1 imm)"] sextc_eq [of 21 "push_bit 1 (drop_bit 1 imm)"] by simp
qed

lemma enc_imm_u [enc_fields]: "enc_u imm rd opc AND 0xfffff000 = push_bit 12 (drop_bit 12 imm)"
  unfolding and_nums enc_u_def by (rule bit_word_eqI) (auto simp: bit_simps)

section \<open>Decoding inverts encoding\<close>

lemmas decode_cases = decode_riscv_binary_def decode_major_opcode_def Let_def

definition operands :: "RVInstruction \<Rightarrow> u32 \<Rightarrow> (u32 \<times> u32 \<times> u32 \<times> u32 \<times> u32) option" where
  "operands ins w = (case decode_riscv_binary ins w of Inl _ \<Rightarrow> None | Inr i \<Rightarrow>
     if i_exception i then None else Some (i_funct3 i, i_rd i, i_rs1 i, i_rs2 i, i_imm i))"

text \<open>
  (C15) Decoding inverts the encodings of the manual. Every load, register-register operation,
  store, conditional branch and jump, encoded from its operands, decodes to those register numbers and to the
  sign-extended immediate: bits 0 to 11 for formats I and S, the even offset of 13 bits for B and of 21
  bits for J, the upper 20 bits for U. (The fields a format does not have are bits of the immediate.)
\<close>

theorem decode_encode:
  assumes "f7 \<in> {0, 1, 0x20}"
  shows "(\<exists>rs2. operands (fresh_ins pc fs rm) (enc_i imm rs1 f3 rd LOAD_MASK) = Some (take_bit 3 f3, take_bit 5 rd, take_bit 5 rs1, rs2, signed_take_bit 11 imm))
    \<and> (\<exists>rs2. operands (fresh_ins pc fs rm) (enc_i imm rs1 f3 rd JALR_MASK) = Some (take_bit 3 f3, take_bit 5 rd, take_bit 5 rs1, rs2, signed_take_bit 11 imm))
    \<and> operands (fresh_ins pc fs rm) (enc_r f7 rs2 rs1 f3 rd OP_MASK) = Some (take_bit 3 f3, take_bit 5 rd, take_bit 5 rs1, take_bit 5 rs2, 0)
    \<and> operands (fresh_ins pc fs rm) (enc_s imm rs2 rs1 f3 STORE_MASK) = Some (take_bit 3 f3, take_bit 5 imm, take_bit 5 rs1, take_bit 5 rs2, signed_take_bit 11 imm)
    \<and> (\<exists>rd. operands (fresh_ins pc fs rm) (enc_b imm rs2 rs1 f3 BRANCH_MASK) = Some (take_bit 3 f3, rd, take_bit 5 rs1, take_bit 5 rs2,
        signed_take_bit 12 (push_bit 1 (drop_bit 1 imm))))
    \<and> (\<exists>f3 rs1 rs2. operands (fresh_ins pc fs rm) (enc_u imm rd LUI_MASK) = Some (f3, take_bit 5 rd, rs1, rs2, push_bit 12 (drop_bit 12 imm)))
    \<and> (\<exists>f3 rs1 rs2. operands (fresh_ins pc fs rm) (enc_j imm rd JAL_MASK) = Some (f3, take_bit 5 rd, rs1, rs2, signed_take_bit 20 (push_bit 1 (drop_bit 1 imm))))"
proof (intro conjI)
  note d = operands_def decode_cases fresh_ins_def zero_ins_def
  show "\<exists>rs2. operands (fresh_ins pc fs rm) (enc_i imm rs1 f3 rd LOAD_MASK) = Some (take_bit 3 f3, take_bit 5 rd, take_bit 5 rs1, rs2, signed_take_bit 11 imm)"
    unfolding d by (simp add: enc_fields decode_load_def Let_def)
  show "\<exists>rs2. operands (fresh_ins pc fs rm) (enc_i imm rs1 f3 rd JALR_MASK) = Some (take_bit 3 f3, take_bit 5 rd, take_bit 5 rs1, rs2, signed_take_bit 11 imm)"
    unfolding d by (simp add: enc_fields decode_jalr_def Let_def)
  show "operands (fresh_ins pc fs rm) (enc_r f7 rs2 rs1 f3 rd OP_MASK) = Some (take_bit 3 f3, take_bit 5 rd, take_bit 5 rs1, take_bit 5 rs2, 0)"
    using assms unfolding d by (elim insertE emptyE) (simp_all add: enc_fields decode_op_def chk_op_exceptions_def set_op_fu_def Let_def)
  show "operands (fresh_ins pc fs rm) (enc_s imm rs2 rs1 f3 STORE_MASK) = Some (take_bit 3 f3, take_bit 5 imm, take_bit 5 rs1, take_bit 5 rs2, signed_take_bit 11 imm)"
    unfolding d by (simp add: enc_fields decode_store_def Let_def)
  show "\<exists>rd. operands (fresh_ins pc fs rm) (enc_b imm rs2 rs1 f3 BRANCH_MASK) = Some (take_bit 3 f3, rd, take_bit 5 rs1, take_bit 5 rs2,
      signed_take_bit 12 (push_bit 1 (drop_bit 1 imm)))"
    unfolding d by (simp add: enc_fields decode_branch_def Let_def)
  show "\<exists>f3 rs1 rs2. operands (fresh_ins pc fs rm) (enc_u imm rd LUI_MASK) = Some (f3, take_bit 5 rd, rs1, rs2, push_bit 12 (drop_bit 12 imm))"
    unfolding d by (simp add: enc_fields Let_def)
  show "\<exists>f3 rs1 rs2. operands (fresh_ins pc fs rm) (enc_j imm rd JAL_MASK) = Some (f3, take_bit 5 rd, rs1, rs2, signed_take_bit 20 (push_bit 1 (drop_bit 1 imm)))"
    unfolding d by (simp add: enc_fields decode_jal_def Let_def)
qed

theorem decode_encode_witness:
  "operands (fresh_ins 0 1 0) (enc_r 0x20 7 6 0 5 OP_MASK) = Some (0, 5, 6, 7, 0)
   \<and> operands (fresh_ins 0 1 0) (enc_s (- 4) 7 6 3 STORE_MASK) = Some (3, 28, 6, 7, - 4)"
  using decode_encode [of "0x20" 0 1 0 "- 4" 6 0 5 7] decode_encode [of "0x20" 0 1 0 "- 4" 6 3 5 7] by simp

end
