(* ===== verification/Execute.thy ===== *)
theory Execute
  imports Decoder
begin

text \<open>
  Execution of a decoded instruction, \<^verbatim>\<open>decoder/riscv_isa_execute.c\<close> with the floating-point
  cases of \<^verbatim>\<open>decoder/fp_execute_template.h\<close>, for the 64-bit build. A value of type
  \<^verbatim>\<open>target_long\<close> is a 64-bit word read with \<open>sint\<close>; additions and products wrap. The routines
  of \<^verbatim>\<open>softfp.h\<close> are the argument \<open>sf\<close>; they take the operand size \<^verbatim>\<open>F_SIZE\<close> first and return
  the result with the new exception flags.
\<close>

section \<open>Multiplication and division\<close>

abbreviation (input) target_long_min :: u64 where "target_long_min \<equiv> push_bit 63 1"

definition div64 :: "u64 \<Rightarrow> u64 \<Rightarrow> u64" where
  "div64 a b = (if b = 0 then - 1 else if a = target_long_min \<and> b = - 1 then a
     else word_of_int (sint a sdiv sint b))"

definition divu64 :: "u64 \<Rightarrow> u64 \<Rightarrow> u64" where
  "divu64 a b = (if b = 0 then - 1 else a div b)"

definition rem64 :: "u64 \<Rightarrow> u64 \<Rightarrow> u64" where
  "rem64 a b = (if b = 0 then a else if a = target_long_min \<and> b = - 1 then 0
     else word_of_int (sint a smod sint b))"

definition remu64 :: "u64 \<Rightarrow> u64 \<Rightarrow> u64" where
  "remu64 a b = (if b = 0 then a else a mod b)"

text \<open>
  The high products on a 128-bit integer, which a compiler with \<^verbatim>\<open>__int128\<close> builds
  (\<^verbatim>\<open>HAVE_INT128\<close>, \<^verbatim>\<open>cutils.h\<close>); a product that leaves its range wraps.
\<close>

definition mulh64 :: "u64 \<Rightarrow> u64 \<Rightarrow> u64" where
  "mulh64 a b = ucast (signed_drop_bit 64 (scast a * scast b :: 128 word))"

definition mulhsu64 :: "u64 \<Rightarrow> u64 \<Rightarrow> u64" where
  "mulhsu64 a b = ucast (signed_drop_bit 64 (scast a * ucast b :: 128 word))"

definition mulhu64 :: "u64 \<Rightarrow> u64 \<Rightarrow> u64" where
  "mulhu64 a b = ucast (signed_drop_bit 64 (ucast a * ucast b :: 128 word))"

text \<open>The same on half words, for other compilers; \<^verbatim>\<open>(UHALF)x\<close> is \<open>take_bit 32 x\<close>.\<close>

definition mulhu64_half :: "u64 \<Rightarrow> u64 \<Rightarrow> u64" where
  "mulhu64_half a b =
    (let a0 = take_bit 32 a; a1 = take_bit 32 (drop_bit 32 a); b0 = take_bit 32 b; b1 = take_bit 32 (drop_bit 32 b);
         r00 = a0 * b0; r01 = a0 * b1; r10 = a1 * b0; r11 = a1 * b1;
         c = drop_bit 32 r00 + take_bit 32 r01 + take_bit 32 r10;
         c' = drop_bit 32 c + drop_bit 32 r01 + drop_bit 32 r10 + take_bit 32 r11;
         r2 = take_bit 32 c'; r3 = take_bit 32 (drop_bit 32 c' + drop_bit 32 r11) in
     push_bit 32 r3 OR r2)"

definition mulh64_half :: "u64 \<Rightarrow> u64 \<Rightarrow> u64" where
  "mulh64_half a b =
    (let r1 = mulhu64_half a b; r2 = (if sint a < 0 then r1 - a else r1) in
     if sint b < 0 then r2 - b else r2)"

definition mulhsu64_half :: "u64 \<Rightarrow> u64 \<Rightarrow> u64" where
  "mulhsu64_half a b = (let r1 = mulhu64_half a b in if sint a < 0 then r1 - a else r1)"

section \<open>Integer instructions\<close>

text \<open>\<^verbatim>\<open>i->imm\<close> converted to 64 bits, and a cast \<^verbatim>\<open>(int32_t)\<close> of a value stored in \<^verbatim>\<open>i->buffer\<close>.\<close>

definition simm :: "RVInstruction \<Rightarrow> u64" where
  "simm i = scast (i_imm i)"

definition int32 :: "u64 \<Rightarrow> u64" where
  "int32 x = scast (ucast x :: u32)"

definition of_cond :: "bool \<Rightarrow> u64" where
  "of_cond c = (if c then 1 else 0)"

definition execute_op_imm :: "RVInstruction \<Rightarrow> RVInstruction" where
  "execute_op_imm i =
    (let funct3 = drop_bit 12 (i_binary i) AND 7; a = i_rs1_val i; sh = unat (i_imm i AND (BIT_SIZE - 1)) in
     if funct3 = 0 then i\<lparr>i_buffer := a + simm i\<rparr>
     else if funct3 = 1 then i\<lparr>i_buffer := push_bit sh a\<rparr>
     else if funct3 = 2 then i\<lparr>i_buffer := of_cond (sint a < sint (simm i))\<rparr>
     else if funct3 = 3 then i\<lparr>i_buffer := of_cond (a < simm i)\<rparr>
     else if funct3 = 4 then i\<lparr>i_buffer := a XOR simm i\<rparr>
     else if funct3 = 5 then
       if i_imm i AND 0x400 \<noteq> 0 then i\<lparr>i_buffer := signed_drop_bit sh a\<rparr> else i\<lparr>i_buffer := drop_bit sh a\<rparr>
     else if funct3 = 6 then i\<lparr>i_buffer := a OR simm i\<rparr>
     else if funct3 = 7 then i\<lparr>i_buffer := a AND simm i\<rparr>
     else i)"

definition execute_op_imm_32 :: "RVInstruction \<Rightarrow> RVInstruction" where
  "execute_op_imm_32 i =
    (let funct3 = drop_bit 12 (i_binary i) AND 7; a = i_rs1_val i; sh = unat (i_imm i AND 31) in
     if funct3 = 0 then i\<lparr>i_buffer := int32 (a + simm i)\<rparr>
     else if funct3 = 1 then i\<lparr>i_buffer := int32 (push_bit sh a)\<rparr>
     else if funct3 = 5 then
       if i_imm i AND 0x400 \<noteq> 0 then i\<lparr>i_buffer := scast (signed_drop_bit sh (ucast a :: u32))\<rparr>
       else i\<lparr>i_buffer := scast (drop_bit sh (ucast a :: u32))\<rparr>
     else i)"

definition execute_op :: "RVInstruction \<Rightarrow> RVInstruction" where
  "execute_op i =
    (let insn = i_binary i; a = i_rs1_val i; b = i_rs2_val i; sh = unat (b AND 63) in
     if drop_bit 25 insn = 1 then
       let funct3 = drop_bit 12 insn AND 7 in
       if funct3 = 0 then i\<lparr>i_buffer := a * b\<rparr>
       else if funct3 = 1 then i\<lparr>i_buffer := mulh64 a b\<rparr>
       else if funct3 = 2 then i\<lparr>i_buffer := mulhsu64 a b\<rparr>
       else if funct3 = 3 then i\<lparr>i_buffer := mulhu64 a b\<rparr>
       else if funct3 = 4 then i\<lparr>i_buffer := div64 a b\<rparr>
       else if funct3 = 5 then i\<lparr>i_buffer := divu64 a b\<rparr>
       else if funct3 = 6 then i\<lparr>i_buffer := rem64 a b\<rparr>
       else if funct3 = 7 then i\<lparr>i_buffer := remu64 a b\<rparr>
       else i
     else
       let funct3 = (drop_bit 12 insn AND 7) OR (drop_bit (30 - 3) insn AND push_bit 3 1) in
       if funct3 = 0 then i\<lparr>i_buffer := a + b\<rparr>
       else if funct3 = 8 then i\<lparr>i_buffer := a - b\<rparr>
       else if funct3 = 1 then i\<lparr>i_buffer := push_bit sh a\<rparr>
       else if funct3 = 2 then i\<lparr>i_buffer := of_cond (sint a < sint b)\<rparr>
       else if funct3 = 3 then i\<lparr>i_buffer := of_cond (a < b)\<rparr>
       else if funct3 = 4 then i\<lparr>i_buffer := a XOR b\<rparr>
       else if funct3 = 5 then i\<lparr>i_buffer := drop_bit sh a\<rparr>
       else if funct3 = 13 then i\<lparr>i_buffer := signed_drop_bit sh a\<rparr>
       else if funct3 = 6 then i\<lparr>i_buffer := a OR b\<rparr>
       else if funct3 = 7 then i\<lparr>i_buffer := a AND b\<rparr>
       else i)"

definition execute_op_32 :: "RVInstruction \<Rightarrow> RVInstruction" where
  "execute_op_32 i =
    (let insn = i_binary i; a = i_rs1_val i; b = i_rs2_val i; sh = unat (b AND 31) in
     if drop_bit 25 insn = 1 then
       let funct3 = drop_bit 12 insn AND 7 in
       if funct3 = 0 then i\<lparr>i_buffer := scast (ucast a * ucast b :: u32)\<rparr>
       else if funct3 = 4 then i\<lparr>i_buffer := div64 a b\<rparr>
       else if funct3 = 5 then i\<lparr>i_buffer := int32 (divu64 a b)\<rparr>
       else if funct3 = 6 then i\<lparr>i_buffer := rem64 a b\<rparr>
       else if funct3 = 7 then i\<lparr>i_buffer := int32 (remu64 a b)\<rparr>
       else i
     else
       let funct3 = (drop_bit 12 insn AND 7) OR (drop_bit (30 - 3) insn AND push_bit 3 1) in
       if funct3 = 0 then i\<lparr>i_buffer := int32 (a + b)\<rparr>
       else if funct3 = 8 then i\<lparr>i_buffer := int32 (a - b)\<rparr>
       else if funct3 = 1 then i\<lparr>i_buffer := scast (push_bit sh (ucast a :: u32))\<rparr>
       else if funct3 = 5 then i\<lparr>i_buffer := scast (drop_bit sh (ucast a :: u32))\<rparr>
       else if funct3 = 13 then i\<lparr>i_buffer := scast (signed_drop_bit sh (ucast a :: u32))\<rparr>
       else i)"

definition execute_type_b :: "RVInstruction \<Rightarrow> RVInstruction" where
  "execute_type_b i =
    (let funct3 = drop_bit 12 (i_binary i) AND 7; k = drop_bit 1 funct3; a = i_rs1_val i; b = i_rs2_val i;
         c = (\<lambda>p. if p then 1 else 0 :: u32);
         cond = (if k = 0 then c (a = b) else if k = 2 then c (sint a < sint b) else if k = 3 then c (a < b) else - 1) in
     i\<lparr>i_cond := cond XOR (funct3 AND 1), i_target := i_pc i + simm i\<rparr>)"

section \<open>Compressed instructions\<close>

definition execute_ext_c_q0 :: "RVInstruction \<Rightarrow> RVInstruction" where
  "execute_ext_c_q0 i =
    (if i_funct3 i = 0 then i\<lparr>i_buffer := i_rs1_val i + simm i\<rparr>
     else if i_funct3 i \<in> {1, 2, 3, 5, 6, 7} then i\<lparr>i_mem_addr := i_rs1_val i + simm i\<rparr>
     else i)"

text \<open>A shift by \<^verbatim>\<open>i->imm\<close>, which C leaves undefined outside of 0 to 63.\<close>

definition shift_imm :: "RVInstruction \<Rightarrow> (nat \<Rightarrow> u64) \<Rightarrow> sim_error + RVInstruction" where
  "shift_imm i f = (if unat (i_imm i) < 64 then Inr (i\<lparr>i_buffer := f (unat (i_imm i))\<rparr>) else Inl Undefined_shift)"

definition execute_q1_arith :: "RVInstruction \<Rightarrow> sim_error + RVInstruction" where
  "execute_q1_arith i =
    (let a = i_rs1_val i; b = i_rs2_val i in
     if i_funct4 i = 0 then shift_imm i (\<lambda>n. drop_bit n a)
     else if i_funct4 i = 1 then shift_imm i (\<lambda>n. signed_drop_bit n a)
     else if i_funct4 i = 2 then Inr (i\<lparr>i_buffer := a AND simm i\<rparr>)
     else if i_funct4 i = 3 then
       if i_funct5 i = 0 then Inr (i\<lparr>i_buffer := a - b\<rparr>)
       else if i_funct5 i = 1 then Inr (i\<lparr>i_buffer := a XOR b\<rparr>)
       else if i_funct5 i = 2 then Inr (i\<lparr>i_buffer := a OR b\<rparr>)
       else if i_funct5 i = 3 then Inr (i\<lparr>i_buffer := a AND b\<rparr>)
       else if i_funct5 i = 4 then Inr (i\<lparr>i_buffer := int32 (a - b)\<rparr>)
       else if i_funct5 i = 5 then Inr (i\<lparr>i_buffer := int32 (a + b)\<rparr>)
       else Inr i
     else Inr i)"

definition execute_ext_c_q1 :: "RVInstruction \<Rightarrow> sim_error + RVInstruction" where
  "execute_ext_c_q1 i =
    (let a = i_rs1_val i; f = i_funct3 i; c = (\<lambda>p. if p then 1 else 0 :: u32) in
     if f = 0 then Inr (i\<lparr>i_buffer := a + simm i\<rparr>)
     else if f = 1 then Inr (i\<lparr>i_buffer := int32 (a + simm i)\<rparr>)
     else if f = 2 then Inr (i\<lparr>i_buffer := simm i\<rparr>)
     else if f = 3 then
       if i_rd i = 2 then Inr (i\<lparr>i_buffer := a + simm i\<rparr>)
       else if i_rd i \<noteq> 0 then Inr (i\<lparr>i_buffer := simm i\<rparr>)
       else Inr i
     else if f = 4 then execute_q1_arith i
     else if f = 5 then Inr (i\<lparr>i_target := i_pc i + simm i\<rparr>)
     else if f = 6 then Inr (i\<lparr>i_cond := c (a = 0), i_target := i_pc i + simm i\<rparr>)
     else if f = 7 then Inr (i\<lparr>i_cond := c (a \<noteq> 0), i_target := i_pc i + simm i\<rparr>)
     else Inr i)"

definition execute_ext_c_q2 :: "RVInstruction \<Rightarrow> sim_error + RVInstruction" where
  "execute_ext_c_q2 i =
    (let a = i_rs1_val i; b = i_rs2_val i; f = i_funct3 i in
     if f = 0 then shift_imm i (\<lambda>n. push_bit n a)
     else if f = 4 then
       if drop_bit 12 (i_binary i) AND 1 = 0 then
         if i_rs2 i = 0 then Inr (i\<lparr>i_target := a AND NOT 1\<rparr>)
         else Inr (i\<lparr>i_buffer := b\<rparr>)
       else if i_rs2 i = 0 then
         if i_rd i = 0 then Inr i
         else Inr (i\<lparr>i_buffer := i_pc i + 2, i_target := a AND NOT 1\<rparr>)
       else Inr (i\<lparr>i_buffer := a + b\<rparr>)
     else if f \<in> {1, 2, 3, 5, 6, 7} then Inr (i\<lparr>i_mem_addr := a + simm i\<rparr>)
     else Inr i)"

definition execute_ext_c_path :: "RVInstruction \<Rightarrow> sim_error + RVInstruction" where
  "execute_ext_c_path i =
    (if i_quad i = 0 then Inr (execute_ext_c_q0 i)
     else if i_quad i = 1 then execute_ext_c_q1 i
     else if i_quad i = 2 then execute_ext_c_q2 i
     else Inr i)"

section \<open>Floating point\<close>

text \<open>The routines of \<^verbatim>\<open>softfp.h\<close>: size, operands, rounding mode and flags to result and flags.\<close>

record SoftFp =
  add_sf :: "nat \<Rightarrow> u64 \<Rightarrow> u64 \<Rightarrow> u32 \<Rightarrow> u32 \<Rightarrow> u64 \<times> u32"
  sub_sf :: "nat \<Rightarrow> u64 \<Rightarrow> u64 \<Rightarrow> u32 \<Rightarrow> u32 \<Rightarrow> u64 \<times> u32"
  mul_sf :: "nat \<Rightarrow> u64 \<Rightarrow> u64 \<Rightarrow> u32 \<Rightarrow> u32 \<Rightarrow> u64 \<times> u32"
  div_sf :: "nat \<Rightarrow> u64 \<Rightarrow> u64 \<Rightarrow> u32 \<Rightarrow> u32 \<Rightarrow> u64 \<times> u32"
  sqrt_sf :: "nat \<Rightarrow> u64 \<Rightarrow> u32 \<Rightarrow> u32 \<Rightarrow> u64 \<times> u32"
  fma_sf :: "nat \<Rightarrow> u64 \<Rightarrow> u64 \<Rightarrow> u64 \<Rightarrow> u32 \<Rightarrow> u32 \<Rightarrow> u64 \<times> u32"
  min_sf :: "nat \<Rightarrow> u64 \<Rightarrow> u64 \<Rightarrow> u32 \<Rightarrow> u64 \<times> u32"
  max_sf :: "nat \<Rightarrow> u64 \<Rightarrow> u64 \<Rightarrow> u32 \<Rightarrow> u64 \<times> u32"
  le_sf :: "nat \<Rightarrow> u64 \<Rightarrow> u64 \<Rightarrow> u32 \<Rightarrow> u64 \<times> u32"
  lt_sf :: "nat \<Rightarrow> u64 \<Rightarrow> u64 \<Rightarrow> u32 \<Rightarrow> u64 \<times> u32"
  eq_quiet_sf :: "nat \<Rightarrow> u64 \<Rightarrow> u64 \<Rightarrow> u32 \<Rightarrow> u64 \<times> u32"
  fclass_sf :: "nat \<Rightarrow> u64 \<Rightarrow> u32"
  cvt_sf_i32 :: "nat \<Rightarrow> u64 \<Rightarrow> u32 \<Rightarrow> u32 \<Rightarrow> u32 \<times> u32"
  cvt_sf_u32 :: "nat \<Rightarrow> u64 \<Rightarrow> u32 \<Rightarrow> u32 \<Rightarrow> u32 \<times> u32"
  cvt_sf_i64 :: "nat \<Rightarrow> u64 \<Rightarrow> u32 \<Rightarrow> u32 \<Rightarrow> u64 \<times> u32"
  cvt_sf_u64 :: "nat \<Rightarrow> u64 \<Rightarrow> u32 \<Rightarrow> u32 \<Rightarrow> u64 \<times> u32"
  cvt_i32_sf :: "nat \<Rightarrow> u32 \<Rightarrow> u32 \<Rightarrow> u32 \<Rightarrow> u64 \<times> u32"
  cvt_u32_sf :: "nat \<Rightarrow> u32 \<Rightarrow> u32 \<Rightarrow> u32 \<Rightarrow> u64 \<times> u32"
  cvt_i64_sf :: "nat \<Rightarrow> u64 \<Rightarrow> u32 \<Rightarrow> u32 \<Rightarrow> u64 \<times> u32"
  cvt_u64_sf :: "nat \<Rightarrow> u64 \<Rightarrow> u32 \<Rightarrow> u32 \<Rightarrow> u64 \<times> u32"
  cvt_sf64_sf32 :: "u64 \<Rightarrow> u32 \<Rightarrow> u32 \<Rightarrow> u64 \<times> u32"
  cvt_sf32_sf64 :: "u64 \<Rightarrow> u32 \<Rightarrow> u64 \<times> u32"

definition F_HIGH :: "nat \<Rightarrow> u64" where
  "F_HIGH fsz = (if fsz = 32 then push_bit 32 (- 1) else 0)"

text \<open>\<^verbatim>\<open>FSIGN_MASK32\<close> is the negative \<^verbatim>\<open>int\<close> \<^verbatim>\<open>1 << 31\<close>, which sign-extends.\<close>

definition FSIGN_MASK :: "nat \<Rightarrow> u64" where
  "FSIGN_MASK fsz = (if fsz = 32 then push_bit 31 (- 1) else push_bit 63 1)"

text \<open>Passing a register as \<^verbatim>\<open>sfloat32\<close> keeps its low half; storing a result sets the half above it.\<close>

definition sf_arg :: "nat \<Rightarrow> u64 \<Rightarrow> u64" where
  "sf_arg fsz v = take_bit fsz v"

definition boxed :: "nat \<Rightarrow> RVInstruction \<Rightarrow> u64 \<times> u32 \<Rightarrow> RVInstruction \<times> u32" where
  "boxed fsz i r = (i\<lparr>i_buffer := sf_arg fsz (fst r) OR F_HIGH fsz\<rparr>, snd r)"

definition stored :: "RVInstruction \<Rightarrow> u64 \<times> u32 \<Rightarrow> RVInstruction \<times> u32" where
  "stored i r = (i\<lparr>i_buffer := fst r\<rparr>, snd r)"

definition execute_fma :: "SoftFp \<Rightarrow> nat \<Rightarrow> bool \<Rightarrow> bool \<Rightarrow> RVInstruction \<Rightarrow> u32 \<Rightarrow> RVInstruction \<times> u32" where
  "execute_fma sf fsz neg1 neg3 i fflags =
    (let flip = (\<lambda>n v. sf_arg fsz (if n then v XOR FSIGN_MASK fsz else v)) in
     boxed fsz i (fma_sf sf fsz (flip neg1 (i_rs1_val i)) (flip False (i_rs2_val i)) (flip neg3 (i_rs3_val i)) (i_rm i) fflags))"

definition execute_fma_op :: "SoftFp \<Rightarrow> bool \<Rightarrow> bool \<Rightarrow> RVInstruction \<Rightarrow> u32 \<Rightarrow> RVInstruction \<times> u32" where
  "execute_fma_op sf neg1 neg3 i fflags =
    (if i_funct3 i = 0 then execute_fma sf 32 neg1 neg3 i fflags
     else if i_funct3 i = 1 then execute_fma sf 64 neg1 neg3 i fflags
     else (i, fflags))"

definition fsgnj :: "nat \<Rightarrow> u32 \<Rightarrow> RVInstruction \<Rightarrow> RVInstruction" where
  "fsgnj fsz rm i =
    (let m = FSIGN_MASK fsz; a = i_rs1_val i; b = i_rs2_val i in
     if rm = 0 then i\<lparr>i_buffer := (a AND NOT m) OR (b AND m)\<rparr>
     else if rm = 1 then i\<lparr>i_buffer := (a AND NOT m) OR ((b AND m) XOR m)\<rparr>
     else if rm = 2 then i\<lparr>i_buffer := a XOR (b AND m)\<rparr>
     else i)"

definition fp_minmax :: "SoftFp \<Rightarrow> nat \<Rightarrow> RVInstruction \<Rightarrow> u32 \<Rightarrow> RVInstruction \<times> u32" where
  "fp_minmax sf fsz i fflags =
    (let a = sf_arg fsz (i_rs1_val i); b = sf_arg fsz (i_rs2_val i) in
     if i_rm i = 0 then boxed fsz (i\<lparr>i_fpu_alu_type := 6\<rparr>) (min_sf sf fsz a b fflags)
     else if i_rm i = 1 then boxed fsz (i\<lparr>i_fpu_alu_type := 7\<rparr>) (max_sf sf fsz a b fflags)
     else (i, fflags))"

definition fp_compare :: "SoftFp \<Rightarrow> nat \<Rightarrow> RVInstruction \<Rightarrow> u32 \<Rightarrow> RVInstruction \<times> u32" where
  "fp_compare sf fsz i fflags =
    (let a = sf_arg fsz (i_rs1_val i); b = sf_arg fsz (i_rs2_val i) in
     if i_rm i = 0 then stored (i\<lparr>i_fpu_alu_type := 10\<rparr>) (le_sf sf fsz a b fflags)
     else if i_rm i = 1 then stored (i\<lparr>i_fpu_alu_type := 9\<rparr>) (lt_sf sf fsz a b fflags)
     else if i_rm i = 2 then stored (i\<lparr>i_fpu_alu_type := 8\<rparr>) (eq_quiet_sf sf fsz a b fflags)
     else (i, fflags))"

definition fp_to_int :: "SoftFp \<Rightarrow> nat \<Rightarrow> RVInstruction \<Rightarrow> u32 \<Rightarrow> RVInstruction \<times> u32" where
  "fp_to_int sf fsz i fflags =
    (let a = sf_arg fsz (i_rs1_val i); sext = (\<lambda>(r :: u32, fl). (scast r, fl)) in
     if i_rs2 i = 0 then stored i (sext (cvt_sf_i32 sf fsz a (i_rm i) fflags))
     else if i_rs2 i = 1 then stored i (sext (cvt_sf_u32 sf fsz a (i_rm i) fflags))
     else if i_rs2 i = 2 then stored i (cvt_sf_i64 sf fsz a (i_rm i) fflags)
     else if i_rs2 i = 3 then stored i (cvt_sf_u64 sf fsz a (i_rm i) fflags)
     else (i, fflags))"

definition fp_of_int :: "SoftFp \<Rightarrow> nat \<Rightarrow> RVInstruction \<Rightarrow> u32 \<Rightarrow> RVInstruction \<times> u32" where
  "fp_of_int sf fsz i fflags =
    (let a = i_rs1_val i in
     if i_rs2 i = 0 then boxed fsz i (cvt_i32_sf sf fsz (ucast a) (i_rm i) fflags)
     else if i_rs2 i = 1 then boxed fsz i (cvt_u32_sf sf fsz (ucast a) (i_rm i) fflags)
     else if i_rs2 i = 2 then boxed fsz i (cvt_i64_sf sf fsz a (i_rm i) fflags)
     else if i_rs2 i = 3 then boxed fsz i (cvt_u64_sf sf fsz a (i_rm i) fflags)
     else (i, fflags))"

definition fp_cvt :: "SoftFp \<Rightarrow> nat \<Rightarrow> RVInstruction \<Rightarrow> u32 \<Rightarrow> RVInstruction \<times> u32" where
  "fp_cvt sf fsz i fflags =
    (if fsz = 32 \<and> i_rs2 i = 1 then boxed 32 i (cvt_sf64_sf32 sf (i_rs1_val i) (i_rm i) fflags)
     else if fsz = 64 \<and> i_rs2 i = 0 then boxed 64 i (cvt_sf32_sf64 sf (sf_arg 32 (i_rs1_val i)) fflags)
     else (i, fflags))"

definition fmv :: "nat \<Rightarrow> RVInstruction \<Rightarrow> RVInstruction" where
  "fmv fsz i = i\<lparr>i_buffer := if fsz = 32 then int32 (i_rs1_val i) else i_rs1_val i\<rparr>"

definition fp_execute_template :: "SoftFp \<Rightarrow> nat \<Rightarrow> RVInstruction \<Rightarrow> u32 \<Rightarrow> (RVInstruction \<times> u32) option" where
  "fp_execute_template sf fsz i fflags =
    (let f = i_funct7 i; op = (\<lambda>k. push_bit 2 k OR (if fsz = 32 then 0 else 1)); rm = i_rm i;
         a = sf_arg fsz (i_rs1_val i); b = sf_arg fsz (i_rs2_val i) in
     if f = op 0x00 then Some (boxed fsz (i\<lparr>i_fpu_alu_type := 0, i_type := INS_TYPE_FP_ADD\<rparr>) (add_sf sf fsz a b rm fflags))
     else if f = op 0x01 then Some (boxed fsz (i\<lparr>i_fpu_alu_type := 1\<rparr>) (sub_sf sf fsz a b rm fflags))
     else if f = op 0x02 then Some (boxed fsz (i\<lparr>i_fpu_alu_type := 2, i_type := INS_TYPE_FP_MUL\<rparr>) (mul_sf sf fsz a b rm fflags))
     else if f = op 0x03 then Some (boxed fsz (i\<lparr>i_fpu_alu_type := 3, i_type := INS_TYPE_FP_DIV_SQRT\<rparr>) (div_sf sf fsz a b rm fflags))
     else if f = op 0x0b then Some (boxed fsz (i\<lparr>i_fpu_alu_type := 4, i_type := INS_TYPE_FP_DIV_SQRT\<rparr>) (sqrt_sf sf fsz a rm fflags))
     else if f = op 0x04 then Some (fsgnj fsz rm (i\<lparr>i_fpu_alu_type := 5\<rparr>), fflags)
     else if f = op 0x05 then Some (fp_minmax sf fsz i fflags)
     else if f = op 0x18 then Some (fp_to_int sf fsz (i\<lparr>i_fpu_alu_type := 11\<rparr>) fflags)
     else if f = op 0x14 then Some (fp_compare sf fsz i fflags)
     else if f = op 0x1a then Some (fp_of_int sf fsz (i\<lparr>i_fpu_alu_type := 11\<rparr>) fflags)
     else if f = op 0x08 then Some (fp_cvt sf fsz (i\<lparr>i_fpu_alu_type := 12\<rparr>) fflags)
     else if f = op 0x1c then
       if rm = 0 then Some (fmv fsz (i\<lparr>i_fpu_alu_type := 13\<rparr>), fflags)
       else if rm = 1 then Some (i\<lparr>i_fpu_alu_type := 14, i_buffer := ucast (fclass_sf sf fsz a)\<rparr>, fflags)
       else Some (i\<lparr>i_fpu_alu_type := 13\<rparr>, fflags)
     else if f = op 0x1e then Some (fmv fsz (i\<lparr>i_fpu_alu_type := 13\<rparr>), fflags)
     else None)"

definition execute_f_arithmetic :: "SoftFp \<Rightarrow> RVInstruction \<Rightarrow> u32 \<Rightarrow> RVInstruction \<times> u32" where
  "execute_f_arithmetic sf i fflags =
    (case fp_execute_template sf 32 i fflags of Some r \<Rightarrow> r
     | None \<Rightarrow> (case fp_execute_template sf 64 i fflags of Some r \<Rightarrow> r | None \<Rightarrow> (i, fflags)))"

section \<open>Dispatch\<close>

definition execute_major_opcode :: "SoftFp \<Rightarrow> RVInstruction \<Rightarrow> u32 \<Rightarrow> RVInstruction \<times> u32" where
  "execute_major_opcode sf i fflags =
    (let opc = i_major_opcode i; addr = i\<lparr>i_mem_addr := i_rs1_val i + simm i\<rparr> in
     if opc = OP_IMM_MASK then (execute_op_imm i, fflags)
     else if opc = OP_IMM_32_MASK then (execute_op_imm_32 i, fflags)
     else if opc = OP_MASK then (execute_op i, fflags)
     else if opc = OP_MASK_32 then (execute_op_32 i, fflags)
     else if opc = LUI_MASK then (i\<lparr>i_buffer := simm i\<rparr>, fflags)
     else if opc = AUIPC_MASK then (i\<lparr>i_buffer := i_pc i + simm i\<rparr>, fflags)
     else if opc = LOAD_MASK then (addr, fflags)
     else if opc = STORE_MASK then (addr, fflags)
     else if opc = JAL_MASK then (i\<lparr>i_buffer := i_pc i + 4, i_target := i_pc i + simm i\<rparr>, fflags)
     else if opc = JALR_MASK then (i\<lparr>i_buffer := i_pc i + 4, i_target := i_rs1_val i + simm i\<rparr>, fflags)
     else if opc = BRANCH_MASK then (execute_type_b i, fflags)
     else if opc = ATOMIC_MASK then (i\<lparr>i_mem_addr := i_rs1_val i\<rparr>, fflags)
     else if opc = FLOAD_MASK then (addr, fflags)
     else if opc = FSTORE_MASK then (addr, fflags)
     else if opc = FMADD_MASK then execute_fma_op sf False False i fflags
     else if opc = FMSUB_MASK then execute_fma_op sf False True i fflags
     else if opc = FNMSUB_MASK then execute_fma_op sf True False i fflags
     else if opc = FNMADD_MASK then execute_fma_op sf True True i fflags
     else if opc = F_ARITHMETIC_MASK then execute_f_arithmetic sf i fflags
     else if opc = AIM_CUSTOM_1_MASK then (addr, fflags)
     else (i, fflags))"

definition execute_riscv_instruction ::
    "SoftFp \<Rightarrow> RVInstruction \<Rightarrow> u32 \<Rightarrow> sim_error + RVInstruction \<times> u32" where
  "execute_riscv_instruction sf i fflags =
    (if i_binary i AND 3 \<noteq> 3 then bindR (execute_ext_c_path i) (\<lambda>i'. Inr (i', fflags))
     else Inr (execute_major_opcode sf i fflags))"

end
