(* ===== verification/Compressed.thy ===== *)
theory Compressed
  imports Riscv_Encoding Execute
begin

text \<open>
  The compressed instructions against their expansions: the RISC-V manual defines each 16-bit
  instruction as one 32-bit instruction. The decoder and the execute stage treat the two through
  separate code; they have the same effect.
\<close>

section \<open>Expansion\<close>

text \<open>
  \<open>field d n s w\<close> moves the \<open>n\<close> bits of \<open>w\<close> from position \<open>s\<close> to position \<open>d\<close>. Immediates are given as in the manual's
  tables: the bits of the instruction from \<open>s\<close> downwards are the bits of the immediate listed.
\<close>

definition field :: "nat \<Rightarrow> nat \<Rightarrow> nat \<Rightarrow> u32 \<Rightarrow> u32" where
  "field d n s w = push_bit d (take_bit n (drop_bit s w))"

primrec gather :: "u32 \<Rightarrow> nat \<Rightarrow> nat list \<Rightarrow> u32" where
  "gather w s [] = 0"
| "gather w s (d # ds) = field d 1 s w OR gather w (s - 1) ds"

abbreviation imm6 :: "u32 \<Rightarrow> u32" where
  "imm6 w \<equiv> gather w 12 [5] OR gather w 6 [4, 3, 2, 1, 0]"

definition expand_q0 :: "u32 \<Rightarrow> u32 option" where
  "expand_q0 w =
    (let f3 = field 0 3 13 w; rd' = 8 OR field 0 3 2 w; rs1' = 8 OR field 0 3 7 w;
         d = gather w 12 [5, 4, 3] OR gather w 6 [7, 6]; s = gather w 12 [5, 4, 3] OR gather w 6 [2, 6];
         spn = gather w 12 [5, 4, 9, 8, 7, 6, 2, 3] in
     if f3 = 0 then if spn = 0 then None else Some (enc_i spn 2 0 rd' OP_IMM_MASK)
     else if f3 = 1 then Some (enc_i d rs1' 3 rd' FLOAD_MASK)
     else if f3 = 2 then Some (enc_i s rs1' 2 rd' LOAD_MASK)
     else if f3 = 3 then Some (enc_i d rs1' 3 rd' LOAD_MASK)
     else if f3 = 5 then Some (enc_s d rd' rs1' 3 FSTORE_MASK)
     else if f3 = 6 then Some (enc_s s rd' rs1' 2 STORE_MASK)
     else if f3 = 7 then Some (enc_s d rd' rs1' 3 STORE_MASK)
     else None)"

definition expand_q1_arith :: "u32 \<Rightarrow> u32 option" where
  "expand_q1_arith w =
    (let rd' = 8 OR field 0 3 7 w; rs2' = 8 OR field 0 3 2 w; f = field 0 2 10 w; g = field 0 2 5 w OR field 2 1 12 w in
     if f = 0 then Some (enc_i (imm6 w) rd' 5 rd' OP_IMM_MASK)
     else if f = 1 then Some (enc_i (imm6 w OR 0x400) rd' 5 rd' OP_IMM_MASK)
     else if f = 2 then Some (enc_i (signed_take_bit 5 (imm6 w)) rd' 7 rd' OP_IMM_MASK)
     else if g = 0 then Some (enc_r 0x20 rs2' rd' 0 rd' OP_MASK)
     else if g = 1 then Some (enc_r 0 rs2' rd' 4 rd' OP_MASK)
     else if g = 2 then Some (enc_r 0 rs2' rd' 6 rd' OP_MASK)
     else if g = 3 then Some (enc_r 0 rs2' rd' 7 rd' OP_MASK)
     else if g = 4 then Some (enc_r 0x20 rs2' rd' 0 rd' OP_MASK_32)
     else if g = 5 then Some (enc_r 0 rs2' rd' 0 rd' OP_MASK_32)
     else None)"

definition expand_q1 :: "u32 \<Rightarrow> u32 option" where
  "expand_q1 w =
    (let f3 = field 0 3 13 w; rd = field 0 5 7 w; rs1' = 8 OR field 0 3 7 w; i = signed_take_bit 5 (imm6 w);
         sp = signed_take_bit 9 (gather w 12 [9] OR gather w 6 [4, 6, 8, 7, 5]);
         j = signed_take_bit 11 (gather w 12 [11, 4, 9, 8, 10, 6, 7, 3, 2, 1, 5]);
         b = signed_take_bit 8 (gather w 12 [8, 4, 3] OR gather w 6 [7, 6, 2, 1, 5]) in
     if f3 = 0 then Some (enc_i i rd 0 rd OP_IMM_MASK)
     else if f3 = 1 then Some (enc_i i rd 0 rd OP_IMM_32_MASK)
     else if f3 = 2 then Some (enc_i i 0 0 rd OP_IMM_MASK)
     else if f3 = 3 then
       if rd = 2 then if sp = 0 then None else Some (enc_i sp 2 0 2 OP_IMM_MASK)
       else if rd = 0 then None
       else Some (enc_u (signed_take_bit 17 (gather w 12 [17] OR gather w 6 [16, 15, 14, 13, 12])) rd LUI_MASK)
     else if f3 = 4 then expand_q1_arith w
     else if f3 = 5 then Some (enc_j j 0 JAL_MASK)
     else if f3 = 6 then Some (enc_b b 0 rs1' 0 BRANCH_MASK)
     else Some (enc_b b 0 rs1' 1 BRANCH_MASK))"

definition expand_q2 :: "u32 \<Rightarrow> u32 option" where
  "expand_q2 w =
    (let f3 = field 0 3 13 w; rd = field 0 5 7 w; rs2 = field 0 5 2 w;
         ld = gather w 12 [5] OR gather w 6 [4, 3, 8, 7, 6]; lw = gather w 12 [5] OR gather w 6 [4, 3, 2, 7, 6];
         sd = gather w 12 [5, 4, 3, 8, 7, 6]; sw = gather w 12 [5, 4, 3, 2, 7, 6] in
     if f3 = 0 then Some (enc_i (imm6 w) rd 1 rd OP_IMM_MASK)
     else if f3 = 1 then Some (enc_i ld 2 3 rd FLOAD_MASK)
     else if f3 = 2 then Some (enc_i lw 2 2 rd LOAD_MASK)
     else if f3 = 3 then Some (enc_i ld 2 3 rd LOAD_MASK)
     else if f3 = 4 then
       if rs2 = 0 then None
       else if field 0 1 12 w = 0 then Some (enc_r 0 rs2 0 0 rd OP_MASK)
       else Some (enc_r 0 rs2 rd 0 rd OP_MASK)
     else if f3 = 5 then Some (enc_s sd rs2 2 3 FSTORE_MASK)
     else if f3 = 6 then Some (enc_s sw rs2 2 2 STORE_MASK)
     else Some (enc_s sd rs2 2 3 STORE_MASK))"

text \<open>
  The jumps through a register are left out: the compressed forms clear bit 0 of the target and
  link to the next 16-bit address.
\<close>

definition expand :: "u32 \<Rightarrow> u32 option" where
  "expand w = (let q = field 0 2 0 w in
     if q = 0 then expand_q0 w else if q = 1 then expand_q1 w else if q = 2 then expand_q2 w else None)"

section \<open>Effects\<close>

text \<open>
  What an executed instruction does: the integer register it writes, the access it makes (a load or store, its
  size, sign extension and address, with the register it moves and its file) and the
  address it jumps to.
\<close>

definition effect :: "RVInstruction \<Rightarrow> (u32 \<times> u64) option
    \<times> (bool \<times> int \<times> bool \<times> u64 \<times> u32 \<times> bool) option \<times> u64 option" where
  "effect i =
    ((if i_has_dest i \<and> i_rd i \<noteq> 0 \<and> \<not> i_is_load i then Some (i_rd i, i_buffer i) else None),
     (if i_is_load i then Some (True, i_bytes_to_rw i, i_is_unsigned i, i_mem_addr i, i_rd i, i_has_fp_dest i)
      else if i_is_store i then Some (False, i_bytes_to_rw i, i_is_unsigned i, i_mem_addr i, i_rs2 i, i_has_fp_src2 i)
      else None),
     (if i_is_branch i \<and> (i_branch_type i = BRANCH_UNCOND \<or> i_cond i \<noteq> 0) then Some (i_target i) else None))"

text \<open>Decoding in a fresh latch, reading the source registers, executing.\<close>

definition run :: "SoftFp \<Rightarrow> (u32 \<Rightarrow> u64) \<Rightarrow> RVInstruction \<Rightarrow> u32 \<Rightarrow> sim_error + RVInstruction" where
  "run sf regs ins w = bindR (decode_riscv_binary ins w) (\<lambda>i.
     if i_exception i then Inr i
     else bindR (execute_riscv_instruction sf (i\<lparr>i_rs1_val := regs (i_rs1 i), i_rs2_val := regs (i_rs2 i)\<rparr>) 0) (\<lambda>r. Inr (fst r)))"

definition outcome :: "SoftFp \<Rightarrow> (u32 \<Rightarrow> u64) \<Rightarrow> RVInstruction \<Rightarrow> u32 \<Rightarrow> sim_error + ((u32 \<times> u64) option
    \<times> (bool \<times> int \<times> bool \<times> u64 \<times> u32 \<times> bool) option \<times> u64 option) option" where
  "outcome sf regs ins w = bindR (run sf regs ins w) (\<lambda>i. Inr (if i_exception i then None else Some (effect i)))"

section \<open>Fields\<close>

lemma field_Suc: "field d (Suc n) s w = field d (Suc 0) s w OR field (Suc d) n (Suc s) w"
proof (rule bit_word_eqI)
  fix m
  consider "m < d" | "m = d" | e where "m = d + 1 + e" using less_iff_Suc_add [of d m] by fastforce
  then show "bit (field d (Suc n) s w) m = bit (field d (Suc 0) s w OR field (Suc d) n (Suc s) w) m"
    by cases (auto simp: field_def bit_simps simp del: take_bit_Suc_0 push_bit_Suc)
qed

lemma field_numeral:
  "field d (numeral k) s w = field d (Suc 0) s w OR field (Suc d) (pred_numeral k) (Suc s) w"
  using field_Suc [of d "pred_numeral k" s w] unfolding numeral_eq_Suc [of k] by simp

lemma cget_field1_field: "m < 32 \<Longrightarrow> d \<le> m \<Longrightarrow> cget_field1 w s d m = Inr (field d (m - d + 1) s w)"
proof -
  assume "m < 32" "d \<le> m"
  have "push_bit (m - d + 1) (1 :: u32) - 1 = mask (m - d + 1)" by (simp only: mask_eq_exp_minus_1 push_bit_of_1)
  moreover have "(if s \<le> d then push_bit (d - s) w AND push_bit d (mask n) else drop_bit (s - d) w AND push_bit d (mask n))
      = field d n s w" for n
    unfolding field_def and_mid by (auto intro!: bit_word_eqI simp: bit_simps add.commute)
  ultimately show ?thesis using \<open>d \<le> m\<close> by (simp add: cget_field1_def Let_def)
qed

lemma and_field: "drop_bit 13 w AND 7 = field 0 3 13 w" "drop_bit 2 w AND 7 = field 0 3 2 w" "drop_bit 7 w AND 7 = field 0 3 7 w"
  "drop_bit 10 w AND 3 = field 0 2 10 w" "drop_bit 7 w AND 0x1f = field 0 5 7 w" "drop_bit 2 w AND 0x1f = field 0 5 2 w"
  "(drop_bit 5 w AND 3) OR (drop_bit 10 w AND 4) = field 0 2 5 w OR field 2 1 12 w" "w AND 3 = field 0 2 0 w"
  "drop_bit 12 w AND 1 = field 0 1 12 w"
proof -
  have "drop_bit 10 w AND 4 = field 2 1 12 w" using and_mid [of "drop_bit 10 w" 2 1] by (simp add: field_def)
  then show "(drop_bit 5 w AND 3) OR (drop_bit 10 w AND 4) = field 0 2 5 w OR field 2 1 12 w" by (simp add: field_def and_take)
qed (simp_all add: field_def and_take)

lemmas bitwise = field_numeral or.assoc or.commute or.left_commute

text \<open>The immediates that \<^verbatim>\<open>cget_field1\<close> collects are those of the tables.\<close>

lemma cget_tables:
  "cget_fields w [(11, 4, 5), (7, 6, 9), (6, 2, 2), (5, 3, 3)] = Inr (gather w 12 [5, 4, 9, 8, 7, 6, 2, 3])"
  "cget_fields w [(10, 3, 5), (6, 2, 2), (5, 6, 6)] = Inr (gather w 12 [5, 4, 3] OR gather w 6 [2, 6])"
  "cget_fields w [(10, 3, 5), (5, 6, 7)] = Inr (gather w 12 [5, 4, 3] OR gather w 6 [7, 6])"
  "cget_fields w [(12, 5, 5), (2, 0, 4)] = Inr (imm6 w)"
  "cget_fields w [(12, 9, 9), (6, 4, 4), (5, 6, 6), (3, 7, 8), (2, 5, 5)] = Inr (gather w 12 [9] OR gather w 6 [4, 6, 8, 7, 5])"
  "cget_fields w [(12, 17, 17), (2, 12, 16)] = Inr (gather w 12 [17] OR gather w 6 [16, 15, 14, 13, 12])"
  "cget_fields w [(12, 11, 11), (11, 4, 4), (9, 8, 9), (8, 10, 10), (7, 6, 6), (6, 7, 7), (3, 1, 3), (2, 5, 5)]
    = Inr (gather w 12 [11, 4, 9, 8, 10, 6, 7, 3, 2, 1, 5])"
  "cget_fields w [(12, 8, 8), (10, 3, 4), (5, 6, 7), (3, 1, 2), (2, 5, 5)] = Inr (gather w 12 [8, 4, 3] OR gather w 6 [7, 6, 2, 1, 5])"
  "cget_fields w [(10, 3, 5), (7, 6, 8)] = Inr (gather w 12 [5, 4, 3, 8, 7, 6])"
  "cget_fields w [(9, 2, 5), (7, 6, 7)] = Inr (gather w 12 [5, 4, 3, 2, 7, 6])"
  by (simp_all add: cget_field1_field bindR_def bitwise flip: numeral_2_eq_2)

lemma take_field: "d + n \<le> k \<Longrightarrow> take_bit k (field d n s w) = field d n s w"
  unfolding field_def by (rule bit_word_eqI) (auto simp: bit_simps)

lemma take_regs: "take_bit 5 (8 OR field 0 3 s w) = 8 OR field 0 3 s w" "take_bit 5 (field 0 5 s w) = field 0 5 s w"
  by (simp_all add: take_field)

lemma sign_small: "signed_take_bit 11 v = v" if "take_bit 11 v = v" for v :: u32
proof (rule bit_word_eqI)
  fix n
  have "bit v m \<Longrightarrow> m < 11" for m using that by (metis bit_take_bit_iff)
  from this [of n] this [of 11] show "bit (signed_take_bit 11 v) n = bit v n" by (auto simp: bit_simps min_def)
qed

section \<open>Decoding by fields\<close>

lemma decode_q0_fields:
  "decode_compressed_q0 ins =
    (let w = i_binary ins; f3 = field 0 3 13 w; rd' = 8 OR field 0 3 2 w; rs1' = 8 OR field 0 3 7 w;
         d = gather w 12 [5, 4, 3] OR gather w 6 [7, 6]; s = gather w 12 [5, 4, 3] OR gather w 6 [2, 6];
         spn = gather w 12 [5, 4, 9, 8, 7, 6, 2, 3]; i = ins\<lparr>i_has_dest := True, i_has_src1 := True\<rparr> in
     if f3 = 0 then if spn = 0 then Inr (illegal_insn i) else q0_end f3 rd' 2 i spn
     else if f3 = 1 then
       if i_current_fs ins = 0 then Inr (illegal_insn ins) else q0_end f3 rd' rs1' (q0_fp_load ins) d
     else if f3 = 2 then q0_end f3 rd' rs1' (q0_load 4 ins) s
     else if f3 = 3 then q0_end f3 rd' rs1' (q0_load 8 ins) d
     else if f3 = 5 then q0_end f3 rd' rs1' (q0_fp_store ins) d
     else if f3 = 6 then q0_end f3 rd' rs1' (q0_store 4 ins) s
     else if f3 = 7 then q0_end f3 rd' rs1' (q0_store 8 ins) d
     else Inr (illegal_insn ins))"
  unfolding decode_compressed_q0_def Let_def and_field cget_tables or.commute [of _ 8] bindR_Inr ..

lemma decode_q1_arith_fields:
  "decode_q1_arith ins =
    (let w = i_binary ins; rd' = 8 OR field 0 3 7 w; rs2' = 8 OR field 0 3 2 w; f = field 0 2 10 w;
         g = field 0 2 5 w OR field 2 1 12 w; i = ins\<lparr>i_has_dest := True, i_has_src1 := True\<rparr> in
     if f = 0 \<or> f = 1 then q1_end 4 f 0 rd' rd' 0 i (imm6 w)
     else if f = 2 then q1_end 4 f 0 rd' rd' 0 i (signed_take_bit 5 (imm6 w))
     else if g \<in> {0, 1, 2, 3, 4, 5} then q1_end 4 f g rd' rd' rs2' (i\<lparr>i_has_src2 := True\<rparr>) 0
     else Inr (illegal_insn (i\<lparr>i_has_src2 := True\<rparr>)))"
proof -
  have s: "sextc v 6 = signed_take_bit 5 v" for v using sextc_eq [of 6 v] by simp
  have t: "12 - 2 = (10 :: nat)" by simp
  show ?thesis
    unfolding decode_q1_arith_def Let_def and_field(1-7) cget_tables t s or.commute [of _ 8] bindR_Inr ..
qed

lemma decode_q1_fields:
  "decode_compressed_q1 ins =
    (let w = i_binary ins; f3 = field 0 3 13 w; rd = field 0 5 7 w; rs1' = 8 OR field 0 3 7 w; i6 = signed_take_bit 5 (imm6 w);
         sp = signed_take_bit 9 (gather w 12 [9] OR gather w 6 [4, 6, 8, 7, 5]);
         j = signed_take_bit 11 (gather w 12 [11, 4, 9, 8, 10, 6, 7, 3, 2, 1, 5]);
         b = signed_take_bit 8 (gather w 12 [8, 4, 3] OR gather w 6 [7, 6, 2, 1, 5]);
         u = signed_take_bit 17 (gather w 12 [17] OR gather w 6 [16, 15, 14, 13, 12]);
         i = ins\<lparr>i_has_dest := True, i_has_src1 := True\<rparr> in
     if f3 = 0 \<or> f3 = 1 then q1_end f3 0 0 rd rd 0 i i6
     else if f3 = 2 then q1_end f3 0 0 rd rd 0 (ins\<lparr>i_has_dest := True\<rparr>) i6
     else if f3 = 3 then
       if rd = 2 then if sp = 0 then Inr (illegal_insn i) else q1_end f3 0 0 2 2 0 i sp
       else if rd \<noteq> 0 then q1_end f3 0 0 rd rd 0 (ins\<lparr>i_has_dest := True\<rparr>) u
       else q1_end f3 0 0 rd rd 0 ins 0
     else if f3 = 4 then decode_q1_arith ins
     else if f3 = 5 then q1_end f3 0 0 rd rd 0 (ins\<lparr>i_is_branch := True, i_branch_type := BRANCH_UNCOND,
       i_type := INS_TYPE_JAL\<rparr>) j
     else if f3 = 6 \<or> f3 = 7 then q1_end f3 0 0 rd rs1' 0 (q1_branch ins) b
     else Inr (illegal_insn ins))"
proof -
  have s: "sextc v 6 = signed_take_bit 5 v" "sextc v 10 = signed_take_bit 9 v" "sextc v 12 = signed_take_bit 11 v"
    "sextc v 9 = signed_take_bit 8 v" "sextc v 18 = signed_take_bit 17 v" for v
    using sextc_eq [of 6 v] sextc_eq [of 10 v] sextc_eq [of 12 v] sextc_eq [of 9 v] sextc_eq [of 18 v] by simp_all
  show ?thesis
    unfolding decode_compressed_q1_def Let_def and_field(1-7) cget_tables s or.commute [of _ 8] bindR_Inr ..
qed

lemma decode_q2_fields:
  "decode_compressed_q2 ins =
    (let w = i_binary ins; f3 = field 0 3 13 w; rd = field 0 5 7 w; rs2 = field 0 5 2 w;
         ld = gather w 12 [5] OR gather w 6 [4, 3, 8, 7, 6]; lw = gather w 12 [5] OR gather w 6 [4, 3, 2, 7, 6];
         sd = gather w 12 [5, 4, 3, 8, 7, 6]; sw = gather w 12 [5, 4, 3, 2, 7, 6] in
     if f3 = 0 then q2_end f3 rd rd rs2 (ins\<lparr>i_has_dest := True, i_has_src1 := True\<rparr>) (imm6 w)
     else if f3 = 1 then q2_end f3 rd 2 rs2 (q0_fp_load ins) ld
     else if f3 = 2 then q2_end f3 rd 2 rs2 (q0_load 4 ins) lw
     else if f3 = 3 then q2_end f3 rd 2 rs2 (q0_load 8 ins) ld
     else if f3 = 4 then decode_q2_jump ins
     else if f3 = 5 then q2_end f3 rd 2 rs2 (q0_fp_store ins) sd
     else if f3 = 6 then q2_end f3 rd 2 rs2 (q0_store 4 ins) sw
     else if f3 = 7 then q2_end f3 rd 2 rs2 (q0_store 8 ins) sd
     else Inr (illegal_insn ins))"
proof -
  let ?w = "i_binary ins"
  have f: "cget_field1 ?w 12 5 5 = Inr (field 5 1 12 ?w)" "cget_field1 ?w 2 6 8 = Inr (field 6 3 2 ?w)"
    "cget_field1 ?w 2 6 7 = Inr (field 6 2 2 ?w)" by (simp_all add: cget_field1_field flip: numeral_2_eq_2)
  have m: "field 0 5 2 w AND push_bit 3 3 = field 3 2 5 w" "field 0 5 2 w AND push_bit 2 7 = field 2 3 4 w" for w
    using and_mid [of "field 0 5 2 w" 3 2] and_mid [of "field 0 5 2 w" 2 3]
    by (simp_all add: field_def mask_eq_exp_minus_1 drop_bit_take_bit)
  have g: "field 5 1 12 w OR field 0 5 2 w = imm6 w"
    "field 5 1 12 w OR field 3 2 5 w OR field 6 3 2 w = gather w 12 [5] OR gather w 6 [4, 3, 8, 7, 6]"
    "field 5 1 12 w OR field 2 3 4 w OR field 6 2 2 w = gather w 12 [5] OR gather w 6 [4, 3, 2, 7, 6]" for w
    by (simp_all add: bitwise flip: numeral_2_eq_2)
  show ?thesis
    unfolding decode_compressed_q2_def Let_def and_field(1-7) cget_tables f bindR_Inr m or.assoc g ..
qed

lemma decode_q2_jump_fields:
  "decode_q2_jump ins =
    (let w = i_binary ins; rd = field 0 5 7 w; rs2 = field 0 5 2 w;
         j = ins\<lparr>i_is_branch := True, i_branch_type := BRANCH_UNCOND, i_type := INS_TYPE_JALR, i_has_src1 := True\<rparr> in
     if field 0 1 12 w = 0 then
       if rs2 = 0 then
         if rd = 0 then Inr (illegal_insn j)
         else q2_end 4 rd rd rs2 (if rd = 1 then j\<lparr>i_is_func_ret := True\<rparr> else j) 0
       else q2_end 4 rd rd rs2 (ins\<lparr>i_has_dest := True, i_has_src2 := True\<rparr>) 0
     else if rs2 = 0 then
       if rd = 0 then q2_end 4 rd rd rs2 (ins\<lparr>i_exception := True,
         i_exception_cause := SIM_COMPLEX_OPCODE_EXCEPTION, i_type := INS_TYPE_SYSTEM\<rparr>) 0
       else q2_end 4 1 rd rs2 (ins\<lparr>i_is_branch := True, i_branch_type := BRANCH_UNCOND,
         i_type := INS_TYPE_JALR, i_has_dest := True, i_has_src1 := True, i_is_func_call := True\<rparr>) 0
     else q2_end 4 rd rd rs2 (ins\<lparr>i_has_dest := True, i_has_src1 := True, i_has_src2 := True\<rparr>) 0)"
  unfolding decode_q2_jump_def Let_def and_field(5,6,9) ..

end
