(* ===== verification/Compressed_Exec.thy ===== *)
theory Compressed_Exec
  imports Compressed
begin

text \<open>
  The effect of each 32-bit instruction that is the expansion of a compressed one, the effect of each compressed
  instruction, and that they agree.
\<close>

section \<open>Instructions of 32 bits\<close>

definition wr :: "u32 \<Rightarrow> u64 \<Rightarrow> (u32 \<times> u64) option" where
  "wr r v = (if r \<noteq> 0 then Some (r, v) else None)"

lemmas out_defs = outcome_def run_def decode_cases fresh_ins_def zero_ins_def execute_riscv_instruction_def
  execute_major_opcode_def

lemma out_op_imm:
  "outcome sf regs (fresh_ins pc fs rm) (enc_i imm rs1 0 rd OP_IMM_MASK)
    = Inr (Some (wr (take_bit 5 rd) (regs (take_bit 5 rs1) + scast (signed_take_bit 11 imm)), None, None))"
  "outcome sf regs (fresh_ins pc fs rm) (enc_i imm rs1 7 rd OP_IMM_MASK)
    = Inr (Some (wr (take_bit 5 rd) (regs (take_bit 5 rs1) AND scast (signed_take_bit 11 imm)), None, None))"
  "outcome sf regs (fresh_ins pc fs rm) (enc_i imm rs1 1 rd OP_IMM_MASK)
    = Inr (Some (wr (take_bit 5 rd) (push_bit (unat (signed_take_bit 11 imm AND 63)) (regs (take_bit 5 rs1))), None, None))"
  "outcome sf regs (fresh_ins pc fs rm) (enc_i imm rs1 5 rd OP_IMM_MASK)
    = Inr (Some (wr (take_bit 5 rd) ((if signed_take_bit 11 imm AND 0x400 \<noteq> 0 then signed_drop_bit else drop_bit)
        (unat (signed_take_bit 11 imm AND 63)) (regs (take_bit 5 rs1))), None, None))"
  "outcome sf regs (fresh_ins pc fs rm) (enc_i imm rs1 0 rd OP_IMM_32_MASK)
    = Inr (Some (wr (take_bit 5 rd) (int32 (regs (take_bit 5 rs1) + scast (signed_take_bit 11 imm))), None, None))"
  unfolding out_defs
  by (simp_all add: enc_fields decode_op_imm_def chk_op_imm_exceptions_def execute_op_imm_def execute_op_imm_32_def
      effect_def simm_def wr_def Let_def)

lemma out_load:
  "outcome sf regs (fresh_ins pc fs rm) (enc_i imm rs1 2 rd LOAD_MASK)
    = Inr (Some (None, Some (True, 4, False, regs (take_bit 5 rs1) + scast (signed_take_bit 11 imm), take_bit 5 rd, False), None))"
  "outcome sf regs (fresh_ins pc fs rm) (enc_i imm rs1 3 rd LOAD_MASK)
    = Inr (Some (None, Some (True, 8, False, regs (take_bit 5 rs1) + scast (signed_take_bit 11 imm), take_bit 5 rd, False), None))"
  "fs \<noteq> 0 \<Longrightarrow> outcome sf regs (fresh_ins pc fs rm) (enc_i imm rs1 3 rd FLOAD_MASK)
    = Inr (Some (None, Some (True, 8, False, regs (take_bit 5 rs1) + scast (signed_take_bit 11 imm), take_bit 5 rd, True), None))"
  unfolding out_defs
  by (simp_all add: enc_fields decode_load_def decode_fload_def effect_def simm_def Let_def)

lemma out_store:
  "outcome sf regs (fresh_ins pc fs rm) (enc_s imm rs2 rs1 2 STORE_MASK)
    = Inr (Some (None, Some (False, 4, False, regs (take_bit 5 rs1) + scast (signed_take_bit 11 imm), take_bit 5 rs2, False), None))"
  "outcome sf regs (fresh_ins pc fs rm) (enc_s imm rs2 rs1 3 STORE_MASK)
    = Inr (Some (None, Some (False, 8, False, regs (take_bit 5 rs1) + scast (signed_take_bit 11 imm), take_bit 5 rs2, False), None))"
  "fs \<noteq> 0 \<Longrightarrow> outcome sf regs (fresh_ins pc fs rm) (enc_s imm rs2 rs1 3 FSTORE_MASK)
    = Inr (Some (None, Some (False, 8, False, regs (take_bit 5 rs1) + scast (signed_take_bit 11 imm), take_bit 5 rs2, True), None))"
  unfolding out_defs
  by (simp_all add: enc_fields decode_store_def decode_fstore_def effect_def simm_def Let_def)

lemma enc_r_alt: "drop_bit 27 (enc_r f7 rs2 rs1 f3 rd opc) AND 8 = (if bit f7 5 then 8 else 0)"
proof -
  have "drop_bit 27 (enc_r f7 rs2 rs1 f3 rd opc) AND 8 = push_bit 3 (take_bit 1 (drop_bit 30 (enc_r f7 rs2 rs1 f3 rd opc)))"
    using and_nums(3) [of "drop_bit 27 (enc_r f7 rs2 rs1 f3 rd opc)" 3] by simp
  also have "take_bit 1 (drop_bit 30 (enc_r f7 rs2 rs1 f3 rd opc)) = of_bool (bit f7 5)"
    unfolding enc_r_def by (rule bit_word_eqI) (auto simp: bit_simps simp del: take_bit_Suc_0)
  finally show ?thesis by simp
qed

lemma out_op:
  "outcome sf regs (fresh_ins pc fs rm) (enc_r 0 rs2 rs1 0 rd OP_MASK)
    = Inr (Some (wr (take_bit 5 rd) (regs (take_bit 5 rs1) + regs (take_bit 5 rs2)), None, None))"
  "outcome sf regs (fresh_ins pc fs rm) (enc_r 0x20 rs2 rs1 0 rd OP_MASK)
    = Inr (Some (wr (take_bit 5 rd) (regs (take_bit 5 rs1) - regs (take_bit 5 rs2)), None, None))"
  "outcome sf regs (fresh_ins pc fs rm) (enc_r 0 rs2 rs1 0 rd OP_MASK_32)
    = Inr (Some (wr (take_bit 5 rd) (int32 (regs (take_bit 5 rs1) + regs (take_bit 5 rs2))), None, None))"
  "outcome sf regs (fresh_ins pc fs rm) (enc_r 0x20 rs2 rs1 0 rd OP_MASK_32)
    = Inr (Some (wr (take_bit 5 rd) (int32 (regs (take_bit 5 rs1) - regs (take_bit 5 rs2))), None, None))"
  unfolding out_defs
  by (simp_all add: enc_fields enc_r_alt decode_op_def chk_op_exceptions_def set_op_fu_def execute_op_def execute_op_32_def
      effect_def wr_def Let_def)

lemma out_op_bitwise:
  "outcome sf regs (fresh_ins pc fs rm) (enc_r 0 rs2 rs1 4 rd OP_MASK)
    = Inr (Some (wr (take_bit 5 rd) (regs (take_bit 5 rs1) XOR regs (take_bit 5 rs2)), None, None))"
  "outcome sf regs (fresh_ins pc fs rm) (enc_r 0 rs2 rs1 6 rd OP_MASK)
    = Inr (Some (wr (take_bit 5 rd) (regs (take_bit 5 rs1) OR regs (take_bit 5 rs2)), None, None))"
  "outcome sf regs (fresh_ins pc fs rm) (enc_r 0 rs2 rs1 7 rd OP_MASK)
    = Inr (Some (wr (take_bit 5 rd) (regs (take_bit 5 rs1) AND regs (take_bit 5 rs2)), None, None))"
  unfolding out_defs
  by (simp_all add: enc_fields enc_r_alt decode_op_def chk_op_exceptions_def set_op_fu_def execute_op_def effect_def wr_def Let_def)

lemma out_jump:
  "outcome sf regs (fresh_ins pc fs rm) (enc_j imm 0 JAL_MASK)
    = Inr (Some (None, None, Some (pc + scast (signed_take_bit 20 (push_bit 1 (drop_bit 1 imm))))))"
  "outcome sf regs (fresh_ins pc fs rm) (enc_b imm rs2 rs1 0 BRANCH_MASK)
    = Inr (Some (None, None, if regs (take_bit 5 rs1) = regs (take_bit 5 rs2)
        then Some (pc + scast (signed_take_bit 12 (push_bit 1 (drop_bit 1 imm)))) else None))"
  "outcome sf regs (fresh_ins pc fs rm) (enc_b imm rs2 rs1 1 BRANCH_MASK)
    = Inr (Some (None, None, if regs (take_bit 5 rs1) \<noteq> regs (take_bit 5 rs2)
        then Some (pc + scast (signed_take_bit 12 (push_bit 1 (drop_bit 1 imm)))) else None))"
  "outcome sf regs (fresh_ins pc fs rm) (enc_u imm rd LUI_MASK)
    = Inr (Some (wr (take_bit 5 rd) (scast (push_bit 12 (drop_bit 12 imm))), None, None))"
  unfolding out_defs
  by (simp_all add: enc_fields decode_jal_def decode_branch_def execute_type_b_def effect_def simm_def wr_def Let_def)

section \<open>Compressed instructions\<close>

lemmas c_defs = outcome_def run_def decode_riscv_binary_def decode_compressed_type_def fresh_ins_def zero_ins_def
  execute_riscv_instruction_def execute_ext_c_path_def and_field(8) Let_def dec_defs effect_def simm_def wr_def

lemma imm_small:
  "signed_take_bit 11 (gather w 12 [5, 4, 9, 8, 7, 6, 2, 3]) = gather w 12 [5, 4, 9, 8, 7, 6, 2, 3]"
  "signed_take_bit 11 (gather w 12 [5, 4, 3] OR gather w 6 [2, 6]) = gather w 12 [5, 4, 3] OR gather w 6 [2, 6]"
  "signed_take_bit 11 (gather w 12 [5, 4, 3] OR gather w 6 [7, 6]) = gather w 12 [5, 4, 3] OR gather w 6 [7, 6]"
  "signed_take_bit 11 (imm6 w) = imm6 w"
  "signed_take_bit 11 (gather w 12 [5] OR gather w 6 [4, 3, 8, 7, 6]) = gather w 12 [5] OR gather w 6 [4, 3, 8, 7, 6]"
  "signed_take_bit 11 (gather w 12 [5] OR gather w 6 [4, 3, 2, 7, 6]) = gather w 12 [5] OR gather w 6 [4, 3, 2, 7, 6]"
  "signed_take_bit 11 (gather w 12 [5, 4, 3, 8, 7, 6]) = gather w 12 [5, 4, 3, 8, 7, 6]"
  "signed_take_bit 11 (gather w 12 [5, 4, 3, 2, 7, 6]) = gather w 12 [5, 4, 3, 2, 7, 6]"
  by (rule sign_small; simp add: take_field)+

lemma out_q0:
  fixes w :: u32
  defines "rd' \<equiv> 8 OR field 0 3 2 w" and "rs1' \<equiv> 8 OR field 0 3 7 w"
    and "d \<equiv> gather w 12 [5, 4, 3] OR gather w 6 [7, 6]" and "s \<equiv> gather w 12 [5, 4, 3] OR gather w 6 [2, 6]"
    and "spn \<equiv> gather w 12 [5, 4, 9, 8, 7, 6, 2, 3]"
  assumes q: "field 0 2 0 w = 0"
  shows "field 0 3 13 w = 0 \<Longrightarrow> spn \<noteq> 0 \<Longrightarrow> outcome sf regs (fresh_ins pc fs rm) w = Inr (Some (wr rd' (regs 2 + scast spn), None, None))"
    "field 0 3 13 w = 1 \<Longrightarrow> fs \<noteq> 0 \<Longrightarrow> outcome sf regs (fresh_ins pc fs rm) w
      = Inr (Some (None, Some (True, 8, False, regs rs1' + scast d, rd', True), None))"
    "field 0 3 13 w = 2 \<Longrightarrow> outcome sf regs (fresh_ins pc fs rm) w
      = Inr (Some (None, Some (True, 4, False, regs rs1' + scast s, rd', False), None))"
    "field 0 3 13 w = 3 \<Longrightarrow> outcome sf regs (fresh_ins pc fs rm) w
      = Inr (Some (None, Some (True, 8, False, regs rs1' + scast d, rd', False), None))"
    "field 0 3 13 w = 5 \<Longrightarrow> outcome sf regs (fresh_ins pc fs rm) w
      = Inr (Some (None, Some (False, 8, False, regs rs1' + scast d, rd', True), None))"
    "field 0 3 13 w = 6 \<Longrightarrow> outcome sf regs (fresh_ins pc fs rm) w
      = Inr (Some (None, Some (False, 4, False, regs rs1' + scast s, rd', False), None))"
    "field 0 3 13 w = 7 \<Longrightarrow> outcome sf regs (fresh_ins pc fs rm) w
      = Inr (Some (None, Some (False, 8, False, regs rs1' + scast d, rd', False), None))"
  unfolding assms(1-5) c_defs decode_q0_fields
  by (simp_all add: q execute_ext_c_q0_def simm_def del: gather.simps)

lemma expand_q0_ok:
  assumes "field 0 2 0 w = 0" and "expand w = Some v" and "fs \<noteq> 0"
  shows "\<exists>e. outcome sf regs (fresh_ins pc fs rm) w = Inr (Some e) \<and> outcome sf regs (fresh_ins pc fs rm) v = Inr (Some e)"
proof -
  have e: "expand_q0 w = Some v" using assms(1,2) by (simp add: expand_def Let_def)
  have "field 0 3 13 w \<in> {0, 1, 2, 3, 4, 5, 6, 7}" using and7_cases [of "drop_bit 13 w"] unfolding and_field(1) .
  then show ?thesis
    using e unfolding expand_q0_def Let_def
    by (elim insertE emptyE) (auto simp: out_q0 [OF assms(1)] assms(3) out_op_imm out_load out_store
        take_field imm_small simp del: gather.simps split: if_splits)
qed

lemma imm6_bits: "unat (imm6 w) < 64" "imm6 w AND 63 = imm6 w" "(imm6 w OR 0x400) AND 63 = imm6 w"
  "(imm6 w OR 0x400) AND 0x400 \<noteq> 0" "imm6 w AND 0x400 = 0" "signed_take_bit 11 (imm6 w OR 0x400) = imm6 w OR 0x400"
proof -
  have t: "take_bit 6 (imm6 w) = imm6 w" by (simp add: take_field)
  show a: "imm6 w AND 63 = imm6 w" using t by (simp add: take_bit_eq_mask mask_eq_exp_minus_1 del: gather.simps)
  have "imm6 w < 64" using and_mask_less' [of 6 "imm6 w"] a by (simp add: mask_eq_exp_minus_1 del: gather.simps)
  then show "unat (imm6 w) < 64" by (simp add: word_less_nat_alt del: gather.simps)
  show "(imm6 w OR 0x400) AND 63 = imm6 w" using a by (simp add: bit.conj_disj_distrib2 del: gather.simps)
  have z: "imm6 w AND 0x400 = 0"
  proof -
    have "imm6 w AND 0x400 = (imm6 w AND 63) AND 0x400" using a by (simp only:)
    then show ?thesis by (simp add: and.assoc del: gather.simps)
  qed
  then show "imm6 w AND 0x400 = 0" .
  show "(imm6 w OR 0x400) AND 0x400 \<noteq> 0" using z by (simp add: bit.conj_disj_distrib2 del: gather.simps)
  show "signed_take_bit 11 (imm6 w OR 0x400) = imm6 w OR 0x400" by (rule sign_small) (simp add: take_field)
qed

lemma jump_imms:
  "push_bit 1 (drop_bit 1 (signed_take_bit 11 (gather w 12 [11, 4, 9, 8, 10, 6, 7, 3, 2, 1, 5])))
    = signed_take_bit 11 (gather w 12 [11, 4, 9, 8, 10, 6, 7, 3, 2, 1, 5])"
  "push_bit 1 (drop_bit 1 (signed_take_bit 8 (gather w 12 [8, 4, 3] OR gather w 6 [7, 6, 2, 1, 5])))
    = signed_take_bit 8 (gather w 12 [8, 4, 3] OR gather w 6 [7, 6, 2, 1, 5])"
  "push_bit 12 (drop_bit 12 (signed_take_bit 17 (gather w 12 [17] OR gather w 6 [16, 15, 14, 13, 12])))
    = signed_take_bit 17 (gather w 12 [17] OR gather w 6 [16, 15, 14, 13, 12])"
proof -
  have z: "push_bit k (drop_bit k (signed_take_bit n v)) = signed_take_bit n v" if "take_bit k v = 0" "k \<le> n" for k n and v :: u32
  proof (rule bit_word_eqI)
    fix m
    have "m < k \<Longrightarrow> \<not> bit v m" using that(1) by (metis bit_0_eq bit_take_bit_iff bot_apply bot_bool_def)
    then show "bit (push_bit k (drop_bit k (signed_take_bit n v))) m = bit (signed_take_bit n v) m" if "m < LENGTH(32)"
      using that \<open>k \<le> n\<close> by (cases "m < k") (auto simp: bit_simps min_def)
  qed
  have f: "take_bit k (field d n s w) = 0" if "k \<le> d" for k d n s
    unfolding field_def using that by (simp add: take_bit_push_bit)
  show "push_bit 1 (drop_bit 1 (signed_take_bit 11 (gather w 12 [11, 4, 9, 8, 10, 6, 7, 3, 2, 1, 5])))
    = signed_take_bit 11 (gather w 12 [11, 4, 9, 8, 10, 6, 7, 3, 2, 1, 5])" by (rule z) (simp_all add: f del: take_bit_Suc_0)
  show "push_bit 1 (drop_bit 1 (signed_take_bit 8 (gather w 12 [8, 4, 3] OR gather w 6 [7, 6, 2, 1, 5])))
    = signed_take_bit 8 (gather w 12 [8, 4, 3] OR gather w 6 [7, 6, 2, 1, 5])" by (rule z) (simp_all add: f del: take_bit_Suc_0)
  show "push_bit 12 (drop_bit 12 (signed_take_bit 17 (gather w 12 [17] OR gather w 6 [16, 15, 14, 13, 12])))
    = signed_take_bit 17 (gather w 12 [17] OR gather w 6 [16, 15, 14, 13, 12])" by (rule z) (simp_all add: f)
qed

lemma out_q1:
  fixes w :: u32
  defines "rd \<equiv> field 0 5 7 w" and "rs1' \<equiv> 8 OR field 0 3 7 w" and "i6 \<equiv> signed_take_bit 5 (imm6 w)"
    and "sp \<equiv> signed_take_bit 9 (gather w 12 [9] OR gather w 6 [4, 6, 8, 7, 5])"
    and "j \<equiv> signed_take_bit 11 (gather w 12 [11, 4, 9, 8, 10, 6, 7, 3, 2, 1, 5])"
    and "b \<equiv> signed_take_bit 8 (gather w 12 [8, 4, 3] OR gather w 6 [7, 6, 2, 1, 5])"
    and "u \<equiv> signed_take_bit 17 (gather w 12 [17] OR gather w 6 [16, 15, 14, 13, 12])"
  assumes q: "field 0 2 0 w = 1"
  shows "field 0 3 13 w = 0 \<Longrightarrow> outcome sf regs (fresh_ins pc fs rm) w = Inr (Some (wr rd (regs rd + scast i6), None, None))"
    "field 0 3 13 w = 1 \<Longrightarrow> outcome sf regs (fresh_ins pc fs rm) w = Inr (Some (wr rd (int32 (regs rd + scast i6)), None, None))"
    "field 0 3 13 w = 2 \<Longrightarrow> outcome sf regs (fresh_ins pc fs rm) w = Inr (Some (wr rd (scast i6), None, None))"
    "field 0 3 13 w = 3 \<Longrightarrow> rd = 2 \<Longrightarrow> sp \<noteq> 0 \<Longrightarrow> outcome sf regs (fresh_ins pc fs rm) w
      = Inr (Some (wr 2 (regs 2 + scast sp), None, None))"
    "field 0 3 13 w = 3 \<Longrightarrow> rd \<noteq> 2 \<Longrightarrow> rd \<noteq> 0 \<Longrightarrow> outcome sf regs (fresh_ins pc fs rm) w = Inr (Some (wr rd (scast u), None, None))"
    "field 0 3 13 w = 5 \<Longrightarrow> outcome sf regs (fresh_ins pc fs rm) w = Inr (Some (None, None, Some (pc + scast j)))"
    "field 0 3 13 w = 6 \<Longrightarrow> outcome sf regs (fresh_ins pc fs rm) w
      = Inr (Some (None, None, if regs rs1' = 0 then Some (pc + scast b) else None))"
    "field 0 3 13 w = 7 \<Longrightarrow> outcome sf regs (fresh_ins pc fs rm) w
      = Inr (Some (None, None, if regs rs1' \<noteq> 0 then Some (pc + scast b) else None))"
  unfolding assms(1-7) c_defs decode_q1_fields
  by (simp_all add: q execute_ext_c_q1_def simm_def Let_def del: gather.simps)

lemma out_q1_arith:
  fixes w :: u32
  defines "rd' \<equiv> 8 OR field 0 3 7 w" and "rs2' \<equiv> 8 OR field 0 3 2 w" and "g \<equiv> field 0 2 5 w OR field 2 1 12 w"
  assumes q: "field 0 2 0 w = 1" "field 0 3 13 w = 4"
  shows "field 0 2 10 w = 0 \<Longrightarrow> outcome sf regs (fresh_ins pc fs rm) w
      = Inr (Some (wr rd' (drop_bit (unat (imm6 w)) (regs rd')), None, None))"
    "field 0 2 10 w = 1 \<Longrightarrow> outcome sf regs (fresh_ins pc fs rm) w
      = Inr (Some (wr rd' (signed_drop_bit (unat (imm6 w)) (regs rd')), None, None))"
    "field 0 2 10 w = 2 \<Longrightarrow> outcome sf regs (fresh_ins pc fs rm) w
      = Inr (Some (wr rd' (regs rd' AND scast (signed_take_bit 5 (imm6 w))), None, None))"
    "field 0 2 10 w = 3 \<Longrightarrow> g = 0 \<Longrightarrow> outcome sf regs (fresh_ins pc fs rm) w = Inr (Some (wr rd' (regs rd' - regs rs2'), None, None))"
    "field 0 2 10 w = 3 \<Longrightarrow> g = 1 \<Longrightarrow> outcome sf regs (fresh_ins pc fs rm) w = Inr (Some (wr rd' (regs rd' XOR regs rs2'), None, None))"
    "field 0 2 10 w = 3 \<Longrightarrow> g = 2 \<Longrightarrow> outcome sf regs (fresh_ins pc fs rm) w = Inr (Some (wr rd' (regs rd' OR regs rs2'), None, None))"
    "field 0 2 10 w = 3 \<Longrightarrow> g = 3 \<Longrightarrow> outcome sf regs (fresh_ins pc fs rm) w = Inr (Some (wr rd' (regs rd' AND regs rs2'), None, None))"
    "field 0 2 10 w = 3 \<Longrightarrow> g = 4 \<Longrightarrow> outcome sf regs (fresh_ins pc fs rm) w = Inr (Some (wr rd' (int32 (regs rd' - regs rs2')), None, None))"
    "field 0 2 10 w = 3 \<Longrightarrow> g = 5 \<Longrightarrow> outcome sf regs (fresh_ins pc fs rm) w = Inr (Some (wr rd' (int32 (regs rd' + regs rs2')), None, None))"
  unfolding assms(1-3) c_defs decode_q1_fields
  by (simp_all add: q decode_q1_arith_fields dec_defs execute_ext_c_q1_def execute_q1_arith_def shift_imm_def imm6_bits
      simm_def Let_def del: gather.simps One_nat_def)

lemma expand_q1_ok:
  assumes "field 0 2 0 w = 1" and "expand w = Some v" and "regs 0 = 0"
  shows "\<exists>e. outcome sf regs (fresh_ins pc fs rm) w = Inr (Some e) \<and> outcome sf regs (fresh_ins pc fs rm) v = Inr (Some e)"
proof -
  have e: "expand_q1 w = Some v" using assms(1,2) by (simp add: expand_def Let_def)
  have f: "field 0 2 10 w \<in> {0, 1, 2, 3}" using and3_cases [of "drop_bit 10 w"] unfolding and_field(4) .
  have a: "\<exists>e. outcome sf regs (fresh_ins pc fs rm) w = Inr (Some e) \<and> outcome sf regs (fresh_ins pc fs rm) v = Inr (Some e)"
    if "field 0 3 13 w = 4" "expand_q1_arith w = Some v"
    using f that(2) unfolding expand_q1_arith_def Let_def
    by (elim insertE emptyE) (auto simp: out_q1_arith [OF assms(1) that(1)] out_op_imm out_op out_op_bitwise take_field
        imm_small imm6_bits simp del: gather.simps One_nat_def split: if_splits)
  have "field 0 3 13 w \<in> {0, 1, 2, 3, 4, 5, 6, 7}" using and7_cases [of "drop_bit 13 w"] unfolding and_field(1) .
  then show ?thesis
    using e a unfolding expand_q1_def Let_def
    by (elim insertE emptyE) (auto simp: out_q1 [OF assms(1)] assms(3) out_op_imm out_jump
        take_field jump_imms simp del: gather.simps One_nat_def split: if_splits)
qed

lemma out_q2:
  fixes w :: u32
  defines "rd \<equiv> field 0 5 7 w" and "rs2 \<equiv> field 0 5 2 w"
    and "ld \<equiv> gather w 12 [5] OR gather w 6 [4, 3, 8, 7, 6]" and "lw \<equiv> gather w 12 [5] OR gather w 6 [4, 3, 2, 7, 6]"
    and "sd \<equiv> gather w 12 [5, 4, 3, 8, 7, 6]" and "sw \<equiv> gather w 12 [5, 4, 3, 2, 7, 6]"
  assumes q: "field 0 2 0 w = 2"
  shows "field 0 3 13 w = 0 \<Longrightarrow> outcome sf regs (fresh_ins pc fs rm) w
      = Inr (Some (wr rd (push_bit (unat (imm6 w)) (regs rd)), None, None))"
    "field 0 3 13 w = 1 \<Longrightarrow> outcome sf regs (fresh_ins pc fs rm) w
      = Inr (Some (None, Some (True, 8, False, regs 2 + scast ld, rd, True), None))"
    "field 0 3 13 w = 2 \<Longrightarrow> outcome sf regs (fresh_ins pc fs rm) w
      = Inr (Some (None, Some (True, 4, False, regs 2 + scast lw, rd, False), None))"
    "field 0 3 13 w = 3 \<Longrightarrow> outcome sf regs (fresh_ins pc fs rm) w
      = Inr (Some (None, Some (True, 8, False, regs 2 + scast ld, rd, False), None))"
    "field 0 3 13 w = 4 \<Longrightarrow> rs2 \<noteq> 0 \<Longrightarrow> outcome sf regs (fresh_ins pc fs rm) w
      = Inr (Some (wr rd (if field 0 1 12 w = 0 then regs rs2 else regs rd + regs rs2), None, None))"
    "field 0 3 13 w = 5 \<Longrightarrow> outcome sf regs (fresh_ins pc fs rm) w
      = Inr (Some (None, Some (False, 8, False, regs 2 + scast sd, rs2, True), None))"
    "field 0 3 13 w = 6 \<Longrightarrow> outcome sf regs (fresh_ins pc fs rm) w
      = Inr (Some (None, Some (False, 4, False, regs 2 + scast sw, rs2, False), None))"
    "field 0 3 13 w = 7 \<Longrightarrow> outcome sf regs (fresh_ins pc fs rm) w
      = Inr (Some (None, Some (False, 8, False, regs 2 + scast sd, rs2, False), None))"
  unfolding assms(1-6) c_defs decode_q2_fields
  by (simp_all add: q decode_q2_jump_fields dec_defs execute_ext_c_q2_def shift_imm_def imm6_bits and_field(9) simm_def Let_def
      del: gather.simps One_nat_def)

lemma expand_q2_ok:
  assumes "field 0 2 0 w = 2" and "expand w = Some v" and "regs 0 = 0" and "fs \<noteq> 0"
  shows "\<exists>e. outcome sf regs (fresh_ins pc fs rm) w = Inr (Some e) \<and> outcome sf regs (fresh_ins pc fs rm) v = Inr (Some e)"
proof -
  have e: "expand_q2 w = Some v" using assms(1,2) by (simp add: expand_def Let_def)
  have "field 0 3 13 w \<in> {0, 1, 2, 3, 4, 5, 6, 7}" using and7_cases [of "drop_bit 13 w"] unfolding and_field(1) .
  then show ?thesis
    using e unfolding expand_q2_def Let_def
    by (elim insertE emptyE) (auto simp: out_q2 [OF assms(1)] assms(3,4) out_op_imm out_op out_load out_store
        take_field imm_small imm6_bits simp del: gather.simps One_nat_def split: if_splits)
qed



end
