(* ===== verification/Execute_Props.thy ===== *)
theory Execute_Props
  imports Execute
begin

text \<open>
  Facts on the integer arithmetic of the execute stage: the high products on half words, and
  division.
\<close>

section \<open>High products\<close>

lemma idiv_less: "0 < M \<Longrightarrow> x < N * M \<Longrightarrow> x div M < N" for x :: int
  using mult_right_mono [of N "x div M" M] div_mult_mod_eq [of x M] pos_mod_sign [of M x] by linarith

lemma half_product:
  fixes p00 p01 p10 p11 M :: int
  assumes "0 < M"
  defines "c \<equiv> p00 div M + p01 mod M + p10 mod M"
  shows "(p11 * (M * M) + (p10 + p01) * M + p00) div (M * M) = c div M + p01 div M + p10 div M + p11"
proof -
  have "(p11 * (M * M) + (p10 + p01) * M + p00) div M = p00 div M + (p11 * M + p10 + p01)"
    using assms(1) div_mult_self1 [of M "p00" "p11 * M + p10 + p01"] by (simp add: algebra_simps)
  also have "\<dots> = c + (p01 div M + p10 div M + p11) * M"
    unfolding c_def by (simp add: algebra_simps mod_mult_div_eq flip: minus_mult_div_eq_mod)
  finally show ?thesis using assms(1) by (simp add: zdiv_zmult2_eq div_mult_self1)
qed

lemma uint_add: "uint (x :: u64) + uint y < 2 ^ 64 \<Longrightarrow> uint (x + y) = uint x + uint y"
  using uint_add_lem [of x y] by simp

lemma uint_mul: "uint (x :: u64) * uint y < 2 ^ 64 \<Longrightarrow> uint (x * y) = uint x * uint y"
  using uint_mult_lem [of x y] by simp

lemma uint_half: "uint (drop_bit 32 (x :: u64)) = uint x div 2 ^ 32" "uint (take_bit 32 x) = uint x mod 2 ^ 32"
proof -
  have "take_bit 64 (uint x) = uint x" using uint_bounded [of x] by (simp add: take_bit_int_eq_self_iff)
  then show "uint (drop_bit 32 x) = uint x div 2 ^ 32"
    unfolding unsigned_drop_bit_eq by (simp add: drop_bit_eq_div)
  show "uint (take_bit 32 x) = uint x mod 2 ^ 32" unfolding unsigned_take_bit_eq by (simp add: take_bit_eq_mod)
qed

lemma mulhu64_half_eq: "uint (mulhu64_half a b) = uint a * uint b div 2 ^ 64"
proof -
  let ?M = "2 ^ 32 :: int"
  define A0 A1 B0 B1 where ab: "A0 = uint a mod ?M" "A1 = uint a div ?M" "B0 = uint b mod ?M" "B1 = uint b div ?M"
  have lt: "uint a < 2 ^ 64" "uint b < 2 ^ 64" using uint_bounded [of a] uint_bounded [of b] by simp_all
  have r: "0 \<le> A0" "A0 < ?M" "0 \<le> A1" "A1 < ?M" "0 \<le> B0" "B0 < ?M" "0 \<le> B1" "B1 < ?M"
    using lt by (auto simp: ab pos_imp_zdiv_nonneg_iff)
  have prod: "0 \<le> x * y" "x * y \<le> (?M - 1) * (?M - 1)" if "0 \<le> x" "x < ?M" "0 \<le> y" "y < ?M" for x y
    using that mult_mono [of x "?M - 1" y "?M - 1"] by auto
  define a0 a1 b0 b1 where w: "a0 = take_bit 32 a" "a1 = take_bit 32 (drop_bit 32 a)"
    "b0 = take_bit 32 b" "b1 = take_bit 32 (drop_bit 32 b)"
  have u: "uint a0 = A0" "uint a1 = A1" "uint b0 = B0" "uint b1 = B1"
    using r(3,4,7,8) unfolding ab by (simp_all add: w uint_half mod_pos_pos_trivial)
  define r00 r01 r10 r11 where rr: "r00 = a0 * b0" "r01 = a0 * b1" "r10 = a1 * b0" "r11 = a1 * b1"
  define p00 p01 p10 p11 where pp: "p00 = A0 * B0" "p01 = A0 * B1" "p10 = A1 * B0" "p11 = A1 * B1"
  have p: "0 \<le> p00" "p00 \<le> (?M - 1) * (?M - 1)" "0 \<le> p01" "p01 \<le> (?M - 1) * (?M - 1)"
    "0 \<le> p10" "p10 \<le> (?M - 1) * (?M - 1)" "0 \<le> p11" "p11 \<le> (?M - 1) * (?M - 1)"
    using prod r by (auto simp: pp)
  have ur: "uint r00 = p00" "uint r01 = p01" "uint r10 = p10" "uint r11 = p11"
    using p by (auto simp: rr pp u uint_mul)
  define c where c: "c = drop_bit 32 r00 + take_bit 32 r01 + take_bit 32 r10"
  have d: "p00 div ?M \<le> ?M - 2" "p01 div ?M \<le> ?M - 2" "p10 div ?M \<le> ?M - 2" "p11 div ?M \<le> ?M - 2"
    using p by auto
  have m: "x mod ?M \<le> ?M - 1" for x :: int by simp
  have uc: "uint c = p00 div ?M + p01 mod ?M + p10 mod ?M"
    using d(1) m [of p01] m [of p10] p(1) unfolding c by (simp add: uint_add uint_half ur)
  define c' where c': "c' = drop_bit 32 c + drop_bit 32 r01 + drop_bit 32 r10 + take_bit 32 r11"
  have cl: "uint c div ?M \<le> 2" "0 \<le> uint c div ?M"
    using d(1) m [of p01] m [of p10] p(1) unfolding uc by (auto simp: pos_imp_zdiv_nonneg_iff)
  have uc': "uint c' = uint c div ?M + p01 div ?M + p10 div ?M + p11 mod ?M"
  proof -
    have h: "uint (drop_bit 32 c) = uint c div ?M" "uint (drop_bit 32 r01) = p01 div ?M"
      "uint (drop_bit 32 r10) = p10 div ?M" "uint (take_bit 32 r11) = p11 mod ?M" by (simp_all only: uint_half ur)
    have s: "uint (drop_bit 32 c + drop_bit 32 r01) = uint c div ?M + p01 div ?M"
      using uint_add [of "drop_bit 32 c" "drop_bit 32 r01"] cl(1) d(2) unfolding h by simp
    have s': "uint (drop_bit 32 c + drop_bit 32 r01 + drop_bit 32 r10) = uint c div ?M + p01 div ?M + p10 div ?M"
      using uint_add [of "drop_bit 32 c + drop_bit 32 r01" "drop_bit 32 r10"] cl(1) d(2,3) unfolding h s by simp
    show ?thesis unfolding c'
      using uint_add [of "drop_bit 32 c + drop_bit 32 r01 + drop_bit 32 r10" "take_bit 32 r11"] cl(1) d(2,3) m [of p11]
      unfolding h s' by simp
  qed
  have q: "(p11 * (?M * ?M) + (p10 + p01) * ?M + p00) = uint a * uint b"
  proof -
    have "uint a = A1 * ?M + A0" "uint b = B1 * ?M + B0" by (simp_all add: ab)
    then show ?thesis by (simp only: pp) (simp add: algebra_simps)
  qed
  have hi: "uint c' + p11 div ?M * ?M = uint a * uint b div (?M * ?M)"
  proof -
    have "uint a * uint b div (?M * ?M) = uint c div ?M + p01 div ?M + p10 div ?M + p11"
      using half_product [of ?M p11 p10 p01 p00] unfolding q uc by (simp only: zero_less_power zero_less_numeral)
    moreover have "p11 mod ?M + p11 div ?M * ?M = p11" by (rule mod_div_mult_eq)
    ultimately show ?thesis unfolding uc' by linarith
  qed
  have "uint a * uint b < ?M * ?M * (?M * ?M)"
    using mult_strict_mono' [OF lt] by simp
  then have bnd: "uint c' + p11 div ?M * ?M < ?M * ?M" unfolding hi by (intro idiv_less) simp_all
  define r3 where r3: "r3 = drop_bit 32 c' + drop_bit 32 r11"
  have lt3: "uint c' div ?M + p11 div ?M < ?M"
  proof -
    have "(uint c' + p11 div ?M * ?M) div ?M < ?M" using bnd by (intro idiv_less) simp_all
    then show ?thesis by simp
  qed
  then have ur3: "uint r3 = uint c' div ?M + p11 div ?M" "uint r3 < ?M"
    unfolding r3 by (simp_all add: uint_add uint_half ur)
  have t: "take_bit 32 r3 = r3" by (rule word_uint_eqI) (use ur3(2) in \<open>simp add: uint_half\<close>)
  have "mulhu64_half a b = push_bit 32 (take_bit 32 r3) OR take_bit 32 c'"
    by (simp only: mulhu64_half_def Let_def w rr c c' r3)
  then have "mulhu64_half a b = push_bit 32 r3 OR take_bit 32 c'" by (simp only: t)
  also have "\<dots> = push_bit 32 r3 + take_bit 32 c'"
    by (rule disjunctive_add [symmetric]) (auto simp: bit_simps)
  finally have "uint (mulhu64_half a b) = uint (push_bit 32 r3 + take_bit 32 c')" by simp
  also have "\<dots> = uint r3 * ?M + uint c' mod ?M"
  proof -
    have "uint (push_bit 32 r3) = uint r3 * ?M"
      using ur3(2) by (simp add: push_bit_eq_mult uint_mul)
    then show ?thesis using ur3(2) m [of "uint c'"] by (simp add: uint_add uint_half)
  qed
  also have "\<dots> = uint c' + p11 div ?M * ?M"
    unfolding ur3(1) by (simp add: algebra_simps)
  finally show ?thesis unfolding hi by simp
qed

lemma mulhu64_half_word: "mulhu64_half a b = word_of_int (uint a * uint b div 2 ^ 64)"
  using word_of_int_uint [of "mulhu64_half a b"] unfolding mulhu64_half_eq by simp

lemma sint_split: "sint (a :: u64) = uint a - (if sint a < 0 then 2 ^ 64 else 0)"
proof -
  have u: "uint a = sint a mod 2 ^ 64" using uint_sint [of a] by (simp add: take_bit_eq_mod)
  have r: "- (2 ^ 63) \<le> sint a" "sint a < 2 ^ 63" using sint_ge [of a] sint_lt [of a] by simp_all
  show ?thesis
  proof (cases "sint a < 0")
    case True
    have "sint a mod 2 ^ 64 = (sint a + 2 ^ 64) mod 2 ^ 64" by (rule mod_add_self2 [symmetric])
    also have "\<dots> = sint a + 2 ^ 64" using True r by (intro mod_pos_pos_trivial) auto
    finally show ?thesis using True u by simp
  next
    case False
    then show ?thesis using r u by (simp add: mod_pos_pos_trivial)
  qed
qed

lemma high_word: "ucast (signed_drop_bit 64 (word_of_int k :: 128 word)) = (word_of_int (k div 2 ^ 64) :: u64)"
proof -
  have "ucast (signed_drop_bit 64 (word_of_int k :: 128 word)) = (word_of_int (drop_bit 64 k) :: u64)"
    by (rule bit_word_eqI) (simp add: bit_simps)
  then show ?thesis by (simp add: drop_bit_eq_div)
qed

lemma high_words: "mulh64 a b = word_of_int (sint a * sint b div 2 ^ 64)"
  "mulhsu64 a b = word_of_int (sint a * uint b div 2 ^ 64)" "mulhu64 a b = word_of_int (uint a * uint b div 2 ^ 64)"
proof -
  have c: "(scast x :: 128 word) = word_of_int (sint x)" "(ucast x :: 128 word) = word_of_int (uint x)" for x :: u64 by simp_all
  show "mulh64 a b = word_of_int (sint a * sint b div 2 ^ 64)"
    using high_word [of "sint a * sint b"] unfolding mulh64_def c wi_hom_mult .
  show "mulhsu64 a b = word_of_int (sint a * uint b div 2 ^ 64)"
    using high_word [of "sint a * uint b"] unfolding mulhsu64_def c wi_hom_mult .
  show "mulhu64 a b = word_of_int (uint a * uint b div 2 ^ 64)"
    using high_word [of "uint a * uint b"] unfolding mulhu64_def c wi_hom_mult .
qed

lemma high_shift: "(word_of_int ((x - 2 ^ 64 * y) div 2 ^ 64) :: u64) = word_of_int (x div 2 ^ 64) - word_of_int y"
proof -
  have "(x - 2 ^ 64 * y) div 2 ^ 64 = x div 2 ^ 64 - y"
    using div_mult_self1 [of "2 ^ 64 :: int" x "- y"] by (simp add: algebra_simps)
  then show ?thesis by (simp only: wi_hom_sub)
qed

lemma mulhsu64_eq: "mulhsu64 a b = mulhu64 a b - (if sint a < 0 then b else 0)"
proof -
  have "sint a * uint b = uint a * uint b - 2 ^ 64 * (if sint a < 0 then uint b else 0)"
    by (subst sint_split) (simp add: algebra_simps)
  then show ?thesis unfolding high_words by (simp only: high_shift) simp
qed

lemma mulh64_eq: "mulh64 a b = mulhu64 a b - (if sint a < 0 then b else 0) - (if sint b < 0 then a else 0)"
proof -
  have "sint a * sint b = sint a * uint b - 2 ^ 64 * (if sint b < 0 then sint a else 0)"
    by (subst sint_split [of b]) (simp add: algebra_simps)
  then have "mulh64 a b = mulhsu64 a b - (if sint b < 0 then a else 0)"
    unfolding high_words by (simp only: high_shift) simp
  then show ?thesis by (simp only: mulhsu64_eq)
qed

text \<open>
  (C17) The high products are exact: \<^verbatim>\<open>mulh64\<close>, \<^verbatim>\<open>mulhsu64\<close> and \<^verbatim>\<open>mulhu64\<close> return the bits from 64 on of the
  product of the operands read signed, signed with unsigned, and unsigned, and the portable
  unsigned routine on half words agrees with the one on 128-bit integers.
\<close>

theorem mulh_exact:
  "mulh64 a b = word_of_int (sint a * sint b div 2 ^ 64) \<and> mulhsu64 a b = word_of_int (sint a * uint b div 2 ^ 64)
   \<and> mulhu64 a b = word_of_int (uint a * uint b div 2 ^ 64) \<and> mulhu64_half a b = mulhu64 a b"
  using high_words [of a b] mulhu64_half_word [of a b] by simp

text \<open>
  (C39) The portable signed routines are wrong when the signs differ: the correction subtracts each
  negative operand itself, where the product needs the other one. They agree with the exact product
  only for operands of the same sign (and, signed with unsigned, only for a non-negative
  first operand or equal operands).
\<close>

theorem mulh_half_wrong:
  "(mulh64_half a b = mulh64 a b \<longleftrightarrow> (sint a < 0) = (sint b < 0))
   \<and> (mulhsu64_half a b = mulhsu64 a b \<longleftrightarrow> 0 \<le> sint a \<or> a = b)"
proof -
  have "mulhu64_half a b = mulhu64 a b" using high_words [of a b] mulhu64_half_word [of a b] by simp
  then show ?thesis
    by (auto simp: mulh64_half_def mulhsu64_half_def mulh64_eq mulhsu64_eq Let_def algebra_simps)
qed

section \<open>Division\<close>

lemma smod_bounds: "b \<noteq> 0 \<Longrightarrow> \<bar>a smod b\<bar> < \<bar>b\<bar>" "a smod b = 0 \<or> sgn (a smod b) = sgn a" for a b :: int
proof -
  have e: "a smod b = sgn a * (\<bar>a\<bar> mod \<bar>b\<bar>)"
  proof -
    have "a smod b = a - sgn a * sgn b * (\<bar>a\<bar> div \<bar>b\<bar>) * b"
      using sdiv_mult_smod_eq [of a b] by (simp add: signed_divide_int_def)
    also have "\<dots> = sgn a * (\<bar>a\<bar> - \<bar>a\<bar> div \<bar>b\<bar> * \<bar>b\<bar>)"
      by (simp add: algebra_simps abs_sgn)
    finally show ?thesis by (simp add: minus_div_mult_eq_mod)
  qed
  show "\<bar>a smod b\<bar> < \<bar>b\<bar>" if "b \<noteq> 0" using that unfolding e by (simp add: abs_mult abs_sgn_eq)
  have "0 \<le> \<bar>a\<bar> mod \<bar>b\<bar>" by (cases "b = 0") simp_all
  then have "\<bar>a\<bar> mod \<bar>b\<bar> = 0 \<or> sgn (\<bar>a\<bar> mod \<bar>b\<bar>) = 1" by (auto simp: sgn_if)
  then show "a smod b = 0 \<or> sgn (a smod b) = sgn a" unfolding e by (auto simp: sgn_mult)
qed

lemma sint_word: "- (2 ^ 63) \<le> k \<Longrightarrow> k < 2 ^ 63 \<Longrightarrow> sint (word_of_int k :: u64) = k"
  by (simp add: sint_sbintrunc' signed_take_bit_int_eq_self)



end
