(* ===== verification/Cpu_Latches.thy ===== *)
theory Cpu_Latches
  imports Bpu Riscv_Instruction
begin

text \<open>
  The instruction latches and pipeline stages of \<^verbatim>\<open>utils/cpu_latches.c\<close> and the exception
  record of \<^verbatim>\<open>utils/sim_exception.c\<close>. A latch holds all that the simulator knows of an
  instruction in flight; the pipeline stages hold indices into the pool of latches.
\<close>

section \<open>The code\<close>

record InstructionLatch =
  l_status :: int
  l_insn_latch_index :: int
  l_is_decoded :: bool
  l_ins :: RVInstruction
  l_max_clock_cycles :: int
  l_elapsed_clock_cycles :: int
  l_cache_lookup_complete_signal_sent :: bool
  l_data_fwd_done :: bool
  l_read_rs1 :: bool
  l_read_rs2 :: bool
  l_read_rs3 :: bool
  l_keep_dest_busy :: bool
  l_renamed :: bool
  l_rob_idx :: int
  l_iq_idx :: int
  l_lsq_idx :: int
  l_branch_processed :: bool
  l_mispredict :: bool
  l_is_branch_taken :: bool
  l_is_pred_correct :: bool
  l_branch_target :: target_ulong
  l_predicted_target :: target_ulong
  l_bpu_resp_pkt :: BPUResponsePkt
  l_ins_dispatch_id :: u64

definition zero_latch :: InstructionLatch where
  "zero_latch = \<lparr>l_status = 0, l_insn_latch_index = 0, l_is_decoded = False, l_ins = zero_ins, l_max_clock_cycles = 0,
     l_elapsed_clock_cycles = 0, l_cache_lookup_complete_signal_sent = False, l_data_fwd_done = False,
     l_read_rs1 = False, l_read_rs2 = False, l_read_rs3 = False, l_keep_dest_busy = False, l_renamed = False,
     l_rob_idx = 0, l_iq_idx = 0, l_lsq_idx = 0, l_branch_processed = False, l_mispredict = False,
     l_is_branch_taken = False, l_is_pred_correct = False, l_branch_target = 0, l_predicted_target = 0,
     l_bpu_resp_pkt = \<lparr>pk_btb_probe_status = False, pk_ap_probe_status = False, pk_bpu_probe_status = False,
       pk_btb_entry = None\<rparr>,
     l_ins_dispatch_id = 0\<rparr>"

record CPUStage =
  has_data :: bool
  stage_exec_done :: bool
  insn_latch_index :: int

definition INSN_LATCH_POOL_SIZE :: nat where
  "INSN_LATCH_POOL_SIZE = 128"

abbreviation (input) INSN_LATCH_FREE :: int where "INSN_LATCH_FREE \<equiv> 0"
abbreviation (input) INSN_LATCH_ALLOCATED :: int where "INSN_LATCH_ALLOCATED \<equiv> 1"

definition cpu_stage_flush :: "CPUStage \<Rightarrow> CPUStage" where
  "cpu_stage_flush st = st\<lparr>has_data := False, insn_latch_index := - 1, stage_exec_done := False\<rparr>"

definition cpu_stage_flush_pipe :: "CPUStage list \<Rightarrow> int \<Rightarrow> sim_error + CPUStage list" where
  "cpu_stage_flush_pipe pipe num_stages =
     foldR (\<lambda>i p. bindR (aget p i) (\<lambda>st. aset p i (cpu_stage_flush st))) [0..<nat num_stages] pipe"

definition latch_free :: "InstructionLatch list \<Rightarrow> int \<Rightarrow> sim_error + InstructionLatch list" where
  "latch_free pool i = bindR (iget pool i) (\<lambda>e. iset pool i (e\<lparr>l_status := INSN_LATCH_FREE\<rparr>))"

definition cpu_stage_flush_free_insn_latch ::
  "CPUStage \<Rightarrow> InstructionLatch list \<Rightarrow> sim_error + CPUStage \<times> InstructionLatch list" where
  "cpu_stage_flush_free_insn_latch st pool =
     bindR (if insn_latch_index st \<noteq> - 1 then latch_free pool (insn_latch_index st) else Inr pool) (\<lambda>pool'.
       Inr (cpu_stage_flush st, pool'))"

function get_free_from :: "InstructionLatch list \<Rightarrow> nat \<Rightarrow> sim_error + int" where
  "get_free_from pool i =
     (if i < INSN_LATCH_POOL_SIZE
      then bindR (aget pool i) (\<lambda>e. if l_status e = INSN_LATCH_FREE then Inr (int i) else get_free_from pool (Suc i))
      else Inr (- 1))"
  by auto
termination by (relation "measure (\<lambda>(_, i). INSN_LATCH_POOL_SIZE - i)") auto

declare get_free_from.simps [simp del]

definition get_free_insn_latch :: "InstructionLatch list \<Rightarrow> sim_error + int" where
  "get_free_insn_latch pool = get_free_from pool 0"

definition reset_insn_latch_pool :: "InstructionLatch list \<Rightarrow> sim_error + InstructionLatch list" where
  "reset_insn_latch_pool pool = foldR (\<lambda>i p. latch_free p (int i)) [0..<INSN_LATCH_POOL_SIZE] pool"

definition insn_latch_allocate :: "InstructionLatch list \<Rightarrow> sim_error + int \<times> InstructionLatch list" where
  "insn_latch_allocate pool =
     bindR (get_free_insn_latch pool) (\<lambda>i.
     thenR (sim_assert (i \<noteq> - 1))
       (bindR (iset pool i (zero_latch\<lparr>l_status := INSN_LATCH_ALLOCATED, l_insn_latch_index := i\<rparr>)) (\<lambda>pool'.
          Inr (i, pool'))))"

definition get_insn_latch :: "InstructionLatch list \<Rightarrow> int \<Rightarrow> sim_error + InstructionLatch" where
  "get_insn_latch pool i = iget pool i"

subsection \<open>Exceptions\<close>

record SimException =
  x_pending :: bool
  x_cause :: int
  x_cpu_stage :: int
  x_pc :: target_ulong
  x_insn :: u32

abbreviation (input) SIM_TEMU_TIMEOUT_EXCEPTION :: int where "SIM_TEMU_TIMEOUT_EXCEPTION \<equiv> 3"
abbreviation (input) SIM_MMU_EXCEPTION :: int where "SIM_MMU_EXCEPTION \<equiv> 4"
abbreviation (input) SIM_ICOUNT_COMPLETE_EXCEPTION :: int where "SIM_ICOUNT_COMPLETE_EXCEPTION \<equiv> 5"

definition sim_exception_set :: "SimException \<Rightarrow> InstructionLatch \<Rightarrow> SimException" where
  "sim_exception_set x e =
     (let i = l_ins e; x = x\<lparr>x_pending := True, x_cause := i_exception_cause i\<rparr> in
      if x_cause x \<in> {SIM_ILLEGAL_OPCODE_EXCEPTION, SIM_COMPLEX_OPCODE_EXCEPTION, SIM_MMU_EXCEPTION}
      then x\<lparr>x_pc := i_pc i, x_insn := i_binary i\<rparr>
      else if x_cause x \<in> {SIM_TEMU_TIMEOUT_EXCEPTION, SIM_ICOUNT_COMPLETE_EXCEPTION}
      then (if i_is_branch i \<and> l_is_branch_taken e then x\<lparr>x_pc := l_branch_target e\<rparr>
            else if i_binary i AND 3 \<noteq> 3 then x\<lparr>x_pc := i_pc i + 2\<rparr>
            else x\<lparr>x_pc := i_pc i + 4\<rparr>)
      else x)"

definition sim_exception_init :: SimException where
  "sim_exception_init = \<lparr>x_pending = False, x_cause = 0, x_cpu_stage = 0, x_pc = 0, x_insn = 0\<rparr>"

end
