(* ===== verification/Phys_Mem.thy ===== *)
theory Phys_Mem
  imports Sim_Prelude
begin

text \<open>
  The physical memory map of \<^verbatim>\<open>iomem.c\<close>: ranges of guest addresses backed by RAM, by
  memory of the accelerator or by a device. The bytes behind a range live in the
  memory of the host, a function from host addresses to bytes. Allocation is the
  host's: the pointer \<^verbatim>\<open>mallocz\<close> returns is an argument.
\<close>

section \<open>Bytes\<close>

type_synonym host_mem = "u64 \<Rightarrow> u8"

text \<open>Little-endian values of \<open>n\<close> bytes, as the casts of the code read and write them.\<close>

primrec load_le :: "host_mem \<Rightarrow> u64 \<Rightarrow> nat \<Rightarrow> u64" where
  "load_le m p 0 = 0"
| "load_le m p (Suc n) = ucast (m p) OR push_bit 8 (load_le m (p + 1) n)"

primrec store_le :: "host_mem \<Rightarrow> u64 \<Rightarrow> nat \<Rightarrow> u64 \<Rightarrow> host_mem" where
  "store_le m p 0 v = m"
| "store_le m p (Suc n) v = (store_le m (p + 1) n (drop_bit 8 v))(p := ucast v)"

definition zero_bytes :: "host_mem \<Rightarrow> u64 \<Rightarrow> u64 \<Rightarrow> host_mem" where
  "zero_bytes m p sz = (\<lambda>a. if a - p < sz then 0 else m a)"

section \<open>The code\<close>

record PhysMemoryRange =
  pr_addr :: u64
  pr_org_size :: u64
  pr_size :: u64
  pr_is_ram :: bool
  pr_devram_flags :: u32
  pr_phys_mem :: u64
  pr_dirty_bits_size :: nat
  pr_dirty_bits :: bool
  pr_dirty_bits_tab :: "u32 list list"
  pr_dirty_bits_index :: nat
  pr_opaque :: nat
  pr_devio_flags :: u32
  pr_is_pim :: bool

text \<open>
  The pointer \<^verbatim>\<open>dirty_bits\<close> is \<^verbatim>\<open>NULL\<close> or \<^verbatim>\<open>dirty_bits_tab[dirty_bits_index]\<close>: \<open>pr_dirty_bits\<close> says
  which. \<open>pr_opaque\<close> names the device whose callbacks the range has.
\<close>

record PhysMemoryMap =
  n_phys_mem_range :: nat
  phys_mem_range :: "PhysMemoryRange list"

definition PHYS_MEM_RANGE_MAX :: nat where
  "PHYS_MEM_RANGE_MAX = 32"

abbreviation (input) DEVIO_SIZE32 :: u32 where "DEVIO_SIZE32 \<equiv> 4"
abbreviation (input) DEVIO_DISABLED :: u32 where "DEVIO_DISABLED \<equiv> 16"
abbreviation (input) DEVRAM_FLAG_DIRTY_BITS :: u32 where "DEVRAM_FLAG_DIRTY_BITS \<equiv> 2"
abbreviation (input) DEVRAM_FLAG_DISABLED :: u32 where "DEVRAM_FLAG_DISABLED \<equiv> 4"
abbreviation (input) DEVRAM_PAGE_SIZE_LOG2 :: nat where "DEVRAM_PAGE_SIZE_LOG2 \<equiv> 12"
abbreviation (input) DEVRAM_PAGE_SIZE :: u64 where "DEVRAM_PAGE_SIZE \<equiv> 4096"

definition zero_range :: PhysMemoryRange where
  "zero_range = \<lparr>pr_addr = 0, pr_org_size = 0, pr_size = 0, pr_is_ram = False, pr_devram_flags = 0, pr_phys_mem = 0,
     pr_dirty_bits_size = 0, pr_dirty_bits = False, pr_dirty_bits_tab = [[], []], pr_dirty_bits_index = 0,
     pr_opaque = 0, pr_devio_flags = 0, pr_is_pim = False\<rparr>"

definition phys_mem_map_init :: PhysMemoryMap where
  "phys_mem_map_init = \<lparr>n_phys_mem_range = 0, phys_mem_range = replicate PHYS_MEM_RANGE_MAX zero_range\<rparr>"

definition in_range :: "PhysMemoryRange \<Rightarrow> u64 \<Rightarrow> bool" where
  "in_range pr paddr \<longleftrightarrow> pr_addr pr \<le> paddr \<and> paddr < pr_addr pr + pr_size pr"

text \<open>The index of the first range that holds the address.\<close>

definition get_phys_mem_range :: "PhysMemoryMap \<Rightarrow> u64 \<Rightarrow> nat option" where
  "get_phys_mem_range s paddr = find (\<lambda>i. in_range (phys_mem_range s ! i) paddr) [0..<n_phys_mem_range s]"

definition set_range :: "PhysMemoryMap \<Rightarrow> nat \<Rightarrow> (PhysMemoryRange \<Rightarrow> PhysMemoryRange) \<Rightarrow> PhysMemoryMap" where
  "set_range s i f = s\<lparr>phys_mem_range := (phys_mem_range s)[i := f (phys_mem_range s ! i)]\<rparr>"

definition register_ram_entry :: "PhysMemoryMap \<Rightarrow> u64 \<Rightarrow> u64 \<Rightarrow> u32 \<Rightarrow> sim_error + nat \<times> PhysMemoryMap" where
  "register_ram_entry s addr sz devram_flags =
     thenR (sim_assert (n_phys_mem_range s < PHYS_MEM_RANGE_MAX))
     (thenR (sim_assert (sz AND (DEVRAM_PAGE_SIZE - 1) = 0 \<and> sz \<noteq> 0))
     (let i = n_phys_mem_range s;
          s = s\<lparr>n_phys_mem_range := i + 1\<rparr>
      in Inr (i, set_range s i (\<lambda>pr. pr\<lparr>pr_is_ram := True, pr_is_pim := False,
                   pr_devram_flags := devram_flags AND NOT DEVRAM_FLAG_DISABLED,
                   pr_addr := addr, pr_org_size := sz,
                   pr_size := (if devram_flags AND DEVRAM_FLAG_DISABLED \<noteq> 0 then 0 else sz),
                   pr_phys_mem := 0, pr_dirty_bits := False\<rparr>))))"

definition default_register_ram ::
  "PhysMemoryMap \<Rightarrow> host_mem \<Rightarrow> u64 \<Rightarrow> u64 \<Rightarrow> u32 \<Rightarrow> u64 \<Rightarrow> sim_error + nat \<times> PhysMemoryMap \<times> host_mem" where
  "default_register_ram s m addr sz devram_flags ptr =
     bindR (register_ram_entry s addr sz devram_flags) (\<lambda>(i, s).
     if ptr = 0 then Inl Program_exit
     else let s = set_range s i (\<lambda>pr. pr\<lparr>pr_phys_mem := ptr\<rparr>);
              nb_pages = drop_bit DEVRAM_PAGE_SIZE_LOG2 sz;
              n = unat ((nb_pages + 31) div 32);
              s = (if devram_flags AND DEVRAM_FLAG_DIRTY_BITS \<noteq> 0
                   then set_range s i (\<lambda>pr. pr\<lparr>pr_dirty_bits_size := n * 4, pr_dirty_bits_index := 0,
                          pr_dirty_bits_tab := [replicate n 0, replicate n 0], pr_dirty_bits := True\<rparr>)
                   else s)
          in Inr (i, s, zero_bytes m ptr sz))"

text \<open>
  The callback \<^verbatim>\<open>flush_tlb_write_range\<close> of the map is the argument \<open>flush\<close>: it changes the
  processor \<open>c\<close>, which is not part of the map.
\<close>

definition default_get_dirty_bits ::
  "(u64 \<Rightarrow> u64 \<Rightarrow> 'c \<Rightarrow> 'c) \<Rightarrow> PhysMemoryMap \<Rightarrow> nat \<Rightarrow> 'c \<Rightarrow> sim_error + u32 list \<times> PhysMemoryMap \<times> 'c" where
  "default_get_dirty_bits flush s i c =
     bindR (aget (phys_mem_range s) i) (\<lambda>pr.
     bindR (aget (pr_dirty_bits_tab pr) (pr_dirty_bits_index pr)) (\<lambda>dirty_bits.
     let n = pr_dirty_bits_size pr div 4;
         has_dirty_bits = list_ex (\<lambda>w. w \<noteq> 0) (take n dirty_bits);
         c = (if has_dirty_bits \<and> pr_size pr \<noteq> 0 then flush (pr_phys_mem pr) (pr_org_size pr) c else c);
         k = 1 - pr_dirty_bits_index pr
     in bindR (aget (pr_dirty_bits_tab pr) k) (\<lambda>other.
        bindR (aset (pr_dirty_bits_tab pr) k (replicate n 0 @ drop n other)) (\<lambda>tab.
          Inr (dirty_bits, set_range s i (\<lambda>pr. pr\<lparr>pr_dirty_bits_index := k, pr_dirty_bits_tab := tab\<rparr>), c)))))"

text \<open>Reading and changing the word of dirty bits that holds the page at \<open>offset\<close>.\<close>

definition dirty_word :: "PhysMemoryRange \<Rightarrow> u64 \<Rightarrow> sim_error + u32" where
  "dirty_word pr offset =
     bindR (aget (pr_dirty_bits_tab pr) (pr_dirty_bits_index pr)) (\<lambda>d.
       aget d (unat (drop_bit 5 (drop_bit DEVRAM_PAGE_SIZE_LOG2 offset))))"

definition set_dirty_word :: "PhysMemoryRange \<Rightarrow> u64 \<Rightarrow> u32 \<Rightarrow> sim_error + PhysMemoryRange" where
  "set_dirty_word pr offset w =
     bindR (aget (pr_dirty_bits_tab pr) (pr_dirty_bits_index pr)) (\<lambda>d.
     bindR (aset d (unat (drop_bit 5 (drop_bit DEVRAM_PAGE_SIZE_LOG2 offset))) w) (\<lambda>d'.
     bindR (aset (pr_dirty_bits_tab pr) (pr_dirty_bits_index pr) d') (\<lambda>tab.
       Inr (pr\<lparr>pr_dirty_bits_tab := tab\<rparr>))))"

definition dirty_mask :: "u64 \<Rightarrow> u32" where
  "dirty_mask offset = push_bit (unat (drop_bit DEVRAM_PAGE_SIZE_LOG2 offset AND 0x1f)) 1"

definition phys_mem_set_dirty_bit :: "PhysMemoryRange \<Rightarrow> u64 \<Rightarrow> sim_error + PhysMemoryRange" where
  "phys_mem_set_dirty_bit pr offset =
     (if pr_dirty_bits pr
      then bindR (dirty_word pr offset) (\<lambda>w. set_dirty_word pr offset (w OR dirty_mask offset))
      else Inr pr)"

definition phys_mem_is_dirty_bit :: "PhysMemoryRange \<Rightarrow> u64 \<Rightarrow> sim_error + bool" where
  "phys_mem_is_dirty_bit pr offset =
     (if \<not> pr_dirty_bits pr then Inr True
      else bindR (dirty_word pr offset) (\<lambda>w.
        Inr (drop_bit (unat (drop_bit DEVRAM_PAGE_SIZE_LOG2 offset AND 0x1f)) w AND 1 \<noteq> 0)))"

definition phys_mem_reset_dirty_bit ::
  "(u64 \<Rightarrow> u64 \<Rightarrow> 'c \<Rightarrow> 'c) \<Rightarrow> PhysMemoryRange \<Rightarrow> u64 \<Rightarrow> 'c \<Rightarrow> sim_error + PhysMemoryRange \<times> 'c" where
  "phys_mem_reset_dirty_bit flush pr offset c =
     (if pr_dirty_bits pr
      then bindR (dirty_word pr offset) (\<lambda>w.
           if w AND dirty_mask offset \<noteq> 0
           then bindR (set_dirty_word pr offset (w AND NOT (dirty_mask offset))) (\<lambda>pr'.
                  Inr (pr', flush (pr_phys_mem pr + (offset AND NOT (DEVRAM_PAGE_SIZE - 1))) DEVRAM_PAGE_SIZE c))
           else Inr (pr, c))
      else Inr (pr, c))"

definition cpu_register_pim ::
  "PhysMemoryMap \<Rightarrow> host_mem \<Rightarrow> u64 \<Rightarrow> u64 \<Rightarrow> u64 \<Rightarrow> u64 \<Rightarrow> sim_error + nat \<times> PhysMemoryMap \<times> host_mem" where
  "cpu_register_pim s m addr sz offset ptr =
     thenR (sim_assert (n_phys_mem_range s < PHYS_MEM_RANGE_MAX))
     (thenR (sim_assert (sz \<le> 0x1000000000))
     (let i = n_phys_mem_range s;
          s = s\<lparr>n_phys_mem_range := i + 1\<rparr>;
          s = set_range s i (\<lambda>pr. pr\<lparr>pr_addr := addr, pr_size := sz, pr_org_size := offset,
                pr_is_ram := False, pr_is_pim := True, pr_phys_mem := ptr\<rparr>)
      in if ptr = 0 then Inl Program_exit else Inr (i, s, zero_bytes m ptr sz)))"

definition cpu_register_device ::
  "PhysMemoryMap \<Rightarrow> u64 \<Rightarrow> u64 \<Rightarrow> nat \<Rightarrow> u32 \<Rightarrow> sim_error + nat \<times> PhysMemoryMap" where
  "cpu_register_device s addr sz dev devio_flags =
     thenR (sim_assert (n_phys_mem_range s < PHYS_MEM_RANGE_MAX))
     (thenR (sim_assert (sz \<le> 0xffffffff))
     (let i = n_phys_mem_range s;
          s = s\<lparr>n_phys_mem_range := i + 1\<rparr>
      in Inr (i, set_range s i (\<lambda>pr. pr\<lparr>pr_addr := addr, pr_org_size := sz,
                   pr_size := (if devio_flags AND DEVIO_DISABLED \<noteq> 0 then 0 else sz),
                   pr_is_ram := False, pr_is_pim := False, pr_opaque := dev, pr_devio_flags := devio_flags\<rparr>))))"

definition default_set_addr ::
  "(u64 \<Rightarrow> u64 \<Rightarrow> 'c \<Rightarrow> 'c) \<Rightarrow> PhysMemoryRange \<Rightarrow> u64 \<Rightarrow> bool \<Rightarrow> 'c \<Rightarrow> PhysMemoryRange \<times> 'c" where
  "default_set_addr flush pr addr enabled c =
     (let c' = (if pr_is_ram pr then flush (pr_phys_mem pr) (pr_org_size pr) c else c) in
      if enabled
      then (if pr_size pr = 0 \<or> pr_addr pr \<noteq> addr then (pr\<lparr>pr_addr := addr, pr_size := pr_org_size pr\<rparr>, c') else (pr, c))
      else (if pr_size pr \<noteq> 0 then (pr\<lparr>pr_addr := 0, pr_size := 0\<rparr>, c') else (pr, c)))"

definition phys_mem_get_ram_ptr :: "PhysMemoryMap \<Rightarrow> u64 \<Rightarrow> bool \<Rightarrow> sim_error + u64 \<times> PhysMemoryMap" where
  "phys_mem_get_ram_ptr s paddr is_rw =
     (case get_phys_mem_range s paddr of
        None \<Rightarrow> Inr (0, s)
      | Some i \<Rightarrow>
          bindR (aget (phys_mem_range s) i) (\<lambda>pr.
          if \<not> pr_is_ram pr then Inr (0, s)
          else let offset = paddr - pr_addr pr
               in bindR (if is_rw then phys_mem_set_dirty_bit pr offset else Inr pr) (\<lambda>pr'.
                    Inr (pr_phys_mem pr' + offset, set_range s i (\<lambda>_. pr')))))"

end
