(* ===== verification/Riscv_State.thy ===== *)
theory Riscv_State
  imports Cpu_Latches Phys_Mem Memory_Hierarchy
begin

text \<open>
  The state of the simulated core (\<^verbatim>\<open>core/riscv_sim_cpu.h\<close>) and of the emulated processor that
  owns it (\<^verbatim>\<open>riscv_cpu_priv.h\<close>), for the 64-bit build. The two point at each other in the code;
  here the processor holds the core. Three things of the host are part of the state: the bytes of
  its memory, the state \<open>'d\<close> of the devices and the answers of the external
  memory simulators. The trace file, the log, the host clock and the printed form of instructions are
  left out.
\<close>

record RISCVSIMCPUState =
  sc_core_id :: int
  sc_pc :: target_ulong
  sc_clock :: u64
  sc_icount :: u64
  sc_temu_rtc_time_at_simstart :: u64
  sc_skip_fetch_cycle :: bool
  sc_insn_latch_pool :: "InstructionLatch list"
  sc_stats :: "SimStats list"
  sc_params :: SimParams
  sc_bpu :: "BranchPredUnit option"
  sc_mem_hierarchy :: MemoryHierarchy
  sc_exception :: SimException
  sc_stats_shm :: "SimStats list"
  sc_simulation :: bool
  sc_return_to_sim :: bool
  sc_ext :: ext_state

record TLBEntry =
  t_vaddr :: target_ulong
  t_mem_addend :: u64
  t_guest_paddr :: target_ulong

record 'd RISCVCPUState =
  c_pc :: target_ulong
  c_reg :: "u64 list"
  c_fp_reg :: "u64 list"
  c_fflags :: u32
  c_frm :: u32
  c_cur_xlen :: nat
  c_priv :: nat
  c_fs :: u32
  c_mxl :: nat
  c_n_cycles :: int
  c_insn_counter :: u64
  c_power_down_flag :: bool
  c_pending_exception :: int
  c_pending_tval :: target_ulong
  c_mstatus :: target_ulong
  c_mtvec :: target_ulong
  c_mscratch :: target_ulong
  c_mepc :: target_ulong
  c_mcause :: target_ulong
  c_mtval :: target_ulong
  c_mhartid :: target_ulong
  c_misa :: u32
  c_mie :: u32
  c_mip :: u32
  c_medeleg :: u32
  c_mideleg :: u32
  c_mcounteren :: u32
  c_stvec :: target_ulong
  c_sscratch :: target_ulong
  c_sepc :: target_ulong
  c_scause :: target_ulong
  c_stval :: target_ulong
  c_satp :: u64
  c_scounteren :: u32
  c_load_res :: target_ulong
  c_mem_map :: PhysMemoryMap
  c_tlb_read :: "TLBEntry list"
  c_tlb_write :: "TLBEntry list"
  c_tlb_code :: "TLBEntry list"
  c_code_ptr :: u64
  c_code_end :: u64
  c_code_to_pc_addend :: target_ulong
  c_code_guest_paddr :: target_ulong
  c_data_guest_paddr :: target_ulong
  c_is_device_io :: bool
  c_is_pim_access :: bool
  c_hw_pg_tb_wlk_stage_id :: int
  c_ins_tlb_lookup_accounted :: bool
  c_ins_tlb_hit_accounted :: bool
  c_simcpu :: RISCVSIMCPUState
  c_host :: host_mem
  c_dev :: 'd

abbreviation (input) PRV_U :: nat where "PRV_U \<equiv> 0"
abbreviation (input) PRV_S :: nat where "PRV_S \<equiv> 1"
abbreviation (input) PRV_M :: nat where "PRV_M \<equiv> 3"

abbreviation (input) MAX_XLEN :: nat where "MAX_XLEN \<equiv> 64"

text \<open>The parameters are one object, which the processor and the core point to.\<close>

abbreviation sim_params :: "'d RISCVCPUState \<Rightarrow> SimParams" where
  "sim_params s \<equiv> sc_params (c_simcpu s)"

abbreviation in_simulation :: "'d RISCVCPUState \<Rightarrow> bool" where
  "in_simulation s \<equiv> sc_simulation (c_simcpu s)"

text \<open>\<^verbatim>\<open>++s->simcpu->stats[s->priv].counter\<close>\<close>

definition count :: "(SimStats \<Rightarrow> SimStats) \<Rightarrow> 'd RISCVCPUState \<Rightarrow> sim_error + 'd RISCVCPUState" where
  "count f s = bindR (bump f (c_priv s) (sc_stats (c_simcpu s))) (\<lambda>st.
     Inr (s\<lparr>c_simcpu := (c_simcpu s)\<lparr>sc_stats := st\<rparr>\<rparr>))"

text \<open>The same in simulation mode only.\<close>

definition count_sim :: "(SimStats \<Rightarrow> SimStats) \<Rightarrow> 'd RISCVCPUState \<Rightarrow> sim_error + 'd RISCVCPUState" where
  "count_sim f s = (if in_simulation s then count f s else Inr s)"

text \<open>
  The predictor counts in the statistics of the core (\<^verbatim>\<open>bpu->stats\<close> is \<^verbatim>\<open>simcpu->stats\<close>) and
  draws from the same \<^verbatim>\<open>rand()\<close> as the caches. \<open>with_bpu\<close> runs an operation on the unit with
  the shared statistics and puts them back.
\<close>

definition with_bpu ::
  "(BranchPredUnit \<Rightarrow> sim_error + 'a \<times> BranchPredUnit) \<Rightarrow> 'd RISCVCPUState \<Rightarrow> sim_error + 'a \<times> 'd RISCVCPUState" where
  "with_bpu f s =
     bindR (deref (sc_bpu (c_simcpu s))) (\<lambda>u.
     bindR (f (u\<lparr>u_stats := sc_stats (c_simcpu s)\<rparr>)) (\<lambda>(r, u').
       Inr (r, s\<lparr>c_simcpu := (c_simcpu s)\<lparr>sc_bpu := Some u', sc_stats := u_stats u'\<rparr>\<rparr>)))"

abbreviation cpu_rand :: "'d RISCVCPUState \<Rightarrow> rand_state" where
  "cpu_rand s \<equiv> ms_rand (mh_sys (sc_mem_hierarchy (c_simcpu s)))"

definition set_hierarchy :: "'d RISCVCPUState \<Rightarrow> MemoryHierarchy \<Rightarrow> 'd RISCVCPUState" where
  "set_hierarchy s h = s\<lparr>c_simcpu := (c_simcpu s)\<lparr>sc_mem_hierarchy := h\<rparr>\<rparr>"

abbreviation mem_controller :: "'d RISCVCPUState \<Rightarrow> MemoryController" where
  "mem_controller s \<equiv> ms_mc (mh_sys (sc_mem_hierarchy (c_simcpu s)))"

definition set_mem_controller :: "'d RISCVCPUState \<Rightarrow> MemoryController \<Rightarrow> 'd RISCVCPUState" where
  "set_mem_controller s m =
     (let h = sc_mem_hierarchy (c_simcpu s) in set_hierarchy s (h\<lparr>mh_sys := (mh_sys h)\<lparr>ms_mc := m\<rparr>\<rparr>))"

section \<open>Latches of the pool\<close>

abbreviation latch_pool :: "'d RISCVCPUState \<Rightarrow> InstructionLatch list" where
  "latch_pool s \<equiv> sc_insn_latch_pool (c_simcpu s)"

definition set_pool :: "'d RISCVCPUState \<Rightarrow> InstructionLatch list \<Rightarrow> 'd RISCVCPUState" where
  "set_pool s p = s\<lparr>c_simcpu := (c_simcpu s)\<lparr>sc_insn_latch_pool := p\<rparr>\<rparr>"

definition set_latch :: "'d RISCVCPUState \<Rightarrow> int \<Rightarrow> InstructionLatch \<Rightarrow> sim_error + 'd RISCVCPUState" where
  "set_latch s i e = bindR (iset (latch_pool s) i e) (\<lambda>p. Inr (set_pool s p))"

end
