(* ===== verification/Mmu.thy ===== *)
theory Mmu
  imports Riscv_State
begin

text \<open>
  Address translation and memory access of the emulated processor (\<^verbatim>\<open>riscv_cpu.c\<close>, lines 163 to 777, and the access
  macros of \<^verbatim>\<open>riscv_cpu_priv.h\<close>): the page table walk, the three translation buffers and the paths to RAM,
  accelerator memory and devices. An access returns \<open>None\<close> when it raised an
  exception, which is then pending in the state. The callbacks of the devices, which may
  change the processor (the interrupt controllers set bits of \<^verbatim>\<open>mip\<close>), are the argument \<open>dv\<close>.
\<close>

section \<open>The code\<close>

record 'd DevOps =
  dv_read :: "nat \<Rightarrow> u32 \<Rightarrow> nat \<Rightarrow> 'd RISCVCPUState \<Rightarrow> u32 \<times> 'd RISCVCPUState"
  dv_write :: "nat \<Rightarrow> u32 \<Rightarrow> u32 \<Rightarrow> nat \<Rightarrow> 'd RISCVCPUState \<Rightarrow> 'd RISCVCPUState"

abbreviation (input) PG_SHIFT :: nat where "PG_SHIFT \<equiv> 12"
abbreviation (input) PG_MASK :: u64 where "PG_MASK \<equiv> 0xfff"

abbreviation (input) MSTATUS_MPP_SHIFT :: nat where "MSTATUS_MPP_SHIFT \<equiv> 11"
abbreviation (input) MSTATUS_MPRV :: u64 where "MSTATUS_MPRV \<equiv> 0x20000"
abbreviation (input) MSTATUS_SUM :: u64 where "MSTATUS_SUM \<equiv> 0x40000"
abbreviation (input) MSTATUS_MXR :: u64 where "MSTATUS_MXR \<equiv> 0x80000"

abbreviation (input) PTE_V_MASK :: u64 where "PTE_V_MASK \<equiv> 1"
abbreviation (input) PTE_U_MASK :: u64 where "PTE_U_MASK \<equiv> 0x10"
abbreviation (input) PTE_A_MASK :: u64 where "PTE_A_MASK \<equiv> 0x40"
abbreviation (input) PTE_D_MASK :: u64 where "PTE_D_MASK \<equiv> 0x80"

abbreviation (input) ACCESS_READ :: nat where "ACCESS_READ \<equiv> 0"
abbreviation (input) ACCESS_WRITE :: nat where "ACCESS_WRITE \<equiv> 1"
abbreviation (input) ACCESS_CODE :: nat where "ACCESS_CODE \<equiv> 2"

abbreviation (input) CAUSE_FAULT_FETCH :: int where "CAUSE_FAULT_FETCH \<equiv> 1"
abbreviation (input) CAUSE_FETCH_PAGE_FAULT :: int where "CAUSE_FETCH_PAGE_FAULT \<equiv> 12"
abbreviation (input) CAUSE_LOAD_PAGE_FAULT :: int where "CAUSE_LOAD_PAGE_FAULT \<equiv> 13"
abbreviation (input) CAUSE_STORE_PAGE_FAULT :: int where "CAUSE_STORE_PAGE_FAULT \<equiv> 15"

text \<open>The RAM accesses of the page table walk; \<^verbatim>\<open>phys_read_u64\<close> reads 0 outside of RAM.\<close>

definition ram_ptr :: "PhysMemoryMap \<Rightarrow> target_ulong \<Rightarrow> u64 option" where
  "ram_ptr m addr =
     (case get_phys_mem_range m addr of
        None \<Rightarrow> None
      | Some i \<Rightarrow> (let pr = phys_mem_range m ! i in
                   if pr_is_ram pr then Some (pr_phys_mem pr + (addr - pr_addr pr)) else None))"

definition phys_read_u64 :: "'d RISCVCPUState \<Rightarrow> target_ulong \<Rightarrow> u64" where
  "phys_read_u64 s addr =
     (case ram_ptr (c_mem_map s) addr of None \<Rightarrow> 0 | Some p \<Rightarrow> load_le (c_host s) p 8)"

definition phys_write_u64 :: "'d RISCVCPUState \<Rightarrow> target_ulong \<Rightarrow> u64 \<Rightarrow> 'd RISCVCPUState" where
  "phys_write_u64 s addr v =
     (case ram_ptr (c_mem_map s) addr of None \<Rightarrow> s | Some p \<Rightarrow> s\<lparr>c_host := store_le (c_host s) p 8 v\<rparr>)"

subsection \<open>The page table walk\<close>

text \<open>The checks on a leaf entry.\<close>

definition pte_allows :: "u64 \<Rightarrow> nat \<Rightarrow> nat \<Rightarrow> u64 \<Rightarrow> bool" where
  "pte_allows mstatus priv access pte =
     (let xwr = drop_bit 1 pte AND 7 in
      if xwr = 2 \<or> xwr = 6 then False
      else if priv = PRV_S \<and> pte AND PTE_U_MASK \<noteq> 0 \<and> mstatus AND MSTATUS_SUM = 0 then False
      else if priv \<noteq> PRV_S \<and> pte AND PTE_U_MASK = 0 then False
      else let xwr = (if mstatus AND MSTATUS_MXR \<noteq> 0 then xwr OR drop_bit 2 xwr else xwr)
           in drop_bit access xwr AND 1 \<noteq> 0)"

text \<open>\<open>n\<close> levels remain; \<open>pte_addr\<close> is the table of the current one.\<close>

fun pte_walk ::
  "'d RISCVCPUState \<Rightarrow> nat \<Rightarrow> nat \<Rightarrow> target_ulong \<Rightarrow> target_ulong \<Rightarrow> nat \<Rightarrow> target_ulong option \<times> 'd RISCVCPUState" where
  "pte_walk s priv access vaddr pte_addr 0 = (None, s)"
| "pte_walk s priv access vaddr pte_addr (Suc n) =
     (let vaddr_shift = PG_SHIFT + 9 * n;
          pte_addr = pte_addr + push_bit 3 (drop_bit vaddr_shift vaddr AND 0x1ff);
          pte = phys_read_u64 s pte_addr
      in if pte AND PTE_V_MASK = 0 then (None, s)
         else let paddr = push_bit PG_SHIFT (drop_bit 10 pte)
              in if drop_bit 1 pte AND 7 \<noteq> 0
                 then if pte_allows (c_mstatus s) priv access pte
                      then let need_write = (pte AND PTE_A_MASK = 0 \<or> pte AND PTE_D_MASK = 0 \<and> access = ACCESS_WRITE);
                               pte = pte OR PTE_A_MASK;
                               pte = (if access = ACCESS_WRITE then pte OR PTE_D_MASK else pte);
                               s = (if need_write then phys_write_u64 s pte_addr pte else s);
                               vaddr_mask = push_bit vaddr_shift 1 - 1
                           in (Some (vaddr AND vaddr_mask OR paddr AND NOT vaddr_mask), s)
                      else (None, s)
                 else pte_walk s priv access vaddr paddr n)"

definition walk_counter :: "nat \<Rightarrow> SimStats \<Rightarrow> SimStats" where
  "walk_counter access =
     (if access = ACCESS_CODE then ins_page_walks_update (\<lambda>c. c + 1)
      else if access = ACCESS_READ then load_page_walks_update (\<lambda>c. c + 1)
      else if access = ACCESS_WRITE then store_page_walks_update (\<lambda>c. c + 1)
      else id)"

definition access_priv :: "'d RISCVCPUState \<Rightarrow> nat \<Rightarrow> nat" where
  "access_priv s access =
     (if c_mstatus s AND MSTATUS_MPRV \<noteq> 0 \<and> access \<noteq> ACCESS_CODE
      then unat (drop_bit MSTATUS_MPP_SHIFT (c_mstatus s) AND 3) else c_priv s)"

definition get_phys_addr ::
  "'d RISCVCPUState \<Rightarrow> target_ulong \<Rightarrow> nat \<Rightarrow> sim_error + target_ulong option \<times> 'd RISCVCPUState" where
  "get_phys_addr s vaddr access =
     (let priv = access_priv s access in
      if priv = PRV_M
      then Inr (Some (if c_cur_xlen s < MAX_XLEN then vaddr AND (push_bit (c_cur_xlen s) 1 - 1) else vaddr), s)
      else let mode = int (unat (drop_bit 60 (c_satp s) AND 0xf)) in
           if mode = 0 then Inr (Some vaddr, s)
           else let levels = mode - 8 + 3;
                    vaddr_shift = int MAX_XLEN - (int PG_SHIFT + levels * 9)
                in if vaddr_shift < 0 \<or> 64 \<le> vaddr_shift then Inl Undefined_shift
                   else if signed_drop_bit (nat vaddr_shift) (push_bit (nat vaddr_shift) vaddr) \<noteq> vaddr then Inr (None, s)
                   else bindR (count_sim (walk_counter access) s) (\<lambda>s.
                          let pte_addr = push_bit PG_SHIFT (c_satp s AND (push_bit 44 1 - 1))
                          in Inr (pte_walk s priv access vaddr pte_addr (nat levels))))"

subsection \<open>Translation buffers\<close>

definition tlb_idx :: "'d RISCVCPUState \<Rightarrow> target_ulong \<Rightarrow> nat" where
  "tlb_idx s addr = unat (ucast (drop_bit PG_SHIFT addr AND word_of_int (tlb_size (sim_params s) - 1)) :: u32)"

definition new_entry :: "target_ulong \<Rightarrow> target_ulong \<Rightarrow> u64 \<Rightarrow> TLBEntry" where
  "new_entry addr paddr ptr =
     \<lparr>t_vaddr = addr AND NOT PG_MASK, t_mem_addend = ptr - addr, t_guest_paddr = paddr AND NOT PG_MASK\<rparr>"

text \<open>A hit on an access of \<open>n\<close> bytes; a misaligned access never hits.\<close>

definition tlb_hit :: "TLBEntry \<Rightarrow> target_ulong \<Rightarrow> nat \<Rightarrow> bool" where
  "tlb_hit t addr n \<longleftrightarrow> t_vaddr t = addr AND NOT (PG_MASK AND NOT (of_nat n - 1))"

definition translated :: "TLBEntry \<Rightarrow> target_ulong \<Rightarrow> target_ulong" where
  "translated t addr = t_guest_paddr t + (addr - t_vaddr t)"

definition flush_entry :: "TLBEntry \<Rightarrow> TLBEntry" where
  "flush_entry t = t\<lparr>t_vaddr := - 1, t_guest_paddr := - 1\<rparr>"

definition tlb_init :: "'d RISCVCPUState \<Rightarrow> sim_error + 'd RISCVCPUState" where
  "tlb_init s =
     (let n = nat (tlb_size (sim_params s));
          f = (\<lambda>tlb. foldR (\<lambda>i t. bindR (aget t i) (\<lambda>x. aset t i (flush_entry x))) [0..<n] tlb)
      in bindR (f (c_tlb_read s)) (\<lambda>r. bindR (f (c_tlb_write s)) (\<lambda>w. bindR (f (c_tlb_code s)) (\<lambda>c.
         let s = s\<lparr>c_tlb_read := r, c_tlb_write := w, c_tlb_code := c\<rparr>
         in if in_simulation s \<and> enable_bpu (sim_params s) \<noteq> 0 \<and> bpu_flush_on_context_switch (sim_params s) \<noteq> 0
            then bindR (with_bpu (\<lambda>u. bindR (bpu_flush u) (\<lambda>u'. Inr ((), u'))) s) (\<lambda>(_, s). Inr s)
            else Inr s))))"

definition tlb_flush_all :: "'d RISCVCPUState \<Rightarrow> sim_error + 'd RISCVCPUState" where
  "tlb_flush_all s = tlb_init s"

definition tlb_flush_vaddr :: "'d RISCVCPUState \<Rightarrow> target_ulong \<Rightarrow> sim_error + 'd RISCVCPUState" where
  "tlb_flush_vaddr s vaddr = tlb_flush_all s"

definition riscv_cpu_flush_tlb_write_range_ram :: "u64 \<Rightarrow> u64 \<Rightarrow> 'd RISCVCPUState \<Rightarrow> 'd RISCVCPUState" where
  "riscv_cpu_flush_tlb_write_range_ram ram ram_size s =
     s\<lparr>c_tlb_write := map (\<lambda>t. let p = t_mem_addend t + t_vaddr t in
         if t_vaddr t \<noteq> - 1 \<and> ram \<le> p \<and> p < ram + ram_size then t\<lparr>t_vaddr := - 1\<rparr> else t) (c_tlb_write s)\<rparr>"

subsection \<open>Reads\<close>

type_synonym 'd reader = "'d RISCVCPUState \<Rightarrow> target_ulong \<Rightarrow> nat \<Rightarrow> sim_error + u64 option \<times> 'd RISCVCPUState"

definition device_read ::
  "'d DevOps \<Rightarrow> PhysMemoryRange \<Rightarrow> target_ulong \<Rightarrow> nat \<Rightarrow> 'd RISCVCPUState \<Rightarrow> u64 \<times> 'd RISCVCPUState" where
  "device_read dv pr offset size_log2 s =
     (if drop_bit size_log2 (pr_devio_flags pr) AND 1 \<noteq> 0
      then let (v, s) = dv_read dv (pr_opaque pr) (ucast offset) size_log2 s in (ucast v, s)
      else if pr_devio_flags pr AND DEVIO_SIZE32 \<noteq> 0 \<and> size_log2 = 3
      then let (lo, s) = dv_read dv (pr_opaque pr) (ucast offset) 2 s;
               (hi, s) = dv_read dv (pr_opaque pr) (ucast (offset + 4)) 2 s
           in (ucast lo OR push_bit 32 (ucast hi), s)
      else (0, s))"

text \<open>
  An aligned access. With no range at the address the code returns
  success without a value, and the caller copies an uninitialised variable.
\<close>

definition read_aligned :: "'d DevOps \<Rightarrow> 'd reader" where
  "read_aligned dv s addr size_log2 =
     bindR (get_phys_addr s addr ACCESS_READ) (\<lambda>(pa, s).
       case pa of
         None \<Rightarrow> Inr (None, s\<lparr>c_pending_tval := addr, c_pending_exception := CAUSE_LOAD_PAGE_FAULT\<rparr>)
       | Some paddr \<Rightarrow>
           (case get_phys_mem_range (c_mem_map s) paddr of
              None \<Rightarrow> Inl Uninitialized
            | Some i \<Rightarrow>
                let pr = phys_mem_range (c_mem_map s) ! i; ptr = pr_phys_mem pr + (paddr - pr_addr pr) in
                if pr_is_ram pr \<or> pr_is_pim pr
                then bindR (aset (c_tlb_read s) (tlb_idx s addr) (new_entry addr paddr ptr)) (\<lambda>tlb.
                     let s = s\<lparr>c_tlb_read := tlb\<rparr>;
                         s = (if pr_is_ram pr then s
                              else s\<lparr>c_data_guest_paddr := paddr - pr_addr pr, c_is_pim_access := True\<rparr>)
                     in Inr (Some (load_le (c_host s) ptr (2 ^ size_log2)), s))
                else let (v, s) = device_read dv pr (paddr - pr_addr pr) size_log2
                                    (s\<lparr>c_is_device_io := True, c_data_guest_paddr := paddr\<rparr>)
                     in Inr (Some v, s)))"

text \<open>
  \<^verbatim>\<open>target_read_slow\<close> and \<^verbatim>\<open>target_read_u##size\<close> call each other: a misaligned access
  is two aligned ones (or two bytes), which do not recurse again. \<open>rd\<close> is the read of those.
\<close>

definition target_read_slow :: "'d DevOps \<Rightarrow> 'd reader \<Rightarrow> 'd reader" where
  "target_read_slow dv rd s addr size_log2 =
     (let n = (2 :: nat) ^ size_log2; al = unat (addr AND (of_nat n - 1)) in
      if al \<noteq> 0
      then (if size_log2 = 1
            then bindR (rd s addr 0) (\<lambda>(v0, s). case v0 of None \<Rightarrow> Inr (None, s) | Some v0 \<Rightarrow>
                 bindR (rd s (addr + 1) 0) (\<lambda>(v1, s). case v1 of None \<Rightarrow> Inr (None, s) | Some v1 \<Rightarrow>
                   Inr (Some (v0 OR push_bit 8 v1), s)))
            else let a = addr - of_nat al in
                 bindR (rd s a size_log2) (\<lambda>(v0, s). case v0 of None \<Rightarrow> Inr (None, s) | Some v0 \<Rightarrow>
                 bindR (rd s (a + of_nat n) size_log2) (\<lambda>(v1, s). case v1 of None \<Rightarrow> Inr (None, s) | Some v1 \<Rightarrow>
                   Inr (Some (drop_bit (al * 8) v0 OR take_bit (8 * n) (push_bit (8 * n - al * 8) v1)), s))))
      else read_aligned dv s addr size_log2)"

definition target_read_with :: "'d DevOps \<Rightarrow> 'd reader \<Rightarrow> 'd reader" where
  "target_read_with dv slow s addr size_log2 =
     (let s = s\<lparr>c_is_device_io := False, c_is_pim_access := False\<rparr>; k = tlb_idx s addr; n = (2 :: nat) ^ size_log2 in
      bindR (count_sim (load_tlb_lookups_update (\<lambda>c. c + 1)) s) (\<lambda>s.
      bindR (aget (c_tlb_read s) k) (\<lambda>t.
      bindR (if tlb_hit t addr n
             then bindR (count_sim (load_tlb_hits_update (\<lambda>c. c + 1)) s) (\<lambda>s'.
                    Inr (Some (load_le (c_host s) (t_mem_addend t + addr) n), s'))
             else bindR (slow s addr size_log2) (\<lambda>(v, s). Inr (map_option (take_bit (8 * n)) v, s))) (\<lambda>(v, s).
        if v = None \<or> c_is_device_io s \<or> c_is_pim_access s then Inr (v, s)
        else bindR (aget (c_tlb_read s) k) (\<lambda>t. Inr (v, s\<lparr>c_data_guest_paddr := translated t addr\<rparr>))))))"

definition target_read_aligned :: "'d DevOps \<Rightarrow> 'd reader" where
  "target_read_aligned dv = target_read_with dv (read_aligned dv)"

definition target_read :: "'d DevOps \<Rightarrow> 'd reader" where
  "target_read dv = target_read_with dv (target_read_slow dv (target_read_aligned dv))"

subsection \<open>Writes\<close>

type_synonym 'd writer = "'d RISCVCPUState \<Rightarrow> target_ulong \<Rightarrow> u64 \<Rightarrow> nat \<Rightarrow> sim_error + bool \<times> 'd RISCVCPUState"

definition device_write ::
  "'d DevOps \<Rightarrow> PhysMemoryRange \<Rightarrow> target_ulong \<Rightarrow> u64 \<Rightarrow> nat \<Rightarrow> 'd RISCVCPUState \<Rightarrow> 'd RISCVCPUState" where
  "device_write dv pr offset v size_log2 s =
     (if drop_bit size_log2 (pr_devio_flags pr) AND 1 \<noteq> 0
      then dv_write dv (pr_opaque pr) (ucast offset) (ucast v) size_log2 s
      else if pr_devio_flags pr AND DEVIO_SIZE32 \<noteq> 0 \<and> size_log2 = 3
      then dv_write dv (pr_opaque pr) (ucast (offset + 4)) (ucast (drop_bit 32 v)) 2
             (dv_write dv (pr_opaque pr) (ucast offset) (ucast v) 2 s)
      else s)"

text \<open>The result is \<open>True\<close> on success. A write where there is no range does nothing.\<close>

definition write_aligned :: "'d DevOps \<Rightarrow> 'd writer" where
  "write_aligned dv s addr v size_log2 =
     bindR (get_phys_addr s addr ACCESS_WRITE) (\<lambda>(pa, s).
       case pa of
         None \<Rightarrow> Inr (False, s\<lparr>c_pending_tval := addr, c_pending_exception := CAUSE_STORE_PAGE_FAULT\<rparr>)
       | Some paddr \<Rightarrow>
           (case get_phys_mem_range (c_mem_map s) paddr of
              None \<Rightarrow> Inr (True, s)
            | Some i \<Rightarrow>
                let pr = phys_mem_range (c_mem_map s) ! i; ptr = pr_phys_mem pr + (paddr - pr_addr pr) in
                if pr_is_ram pr \<or> pr_is_pim pr
                then bindR (if pr_is_ram pr then phys_mem_set_dirty_bit pr (paddr - pr_addr pr) else Inr pr) (\<lambda>pr'.
                     bindR (aset (c_tlb_write s) (tlb_idx s addr) (new_entry addr paddr ptr)) (\<lambda>tlb.
                     let s = s\<lparr>c_mem_map := set_range (c_mem_map s) i (\<lambda>_. pr'), c_tlb_write := tlb\<rparr>;
                         s = (if pr_is_ram pr then s
                              else s\<lparr>c_data_guest_paddr := paddr - pr_addr pr, c_is_pim_access := True\<rparr>)
                     in Inr (True, s\<lparr>c_host := store_le (c_host s) ptr (2 ^ size_log2) v\<rparr>)))
                else Inr (True, device_write dv pr (paddr - pr_addr pr) v size_log2
                                  (s\<lparr>c_is_device_io := True, c_data_guest_paddr := paddr\<rparr>))))"

fun write_bytes :: "'d writer \<Rightarrow> 'd RISCVCPUState \<Rightarrow> target_ulong \<Rightarrow> u64 \<Rightarrow> nat \<Rightarrow> sim_error + bool \<times> 'd RISCVCPUState" where
  "write_bytes wr s addr v 0 = Inr (True, s)"
| "write_bytes wr s addr v (Suc n) =
     bindR (wr s addr (v AND 0xff) 0) (\<lambda>(ok, s).
       if ok then write_bytes wr s (addr + 1) (drop_bit 8 v) n else Inr (False, s))"

definition target_write_slow :: "'d DevOps \<Rightarrow> 'd writer \<Rightarrow> 'd writer" where
  "target_write_slow dv wr s addr v size_log2 =
     (let n = (2 :: nat) ^ size_log2 in
      if addr AND (of_nat n - 1) \<noteq> 0 then write_bytes wr s addr v n
      else write_aligned dv s addr v size_log2)"

definition target_write_with :: "'d DevOps \<Rightarrow> 'd writer \<Rightarrow> 'd writer" where
  "target_write_with dv slow s addr v size_log2 =
     (let s = s\<lparr>c_is_device_io := False, c_is_pim_access := False\<rparr>; k = tlb_idx s addr; n = (2 :: nat) ^ size_log2;
          v = take_bit (8 * n) v in
      bindR (count_sim (store_tlb_lookups_update (\<lambda>c. c + 1)) s) (\<lambda>s.
      bindR (aget (c_tlb_write s) k) (\<lambda>t.
      bindR (if tlb_hit t addr n
             then bindR (count_sim (store_tlb_hits_update (\<lambda>c. c + 1))
                          (s\<lparr>c_host := store_le (c_host s) (t_mem_addend t + addr) n v\<rparr>)) (\<lambda>s. Inr (True, s))
             else slow s addr v size_log2) (\<lambda>(ok, s).
        if \<not> ok \<or> c_is_device_io s \<or> c_is_pim_access s then Inr (ok, s)
        else bindR (aget (c_tlb_write s) k) (\<lambda>t. Inr (ok, s\<lparr>c_data_guest_paddr := translated t addr\<rparr>))))))"

definition target_write_aligned :: "'d DevOps \<Rightarrow> 'd writer" where
  "target_write_aligned dv = target_write_with dv (write_aligned dv)"

definition target_write :: "'d DevOps \<Rightarrow> 'd writer" where
  "target_write dv = target_write_with dv (target_write_slow dv (target_write_aligned dv))"

subsection \<open>Instruction fetch\<close>

definition get_insn32 :: "'d RISCVCPUState \<Rightarrow> u64 \<Rightarrow> u32" where
  "get_insn32 s p = ucast (load_le (c_host s) p 4)"

definition target_read_insn_slow ::
  "'d RISCVCPUState \<Rightarrow> target_ulong \<Rightarrow> sim_error + u64 option \<times> 'd RISCVCPUState" where
  "target_read_insn_slow s addr =
     bindR (get_phys_addr s addr ACCESS_CODE) (\<lambda>(pa, s).
       case pa of
         None \<Rightarrow> Inr (None, s\<lparr>c_pending_tval := addr, c_pending_exception := CAUSE_FETCH_PAGE_FAULT\<rparr>)
       | Some paddr \<Rightarrow>
           (case ram_ptr (c_mem_map s) paddr of
              None \<Rightarrow> Inr (None, s\<lparr>c_pending_tval := addr, c_pending_exception := CAUSE_FAULT_FETCH\<rparr>)
            | Some ptr \<Rightarrow>
                bindR (aset (c_tlb_code s) (tlb_idx s addr) (new_entry addr paddr ptr)) (\<lambda>tlb.
                  Inr (Some ptr, s\<lparr>c_tlb_code := tlb\<rparr>))))"

definition target_read_insn_u16 ::
  "'d RISCVCPUState \<Rightarrow> target_ulong \<Rightarrow> sim_error + u32 option \<times> 'd RISCVCPUState" where
  "target_read_insn_u16 s addr =
     bindR (if in_simulation s \<and> \<not> c_ins_tlb_lookup_accounted s
            then bindR (count (code_tlb_lookups_update (\<lambda>c. c + 1)) s) (\<lambda>s. Inr (s\<lparr>c_ins_tlb_lookup_accounted := True\<rparr>))
            else Inr s) (\<lambda>s.
     bindR (aget (c_tlb_code s) (tlb_idx s addr)) (\<lambda>t.
     bindR (if t_vaddr t = addr AND NOT PG_MASK
            then bindR (if in_simulation s \<and> \<not> c_ins_tlb_hit_accounted s
                        then bindR (count (code_tlb_hits_update (\<lambda>c. c + 1)) s) (\<lambda>s. Inr (s\<lparr>c_ins_tlb_hit_accounted := True\<rparr>))
                        else Inr s) (\<lambda>s. Inr (Some (t_mem_addend t + addr), s))
            else target_read_insn_slow s addr) (\<lambda>(p, s).
       Inr (map_option (\<lambda>p. ucast (load_le (c_host s) p 2)) p, s))))"

end
