(* ===== verification/Csr.thy ===== *)
theory Csr
  imports Mmu
begin

text \<open>
  Control and status registers, traps and returns of the emulated processor (\<^verbatim>\<open>riscv_cpu.c\<close>, lines 780 to 1378
  and 1447 to 1456), 64-bit build with double-precision floating point.
\<close>

section \<open>The code\<close>

abbreviation (input) MSTATUS_SPIE_SHIFT :: nat where "MSTATUS_SPIE_SHIFT \<equiv> 5"
abbreviation (input) MSTATUS_MPIE_SHIFT :: nat where "MSTATUS_MPIE_SHIFT \<equiv> 7"
abbreviation (input) MSTATUS_SPP_SHIFT :: nat where "MSTATUS_SPP_SHIFT \<equiv> 8"
abbreviation (input) MSTATUS_FS_SHIFT :: nat where "MSTATUS_FS_SHIFT \<equiv> 13"
abbreviation (input) MSTATUS_UXL_SHIFT :: nat where "MSTATUS_UXL_SHIFT \<equiv> 32"
abbreviation (input) MSTATUS_SXL_SHIFT :: nat where "MSTATUS_SXL_SHIFT \<equiv> 34"
abbreviation (input) MSTATUS_SIE :: u64 where "MSTATUS_SIE \<equiv> 0x2"
abbreviation (input) MSTATUS_MIE :: u64 where "MSTATUS_MIE \<equiv> 0x8"
abbreviation (input) MSTATUS_SPIE :: u64 where "MSTATUS_SPIE \<equiv> 0x20"
abbreviation (input) MSTATUS_MPIE :: u64 where "MSTATUS_MPIE \<equiv> 0x80"
abbreviation (input) MSTATUS_SPP :: u64 where "MSTATUS_SPP \<equiv> 0x100"
abbreviation (input) MSTATUS_MPP :: u64 where "MSTATUS_MPP \<equiv> 0x1800"
abbreviation (input) MSTATUS_FS :: u64 where "MSTATUS_FS \<equiv> 0x6000"
abbreviation (input) MSTATUS_XS :: u64 where "MSTATUS_XS \<equiv> 0x18000"
abbreviation (input) MSTATUS_UXL_MASK :: u64 where "MSTATUS_UXL_MASK \<equiv> 0x300000000"
abbreviation (input) MSTATUS_SXL_MASK :: u64 where "MSTATUS_SXL_MASK \<equiv> 0xc00000000"

text \<open>The unions of these bits.\<close>

definition SSTATUS_MASK :: u64 where
  "SSTATUS_MASK = 0x1 OR MSTATUS_SIE OR 0x10 OR MSTATUS_SPIE OR MSTATUS_SPP OR MSTATUS_FS OR MSTATUS_XS
     OR MSTATUS_SUM OR MSTATUS_MXR OR MSTATUS_UXL_MASK"

definition MSTATUS_MASK :: u64 where
  "MSTATUS_MASK = 0x1 OR MSTATUS_SIE OR MSTATUS_MIE OR 0x10 OR MSTATUS_SPIE OR MSTATUS_MPIE OR MSTATUS_SPP
     OR MSTATUS_MPP OR MSTATUS_FS OR MSTATUS_MPRV OR MSTATUS_SUM OR MSTATUS_MXR"

abbreviation (input) COUNTEREN_MASK :: u32 where "COUNTEREN_MASK \<equiv> 5"
abbreviation (input) MIP_SSIP :: u32 where "MIP_SSIP \<equiv> 0x2"
abbreviation (input) MIP_MSIP :: u32 where "MIP_MSIP \<equiv> 0x8"
abbreviation (input) MIP_STIP :: u32 where "MIP_STIP \<equiv> 0x20"
abbreviation (input) MIP_MTIP :: u32 where "MIP_MTIP \<equiv> 0x80"
abbreviation (input) MIP_SEIP :: u32 where "MIP_SEIP \<equiv> 0x200"
abbreviation (input) CAUSE_INTERRUPT :: u32 where "CAUSE_INTERRUPT \<equiv> 0x80000000"
abbreviation (input) MODE_SIM_START :: int where "MODE_SIM_START \<equiv> 1"
abbreviation (input) MODE_SIM_STOP :: int where "MODE_SIM_STOP \<equiv> 2"

text \<open>A shift of a 64-bit value, undefined in C from 64 on.\<close>

definition shl64 :: "u64 \<Rightarrow> nat \<Rightarrow> sim_error + u64" where
  "shl64 v n = (if n < 64 then Inr (push_bit n v) else Inl Undefined_shift)"

definition get_mstatus :: "'d RISCVCPUState \<Rightarrow> target_ulong \<Rightarrow> sim_error + target_ulong" where
  "get_mstatus s msk =
     (let v = (c_mstatus s OR ucast (push_bit MSTATUS_FS_SHIFT (c_fs s))) AND msk;
          sd = (v AND MSTATUS_FS = MSTATUS_FS \<or> v AND MSTATUS_XS = MSTATUS_XS)
      in if sd then bindR (shl64 1 (c_cur_xlen s - 1)) (\<lambda>b. Inr (v OR b)) else Inr v)"

definition get_base_from_xlen :: "nat \<Rightarrow> nat" where
  "get_base_from_xlen xlen = (if xlen = 32 then 1 else if xlen = 64 then 2 else 3)"

definition set_mstatus :: "'d RISCVCPUState \<Rightarrow> target_ulong \<Rightarrow> sim_error + 'd RISCVCPUState" where
  "set_mstatus s v =
     (let m = c_mstatus s XOR v in
      bindR (if m AND (MSTATUS_MPRV OR MSTATUS_SUM OR MSTATUS_MXR) \<noteq> 0
               \<or> c_mstatus s AND MSTATUS_MPRV \<noteq> 0 \<and> m AND MSTATUS_MPP \<noteq> 0
             then tlb_flush_all s else Inr s) (\<lambda>s.
      let s = s\<lparr>c_fs := ucast (drop_bit MSTATUS_FS_SHIFT v AND 3)\<rparr>;
          msk = MSTATUS_MASK AND NOT MSTATUS_FS;
          uxl = unat (drop_bit MSTATUS_UXL_SHIFT v AND 3);
          msk = (if 1 \<le> uxl \<and> uxl \<le> get_base_from_xlen MAX_XLEN then msk OR MSTATUS_UXL_MASK else msk);
          sxl = unat (drop_bit MSTATUS_UXL_SHIFT v AND 3);
          msk = (if 1 \<le> sxl \<and> sxl \<le> get_base_from_xlen MAX_XLEN then msk OR MSTATUS_SXL_MASK else msk)
      in Inr (s\<lparr>c_mstatus := c_mstatus s AND NOT msk OR v AND msk\<rparr>)))"

definition counter_enabled :: "'d RISCVCPUState \<Rightarrow> u32 \<Rightarrow> bool" where
  "counter_enabled s csr \<longleftrightarrow>
     (c_priv s < PRV_M \<longrightarrow>
      drop_bit (unat (csr AND 0x1f)) (if c_priv s < PRV_S then c_scounteren s else c_mcounteren s) AND 1 \<noteq> 0)"

text \<open>
  The result is the value, \<open>None\<close> for an invalid register, and the mode switch that
  a read of the simulation control registers requests (0 for none).
\<close>

definition csr_value :: "'d RISCVCPUState \<Rightarrow> u32 \<Rightarrow> sim_error + u64 option \<times> int" where
  "csr_value s csr =
     (let val = (\<lambda>v. Inr (Some v, 0)); invalid = Inr (None, 0) in
      if csr = 0x001 then (if c_fs s = 0 then invalid else val (ucast (c_fflags s)))
      else if csr = 0x002 then (if c_fs s = 0 then invalid else val (ucast (c_frm s)))
      else if csr = 0x003 then (if c_fs s = 0 then invalid else val (ucast (c_fflags s OR push_bit 5 (c_frm s))))
      else if csr \<in> {0xc00, 0xc02} then (if counter_enabled s csr then val (c_insn_counter s) else invalid)
      else if csr \<in> {0xc80, 0xc82} then
        (if c_cur_xlen s \<noteq> 32 \<or> \<not> counter_enabled s csr then invalid else val (drop_bit 32 (c_insn_counter s)))
      else if csr = 0x100 then bindR (get_mstatus s SSTATUS_MASK) val
      else if csr = 0x104 then val (ucast (c_mie s AND c_mideleg s))
      else if csr = 0x105 then val (c_stvec s)
      else if csr = 0x106 then val (ucast (c_scounteren s))
      else if csr = 0x140 then val (c_sscratch s)
      else if csr = 0x141 then val (c_sepc s)
      else if csr = 0x142 then val (c_scause s)
      else if csr = 0x143 then val (c_stval s)
      else if csr = 0x144 then val (ucast (c_mip s AND c_mideleg s))
      else if csr = 0x180 then val (c_satp s)
      else if csr = 0x300 then bindR (get_mstatus s (- 1)) val
      else if csr = 0x301 then bindR (shl64 (of_nat (c_mxl s)) (c_cur_xlen s - 2)) (\<lambda>b. val (ucast (c_misa s) OR b))
      else if csr = 0x302 then val (ucast (c_medeleg s))
      else if csr = 0x303 then val (ucast (c_mideleg s))
      else if csr = 0x304 then val (ucast (c_mie s))
      else if csr = 0x305 then val (c_mtvec s)
      else if csr = 0x306 then val (ucast (c_mcounteren s))
      else if csr = 0x340 then val (c_mscratch s)
      else if csr = 0x341 then val (c_mepc s)
      else if csr = 0x342 then val (c_mcause s)
      else if csr = 0x343 then val (c_mtval s)
      else if csr = 0x344 then val (ucast (c_mip s))
      else if csr \<in> {0xb00, 0xb02} then val (c_insn_counter s)
      else if csr \<in> {0xb80, 0xb82} then (if c_cur_xlen s \<noteq> 32 then invalid else val (drop_bit 32 (c_insn_counter s)))
      else if csr = 0xf14 then val (c_mhartid s)
      else if csr = 0x800 then Inr (Some 0, MODE_SIM_START)
      else if csr = 0x801 then Inr (Some 0, MODE_SIM_STOP)
      else invalid)"

definition csr_read ::
  "'d RISCVCPUState \<Rightarrow> u32 \<Rightarrow> bool \<Rightarrow> sim_error + (u64 option \<times> int) \<times> 'd RISCVCPUState" where
  "csr_read s csr will_write =
     bindR (count_sim (csr_reads_update (\<lambda>c. c + 1)) s) (\<lambda>s.
       if csr AND 0xc00 = 0xc00 \<and> will_write then Inr ((None, 0), s)
       else if c_priv s < unat (drop_bit 8 csr AND 3) then Inr ((None, 0), s)
       else bindR (csr_value s csr) (\<lambda>v. Inr (v, s)))"

definition set_frm :: "'d RISCVCPUState \<Rightarrow> u32 \<Rightarrow> 'd RISCVCPUState" where
  "set_frm s v = s\<lparr>c_frm := (if 5 \<le> v then 0 else v)\<rparr>"

definition get_insn_rm :: "'d RISCVCPUState \<Rightarrow> u32 \<Rightarrow> int" where
  "get_insn_rm s rm = (if rm = 7 then uint (c_frm s) else if 5 \<le> rm then - 1 else uint rm)"

text \<open>The result: \<open>- 1\<close> invalid register, 0 done, 1 the width changed, 2 the translation buffers were flushed.\<close>

definition csr_write :: "'d RISCVCPUState \<Rightarrow> u32 \<Rightarrow> u64 \<Rightarrow> sim_error + int \<times> 'd RISCVCPUState" where
  "csr_write s csr v =
     bindR (count_sim (csr_writes_update (\<lambda>c. c + 1)) s) (\<lambda>s.
     let don = (\<lambda>s. Inr (0, s)); masked = (\<lambda>old m. old AND NOT m OR ucast v AND (m :: u32)) in
      if csr = 0x001 then don (s\<lparr>c_fflags := ucast v AND 0x1f, c_fs := 3\<rparr>)
      else if csr = 0x002 then don ((set_frm s (ucast v AND 7))\<lparr>c_fs := 3\<rparr>)
      else if csr = 0x003 then don ((set_frm s (ucast (drop_bit 5 v) AND 7))\<lparr>c_fflags := ucast v AND 0x1f, c_fs := 3\<rparr>)
      else if csr = 0x100 then
        bindR (set_mstatus s (c_mstatus s AND NOT SSTATUS_MASK OR v AND SSTATUS_MASK)) don
      else if csr = 0x104 then don (s\<lparr>c_mie := masked (c_mie s) (c_mideleg s)\<rparr>)
      else if csr = 0x105 then don (s\<lparr>c_stvec := v AND NOT 3\<rparr>)
      else if csr = 0x106 then don (s\<lparr>c_scounteren := ucast v AND COUNTEREN_MASK\<rparr>)
      else if csr = 0x140 then don (s\<lparr>c_sscratch := v\<rparr>)
      else if csr = 0x141 then don (s\<lparr>c_sepc := v AND NOT 1\<rparr>)
      else if csr = 0x142 then don (s\<lparr>c_scause := v\<rparr>)
      else if csr = 0x143 then don (s\<lparr>c_stval := v\<rparr>)
      else if csr = 0x144 then don (s\<lparr>c_mip := masked (c_mip s) (c_mideleg s)\<rparr>)
      else if csr = 0x180 then
        (let new_mode = drop_bit 60 v AND 0xf;
             mode = (if new_mode = 0 \<or> 8 \<le> new_mode \<and> new_mode \<le> 9 then new_mode else drop_bit 60 (c_satp s))
         in bindR (tlb_flush_all (s\<lparr>c_satp := v AND (push_bit 44 1 - 1) OR push_bit 60 mode\<rparr>)) (\<lambda>s. Inr (2, s)))
      else if csr = 0x300 then bindR (set_mstatus s v) don
      else if csr = 0x301 then
        (if 64 \<le> c_cur_xlen s - 2 then Inl Undefined_shift
         else let new_mxl = unat (drop_bit (c_cur_xlen s - 2) v AND 3)
              in if 1 \<le> new_mxl \<and> new_mxl \<le> get_base_from_xlen MAX_XLEN \<and> c_mxl s \<noteq> new_mxl
                 then Inr (1, s\<lparr>c_mxl := new_mxl, c_cur_xlen := 2 ^ (new_mxl + 4)\<rparr>)
                 else don s)
      else if csr = 0x302 then don (s\<lparr>c_medeleg := masked (c_medeleg s) 0xffff\<rparr>)
      else if csr = 0x303 then don (s\<lparr>c_mideleg := masked (c_mideleg s) (MIP_SSIP OR MIP_STIP OR MIP_SEIP)\<rparr>)
      else if csr = 0x304 then
        don (s\<lparr>c_mie := masked (c_mie s) (MIP_MSIP OR MIP_MTIP OR MIP_SSIP OR MIP_STIP OR MIP_SEIP)\<rparr>)
      else if csr = 0x305 then don (s\<lparr>c_mtvec := v AND NOT 3\<rparr>)
      else if csr = 0x306 then don (s\<lparr>c_mcounteren := ucast v AND COUNTEREN_MASK\<rparr>)
      else if csr = 0x340 then don (s\<lparr>c_mscratch := v\<rparr>)
      else if csr = 0x341 then don (s\<lparr>c_mepc := v AND NOT 1\<rparr>)
      else if csr = 0x342 then don (s\<lparr>c_mcause := v\<rparr>)
      else if csr = 0x343 then don (s\<lparr>c_mtval := v\<rparr>)
      else if csr = 0x344 then don (s\<lparr>c_mip := masked (c_mip s) (MIP_SSIP OR MIP_STIP)\<rparr>)
      else Inr (- 1, s))"

subsection \<open>Traps\<close>

definition set_priv :: "'d RISCVCPUState \<Rightarrow> nat \<Rightarrow> sim_error + 'd RISCVCPUState" where
  "set_priv s priv =
     (if c_priv s \<noteq> priv
      then bindR (tlb_flush_all s) (\<lambda>s.
           let mxl = (if priv = PRV_S then unat (drop_bit MSTATUS_SXL_SHIFT (c_mstatus s) AND 3)
                      else if priv = PRV_U then unat (drop_bit MSTATUS_UXL_SHIFT (c_mstatus s) AND 3)
                      else c_mxl s)
           in Inr (s\<lparr>c_cur_xlen := 2 ^ (4 + mxl), c_priv := priv\<rparr>))
      else Inr s)"

definition count_cause :: "u32 \<Rightarrow> 'd RISCVCPUState \<Rightarrow> sim_error + 'd RISCVCPUState" where
  "count_cause cause s =
     (if in_simulation s
      then let k = unat (cause AND 0x7fffffff) in
           bindR (aget (sc_stats (c_simcpu s)) (c_priv s)) (\<lambda>st.
           if cause AND CAUSE_INTERRUPT \<noteq> 0
           then bindR (aget (interrupts st) k) (\<lambda>c. count (interrupts_update (\<lambda>l. l[k := c + 1])) s)
           else bindR (aget (exceptions st) k) (\<lambda>c. count (exceptions_update (\<lambda>l. l[k := c + 1])) s))
      else Inr s)"

definition delegated :: "'d RISCVCPUState \<Rightarrow> u32 \<Rightarrow> sim_error + bool" where
  "delegated s cause =
     (if c_priv s \<le> PRV_S
      then (let n = (if cause AND CAUSE_INTERRUPT \<noteq> 0 then cause AND 63 else cause);
                d = (if cause AND CAUSE_INTERRUPT \<noteq> 0 then c_mideleg s else c_medeleg s)
            in if n < 32 then Inr (drop_bit (unat n) d AND 1 \<noteq> 0) else Inl Undefined_shift)
      else Inr False)"

definition raise_exception2 :: "'d RISCVCPUState \<Rightarrow> u32 \<Rightarrow> target_ulong \<Rightarrow> sim_error + 'd RISCVCPUState" where
  "raise_exception2 s cause tval =
     bindR (count_cause cause s) (\<lambda>s.
     bindR (delegated s cause) (\<lambda>deleg.
     bindR (if cause AND CAUSE_INTERRUPT \<noteq> 0 then shl64 1 (c_cur_xlen s - 1) else Inr 0) (\<lambda>top.
     let causel = ucast (cause AND 0x7fffffff) OR top;
         ie = drop_bit (c_priv s) (c_mstatus s) AND 1
     in if deleg
        then let s = s\<lparr>c_scause := causel, c_sepc := c_pc s, c_stval := tval\<rparr>;
                 s = s\<lparr>c_mstatus := c_mstatus s AND NOT MSTATUS_SPIE OR push_bit MSTATUS_SPIE_SHIFT ie\<rparr>;
                 s = s\<lparr>c_mstatus := c_mstatus s AND NOT MSTATUS_SPP OR push_bit MSTATUS_SPP_SHIFT (of_nat (c_priv s))\<rparr>;
                 s = s\<lparr>c_mstatus := c_mstatus s AND NOT MSTATUS_SIE\<rparr>
             in bindR (set_priv s PRV_S) (\<lambda>s. Inr (s\<lparr>c_pc := c_stvec s\<rparr>))
        else let s = s\<lparr>c_mcause := causel, c_mepc := c_pc s, c_mtval := tval\<rparr>;
                 s = s\<lparr>c_mstatus := c_mstatus s AND NOT MSTATUS_MPIE OR push_bit MSTATUS_MPIE_SHIFT ie\<rparr>;
                 s = s\<lparr>c_mstatus := c_mstatus s AND NOT MSTATUS_MPP OR push_bit MSTATUS_MPP_SHIFT (of_nat (c_priv s))\<rparr>;
                 s = s\<lparr>c_mstatus := c_mstatus s AND NOT MSTATUS_MIE\<rparr>
             in bindR (set_priv s PRV_M) (\<lambda>s. Inr (s\<lparr>c_pc := c_mtvec s\<rparr>)))))"

definition raise_exception :: "'d RISCVCPUState \<Rightarrow> u32 \<Rightarrow> sim_error + 'd RISCVCPUState" where
  "raise_exception s cause = raise_exception2 s cause 0"

definition handle_sret :: "'d RISCVCPUState \<Rightarrow> sim_error + 'd RISCVCPUState" where
  "handle_sret s =
     (let spp = unat (drop_bit MSTATUS_SPP_SHIFT (c_mstatus s) AND 1);
          spie = drop_bit MSTATUS_SPIE_SHIFT (c_mstatus s) AND 1;
          s = s\<lparr>c_mstatus := c_mstatus s AND NOT (push_bit spp 1) OR push_bit spp spie\<rparr>;
          s = s\<lparr>c_mstatus := c_mstatus s OR MSTATUS_SPIE\<rparr>;
          s = s\<lparr>c_mstatus := c_mstatus s AND NOT MSTATUS_SPP\<rparr>
      in bindR (set_priv s spp) (\<lambda>s. Inr (s\<lparr>c_pc := c_sepc s\<rparr>)))"

definition handle_mret :: "'d RISCVCPUState \<Rightarrow> sim_error + 'd RISCVCPUState" where
  "handle_mret s =
     (let mpp = unat (drop_bit MSTATUS_MPP_SHIFT (c_mstatus s) AND 3);
          mpie = drop_bit MSTATUS_MPIE_SHIFT (c_mstatus s) AND 1;
          s = s\<lparr>c_mstatus := c_mstatus s AND NOT (push_bit mpp 1) OR push_bit mpp mpie\<rparr>;
          s = s\<lparr>c_mstatus := c_mstatus s OR MSTATUS_MPIE\<rparr>;
          s = s\<lparr>c_mstatus := c_mstatus s AND NOT MSTATUS_MPP\<rparr>
      in bindR (set_priv s mpp) (\<lambda>s. Inr (s\<lparr>c_pc := c_mepc s\<rparr>)))"

definition get_pending_irq_mask :: "'d RISCVCPUState \<Rightarrow> u32" where
  "get_pending_irq_mask s =
     (let pending_ints = c_mip s AND c_mie s in
      if pending_ints = 0 then 0
      else pending_ints AND
        (if c_priv s = PRV_M then (if c_mstatus s AND MSTATUS_MIE \<noteq> 0 then NOT (c_mideleg s) else 0)
         else if c_priv s = PRV_S
         then (if c_mstatus s AND MSTATUS_SIE \<noteq> 0 then NOT (c_mideleg s) OR c_mideleg s else NOT (c_mideleg s))
         else - 1))"

definition ctz32 :: "u32 \<Rightarrow> nat" where
  "ctz32 a = (case find (\<lambda>i. drop_bit i a AND 1 \<noteq> 0) [0..<32] of None \<Rightarrow> 32 | Some i \<Rightarrow> i)"

text \<open>The result is \<open>True\<close> when an interrupt was taken.\<close>

definition raise_interrupt :: "'d RISCVCPUState \<Rightarrow> sim_error + bool \<times> 'd RISCVCPUState" where
  "raise_interrupt s =
     (let msk = get_pending_irq_mask s in
      if msk = 0 then Inr (False, s)
      else bindR (raise_exception s (of_nat (ctz32 msk) OR CAUSE_INTERRUPT)) (\<lambda>s. Inr (True, s)))"

definition riscv_cpu_set_mip :: "'d RISCVCPUState \<Rightarrow> u32 \<Rightarrow> 'd RISCVCPUState" where
  "riscv_cpu_set_mip s msk =
     (let s = s\<lparr>c_mip := c_mip s OR msk\<rparr> in
      if c_power_down_flag s \<and> c_mip s AND c_mie s \<noteq> 0 then s\<lparr>c_power_down_flag := False\<rparr> else s)"

definition riscv_cpu_reset_mip :: "'d RISCVCPUState \<Rightarrow> u32 \<Rightarrow> 'd RISCVCPUState" where
  "riscv_cpu_reset_mip s msk = s\<lparr>c_mip := c_mip s AND NOT msk\<rparr>"

end
