(* ===== verification/Temu_Mem_Map.thy ===== *)
theory Temu_Mem_Map
  imports Mmu
begin

text \<open>
  The memory accesses of simulated instructions (\<^verbatim>\<open>memory_hierarchy/temu_mem_map_wrapper.c\<close>): loads, stores,
  atomic operations and instruction fetch, performed on the memory map of the emulator. The
  result \<open>False\<close> stands for the return value \<open>- 1\<close> of an access that raised an exception.
\<close>

section \<open>The code\<close>

text \<open>Sign extension of the low \<open>n\<close> bytes, \<^verbatim>\<open>(int##size##_t)\<close>.\<close>

definition sx :: "nat \<Rightarrow> u64 \<Rightarrow> u64" where
  "sx n v = word_of_int (signed_take_bit (8 * n - 1) (uint v))"

text \<open>The value an atomic operation writes: \<open>v\<close> is the value read, sign-extended, \<open>v2\<close> the operand.\<close>

definition amo_value :: "nat \<Rightarrow> u32 \<Rightarrow> u64 \<Rightarrow> u64 \<Rightarrow> u64" where
  "amo_value n funct5 v v2 =
     (if funct5 = 0 then sx n (v + v2)
      else if funct5 = 4 then sx n (v XOR v2)
      else if funct5 = 0xc then sx n (v AND v2)
      else if funct5 = 0x8 then sx n (v OR v2)
      else if funct5 = 0x10 then (if sint (sx n v) < sint (sx n v2) then sx n v else v2)
      else if funct5 = 0x14 then (if sint (sx n v2) < sint (sx n v) then sx n v else v2)
      else if funct5 = 0x18 then (if take_bit (8 * n) v < take_bit (8 * n) v2 then sx n v else v2)
      else if funct5 = 0x1c then (if take_bit (8 * n) v2 < take_bit (8 * n) v then sx n v else v2)
      else v2)"

text \<open>\<^verbatim>\<open>MEMORY_OP_A(size)\<close>; the result is the value for the destination, \<open>None\<close> on an exception.\<close>

definition memory_op_a ::
  "'d DevOps \<Rightarrow> nat \<Rightarrow> 'd RISCVCPUState \<Rightarrow> RVInstruction \<Rightarrow> sim_error + u64 option \<times> 'd RISCVCPUState" where
  "memory_op_a dv size_log2 s i =
     (let n = 2 ^ size_log2; addr = i_mem_addr i; funct5 = drop_bit 27 (i_binary i) in
      if funct5 = 2
      then bindR (target_read dv s addr size_log2) (\<lambda>(r, s).
             case r of None \<Rightarrow> Inr (None, s) | Some r \<Rightarrow> Inr (Some (sx n r), s\<lparr>c_load_res := addr\<rparr>))
      else if funct5 = 3
      then (if c_load_res s = addr
            then bindR (target_write dv s addr (i_rs2_val i) size_log2) (\<lambda>(ok, s). Inr (if ok then Some 0 else None, s))
            else Inr (Some 1, s))
      else if funct5 \<in> {1, 0, 4, 0xc, 0x8, 0x10, 0x14, 0x18, 0x1c}
      then bindR (target_read dv s addr size_log2) (\<lambda>(r, s).
             case r of None \<Rightarrow> Inr (None, s)
             | Some r \<Rightarrow>
                 bindR (target_write dv s addr (amo_value n funct5 (sx n r) (i_rs2_val i)) size_log2) (\<lambda>(ok, s).
                   Inr (if ok then Some (sx n r) else None, s)))
      else Inr (Some 0, s))"

definition temu_exec_atomic_insn ::
  "'d DevOps \<Rightarrow> 'd RISCVCPUState \<Rightarrow> RVInstruction \<Rightarrow> sim_error + bool \<times> RVInstruction \<times> 'd RISCVCPUState" where
  "temu_exec_atomic_insn dv s i =
     bindR (if i_funct3 i = 2 then memory_op_a dv 2 s i
            else if i_funct3 i = 3 then memory_op_a dv 3 s i
            else Inr (Some 0, s)) (\<lambda>(v, s).
       case v of None \<Rightarrow> Inr (False, i, s) | Some v \<Rightarrow> Inr (True, i\<lparr>i_buffer := v\<rparr>, s))"

text \<open>The access widths; a width the switch does not list performs no access.\<close>

definition width_log2 :: "int \<Rightarrow> nat option" where
  "width_log2 n = (if n = 1 then Some 0 else if n = 2 then Some 1 else if n = 4 then Some 2 else if n = 8 then Some 3 else None)"

definition exec_store ::
  "'d DevOps \<Rightarrow> 'd RISCVCPUState \<Rightarrow> RVInstruction \<Rightarrow> nat option \<Rightarrow> sim_error + bool \<times> RVInstruction \<times> 'd RISCVCPUState" where
  "exec_store dv s i w =
     (case w of None \<Rightarrow> Inr (True, i, s)
      | Some k \<Rightarrow> bindR (target_write dv s (i_mem_addr i) (i_rs2_val i) k) (\<lambda>(ok, s). Inr (ok, i, s)))"

text \<open>\<open>dummy\<close> marks the 32-bit read of the accelerator, whose value is dropped.\<close>

definition exec_load ::
  "'d DevOps \<Rightarrow> bool \<Rightarrow> 'd RISCVCPUState \<Rightarrow> RVInstruction \<Rightarrow> sim_error + bool \<times> RVInstruction \<times> 'd RISCVCPUState" where
  "exec_load dv dummy s i =
     (case width_log2 (i_bytes_to_rw i) of None \<Rightarrow> Inr (True, i, s)
      | Some k \<Rightarrow> bindR (target_read dv s (i_mem_addr i) k) (\<lambda>(r, s).
          case r of None \<Rightarrow> Inr (False, i, s)
          | Some r \<Rightarrow>
              let r = (if dummy \<and> k = 2 then 0 else r)
              in Inr (True, i\<lparr>i_buffer := (if i_is_unsigned i then r else sx (2 ^ k) r)\<rparr>, s)))"

definition temu_exec_load_store_insn ::
  "'d DevOps \<Rightarrow> 'd RISCVCPUState \<Rightarrow> RVInstruction \<Rightarrow> sim_error + bool \<times> RVInstruction \<times> 'd RISCVCPUState" where
  "temu_exec_load_store_insn dv s i =
     (let s = s\<lparr>c_data_guest_paddr := 0\<rparr> in
      if i_is_aim i
      then (if i_is_store i
            then exec_store dv s i (if i_bytes_to_rw i = 32 then Some 3 else width_log2 (i_bytes_to_rw i))
            else if i_is_load i then exec_load dv True s i
            else Inr (True, i, s))
      else if i_is_load i then exec_load dv False s i
      else if i_is_store i then exec_store dv s i (width_log2 (i_bytes_to_rw i))
      else if i_is_atomic i then temu_exec_atomic_insn dv s i
      else Inr (True, i, s))"

text \<open>Fetch at \<^verbatim>\<open>simcpu->pc\<close>: on a fresh page through the translation buffer, else at \<^verbatim>\<open>code_ptr\<close>.\<close>

definition temu_read_insn ::
  "'d RISCVCPUState \<Rightarrow> RVInstruction \<Rightarrow> sim_error + bool \<times> RVInstruction \<times> 'd RISCVCPUState" where
  "temu_read_insn s i =
     (if c_code_end s \<le> c_code_ptr s
      then let addr = sc_pc (c_simcpu s); k = tlb_idx s addr in
           bindR (count (code_tlb_lookups_update (\<lambda>c. c + 1)) s) (\<lambda>s.
           bindR (aget (c_tlb_code s) k) (\<lambda>t.
           bindR (if t_vaddr t = addr AND NOT PG_MASK
                  then bindR (count (code_tlb_hits_update (\<lambda>c. c + 1)) s) (\<lambda>s. Inr (Some (t_mem_addend t + addr), s))
                  else target_read_insn_slow s addr) (\<lambda>(p, s).
             case p of None \<Rightarrow> Inr (False, i, s)
             | Some ptr \<Rightarrow>
                 bindR (aget (c_tlb_code s) k) (\<lambda>t.
                 let s = s\<lparr>c_code_ptr := ptr, c_code_end := ptr + (PG_MASK - 1 - (addr AND PG_MASK)),
                           c_code_to_pc_addend := addr - ptr, c_code_guest_paddr := translated t addr\<rparr>
                 in if c_code_end s \<le> c_code_ptr s
                    then let lo = ucast (load_le (c_host s) ptr 2); i = i\<lparr>i_binary := lo\<rparr> in
                         if lo AND 3 = 3
                         then bindR (target_read_insn_u16 s (addr + 2)) (\<lambda>(hi, s).
                                case hi of None \<Rightarrow> Inr (False, i, s)
                                | Some hi \<Rightarrow> Inr (True, i\<lparr>i_binary := lo OR push_bit 16 hi\<rparr>, s))
                         else Inr (True, i, s)
                    else Inr (True, i\<lparr>i_binary := get_insn32 s ptr\<rparr>, s)))))
      else Inr (True, i\<lparr>i_binary := get_insn32 s (c_code_ptr s)\<rparr>, s))"

end
