(* ===== verification/Sim_Cpu.thy ===== *)
theory Sim_Cpu
  imports Csr Decoder Temu_Mem_Map
begin

text \<open>
  The simulated core of \<^verbatim>\<open>core/riscv_sim_cpu.c\<close>: what the in-order and the out-of-order pipelines share. The
  branch handlers of the fetch, decode and execute stages connect the
  pipeline with the predictor; the fetch and memory stages charge the latency of the memory hierarchy; commits
  write the registers of the emulated processor. A function on a latch takes the latch and
  returns it changed; its caller stores it back into the pool.
\<close>

section \<open>Branch prediction\<close>

definition pc_of_next :: "InstructionLatch \<Rightarrow> target_ulong" where
  "pc_of_next e = (if i_binary (l_ins e) AND 3 = 3 then i_pc (l_ins e) + 4 else i_pc (l_ins e) + 2)"

text \<open>Start fetching at an address: \<^verbatim>\<open>code_ptr = code_end = NULL\<close> and the address in \<^verbatim>\<open>code_to_pc_addend\<close>.\<close>

definition redirect :: "'d RISCVCPUState \<Rightarrow> target_ulong \<Rightarrow> 'd RISCVCPUState" where
  "redirect s a = s\<lparr>c_code_ptr := 0, c_code_end := 0, c_code_to_pc_addend := a\<rparr>"

text \<open>Probes of the unit update the packet of the latch.\<close>

definition probe_latch :: "'d RISCVCPUState \<Rightarrow> InstructionLatch \<Rightarrow> sim_error + InstructionLatch \<times> 'd RISCVCPUState" where
  "probe_latch s e =
     bindR (with_bpu (\<lambda>u. bpu_probe u (i_pc (l_ins e)) (l_bpu_resp_pkt e) (c_priv s)) s) (\<lambda>(p, s).
       Inr (e\<lparr>l_bpu_resp_pkt := p\<rparr>, s))"

definition bpu_enabled_fetch_stage_handler ::
  "'d RISCVCPUState \<Rightarrow> InstructionLatch \<Rightarrow> sim_error + InstructionLatch \<times> 'd RISCVCPUState" where
  "bpu_enabled_fetch_stage_handler s e =
     bindR (probe_latch s e) (\<lambda>(e, s).
     bindR (if pk_bpu_probe_status (l_bpu_resp_pkt e)
            then bindR (with_bpu (\<lambda>u. bindR (bpu_get_target u (i_pc (l_ins e)) (pk_btb_entry (l_bpu_resp_pkt e)))
                                     (\<lambda>t. Inr (t, u))) s) (\<lambda>(t, s).
                   Inr (t, if t \<noteq> 0 then redirect s t else s))
            else Inr (0, s)) (\<lambda>(bpu_target, s).
       Inr (e\<lparr>l_predicted_target := bpu_target\<rparr>, s)))"

definition bpu_disabled_fetch_stage_handler ::
  "'d RISCVCPUState \<Rightarrow> InstructionLatch \<Rightarrow> sim_error + InstructionLatch \<times> 'd RISCVCPUState" where
  "bpu_disabled_fetch_stage_handler s e = Inr (e, s)"

definition on_ras :: "(Ras \<Rightarrow> sim_error + 'a \<times> Ras) \<Rightarrow> 'd RISCVCPUState \<Rightarrow> sim_error + 'a \<times> 'd RISCVCPUState" where
  "on_ras f = with_bpu (\<lambda>u. bindR (deref (u_ras u)) (\<lambda>r. bindR (f r) (\<lambda>(a, r'). Inr (a, u\<lparr>u_ras := Some r'\<rparr>))))"

text \<open>Requests of the fetch stage on the path that is given up.\<close>

definition drop_frontend_requests :: "'d RISCVCPUState \<Rightarrow> sim_error + 'd RISCVCPUState" where
  "drop_frontend_requests s =
     bindR (mem_controller_invalidate_mem_request_queue_entries (mem_controller s)
              (mq_frontend (mc_queues (mem_controller s)))) (\<lambda>m.
       Inr (set_mem_controller s (m\<lparr>mc_queues := (mc_queues m)\<lparr>
              mq_frontend := mem_controller_reset_cpu_stage_queue (mq_frontend (mc_queues m))\<rparr>\<rparr>)))"

definition bpu_enabled_decode_stage_handler ::
  "'d RISCVCPUState \<Rightarrow> InstructionLatch \<Rightarrow> sim_error + bool \<times> InstructionLatch \<times> 'd RISCVCPUState" where
  "bpu_enabled_decode_stage_handler s e =
     (if ras_size (sim_params s) \<noteq> 0
      then bindR (if i_is_func_call (l_ins e)
                  then on_ras (\<lambda>r. bindR (ras_push r (pc_of_next e)) (\<lambda>r'. Inr ((), r'))) s
                  else Inr ((), s)) (\<lambda>(_, s).
           if i_is_func_ret (l_ins e)
           then bindR (on_ras ras_pop s) (\<lambda>(ras_target, s).
                if ras_target \<noteq> 0
                then bindR (drop_frontend_requests (redirect s ras_target)) (\<lambda>s.
                       Inr (True, e\<lparr>l_predicted_target := ras_target\<rparr>,
                            s\<lparr>c_simcpu := (c_simcpu s)\<lparr>sc_skip_fetch_cycle := True\<rparr>\<rparr>))
                else Inr (False, e, s))
           else Inr (False, e, s))
      else Inr (False, e, s))"

definition bpu_disabled_decode_stage_handler ::
  "'d RISCVCPUState \<Rightarrow> InstructionLatch \<Rightarrow> sim_error + bool \<times> InstructionLatch \<times> 'd RISCVCPUState" where
  "bpu_disabled_decode_stage_handler s e = Inr (False, e, s)"

definition update_latch ::
  "'d RISCVCPUState \<Rightarrow> InstructionLatch \<Rightarrow> bool \<Rightarrow> int \<Rightarrow> sim_error + 'd RISCVCPUState" where
  "update_latch s e pred ty =
     bindR (with_bpu (\<lambda>u. bindR (bpu_update u (i_pc (l_ins e)) (i_target (l_ins e)) pred ty (l_bpu_resp_pkt e) (c_priv s))
                             (\<lambda>u'. Inr ((), u'))) s) (\<lambda>(_, s). Inr s)"

text \<open>The result is \<open>True\<close> for a misprediction.\<close>

definition bpu_enabled_conditional_branch_handler ::
  "'d RISCVCPUState \<Rightarrow> InstructionLatch \<Rightarrow> sim_error + bool \<times> InstructionLatch \<times> 'd RISCVCPUState" where
  "bpu_enabled_conditional_branch_handler s e =
     bindR (probe_latch s e) (\<lambda>(e, s).
     bindR (if i_cond (l_ins e) \<noteq> 0
            then bindR (if l_predicted_target e = 0
                        then bindR (count (bpu_cond_incorrect_update (\<lambda>c. c + 1)) s) (\<lambda>s.
                               Inr (True, e\<lparr>l_branch_target := i_target (l_ins e)\<rparr>, s))
                        else thenR (sim_assert (l_predicted_target e = i_target (l_ins e)))
                             (bindR (count (bpu_cond_correct_update (\<lambda>c. c + 1)) s) (\<lambda>s.
                               Inr (False, e\<lparr>l_is_pred_correct := True, l_branch_target := l_predicted_target e\<rparr>, s))))
                   (\<lambda>(mis, e, s). Inr (True, mis, e\<lparr>l_is_branch_taken := True\<rparr>, s))
            else bindR (if l_predicted_target e \<noteq> 0
                        then bindR (count (bpu_cond_incorrect_update (\<lambda>c. c + 1)) s) (\<lambda>s.
                               Inr (True, e\<lparr>l_branch_target := pc_of_next e\<rparr>, s))
                        else bindR (count (bpu_cond_correct_update (\<lambda>c. c + 1)) s) (\<lambda>s.
                               Inr (False, e\<lparr>l_is_pred_correct := True\<rparr>, s)))
                   (\<lambda>(mis, e, s). Inr (False, mis, e\<lparr>l_is_branch_taken := False\<rparr>, s)))
           (\<lambda>(pred, mispredict, e, s).
     bindR (update_latch s e pred BRANCH_COND) (\<lambda>s. Inr (mispredict, e, s))))"

definition bpu_enabled_unconditional_branch_handler ::
  "'d RISCVCPUState \<Rightarrow> InstructionLatch \<Rightarrow> sim_error + bool \<times> InstructionLatch \<times> 'd RISCVCPUState" where
  "bpu_enabled_unconditional_branch_handler s e =
     bindR (probe_latch s e) (\<lambda>(e, s).
     bindR (update_latch s e True BRANCH_UNCOND) (\<lambda>s.
     bindR (if l_predicted_target e = i_target (l_ins e)
            then bindR (count (bpu_uncond_correct_update (\<lambda>c. c + 1)) s) (\<lambda>s.
                   Inr (False, e\<lparr>l_is_pred_correct := True, l_branch_target := l_predicted_target e\<rparr>, s))
            else bindR (count (bpu_uncond_incorrect_update (\<lambda>c. c + 1)) s) (\<lambda>s.
                   Inr (True, e\<lparr>l_branch_target := i_target (l_ins e)\<rparr>, s))) (\<lambda>(mispredict, e, s).
       Inr (mispredict, e\<lparr>l_is_branch_taken := True\<rparr>, s))))"

definition bpu_enabled_execute_stage_handler ::
  "'d RISCVCPUState \<Rightarrow> InstructionLatch \<Rightarrow> sim_error + bool \<times> InstructionLatch \<times> 'd RISCVCPUState" where
  "bpu_enabled_execute_stage_handler s e =
     bindR (if \<not> pk_bpu_probe_status (l_bpu_resp_pkt e)
            then bindR (with_bpu (\<lambda>u. bindR (bpu_add u (cpu_rand s) (i_pc (l_ins e)) (i_branch_type (l_ins e))
                                           (l_bpu_resp_pkt e) (c_priv s) (i_is_func_ret (l_ins e)))
                                    (\<lambda>(u', r). Inr (r, u'))) s) (\<lambda>(r, s).
                   let h = sc_mem_hierarchy (c_simcpu s) in Inr (set_hierarchy s (h\<lparr>mh_sys := (mh_sys h)\<lparr>ms_rand := r\<rparr>\<rparr>)))
            else Inr s) (\<lambda>s.
       if i_branch_type (l_ins e) = BRANCH_UNCOND then bpu_enabled_unconditional_branch_handler s e
       else if i_branch_type (l_ins e) = BRANCH_COND then bpu_enabled_conditional_branch_handler s e
       else Inr (False, e, s))"

definition bpu_disabled_execute_stage_handler ::
  "'d RISCVCPUState \<Rightarrow> InstructionLatch \<Rightarrow> sim_error + bool \<times> InstructionLatch \<times> 'd RISCVCPUState" where
  "bpu_disabled_execute_stage_handler s e =
     (if i_branch_type (l_ins e) = BRANCH_UNCOND \<or> i_branch_type (l_ins e) = BRANCH_COND \<and> i_cond (l_ins e) \<noteq> 0
      then Inr (True, e\<lparr>l_is_branch_taken := True, l_branch_target := i_target (l_ins e)\<rparr>, s)
      else Inr (False, e, s))"

text \<open>The handlers \<^verbatim>\<open>riscv_sim_cpu_init\<close> selects.\<close>

definition bpu_fetch_stage_handler ::
  "'d RISCVCPUState \<Rightarrow> InstructionLatch \<Rightarrow> sim_error + InstructionLatch \<times> 'd RISCVCPUState" where
  "bpu_fetch_stage_handler s =
     (if enable_bpu (sim_params s) \<noteq> 0 then bpu_enabled_fetch_stage_handler s else bpu_disabled_fetch_stage_handler s)"

definition bpu_decode_stage_handler ::
  "'d RISCVCPUState \<Rightarrow> InstructionLatch \<Rightarrow> sim_error + bool \<times> InstructionLatch \<times> 'd RISCVCPUState" where
  "bpu_decode_stage_handler s =
     (if enable_bpu (sim_params s) \<noteq> 0 then bpu_enabled_decode_stage_handler s else bpu_disabled_decode_stage_handler s)"

definition bpu_execute_stage_handler ::
  "'d RISCVCPUState \<Rightarrow> InstructionLatch \<Rightarrow> sim_error + bool \<times> InstructionLatch \<times> 'd RISCVCPUState" where
  "bpu_execute_stage_handler s =
     (if enable_bpu (sim_params s) \<noteq> 0 then bpu_enabled_execute_stage_handler s else bpu_disabled_execute_stage_handler s)"

section \<open>Commit\<close>

definition update_arch_reg_int :: "'d RISCVCPUState \<Rightarrow> InstructionLatch \<Rightarrow> sim_error + 'd RISCVCPUState" where
  "update_arch_reg_int s e =
     (let i = l_ins e in
      if i_rd i \<noteq> 0
      then bindR (aset (c_reg s) (unat (i_rd i)) (i_buffer i)) (\<lambda>r.
             count (int_regfile_writes_update (\<lambda>c. c + 1)) (s\<lparr>c_reg := r\<rparr>))
      else Inr s)"

abbreviation (input) F32_HIGH :: u64 where "F32_HIGH \<equiv> 0xffffffff00000000"
abbreviation (input) F64_HIGH :: u64 where "F64_HIGH \<equiv> 0"

definition update_arch_reg_fp ::
  "'d RISCVCPUState \<Rightarrow> InstructionLatch \<Rightarrow> sim_error + InstructionLatch \<times> 'd RISCVCPUState" where
  "update_arch_reg_fp s e =
     (let i = l_ins e;
          i = (if i_f32_mask i then i\<lparr>i_buffer := i_buffer i OR F32_HIGH\<rparr>
               else if i_f64_mask i then i\<lparr>i_buffer := i_buffer i OR F64_HIGH\<rparr> else i)
      in bindR (aset (c_fp_reg s) (unat (i_rd i)) (i_buffer i)) (\<lambda>r.
         bindR (count (fp_regfile_writes_update (\<lambda>c. c + 1))
                  (s\<lparr>c_fp_reg := r, c_fs := (if i_set_fs i then 3 else c_fs s)\<rparr>)) (\<lambda>s.
           Inr (e\<lparr>l_ins := i\<rparr>, s))))"

text \<open>\<^verbatim>\<open>++stats[s->priv].ins_type[t]\<close>\<close>

definition count_type :: "int \<Rightarrow> 'd RISCVCPUState \<Rightarrow> sim_error + 'd RISCVCPUState" where
  "count_type t s =
     bindR (aget (sc_stats (c_simcpu s)) (c_priv s)) (\<lambda>st.
     bindR (iget (ins_type st) t) (\<lambda>c.
     bindR (iset (ins_type st) t (c + 1)) (\<lambda>l. count (ins_type_update (\<lambda>_. l)) s)))"

abbreviation (input) INS_TYPE_LOAD_BYTE :: int where "INS_TYPE_LOAD_BYTE \<equiv> 17"
abbreviation (input) INS_TYPE_LOAD_HALF_WORD :: int where "INS_TYPE_LOAD_HALF_WORD \<equiv> 18"
abbreviation (input) INS_TYPE_LOAD_WORD :: int where "INS_TYPE_LOAD_WORD \<equiv> 19"
abbreviation (input) INS_TYPE_LOAD_DOUBLE_WORD :: int where "INS_TYPE_LOAD_DOUBLE_WORD \<equiv> 20"

definition update_insn_commit_stats :: "'d RISCVCPUState \<Rightarrow> InstructionLatch \<Rightarrow> sim_error + 'd RISCVCPUState" where
  "update_insn_commit_stats s e =
     (let s = s\<lparr>c_simcpu := (c_simcpu s)\<lparr>sc_icount := sc_icount (c_simcpu s) + 1\<rparr>\<rparr>; i = l_ins e in
      bindR (count (ins_simulated_update (\<lambda>c. c + 1)) s) (\<lambda>s.
      bindR (count_type (i_type i) s) (\<lambda>s.
      bindR (if i_type i = INS_TYPE_COND_BRANCH \<and> l_is_branch_taken e
             then count (ins_cond_branch_taken_update (\<lambda>c. c + 1)) s else Inr s) (\<lambda>s.
        if i_is_load i
        then (if i_bytes_to_rw i = 1 then count_type INS_TYPE_LOAD_BYTE s
              else if i_bytes_to_rw i = 2 then count_type INS_TYPE_LOAD_HALF_WORD s
              else if i_bytes_to_rw i = 4 then count_type INS_TYPE_LOAD_WORD s
              else if i_bytes_to_rw i = 8 then count_type INS_TYPE_LOAD_DOUBLE_WORD s
              else Inr s)
        else Inr s))))"

definition set_max_clock_cycles_for_non_pipe_fu :: "'d RISCVCPUState \<Rightarrow> int \<Rightarrow> InstructionLatch \<Rightarrow> sim_error + int" where
  "set_max_clock_cycles_for_non_pipe_fu s fu_type e =
     (if fu_type = FU_FPU_ALU then iget (fpu_alu_latency (sim_params s)) (i_fpu_alu_type (l_ins e)) else Inr 1)"

text \<open>Cache counters, copied into the statistics for display and at the end of a simulation.\<close>

definition the_cache :: "MemoryHierarchy \<Rightarrow> nat option \<Rightarrow> sim_error + Cache" where
  "the_cache h c = bindR (deref c) (\<lambda>i. aget (ms_caches (mh_sys h)) i)"

definition copy_cache_stats_to_global_stats :: "RISCVSIMCPUState \<Rightarrow> sim_error + RISCVSIMCPUState" where
  "copy_cache_stats_to_global_stats sim =
     (let h = sc_mem_hierarchy sim; p = sc_params sim in
      if enable_l1_caches p \<noteq> 0
      then bindR (foldR (\<lambda>i st.
             bindR (the_cache h (mh_icache h)) (\<lambda>ic. bindR (aget (ca_stats ic) i) (\<lambda>a.
             bindR (the_cache h (mh_dcache h)) (\<lambda>dc. bindR (aget (ca_stats dc) i) (\<lambda>b.
             bindR (bump (\<lambda>x. x\<lparr>icache_read := total_read_cnt a, icache_read_miss := read_miss_cnt a,
                              dcache_read := total_read_cnt b, dcache_read_miss := read_miss_cnt b,
                              dcache_write := total_write_cnt b, dcache_write_miss := write_miss_cnt b\<rparr>) i st) (\<lambda>st.
             if enable_l2_cache p \<noteq> 0
             then bindR (the_cache h (mh_l2_cache h)) (\<lambda>lc. bindR (aget (ca_stats lc) i) (\<lambda>c.
                  bump (\<lambda>x. x\<lparr>l2_cache_read := total_read_cnt c, l2_cache_read_miss := read_miss_cnt c,
                            l2_cache_write := total_write_cnt c, l2_cache_write_miss := write_miss_cnt c\<rparr>) i st))
             else Inr st))))))
           [0..<NUM_MAX_PRV_LEVELS] (sc_stats sim)) (\<lambda>st. Inr (sim\<lparr>sc_stats := st\<rparr>))
      else Inr sim)"

definition write_stats_to_stats_display_shm :: "RISCVSIMCPUState \<Rightarrow> sim_error + RISCVSIMCPUState" where
  "write_stats_to_stats_display_shm sim =
     (if sc_clock sim mod 500000 = 0
      then bindR (copy_cache_stats_to_global_stats sim) (\<lambda>sim. Inr (sim\<lparr>sc_stats_shm := sc_stats sim\<rparr>))
      else Inr sim)"

section \<open>Decode\<close>

definition decode_cpu_stage_exec :: "'d RISCVCPUState \<Rightarrow> InstructionLatch \<Rightarrow> sim_error + InstructionLatch" where
  "decode_cpu_stage_exec s e =
     (let i = l_ins e;
          i = i\<lparr>i_current_fs := uint (c_fs s), i_rm := word_of_int (get_insn_rm s (drop_bit 12 (i_binary i) AND 7))\<rparr>
      in bindR (decode_riscv_binary i (i_binary i)) (\<lambda>i. Inr (e\<lparr>l_ins := i\<rparr>)))"

section \<open>Fetch and memory\<close>

definition reset_page_walk_delay :: "'d RISCVCPUState \<Rightarrow> 'd RISCVCPUState" where
  "reset_page_walk_delay s = set_mem_controller s ((mem_controller s)\<lparr>mc_page_walk_delay := 0\<rparr>)"

definition clear_frontend_queue :: "'d RISCVCPUState \<Rightarrow> 'd RISCVCPUState" where
  "clear_frontend_queue s = (let m = mem_controller s; q = mc_queues m in
     set_mem_controller s (m\<lparr>mc_queues := q\<lparr>mq_frontend := (mq_frontend q)\<lparr>sq_cur_size := 0\<rparr>\<rparr>\<rparr>))"

text \<open>A delay function of the hierarchy, run on the hierarchy of the core.\<close>

definition with_delay ::
  "(MemoryHierarchy \<Rightarrow> sim_error + int \<times> MemoryHierarchy) \<Rightarrow> 'd RISCVCPUState \<Rightarrow> sim_error + int \<times> 'd RISCVCPUState" where
  "with_delay f s = bindR (f (sc_mem_hierarchy (c_simcpu s))) (\<lambda>(l, h). Inr (l, set_hierarchy s h))"

definition mmu_exception :: "InstructionLatch \<Rightarrow> InstructionLatch" where
  "mmu_exception e = e\<lparr>l_ins := (l_ins e)\<lparr>i_exception := True, i_exception_cause := SIM_MMU_EXCEPTION\<rparr>\<rparr>"

definition fetch_cpu_stage_exec ::
  "'d RISCVCPUState \<Rightarrow> InstructionLatch \<Rightarrow> sim_error + InstructionLatch \<times> 'd RISCVCPUState" where
  "fetch_cpu_stage_exec s e =
     (let e = e\<lparr>l_max_clock_cycles := 1, l_cache_lookup_complete_signal_sent := False, l_elapsed_clock_cycles := 1\<rparr>;
          s = s\<lparr>c_hw_pg_tb_wlk_stage_id := FETCH, c_ins_tlb_lookup_accounted := False, c_ins_tlb_hit_accounted := False\<rparr>;
          s = clear_frontend_queue (reset_page_walk_delay s)
      in bindR (temu_read_insn s (l_ins e)) (\<lambda>(ok, i, s).
         let e = e\<lparr>l_ins := i\<rparr> in
         if \<not> ok then Inr (mmu_exception e, s)
         else bindR (with_delay (\<lambda>h. insn_read_delay h (c_code_guest_paddr s) 4 FETCH (c_priv s)) s) (\<lambda>(d, s).
              let e = e\<lparr>l_max_clock_cycles := mc_page_walk_delay (mem_controller s) + d\<rparr> in
              thenR (sim_assert (l_max_clock_cycles e \<noteq> 0))
              (let n = (if i_binary i AND 3 = 3 then 4 else 2);
                   s = s\<lparr>c_code_ptr := c_code_ptr s + n, c_code_guest_paddr := c_code_guest_paddr s + n\<rparr>
               in bindR (bpu_fetch_stage_handler s e) (\<lambda>(e, s).
                  bindR (count (ins_fetch_update (\<lambda>c. c + 1)) s) (\<lambda>s. Inr (e, s)))))))"

definition mem_cpu_stage_exec ::
  "'d DevOps \<Rightarrow> 'd RISCVCPUState \<Rightarrow> InstructionLatch \<Rightarrow> sim_error + InstructionLatch \<times> 'd RISCVCPUState" where
  "mem_cpu_stage_exec dv s e =
     (let e = e\<lparr>l_max_clock_cycles := 1, l_cache_lookup_complete_signal_sent := False\<rparr>;
          s = reset_page_walk_delay (s\<lparr>c_hw_pg_tb_wlk_stage_id := MEMORY\<rparr>)
      in bindR (temu_exec_load_store_insn dv s (l_ins e)) (\<lambda>(ok, i, s).
         let e = e\<lparr>l_ins := i\<rparr> in
         if \<not> ok then Inr (mmu_exception e, s)
         else let w = mc_page_walk_delay (mem_controller s); a = c_data_guest_paddr s; n = i_bytes_to_rw i;
                  delay = (\<lambda>f s. with_delay (\<lambda>h. f h a n MEMORY (c_priv s)) s);
                  aim = with_delay (\<lambda>h. mem_hierarchy_cache_bypass_aim h a n MEMORY (c_priv s) i)
              in bindR
                 (if c_is_device_io s \<or> a = 0 \<and> \<not> i_is_aim i then Inr (w + 1, s)
                  else if i_is_aim i
                  then bindR (aim s) (\<lambda>(d, s). Inr (w + (if i_type i \<in> {INS_TYPE_AIM_RD_AF, INS_TYPE_AIM_RD_MAC} then d else 1), s))
                  else bindR (if i_is_load i \<or> i_is_atomic_load i
                              then bindR (delay data_read_delay s) (\<lambda>(d, s). Inr (w + d + (if n < 4 then 1 else 0), s))
                              else Inr (w, s)) (\<lambda>(w, s).
                       if i_is_store i \<or> i_is_atomic_store i
                       then bindR (delay data_write_delay s) (\<lambda>(_, s). Inr (w + 1, s))
                       else Inr (w, s))) (\<lambda>(c, s).
                 thenR (sim_assert (c \<noteq> 0)) (Inr (e\<lparr>l_max_clock_cycles := c\<rparr>, s)))))"

section \<open>Simulation runs\<close>

text \<open>
  \<open>rtc\<close> is the elapsed time of the real-time clock and \<open>x\<close> the state of the external memory simulator
  after it was restarted. \<open>core_reset\<close> and \<open>core_run\<close> are the functions of the pipeline.
\<close>

definition on_cache :: "(Cache \<Rightarrow> sim_error + Cache) \<Rightarrow> nat option \<Rightarrow> MemoryHierarchy \<Rightarrow> sim_error + MemoryHierarchy" where
  "on_cache f c h =
     bindR (deref c) (\<lambda>i. bindR (aget (ms_caches (mh_sys h)) i) (\<lambda>x. bindR (f x) (\<lambda>x'.
       Inr (h\<lparr>mh_sys := upd_cache (mh_sys h) i x'\<rparr>))))"

definition restart_caches :: "SimParams \<Rightarrow> MemoryHierarchy \<Rightarrow> sim_error + MemoryHierarchy" where
  "restart_caches p h =
     (let flush = (\<lambda>c h. if flush_sim_mem_on_simstart p \<noteq> 0 then on_cache cache_flush c h else Inr h) in
      if enable_l1_caches p \<noteq> 0
      then bindR (on_cache cache_reset_stats (mh_icache h) h) (\<lambda>h.
           bindR (on_cache cache_reset_stats (mh_dcache h) h) (\<lambda>h.
           bindR (flush (mh_icache h) h) (\<lambda>h.
           bindR (flush (mh_dcache h) h) (\<lambda>h.
             if enable_l2_cache p \<noteq> 0
             then bindR (on_cache cache_reset_stats (mh_l2_cache h) h) (\<lambda>h. flush (mh_l2_cache h) h)
             else Inr h))))
      else Inr h)"

definition riscv_sim_cpu_start ::
  "u64 \<Rightarrow> ext_state \<Rightarrow> RISCVSIMCPUState \<Rightarrow> sim_error + RISCVSIMCPUState" where
  "riscv_sim_cpu_start rtc x sim =
     (if \<not> sc_simulation sim
      then let p = sc_params sim; sim = sim\<lparr>sc_simulation := True, sc_clock := 0, sc_icount := 0\<rparr> in
           bindR (sim_stats_reset (sc_stats sim)) (\<lambda>st.
           let sim = sim\<lparr>sc_stats := st, sc_temu_rtc_time_at_simstart := rtc\<rparr> in
           bindR (if enable_bpu p \<noteq> 0 \<and> flush_bpu_on_simstart p \<noteq> 0
                  then bindR (deref (sc_bpu sim)) (\<lambda>u. bindR (bpu_flush (u\<lparr>u_stats := st\<rparr>)) (\<lambda>u'.
                         Inr (sim\<lparr>sc_bpu := Some u', sc_stats := u_stats u'\<rparr>)))
                  else Inr sim) (\<lambda>sim.
           bindR (restart_caches p (sc_mem_hierarchy sim)) (\<lambda>h.
           let sim = sim\<lparr>sc_mem_hierarchy := h\<rparr>;
               sim = (if mc_dram_model_type (ms_mc (mh_sys h)) \<in> {MEM_MODEL_DRAMSIM, MEM_MODEL_RAMULATOR, MEM_MODEL_AIMULATOR}
                      then sim\<lparr>sc_ext := x\<rparr> else sim)
           in Inr (if do_sim_trace p \<noteq> 0 then sim\<lparr>sc_params := p\<lparr>create_ins_str := 1\<rparr>\<rparr> else sim))))
      else Inr sim)"

definition riscv_sim_cpu_stop :: "RISCVSIMCPUState \<Rightarrow> sim_error + RISCVSIMCPUState" where
  "riscv_sim_cpu_stop sim =
     (if sc_simulation sim then copy_cache_stats_to_global_stats (sim\<lparr>sc_simulation := False\<rparr>) else Inr sim)"

definition riscv_sim_cpu_reset ::
  "('c \<Rightarrow> sim_error + 'c) \<Rightarrow> 'c \<times> 'd RISCVCPUState \<Rightarrow> sim_error + 'c \<times> 'd RISCVCPUState" where
  "riscv_sim_cpu_reset core_reset cs =
     (let (core, s) = cs; sim = c_simcpu s;
          s = s\<lparr>c_simcpu := sim\<lparr>sc_exception := (sc_exception sim)\<lparr>x_pending := False\<rparr>, sc_skip_fetch_cycle := False\<rparr>\<rparr>
      in bindR (reset_insn_latch_pool (latch_pool s)) (\<lambda>pool.
         let s = set_pool s pool in
         bindR (mem_controller_reset (mem_controller s)) (\<lambda>m.
         bindR (core_reset core) (\<lambda>core. Inr (core, set_mem_controller s m)))))"

text \<open>A run of the pipeline that does not end is \<open>None\<close>.\<close>

definition riscv_sim_cpu_switch_to_cpu_simulation ::
  "('c \<Rightarrow> sim_error + 'c) \<Rightarrow> ('c \<times> 'd RISCVCPUState \<Rightarrow> (sim_error + int \<times> 'c \<times> 'd RISCVCPUState) option)
     \<Rightarrow> 'c \<times> 'd RISCVCPUState \<Rightarrow> (sim_error + int \<times> 'c \<times> 'd RISCVCPUState) option" where
  "riscv_sim_cpu_switch_to_cpu_simulation core_reset core_run cs =
     (case riscv_sim_cpu_reset core_reset cs of
        Inl err \<Rightarrow> Some (Inl err)
      | Inr cs \<Rightarrow> map_option (\<lambda>r. bindR r (\<lambda>(st, core, s).
          bindR (count (pipeline_flush_update (\<lambda>c. c + 1)) s) (\<lambda>s. Inr (st, core, s)))) (core_run cs))"

text \<open>
  The core that \<^verbatim>\<open>riscv_sim_cpu_init\<close> creates, apart from its pipeline. The arguments of
  \<open>memory_hierarchy_init\<close> are passed on; \<open>r\<close> is the state of \<^verbatim>\<open>rand()\<close> after \<^verbatim>\<open>srand()\<close>.
\<close>

definition riscv_sim_cpu_init ::
  "target_ulong \<Rightarrow> (int \<Rightarrow> int) \<Rightarrow> int \<Rightarrow> rand_state \<Rightarrow> ext_state \<Rightarrow> SimParams \<Rightarrow> sim_error + RISCVSIMCPUState" where
  "riscv_sim_cpu_init all_ones shl_1 dramsim_burst_size r x p =
     bindR (memory_hierarchy_init all_ones shl_1 dramsim_burst_size r p) (\<lambda>h.
     let st = replicate NUM_MAX_PRV_LEVELS zero_stats in
     bindR (if enable_bpu p \<noteq> 0 then bindR (bpu_init p st) (\<lambda>u. Inr (Some u)) else Inr None) (\<lambda>u.
       Inr \<lparr>sc_core_id = 0, sc_pc = 0x1000, sc_clock = 0, sc_icount = 0, sc_temu_rtc_time_at_simstart = 0,
            sc_skip_fetch_cycle = False, sc_insn_latch_pool = replicate INSN_LATCH_POOL_SIZE zero_latch, sc_stats = st,
            sc_params = p, sc_bpu = u, sc_mem_hierarchy = h, sc_exception = sim_exception_init, sc_stats_shm = (if enable_stats_display p \<noteq> 0 then st else []),
            sc_simulation = False, sc_return_to_sim = False, sc_ext = x\<rparr>))"

section \<open>The emulated processor\<close>

text \<open>
  A processor out of reset. The contents of the translation buffers before they are initialised are the argument \<open>t\<close>.
\<close>

definition riscv_cpu_init ::
  "PhysMemoryMap \<Rightarrow> host_mem \<Rightarrow> 'd \<Rightarrow> TLBEntry \<Rightarrow> RISCVSIMCPUState \<Rightarrow> sim_error + 'd RISCVCPUState" where
  "riscv_cpu_init mem_map host dev t sim =
     (let tlb = replicate (nat (tlb_size (sc_params sim))) t; mxl = get_base_from_xlen MAX_XLEN in
      tlb_init \<lparr>c_pc = 0x1000, c_reg = replicate 32 0, c_fp_reg = replicate 32 0, c_fflags = 0, c_frm = 0,
        c_cur_xlen = MAX_XLEN, c_priv = PRV_M, c_fs = 0, c_mxl = mxl, c_n_cycles = 0, c_insn_counter = 0,
        c_power_down_flag = False, c_pending_exception = 0, c_pending_tval = 0,
        c_mstatus = push_bit MSTATUS_UXL_SHIFT (of_nat mxl) OR push_bit MSTATUS_SXL_SHIFT (of_nat mxl),
        c_mtvec = 0, c_mscratch = 0, c_mepc = 0, c_mcause = 0, c_mtval = 0, c_mhartid = 0, c_misa = 0x14112d,
        c_mie = 0, c_mip = 0, c_medeleg = 0, c_mideleg = 0, c_mcounteren = 0, c_stvec = 0, c_sscratch = 0, c_sepc = 0,
        c_scause = 0, c_stval = 0, c_satp = 0, c_scounteren = 0, c_load_res = 0, c_mem_map = mem_map,
        c_tlb_read = tlb, c_tlb_write = tlb, c_tlb_code = tlb, c_code_ptr = 0, c_code_end = 0, c_code_to_pc_addend = 0,
        c_code_guest_paddr = 0, c_data_guest_paddr = 0, c_is_device_io = False, c_is_pim_access = False,
        c_hw_pg_tb_wlk_stage_id = 0, c_ins_tlb_lookup_accounted = False, c_ins_tlb_hit_accounted = False,
        c_simcpu = sim, c_host = host, c_dev = dev\<rparr>)"

end
