(* ===== verification/Csr_Props.thy ===== *)
theory Csr_Props
  imports Sim_Cpu
begin

text \<open>
  Traps and returns. \<open>cpu_ok\<close> is the part of the processor's well-formedness that they rely on; a flush of the
  translation buffers keeps it.
\<close>

definition cpu_ok :: "'d RISCVCPUState \<Rightarrow> bool" where
  "cpu_ok s \<longleftrightarrow> (let n = nat (tlb_size (sim_params s)) in
     length (c_tlb_read s) = n \<and> length (c_tlb_write s) = n \<and> length (c_tlb_code s) = n)
   \<and> c_priv s < NUM_MAX_PRV_LEVELS \<and> length (sc_stats (c_simcpu s)) = NUM_MAX_PRV_LEVELS
   \<and> list_all (\<lambda>st. length (interrupts st) = 24 \<and> length (exceptions st) = 24) (sc_stats (c_simcpu s))
   \<and> (enable_bpu (sim_params s) \<noteq> 0 \<longrightarrow>
      (\<exists>u. sc_bpu (c_simcpu s) = Some u \<and> bpu_inv (u\<lparr>u_stats := sc_stats (c_simcpu s)\<rparr>)))"

definition flushed :: "'d RISCVCPUState \<Rightarrow> BranchPredUnit option \<Rightarrow> 'd RISCVCPUState" where
  "flushed s u = s\<lparr>c_tlb_read := map flush_entry (c_tlb_read s), c_tlb_write := map flush_entry (c_tlb_write s),
     c_tlb_code := map flush_entry (c_tlb_code s), c_simcpu := (c_simcpu s)\<lparr>sc_bpu := u\<rparr>\<rparr>"

lemma bpu_flush_stats: "bpu_flush u = Inr u' \<Longrightarrow> u_stats u' = u_stats u"
  by (auto simp: bpu_flush_def split: if_splits elim!: bindR_eq_InrE)

lemma tlb_flush_ok:
  assumes "cpu_ok s"
  shows "\<exists>u. tlb_flush_all s = Inr (flushed s u) \<and> cpu_ok (flushed s u)"
proof -
  let ?n = "nat (tlb_size (sim_params s))" and ?sim = "c_simcpu s"
  have l: "length (c_tlb_read s) = ?n" "length (c_tlb_write s) = ?n" "length (c_tlb_code s) = ?n"
    using assms by (auto simp: cpu_ok_def Let_def)
  have m: "foldR (\<lambda>i t. bindR (aget t i) (\<lambda>x. aset t i (flush_entry x))) [0..<?n] t = Inr (map flush_entry t)"
    if "length t = ?n" for t using foldR_map_upto [of ?n t flush_entry] that by simp
  show ?thesis
  proof (cases "in_simulation s \<and> enable_bpu (sim_params s) \<noteq> 0 \<and> bpu_flush_on_context_switch (sim_params s) \<noteq> 0")
    case True
    then obtain u where u: "sc_bpu ?sim = Some u" "bpu_inv (u\<lparr>u_stats := sc_stats ?sim\<rparr>)"
      using assms by (auto simp: cpu_ok_def)
    then obtain u' where f: "bpu_flush (u\<lparr>u_stats := sc_stats ?sim\<rparr>) = Inr u'" "bpu_inv u'"
      using bpu_flush_ok by blast
    have st: "u_stats u' = sc_stats ?sim" using bpu_flush_stats [OF f(1)] by simp
    then have eq: "bpu_inv (u'\<lparr>u_stats := sc_stats ?sim\<rparr>)"
      using f(2) by (metis BranchPredUnit.surjective BranchPredUnit.update_convs(5))
    have "tlb_flush_all s = Inr (flushed s (Some u')) \<and> cpu_ok (flushed s (Some u'))"
      using True assms l u f st eq by (auto simp: tlb_flush_all_def tlb_init_def Let_def m with_bpu_def flushed_def cpu_ok_def)
    then show ?thesis by blast
  next
    case False
    then have "tlb_flush_all s = Inr (flushed s (sc_bpu ?sim)) \<and> cpu_ok (flushed s (sc_bpu ?sim))"
      using assms l by (auto simp: tlb_flush_all_def tlb_init_def Let_def m flushed_def cpu_ok_def)
    then show ?thesis by blast
  qed
qed

text \<open>The state that \<open>set_priv\<close> leaves.\<close>

definition xlen_of :: "'d RISCVCPUState \<Rightarrow> nat \<Rightarrow> nat" where
  "xlen_of s priv = 2 ^ (4 + (if priv = PRV_S then unat (drop_bit MSTATUS_SXL_SHIFT (c_mstatus s) AND 3)
     else if priv = PRV_U then unat (drop_bit MSTATUS_UXL_SHIFT (c_mstatus s) AND 3) else c_mxl s))"

lemma set_priv_ok:
  assumes "cpu_ok s" and "priv < NUM_MAX_PRV_LEVELS"
  shows "\<exists>u. set_priv s priv = Inr (if c_priv s = priv then s
      else (flushed s u)\<lparr>c_cur_xlen := xlen_of s priv, c_priv := priv\<rparr>)
    \<and> cpu_ok (if c_priv s = priv then s else (flushed s u)\<lparr>c_cur_xlen := xlen_of s priv, c_priv := priv\<rparr>)"
proof -
  obtain u where u: "tlb_flush_all s = Inr (flushed s u)" "cpu_ok (flushed s u)" using tlb_flush_ok [OF assms(1)] by blast
  then have "cpu_ok ((flushed s u)\<lparr>c_cur_xlen := xlen_of s priv, c_priv := priv\<rparr>)"
    using assms(2) by (simp add: cpu_ok_def)
  moreover have "c_mstatus (flushed s u) = c_mstatus s" "c_mxl (flushed s u) = c_mxl s" by (simp_all add: flushed_def)
  ultimately show ?thesis using u(1) assms(1) by (intro exI [of _ u]) (simp add: set_priv_def xlen_of_def Let_def)
qed

definition valid_cause :: "u32 \<Rightarrow> bool" where
  "valid_cause cause \<longleftrightarrow> unat (cause AND 0x7fffffff) < 24"

lemma count_cause_ok:
  assumes "cpu_ok s" and "valid_cause cause"
  shows "\<exists>st. count_cause cause s = Inr (s\<lparr>c_simcpu := (c_simcpu s)\<lparr>sc_stats := st\<rparr>\<rparr>)
    \<and> cpu_ok (s\<lparr>c_simcpu := (c_simcpu s)\<lparr>sc_stats := st\<rparr>\<rparr>)"
proof -
  let ?sim = "c_simcpu s" and ?p = "c_priv s"
  have ok: "?p < 4" "length (sc_stats ?sim) = 4" "length (interrupts (sc_stats ?sim ! ?p)) = 24"
    "length (exceptions (sc_stats ?sim ! ?p)) = 24"
    using assms(1) by (auto simp: cpu_ok_def list_all_length)
  have k: "unat (cause AND 0x7fffffff) < 24" using assms(2) by (simp add: valid_cause_def)
  have upd: "cpu_ok (s\<lparr>c_simcpu := ?sim\<lparr>sc_stats := (sc_stats ?sim)[?p := v]\<rparr>\<rparr>)"
    if "length (interrupts v) = 24" "length (exceptions v) = 24" for v
    using assms(1) that by (auto simp: cpu_ok_def list_all_length nth_list_update bpu_inv_def)
  consider "\<not> in_simulation s" | "in_simulation s" "cause AND CAUSE_INTERRUPT \<noteq> 0"
    | "in_simulation s" "cause AND CAUSE_INTERRUPT = 0" by blast
  then show ?thesis
  proof cases
    case 1
    then show ?thesis using assms(1) by (intro exI [of _ "sc_stats ?sim"]) (simp add: count_cause_def)
  next
    case 2
    let ?v = "interrupts_update (\<lambda>l. l[unat (cause AND 0x7fffffff) := interrupts (sc_stats ?sim ! ?p) ! unat (cause AND 0x7fffffff) + 1])
      (sc_stats ?sim ! ?p)"
    show ?thesis using 2 ok k upd [of ?v]
      by (intro exI [of _ "(sc_stats ?sim)[?p := ?v]"]) (simp add: count_cause_def count_def Let_def)
  next
    case 3
    let ?v = "exceptions_update (\<lambda>l. l[unat (cause AND 0x7fffffff) := exceptions (sc_stats ?sim ! ?p) ! unat (cause AND 0x7fffffff) + 1])
      (sc_stats ?sim ! ?p)"
    show ?thesis using 3 ok k upd [of ?v]
      by (intro exI [of _ "(sc_stats ?sim)[?p := ?v]"]) (simp add: count_cause_def count_def Let_def)
  qed
qed

section \<open>Traps\<close>


lemma bit_push_mask: "bit (push_bit k (mask w :: int)) n \<longleftrightarrow> k \<le> n \<and> n < k + w"
  by (auto simp: bit_push_bit_iff bit_mask_iff)

lemma status_masks:
  "push_bit 3 (mask 1) = (0x8 :: int)" "push_bit 1 (mask 1) = (0x2 :: int)" "push_bit 5 (mask 1) = (0x20 :: int)"
  "push_bit 7 (mask 1) = (0x80 :: int)" "push_bit 8 (mask 1) = (0x100 :: int)" "push_bit 11 (mask 2) = (0x1800 :: int)"
  "push_bit 0 (mask 2) = (3 :: int)"
  by (simp_all add: mask_eq_exp_minus_1)

lemma bit_status:
  "bit (0x8 :: int) n \<longleftrightarrow> n = 3" "bit (0x2 :: int) n \<longleftrightarrow> n = 1" "bit (0x20 :: int) n \<longleftrightarrow> n = 5"
  "bit (0x80 :: int) n \<longleftrightarrow> n = 7" "bit (0x100 :: int) n \<longleftrightarrow> n = 8" "bit (0x1800 :: int) n \<longleftrightarrow> n = 11 \<or> n = 12"
  "bit (3 :: int) n \<longleftrightarrow> n = 0 \<or> n = 1"
  unfolding status_masks [symmetric] bit_push_mask by auto

lemma bit_nat_3: "bit (3 :: nat) n \<longleftrightarrow> n = 0 \<or> n = 1"
  using bit_status(7) [of n] bit_of_nat_iff [of 3 n, where ?'a = int] by simp

lemma trap_m_status:
  fixes m :: u64
  assumes "p \<in> {0, 1, 3}" and "m1 = ((m AND NOT 0x80 OR push_bit 7 (drop_bit p m AND 1)) AND NOT 0x1800 OR push_bit 11 (of_nat p)) AND NOT 0x8"
  shows "unat (drop_bit 11 m1 AND 3) = p" "drop_bit 7 m1 AND 1 = of_bool (bit m p)"
    "n \<notin> {3, 7, 11, 12} \<Longrightarrow> bit m1 n = bit m n" "\<not> bit m1 3"
proof -
  have p: "bit (of_nat p :: u64) j \<longleftrightarrow> (p = 1 \<and> j = 0 \<or> p = 3 \<and> j \<le> 1)" for j
    using assms(1) by (auto simp: bit_simps bit_status bit_nat_3)
  have b: "bit m1 j \<longleftrightarrow> j \<noteq> 3 \<and> (if j = 7 then bit m p else if j = 11 then p \<noteq> 0 else if j = 12 then p = 3 else bit m j)" if "j < 64" for j
    using that assms by (auto simp: assms(2) bit_simps bit_status bit_nat_3 p)
  show "\<not> bit m1 3" using b by simp
  show "bit m1 n = bit m n" if "n \<notin> {3, 7, 11, 12}" for n using b [of n] that by (cases "n < 64") (auto dest: bit_imp_le_length simp: not_less)
  have "drop_bit 11 m1 AND 3 = of_nat p"
    by (rule bit_word_eqI) (use b assms in \<open>auto simp: bit_simps bit_status bit_nat_3 p\<close>)
  then show "unat (drop_bit 11 m1 AND 3) = p" using assms(1) by auto
  show "drop_bit 7 m1 AND 1 = of_bool (bit m p)"
    by (rule bit_word_eqI) (use b in \<open>auto simp: bit_simps\<close>)
qed

lemma trap_s_status:
  fixes m :: u64
  assumes "p \<in> {0, 1}" and "m1 = ((m AND NOT 0x20 OR push_bit 5 (drop_bit p m AND 1)) AND NOT 0x100 OR push_bit 8 (of_nat p)) AND NOT 0x2"
  shows "unat (drop_bit 8 m1 AND 1) = p" "drop_bit 5 m1 AND 1 = of_bool (bit m p)"
    "n \<notin> {1, 5, 8} \<Longrightarrow> bit m1 n = bit m n" "\<not> bit m1 1"
proof -
  have b: "bit m1 j \<longleftrightarrow> j \<noteq> 1 \<and> (if j = 5 then bit m p else if j = 8 then p = 1 else bit m j)" if "j < 64" for j
    using that assms by (auto simp: assms(2) bit_simps bit_status)
  show "\<not> bit m1 1" using b by simp
  show "bit m1 n = bit m n" if "n \<notin> {1, 5, 8}" for n using b [of n] that by (cases "n < 64") (auto dest: bit_imp_le_length simp: not_less)
  have "drop_bit 8 m1 AND 1 = of_nat p" by (rule bit_word_eqI) (use b assms in \<open>auto simp: bit_simps\<close>)
  then show "unat (drop_bit 8 m1 AND 1) = p" using assms(1) by auto
  show "drop_bit 5 m1 AND 1 = of_bool (bit m p)" by (rule bit_word_eqI) (use b in \<open>auto simp: bit_simps\<close>)
qed

lemma return_status:
  fixes m1 :: u64
  assumes "m2 = (m1 AND NOT (push_bit p 1) OR push_bit p (of_bool b) OR y) AND NOT x" and "p < 64" and "\<not> bit x p" and "\<not> bit y p"
  shows "bit m2 p = b" "n \<noteq> p \<Longrightarrow> \<not> bit x n \<Longrightarrow> \<not> bit y n \<Longrightarrow> bit m2 n = bit m1 n"
  using assms(2-4) by (auto simp: assms(1) bit_simps dest: bit_imp_le_length)

lemma cause_small:
  assumes "valid_cause cause"
  shows "(if cause AND CAUSE_INTERRUPT \<noteq> 0 then cause AND 63 else cause) < 32"
proof -
  let ?n = "cause AND 0x7fffffff"
  have "?n < 24" using assms by (simp add: valid_cause_def word_less_nat_alt)
  then have "?n < 32" by (rule less_trans) simp
  moreover have "cause AND 63 \<le> ?n"
    using word_and_le2 [of ?n 63] by (simp add: and.assoc)
  moreover have "cause = ?n" if "cause AND CAUSE_INTERRUPT = 0"
  proof (rule bit_word_eqI)
    fix n assume n: "n < LENGTH(32)"
    have m: "(0x7fffffff :: u32) = mask 31" by (simp add: mask_eq_exp_minus_1)
    have "bit ?n n \<longleftrightarrow> bit cause n \<and> n < 31" unfolding m bit_and_iff bit_mask_iff using n by auto
    moreover have "\<not> bit cause 31"
    proof
      assume "bit cause 31"
      then have "bit (cause AND CAUSE_INTERRUPT) 31" by (simp add: bit_and_iff)
      then show False using that by simp
    qed
    ultimately show "bit cause n = bit ?n n" using n by (cases "n = 31") auto
  qed
  ultimately show ?thesis using le_less_trans by auto
qed

lemma delegated_ok: "valid_cause cause \<Longrightarrow> \<exists>d. delegated s cause = Inr d \<and> (d \<longrightarrow> c_priv s \<le> PRV_S)"
  using cause_small [of cause] by (auto simp: delegated_def Let_def)

definition resumed :: "nat set \<Rightarrow> 'd RISCVCPUState \<Rightarrow> 'd RISCVCPUState \<Rightarrow> bool" where
  "resumed K s s2 \<longleftrightarrow> c_pc s2 = c_pc s \<and> c_priv s2 = c_priv s
     \<and> bit (c_mstatus s2) (c_priv s) = bit (c_mstatus s) (c_priv s)
     \<and> (\<forall>n. n \<notin> K \<longrightarrow> bit (c_mstatus s2) n = bit (c_mstatus s) n)"

lemma flushed_fields [simp]:
  "c_pc (flushed s u) = c_pc s" "c_priv (flushed s u) = c_priv s" "c_mstatus (flushed s u) = c_mstatus s"
  "c_mepc (flushed s u) = c_mepc s" "c_sepc (flushed s u) = c_sepc s" "c_mtvec (flushed s u) = c_mtvec s"
  "c_stvec (flushed s u) = c_stvec s" "c_mcause (flushed s u) = c_mcause s" "c_scause (flushed s u) = c_scause s"
  "c_mtval (flushed s u) = c_mtval s" "c_stval (flushed s u) = c_stval s"
  by (simp_all add: flushed_def)

lemma mret_resumes:
  assumes "cpu_ok t" and "p \<in> {0, 1, 3}" and "c_mepc t = c_pc s" and "c_priv s = p"
    and "c_mstatus t = ((c_mstatus s AND NOT 0x80 OR push_bit 7 (drop_bit p (c_mstatus s) AND 1)) AND NOT 0x1800 OR push_bit 11 (of_nat p)) AND NOT 0x8"
  shows "\<exists>s2. handle_mret t = Inr s2 \<and> resumed {3, 7, 11, 12} s s2"
proof -
  note st = trap_m_status [OF assms(2,5)]
  define m where "m = (c_mstatus t AND NOT (push_bit p 1) OR push_bit p (of_bool (bit (c_mstatus s) p)) OR 0x80) AND NOT 0x1800"
  let ?t = "t\<lparr>c_mstatus := m\<rparr>"
  have x: "\<not> bit (0x1800 :: u64) n" "\<not> bit (0x80 :: u64) n" if "n \<notin> {7, 11, 12}" for n
    using that by (auto simp: bit_simps bit_status)
  have p: "p < 64" "p \<notin> {7, 11, 12}" using assms(2) by auto
  have m: "bit m p = bit (c_mstatus s) p" "n \<notin> {3, 7, 11, 12} \<Longrightarrow> bit m n = bit (c_mstatus s) n" for n
    using return_status(1) [OF m_def p(1) x(1) x(2)] return_status(2) [OF m_def p(1) x(1) x(2), of n] st(3) [of n] x [of n] p(2)
    by (cases "n = p"; auto)+
  have "cpu_ok ?t" using assms(1) by (simp add: cpu_ok_def)
  moreover have "p < NUM_MAX_PRV_LEVELS" using assms(2) by auto
  ultimately obtain u where "set_priv ?t p = Inr (if c_priv t = p then ?t else (flushed ?t u)\<lparr>c_cur_xlen := xlen_of ?t p, c_priv := p\<rparr>)"
    using set_priv_ok by fastforce
  moreover have "handle_mret t = bindR (set_priv ?t p) (\<lambda>s. Inr (s\<lparr>c_pc := c_mepc s\<rparr>))"
    unfolding handle_mret_def Let_def st(1,2) m_def by (simp add: or.assoc)
  ultimately show ?thesis using assms(3,4) m by (auto simp: resumed_def)
qed

lemma sret_resumes:
  assumes "cpu_ok t" and "p \<in> {0, 1}" and "c_sepc t = c_pc s" and "c_priv s = p"
    and "c_mstatus t = ((c_mstatus s AND NOT 0x20 OR push_bit 5 (drop_bit p (c_mstatus s) AND 1)) AND NOT 0x100 OR push_bit 8 (of_nat p)) AND NOT 0x2"
  shows "\<exists>s2. handle_sret t = Inr s2 \<and> resumed {1, 5, 8} s s2"
proof -
  note st = trap_s_status [OF assms(2,5)]
  define m where "m = (c_mstatus t AND NOT (push_bit p 1) OR push_bit p (of_bool (bit (c_mstatus s) p)) OR 0x20) AND NOT 0x100"
  let ?t = "t\<lparr>c_mstatus := m\<rparr>"
  have x: "\<not> bit (0x100 :: u64) n" "\<not> bit (0x20 :: u64) n" if "n \<notin> {5, 8}" for n
    using that by (auto simp: bit_simps bit_status)
  have p: "p < 64" "p \<notin> {5, 8}" using assms(2) by auto
  have m: "bit m p = bit (c_mstatus s) p" "n \<notin> {1, 5, 8} \<Longrightarrow> bit m n = bit (c_mstatus s) n" for n
    using return_status(1) [OF m_def p(1) x(1) x(2)] return_status(2) [OF m_def p(1) x(1) x(2), of n] st(3) [of n] x [of n] p(2)
    by (cases "n = p"; auto)+
  have "cpu_ok ?t" using assms(1) by (simp add: cpu_ok_def)
  moreover have "p < NUM_MAX_PRV_LEVELS" using assms(2) by auto
  ultimately obtain u where "set_priv ?t p = Inr (if c_priv t = p then ?t else (flushed ?t u)\<lparr>c_cur_xlen := xlen_of ?t p, c_priv := p\<rparr>)"
    using set_priv_ok by fastforce
  moreover have "handle_sret t = bindR (set_priv ?t p) (\<lambda>s. Inr (s\<lparr>c_pc := c_sepc s\<rparr>))"
    unfolding handle_sret_def Let_def st(1,2) m_def by (simp add: or.assoc)
  ultimately show ?thesis using assms(3,4) m by (auto simp: resumed_def)
qed

text \<open>
  (C3) Traps are undone by the return instructions. From user, supervisor or machine mode every exception and interrupt with a
  cause number below 24 enters the supervisor when it is delegated and machine mode otherwise, at the trap
  vector, with the interrupts of that mode disabled and the address and value of
  the trap recorded. When the handler returns with the status and the return address as they were at its entry,
  execution resumes at the interrupted instruction in the interrupted mode with its interrupt enable
  bit and every status bit outside of the stack of the handler's mode restored.
\<close>

theorem trap_and_return:
  assumes "cpu_ok s" and "c_priv s \<in> {PRV_U, PRV_S, PRV_M}" and "valid_cause cause" and "c_cur_xlen s \<in> {32, 64}"
  shows "\<exists>d s1. delegated s cause = Inr d \<and> raise_exception2 s cause tval = Inr s1 \<and> cpu_ok s1
    \<and> (if d
       then c_priv s1 = PRV_S \<and> c_pc s1 = c_stvec s \<and> c_sepc s1 = c_pc s \<and> c_stval s1 = tval \<and> \<not> bit (c_mstatus s1) 1
         \<and> (\<forall>t. cpu_ok t \<and> c_mstatus t = c_mstatus s1 \<and> c_sepc t = c_sepc s1 \<longrightarrow>
              (\<exists>s2. handle_sret t = Inr s2 \<and> resumed {1, 5, 8} s s2))
       else c_priv s1 = PRV_M \<and> c_pc s1 = c_mtvec s \<and> c_mepc s1 = c_pc s \<and> c_mtval s1 = tval \<and> \<not> bit (c_mstatus s1) 3
         \<and> (\<forall>t. cpu_ok t \<and> c_mstatus t = c_mstatus s1 \<and> c_mepc t = c_mepc s1 \<longrightarrow>
              (\<exists>s2. handle_mret t = Inr s2 \<and> resumed {3, 7, 11, 12} s s2)))"
proof -
  obtain d where d: "delegated s cause = Inr d" "d \<longrightarrow> c_priv s \<le> PRV_S" using delegated_ok [OF assms(3)] by blast
  obtain st where st: "count_cause cause s = Inr (s\<lparr>c_simcpu := (c_simcpu s)\<lparr>sc_stats := st\<rparr>\<rparr>)"
    "cpu_ok (s\<lparr>c_simcpu := (c_simcpu s)\<lparr>sc_stats := st\<rparr>\<rparr>)" using count_cause_ok [OF assms(1,3)] by blast
  let ?s = "s\<lparr>c_simcpu := (c_simcpu s)\<lparr>sc_stats := st\<rparr>\<rparr>"
  have d': "delegated ?s cause = Inr d" using d(1) by (simp add: delegated_def Let_def split: if_splits)
  obtain top where top: "(if cause AND CAUSE_INTERRUPT \<noteq> 0 then shl64 1 (c_cur_xlen ?s - 1) else Inr 0) = Inr top"
  proof (rule that)
    show "(if cause AND CAUSE_INTERRUPT \<noteq> 0 then shl64 1 (c_cur_xlen ?s - 1) else Inr 0)
      = Inr (if cause AND CAUSE_INTERRUPT \<noteq> 0 then push_bit (c_cur_xlen s - 1) 1 else 0)"
      using assms(4) by (auto simp: shl64_def)
  qed
  let ?c = "ucast (cause AND 0x7fffffff) OR top :: u64" and ?p = "c_priv s" and ?m = "c_mstatus s"
  show ?thesis
  proof (cases d)
    case True
    define m1 where "m1 = ((?m AND NOT 0x20 OR push_bit 5 (drop_bit ?p ?m AND 1)) AND NOT 0x100 OR push_bit 8 (of_nat ?p)) AND NOT 0x2"
    let ?t = "?s\<lparr>c_scause := ?c, c_sepc := c_pc s, c_stval := tval, c_mstatus := m1\<rparr>"
    have "cpu_ok ?t" using st(2) by (simp add: cpu_ok_def)
    then obtain u where u: "set_priv ?t PRV_S = Inr (if ?p = PRV_S then ?t else (flushed ?t u)\<lparr>c_cur_xlen := xlen_of ?t PRV_S, c_priv := PRV_S\<rparr>)"
      "cpu_ok (if ?p = PRV_S then ?t else (flushed ?t u)\<lparr>c_cur_xlen := xlen_of ?t PRV_S, c_priv := PRV_S\<rparr>)"
      using set_priv_ok [of ?t PRV_S] by auto
    have r: "raise_exception2 s cause tval = bindR (set_priv ?t PRV_S) (\<lambda>s. Inr (s\<lparr>c_pc := c_stvec s\<rparr>))"
      unfolding raise_exception2_def st(1) bindR_Inr d' top m1_def using True by (simp add: Let_def)
    have p: "?p \<in> {0, 1}" using True d(2) by auto
    note sb = trap_s_status(4) [OF p m1_def]
    have "cpu_ok (x\<lparr>c_pc := y\<rparr>) = cpu_ok x" for x :: "'a RISCVCPUState" and y by (simp add: cpu_ok_def)
    then show ?thesis using True d(1) r u sb sret_resumes [OF _ p _ refl] m1_def by auto
  next
    case False
    define m1 where "m1 = ((?m AND NOT 0x80 OR push_bit 7 (drop_bit ?p ?m AND 1)) AND NOT 0x1800 OR push_bit 11 (of_nat ?p)) AND NOT 0x8"
    let ?t = "?s\<lparr>c_mcause := ?c, c_mepc := c_pc s, c_mtval := tval, c_mstatus := m1\<rparr>"
    have "cpu_ok ?t" using st(2) by (simp add: cpu_ok_def)
    then obtain u where u: "set_priv ?t PRV_M = Inr (if ?p = PRV_M then ?t else (flushed ?t u)\<lparr>c_cur_xlen := xlen_of ?t PRV_M, c_priv := PRV_M\<rparr>)"
      "cpu_ok (if ?p = PRV_M then ?t else (flushed ?t u)\<lparr>c_cur_xlen := xlen_of ?t PRV_M, c_priv := PRV_M\<rparr>)"
      using set_priv_ok [of ?t PRV_M] by auto
    have r: "raise_exception2 s cause tval = bindR (set_priv ?t PRV_M) (\<lambda>s. Inr (s\<lparr>c_pc := c_mtvec s\<rparr>))"
      unfolding raise_exception2_def st(1) bindR_Inr d' top m1_def using False by (simp add: Let_def)
    note sb = trap_m_status(4) [OF assms(2) m1_def]
    have "cpu_ok (x\<lparr>c_pc := y\<rparr>) = cpu_ok x" for x :: "'a RISCVCPUState" and y by (simp add: cpu_ok_def)
    then show ?thesis using False d(1) r u sb mret_resumes [OF _ assms(2) _ refl] m1_def by auto
  qed
qed

lemma count_sim_ok:
  assumes "cpu_ok s" and "\<And>v. length (interrupts (f v)) = length (interrupts v)" and "\<And>v. length (exceptions (f v)) = length (exceptions v)"
  shows "\<exists>st. count_sim f s = Inr (s\<lparr>c_simcpu := (c_simcpu s)\<lparr>sc_stats := st\<rparr>\<rparr>)
    \<and> cpu_ok (s\<lparr>c_simcpu := (c_simcpu s)\<lparr>sc_stats := st\<rparr>\<rparr>)"
proof (cases "in_simulation s")
  case True
  let ?st = "sc_stats (c_simcpu s)" and ?p = "c_priv s"
  have "cpu_ok (s\<lparr>c_simcpu := (c_simcpu s)\<lparr>sc_stats := ?st[?p := f (?st ! ?p)]\<rparr>\<rparr>)"
    using assms by (auto simp: cpu_ok_def list_all_length nth_list_update bpu_inv_def)
  then show ?thesis using True assms(1)
    by (intro exI [of _ "?st[?p := f (?st ! ?p)]"]) (simp add: count_sim_def count_def cpu_ok_def)
next
  case False
  then show ?thesis using assms(1) by (intro exI [of _ "sc_stats (c_simcpu s)"]) (simp add: count_sim_def)
qed

lemma flush_if:
  assumes "cpu_ok s"
  obtains s0 where "(if b then tlb_flush_all s else Inr s) = Inr s0" "cpu_ok s0" "c_priv s0 = c_priv s"
    "c_mstatus s0 = c_mstatus s" "c_power_down_flag s0 = c_power_down_flag s"
proof (cases b)
  case True
  obtain u where "tlb_flush_all s = Inr (flushed s u)" "cpu_ok (flushed s u)" using tlb_flush_ok [OF assms] by blast
  then show thesis using True that [of "flushed s u"] by (simp add: flushed_def)
qed (use assms that in simp)

section \<open>A processor out of reset\<close>

lemma riscv_cpu_init_ok:
  assumes "\<not> sc_simulation sim" and "sc_stats sim = replicate NUM_MAX_PRV_LEVELS zero_stats"
    and "enable_bpu (sc_params sim) \<noteq> 0 \<longrightarrow> (\<exists>u. sc_bpu sim = Some u \<and> bpu_inv (u\<lparr>u_stats := sc_stats sim\<rparr>))"
  shows "\<exists>s. riscv_cpu_init m host dev t sim = Inr s \<and> cpu_ok s \<and> c_priv s = PRV_M \<and> c_cur_xlen s = MAX_XLEN
    \<and> \<not> c_power_down_flag s \<and> c_simcpu s = sim \<and> c_mem_map s = m \<and> c_host s = host \<and> c_mstatus s = 0xa00000000
    \<and> c_insn_counter s = 0 \<and> c_tlb_read s = replicate (nat (tlb_size (sc_params sim))) (flush_entry t)
    \<and> c_tlb_write s = replicate (nat (tlb_size (sc_params sim))) (flush_entry t)"
proof -
  have m: "foldR (\<lambda>i t. bindR (aget t i) (\<lambda>x. aset t i (flush_entry x))) [0..<n] (replicate n t) = Inr (replicate n (flush_entry t))" for n
    using foldR_map_upto [of n "replicate n t" flush_entry] by simp
  have z: "length (interrupts zero_stats) = 24" "length (exceptions zero_stats) = 24" by (simp_all add: zero_stats_def)
  show ?thesis using assms unfolding riscv_cpu_init_def tlb_init_def Let_def
    by (simp add: m cpu_ok_def get_base_from_xlen_def z list_all_iff del: replicate_numeral_rec)
qed

definition bare_params :: SimParams where
  "bare_params = sim_params_init\<lparr>enable_bpu := 0, enable_l1_caches := 0\<rparr>"

lemma bare_core:
  "\<exists>sim. riscv_sim_cpu_init (- 1) (\<lambda>_. 1) 0 (0, \<lambda>_. 0) (0, \<lambda>_. 1) bare_params = Inr sim \<and> \<not> sc_simulation sim
     \<and> sc_stats sim = replicate NUM_MAX_PRV_LEVELS zero_stats \<and> sc_params sim = bare_params"
  by (simp add: riscv_sim_cpu_init_def memory_hierarchy_init_def mem_controller_init_def bare_params_def sim_params_init_def sim_params_set_defaults_def Let_def
      del: replicate_numeral_rec)

lemma bare_cpu:
  "\<exists>sim (s :: unit RISCVCPUState). riscv_sim_cpu_init (- 1) (\<lambda>_. 1) 0 (0, \<lambda>_. 0) (0, \<lambda>_. 1) bare_params = Inr sim
     \<and> riscv_cpu_init m host () t sim = Inr s \<and> cpu_ok s \<and> c_priv s = PRV_M \<and> c_cur_xlen s = MAX_XLEN
     \<and> \<not> c_power_down_flag s \<and> c_simcpu s = sim \<and> c_mem_map s = m \<and> c_host s = host \<and> sc_params sim = bare_params
     \<and> c_mstatus s = 0xa00000000 \<and> c_tlb_read s = replicate 32 (flush_entry t) \<and> c_tlb_write s = replicate 32 (flush_entry t)"
proof -
  obtain sim where sim: "riscv_sim_cpu_init (- 1) (\<lambda>_. 1) 0 (0, \<lambda>_. 0) (0, \<lambda>_. 1) bare_params = Inr sim" "\<not> sc_simulation sim"
    "sc_stats sim = replicate NUM_MAX_PRV_LEVELS zero_stats" "sc_params sim = bare_params" using bare_core by blast
  show ?thesis using riscv_cpu_init_ok [OF sim(2,3), of m host "()" t] sim
    by (auto simp: bare_params_def sim_params_init_def sim_params_set_defaults_def simp del: replicate_numeral_rec)
qed

theorem trap_and_return_witness:
  "\<exists>(s :: unit RISCVCPUState) s1 s2. cpu_ok s \<and> c_priv s \<in> {PRV_U, PRV_S, PRV_M} \<and> valid_cause 2 \<and> c_cur_xlen s \<in> {32, 64}
     \<and> delegated s 2 = Inr False \<and> raise_exception2 s 2 7 = Inr s1 \<and> c_priv s1 = PRV_M \<and> c_mtval s1 = 7
     \<and> handle_mret s1 = Inr s2 \<and> resumed {3, 7, 11, 12} s s2"
proof -
  obtain s :: "unit RISCVCPUState" where s: "cpu_ok s" "c_priv s = PRV_M" "c_cur_xlen s = MAX_XLEN"
    using bare_cpu [of phys_mem_map_init "\<lambda>_. 0" "\<lparr>t_vaddr = 0, t_mem_addend = 0, t_guest_paddr = 0\<rparr>"] by blast
  have v: "valid_cause 2" "c_priv s \<in> {PRV_U, PRV_S, PRV_M}" "c_cur_xlen s \<in> {32, 64}" "delegated s 2 = Inr False"
    using s by (simp_all add: valid_cause_def delegated_def)
  show ?thesis using trap_and_return [OF s(1) v(2,1,3), of 7] v s by auto
qed

end
