(* ===== verification/Mmu_Props.thy ===== *)
theory Mmu_Props
  imports Csr_Props
begin

text \<open>
  The memory that programs see. \<open>flat\<close> is the byte memory behind the memory map; without address translation
  the accesses of the processor, through the translation buffers or around them, aligned or not, are the
  accesses of that memory.
\<close>

section \<open>Words in memory\<close>

lemma bit_load_le: "bit (load_le m p n) j \<longleftrightarrow> j < 8 * n \<and> j < 64 \<and> bit (m (p + of_nat (j div 8))) (j mod 8)"
proof (induction n arbitrary: p j)
  case (Suc n)
  show ?case
  proof (cases "j < 8")
    case True
    then show ?thesis by (simp add: bit_simps)
  next
    case False
    then obtain i where i: "j = 8 + i" using le_Suc_ex by fastforce
    have "\<not> bit (m p) (8 + i)" using bit_imp_le_length by fastforce
    moreover have "(8 + i) div 8 = i div 8 + 1" "(8 + i) mod 8 = i mod 8" by simp_all
    ultimately show ?thesis using Suc.IH [of "p + 1" i] i by (auto simp: bit_simps add_ac)
  qed
qed simp

lemma take_bit_load_le [simp]: "take_bit (8 * n) (load_le m p n) = load_le m p n"
  by (rule bit_word_eqI) (auto simp: bit_simps bit_load_le)

lemma load_le_split:
  assumes "al < n" and "n \<le> 8"
  shows "take_bit (8 * n) (drop_bit (al * 8) (load_le m a n) OR take_bit (8 * n) (push_bit (8 * n - al * 8) (load_le m (a + of_nat n) n)))
    = load_le m (a + of_nat al) n"
proof (rule bit_word_eqI)
  define sh where "sh = 8 * n - al * 8"
  have sh: "sh = 8 * (n - al)" "sh + al * 8 = 8 * n" using assms(1) by (auto simp: sh_def)
  fix j assume "j < LENGTH(64)"
  then have j: "j < 64" by simp
  show "bit (take_bit (8 * n) (drop_bit (al * 8) (load_le m a n) OR take_bit (8 * n) (push_bit (8 * n - al * 8) (load_le m (a + of_nat n) n)))) j
    = bit (load_le m (a + of_nat al) n) j"
    unfolding sh_def [symmetric]
  proof (cases "sh \<le> j")
    case False
    then have "j + al * 8 < 8 * n" "j + al * 8 < 64" using sh(2) assms(2) by linarith+
    moreover have "(j + al * 8) div 8 = j div 8 + al" "(j + al * 8) mod 8 = j mod 8" by simp_all
    ultimately show "bit (take_bit (8 * n) (drop_bit (al * 8) (load_le m a n) OR take_bit (8 * n) (push_bit sh (load_le m (a + of_nat n) n)))) j
      = bit (load_le m (a + of_nat al) n) j" using False j by (auto simp: bit_simps bit_load_le add_ac)
  next
    case True
    then obtain i where i: "j = sh + i" using le_Suc_ex by blast
    have d: "(sh + i) div 8 = (n - al) + i div 8" "(sh + i) mod 8 = i mod 8" using sh(1) by simp_all
    have "of_nat al + of_nat (n - al) = (of_nat n :: u64)" using assms(1) by (metis less_imp_le_nat le_add_diff_inverse of_nat_add)
    then have "a + of_nat al + (of_nat (n - al) + of_nat (i div 8)) = a + of_nat n + of_nat (i div 8)" by (simp add: add.assoc [symmetric])
    then have w: "m (a + of_nat al + (of_nat (n - al) + of_nat (i div 8))) = m (a + of_nat n + of_nat (i div 8))" by (rule arg_cong)
    have "\<not> sh + i + al * 8 < 8 * n" using sh(2) by simp
    then show "bit (take_bit (8 * n) (drop_bit (al * 8) (load_le m a n) OR take_bit (8 * n) (push_bit sh (load_le m (a + of_nat n) n)))) j
      = bit (load_le m (a + of_nat al) n) j" using i j d w by (auto simp: bit_simps bit_load_le)
  qed
qed

lemma store_le_take: "store_le m p n (take_bit (8 * n) v) = store_le m p n v"
proof (induction n arbitrary: p v)
  case (Suc n)
  have "drop_bit 8 (take_bit (8 * Suc n) v) = take_bit (8 * n) (drop_bit 8 v)"
    by (rule bit_word_eqI) (auto simp: bit_simps)
  moreover have "(ucast (take_bit (8 * Suc n) v) :: u8) = ucast v" by (rule bit_word_eqI) (auto simp: bit_simps)
  ultimately show ?case using Suc.IH by simp
qed simp

lemma store_le_other: "(\<And>i. i < n \<Longrightarrow> a \<noteq> p + of_nat i) \<Longrightarrow> store_le m p n v a = m a"
proof (induction n arbitrary: p v)
  case (Suc n)
  have "a \<noteq> p" using Suc.prems [of 0] by simp
  moreover have "a \<noteq> p + 1 + of_nat i" if "i < n" for i using Suc.prems [of "Suc i"] that by (simp add: add_ac)
  ultimately show ?case using Suc.IH [of "p + 1"] by simp
qed simp

lemma store_le_commute:
  assumes "n < 2 ^ 64"
  shows "(store_le m (p + 1) n v)(p := b) = store_le (m(p := b)) (p + 1) n v"
proof -
  have "store_le (m(q := b)) r n v = (store_le m r n v)(q := b)" if "\<And>i. i < n \<Longrightarrow> q \<noteq> r + of_nat i" for q r
    using that
  proof (induction n arbitrary: r v)
    case (Suc n)
    have "q \<noteq> r" using Suc.prems [of 0] by simp
    moreover have "q \<noteq> r + 1 + of_nat i" if "i < n" for i using Suc.prems [of "Suc i"] that by (simp add: add_ac)
    ultimately show ?case using Suc.IH [of "r + 1"] by (auto simp: fun_eq_iff)
  qed simp
  moreover have "p \<noteq> p + 1 + of_nat i" if "i < n" for i
  proof
    assume "p = p + 1 + of_nat i"
    then have "of_nat (Suc i) = (0 :: u64)" by (simp add: add_ac)
    then have "2 ^ 64 dvd Suc i" by (simp only: word_of_nat_eq_0_iff) simp
    then show False using that assms by (auto dest!: dvd_imp_le)
  qed
  ultimately show ?thesis by auto
qed

text \<open>Accesses at a pointer are accesses of the memory seen through the map, when the map is one-to-one.\<close>

lemma load_le_via: "(\<And>i. i < n \<Longrightarrow> g (a + of_nat i) = m (p + of_nat i)) \<Longrightarrow> load_le m p n = load_le g a n"
proof (induction n arbitrary: p a)
  case (Suc n)
  have "g a = m p" using Suc.prems [of 0] by simp
  moreover have "g (a + 1 + of_nat i) = m (p + 1 + of_nat i)" if "i < n" for i using Suc.prems [of "Suc i"] that by (simp add: add_ac)
  ultimately show ?case using Suc.IH [of "a + 1" "p + 1"] by simp
qed simp

lemma store_le_cong: "g x = h x \<Longrightarrow> store_le g a n v x = store_le h a n v x"
  by (induction n arbitrary: a v) auto

lemma store_le_via:
  assumes "\<And>i. i < n \<Longrightarrow> q (a + of_nat i) = p + of_nat i" and "\<And>i. i < n \<Longrightarrow> a + of_nat i \<in> D" and "inj_on q D" and "x \<in> D"
  shows "store_le m p n v (q x) = store_le (\<lambda>x. m (q x)) a n v x"
  using assms(1,2)
proof (induction n arbitrary: p a v)
  case (Suc n)
  have q: "q a = p" "a \<in> D" using Suc.prems [of 0] by simp_all
  have "q (a + 1 + of_nat i) = p + 1 + of_nat i" "a + 1 + of_nat i \<in> D" if "i < n" for i
    using Suc.prems [of "Suc i"] that by (simp_all add: add_ac)
  then have "store_le m (p + 1) n (drop_bit 8 v) (q x) = store_le (\<lambda>x. m (q x)) (a + 1) n (drop_bit 8 v) x" by (rule Suc.IH)
  moreover have "q x = p \<longleftrightarrow> x = a" using q assms(3,4) by (auto dest: inj_onD)
  ultimately show ?case by simp
qed simp

section \<open>The memory map\<close>

text \<open>The host address of a byte of RAM or of accelerator memory, and the byte memory the map presents.\<close>

definition is_mem :: "PhysMemoryRange \<Rightarrow> bool" where
  "is_mem pr \<longleftrightarrow> pr_is_ram pr \<or> pr_is_pim pr"

definition mem_ptr :: "PhysMemoryMap \<Rightarrow> u64 \<Rightarrow> u64 option" where
  "mem_ptr m a =
     (case get_phys_mem_range m a of
        None \<Rightarrow> None
      | Some i \<Rightarrow> (let pr = phys_mem_range m ! i in if is_mem pr then Some (pr_phys_mem pr + (a - pr_addr pr)) else None))"

definition mapped :: "PhysMemoryMap \<Rightarrow> u64 set" where
  "mapped m = {a. mem_ptr m a \<noteq> None}"

definition flat :: "'d RISCVCPUState \<Rightarrow> u64 \<Rightarrow> u8" where
  "flat s a = (case mem_ptr (c_mem_map s) a of None \<Rightarrow> 0 | Some p \<Rightarrow> c_host s p)"

text \<open>Ranges are whole pages, do not wrap around and have dirty bits for all of their pages; no two ranges share memory of the host.\<close>

definition range_ok :: "PhysMemoryRange \<Rightarrow> bool" where
  "range_ok pr \<longleftrightarrow> 4096 dvd unat (pr_addr pr) \<and> 4096 dvd unat (pr_size pr) \<and> unat (pr_addr pr) + unat (pr_size pr) < 2 ^ 64
     \<and> (pr_dirty_bits pr \<longrightarrow> pr_dirty_bits_index pr < length (pr_dirty_bits_tab pr)
          \<and> unat (pr_size pr) \<le> 2 ^ 17 * length (pr_dirty_bits_tab pr ! pr_dirty_bits_index pr))"

definition host_range :: "PhysMemoryRange \<Rightarrow> u64 set" where
  "host_range pr = {p. p - pr_phys_mem pr < pr_size pr}"

definition map_ok :: "PhysMemoryMap \<Rightarrow> bool" where
  "map_ok m \<longleftrightarrow> n_phys_mem_range m \<le> length (phys_mem_range m)
     \<and> (\<forall>i<n_phys_mem_range m. range_ok (phys_mem_range m ! i))
     \<and> (\<forall>i<n_phys_mem_range m. \<forall>j<n_phys_mem_range m. i \<noteq> j \<and> is_mem (phys_mem_range m ! i) \<and> is_mem (phys_mem_range m ! j)
          \<longrightarrow> host_range (phys_mem_range m ! i) \<inter> host_range (phys_mem_range m ! j) = {})"

lemma in_range_iff:
  assumes "range_ok pr"
  shows "in_range pr a \<longleftrightarrow> unat (pr_addr pr) \<le> unat a \<and> unat a < unat (pr_addr pr) + unat (pr_size pr)"
proof -
  have "unat (pr_addr pr + pr_size pr) = unat (pr_addr pr) + unat (pr_size pr)"
    using assms by (subst unat_add_lem [THEN iffD1]) (auto simp: range_ok_def)
  then show ?thesis by (simp add: in_range_def word_le_nat_alt word_less_nat_alt)
qed

lemma in_range_page:
  assumes "range_ok pr" and "unat a div 4096 = unat b div 4096"
  shows "in_range pr a = in_range pr b"
proof -
  obtain x y where xy: "unat (pr_addr pr) = 4096 * x" "unat (pr_size pr) = 4096 * y"
    using assms(1) by (auto simp: range_ok_def elim!: dvdE)
  have "in_range pr c \<longleftrightarrow> x \<le> unat c div 4096 \<and> unat c div 4096 < x + y" for c
    using in_range_iff [OF assms(1), of c] xy by auto
  then show ?thesis using assms(2) by simp
qed

lemma in_range_offset:
  assumes "range_ok pr" and "in_range pr a"
  shows "a - pr_addr pr < pr_size pr"
  using assms(2) in_range_iff [OF assms(1), of a] by (auto simp: word_less_nat_alt unat_sub word_le_nat_alt)

lemma get_range_lt:
  assumes "get_phys_mem_range m a = Some i"
  shows "i < n_phys_mem_range m" "in_range (phys_mem_range m ! i) a"
  using assms by (auto simp: get_phys_mem_range_def find_Some_iff)

lemma get_range_page:
  assumes "map_ok m" and "unat a div 4096 = unat b div 4096"
  shows "get_phys_mem_range m a = get_phys_mem_range m b"
  unfolding get_phys_mem_range_def
  using assms by (intro find_cong) (auto simp: map_ok_def intro!: in_range_page)

lemma mem_ptr_page:
  assumes "map_ok m" and "mem_ptr m a = Some p" and "unat a div 4096 = unat b div 4096"
  shows "mem_ptr m b = Some (p + (b - a))"
  using assms(2) get_range_page [OF assms(1,3)]
  by (auto simp: mem_ptr_def Let_def split: option.splits if_splits)

lemma mem_ptr_inj:
  assumes "map_ok m" and "mem_ptr m a = Some p" and "mem_ptr m b = Some p"
  shows "a = b"
proof -
  obtain i j where i: "get_phys_mem_range m a = Some i" "is_mem (phys_mem_range m ! i)" "p = pr_phys_mem (phys_mem_range m ! i) + (a - pr_addr (phys_mem_range m ! i))"
    and j: "get_phys_mem_range m b = Some j" "is_mem (phys_mem_range m ! j)" "p = pr_phys_mem (phys_mem_range m ! j) + (b - pr_addr (phys_mem_range m ! j))"
    using assms(2,3) by (auto simp: mem_ptr_def Let_def split: option.splits if_splits)
  have lt: "i < n_phys_mem_range m" "j < n_phys_mem_range m" using get_range_lt i(1) j(1) by blast+
  have h: "phys + (c - pr_addr pr) \<in> host_range pr" if "range_ok pr" "in_range pr c" "phys = pr_phys_mem pr" for pr c phys
    using in_range_offset [OF that(1,2)] that(3) by (simp add: host_range_def)
  have "p \<in> host_range (phys_mem_range m ! i)" "p \<in> host_range (phys_mem_range m ! j)"
    using assms(1) lt get_range_lt(2) [OF i(1)] get_range_lt(2) [OF j(1)] by (simp_all add: i(3) map_ok_def h) (simp add: i(3) [symmetric] j(3) h map_ok_def)
  then have "i = j" using assms(1) lt i(2) j(2) unfolding map_ok_def by blast
  then show ?thesis using i(3) j(3) by simp
qed

lemma mem_ptr_inj_on: "map_ok m \<Longrightarrow> inj_on (\<lambda>a. the (mem_ptr m a)) (mapped m)"
  by (auto simp: inj_on_def mapped_def dest: mem_ptr_inj)

text \<open>Dirty bits do not change the memory.\<close>

lemma set_dirty_ok:
  assumes "map_ok m" and "i < n_phys_mem_range m" and "in_range (phys_mem_range m ! i) a"
  shows "\<exists>pr'. phys_mem_set_dirty_bit (phys_mem_range m ! i) (a - pr_addr (phys_mem_range m ! i)) = Inr pr'
    \<and> map_ok (set_range m i (\<lambda>_. pr')) \<and> mem_ptr (set_range m i (\<lambda>_. pr')) = mem_ptr m"
proof -
  let ?pr = "phys_mem_range m ! i" let ?o = "a - pr_addr ?pr"
  have ok: "range_ok ?pr" using assms(1,2) by (simp add: map_ok_def)
  have len: "i < length (phys_mem_range m)" using assms(1,2) by (simp add: map_ok_def)
  have keep: "map_ok (set_range m i (\<lambda>_. ?pr\<lparr>pr_dirty_bits_tab := t\<rparr>)) \<and> mem_ptr (set_range m i (\<lambda>_. ?pr\<lparr>pr_dirty_bits_tab := t\<rparr>)) = mem_ptr m"
    if "length t = length (pr_dirty_bits_tab ?pr)" and "pr_dirty_bits_index ?pr < length t \<longrightarrow> length (t ! pr_dirty_bits_index ?pr) = length (pr_dirty_bits_tab ?pr ! pr_dirty_bits_index ?pr)" for t
  proof -
    let ?m = "set_range m i (\<lambda>_. ?pr\<lparr>pr_dirty_bits_tab := t\<rparr>)"
    have nth: "phys_mem_range ?m ! j = (if j = i then ?pr\<lparr>pr_dirty_bits_tab := t\<rparr> else phys_mem_range m ! j)" if "j < n_phys_mem_range m" for j
      using len that by (auto simp: set_range_def)
    have f: "n_phys_mem_range ?m = n_phys_mem_range m" "length (phys_mem_range ?m) = length (phys_mem_range m)" by (simp_all add: set_range_def)
    have g: "get_phys_mem_range ?m b = get_phys_mem_range m b" for b
      unfolding get_phys_mem_range_def f(1) using nth by (intro find_cong) (auto simp: in_range_def)
    have "range_ok (?pr\<lparr>pr_dirty_bits_tab := t\<rparr>)" using ok that by (auto simp: range_ok_def)
    moreover have "host_range (?pr\<lparr>pr_dirty_bits_tab := t\<rparr>) = host_range ?pr" "is_mem (?pr\<lparr>pr_dirty_bits_tab := t\<rparr>) = is_mem ?pr"
      by (simp_all add: host_range_def is_mem_def)
    ultimately have "map_ok ?m" using assms(1) unfolding map_ok_def f by (simp add: nth)
    moreover have "mem_ptr ?m b = mem_ptr m b" for b
      unfolding mem_ptr_def g using nth get_range_lt(1) [of m b] by (auto simp: is_mem_def Let_def split: option.splits)
    ultimately show ?thesis by auto
  qed
  show ?thesis
  proof (cases "pr_dirty_bits ?pr")
    case True
    let ?k = "pr_dirty_bits_index ?pr" and ?j = "unat (drop_bit 5 (drop_bit 12 ?o))"
    have k: "?k < length (pr_dirty_bits_tab ?pr)" "unat (pr_size ?pr) \<le> 2 ^ 17 * length (pr_dirty_bits_tab ?pr ! ?k)"
      using ok True by (auto simp: range_ok_def)
    have "unat ?o < unat (pr_size ?pr)" using in_range_offset [OF ok assms(3)] by (simp add: word_less_nat_alt)
    then have "unat ?o < length (pr_dirty_bits_tab ?pr ! ?k) * 2 ^ 17" using k(2) by simp
    then have "unat ?o div 2 ^ 17 < length (pr_dirty_bits_tab ?pr ! ?k)" by (rule less_mult_imp_div_less)
    moreover have "?j = unat ?o div 2 ^ 17" by (simp only: drop_bit_drop_bit unat_drop_bit_eq) (simp add: drop_bit_eq_div)
    ultimately have j: "?j < length (pr_dirty_bits_tab ?pr ! ?k)" by simp
    let ?w = "pr_dirty_bits_tab ?pr ! ?k ! ?j OR dirty_mask ?o"
    let ?t = "(pr_dirty_bits_tab ?pr)[?k := (pr_dirty_bits_tab ?pr ! ?k)[?j := ?w]]"
    have "phys_mem_set_dirty_bit ?pr ?o = Inr (?pr\<lparr>pr_dirty_bits_tab := ?t\<rparr>)"
      using True k(1) j by (simp add: phys_mem_set_dirty_bit_def dirty_word_def set_dirty_word_def)
    then show ?thesis using keep [of ?t] k(1) by auto
  next
    case False
    then have "phys_mem_set_dirty_bit ?pr ?o = Inr (?pr\<lparr>pr_dirty_bits_tab := pr_dirty_bits_tab ?pr\<rparr>)" by (simp add: phys_mem_set_dirty_bit_def)
    then show ?thesis using keep [of "pr_dirty_bits_tab ?pr"] by auto
  qed
qed

section \<open>Accesses\<close>

text \<open>Pages and alignment.\<close>

lemma page_iff: "drop_bit 12 a = drop_bit 12 b \<longleftrightarrow> unat a div 4096 = unat b div 4096" for a b :: u64
proof -
  have "unat (drop_bit 12 x) = unat x div 4096" for x :: u64 by (simp only: unat_drop_bit_eq) (simp add: drop_bit_eq_div)
  then show ?thesis by (metis word_unat_eq_iff)
qed

lemma pow_mask: "k \<le> 3 \<Longrightarrow> of_nat (2 ^ k) - 1 = (mask k :: u64)"
  by (simp add: mask_eq_exp_minus_1)

lemma aligned_iff: "addr AND mask k = 0 \<longleftrightarrow> 2 ^ k dvd unat addr" for addr :: u64
proof -
  have "unat (take_bit k addr) = unat addr mod 2 ^ k" by (simp only: unsigned_take_bit_eq) (simp add: take_bit_eq_mod)
  then show ?thesis by (metis take_bit_eq_mask unat_eq_zero dvd_eq_mod_eq_0 mod_eq_0_iff_dvd)
qed

lemma aligned_page:
  fixes addr :: u64
  assumes "2 ^ k dvd unat addr" and "i < 2 ^ k" and "k \<le> 3"
  shows "drop_bit 12 (addr + of_nat i) = drop_bit 12 addr"
proof -
  obtain x where x: "unat addr = 2 ^ k * x" using assms(1) by (elim dvdE)
  have c: "k = 0 \<or> k = 1 \<or> k = 2 \<or> k = 3" using assms(3) by auto
  have b: "unat addr < 2 ^ 64" using unsigned_less [of addr] by simp
  then have "unat addr + i < 2 ^ 64" using x assms(2) c by auto
  moreover have i: "unat (of_nat i :: u64) = i" using assms(2) c by (auto simp: unat_of_nat)
  ultimately have "unat (addr + of_nat i) = unat addr + i" by (subst unat_add_lem [THEN iffD1]) simp_all
  moreover have "(unat addr + i) div 4096 = unat addr div 4096" using x assms(2) c by auto
  ultimately show ?thesis by (simp add: page_iff)
qed

text \<open>An entry of a translation buffer that is in use describes the memory of its page.\<close>

definition entry_ok :: "PhysMemoryMap \<Rightarrow> TLBEntry \<Rightarrow> bool" where
  "entry_ok m t \<longleftrightarrow> t_vaddr t = - 1
     \<or> take_bit 12 (t_vaddr t) = 0 \<and> (\<forall>a. drop_bit 12 a = drop_bit 12 (t_vaddr t) \<longrightarrow> mem_ptr m a = Some (t_mem_addend t + a))"

lemma bit_hit:
  assumes "tlb_hit t addr (2 ^ k)" and "k \<le> 3" and "j < 64"
  shows "bit (t_vaddr t) j \<longleftrightarrow> bit addr j \<and> (12 \<le> j \<or> j < k)"
proof -
  have m: "(0xfff :: u64) = mask 12" by (simp add: mask_eq_exp_minus_1)
  show ?thesis using assms pow_mask [OF assms(2)] unfolding tlb_hit_def m by (auto simp: bit_simps)
qed

lemma entry_hit:
  assumes "entry_ok m t" and "tlb_hit t addr (2 ^ k)" and "k \<le> 3"
  shows "2 ^ k dvd unat addr" "\<And>i. i < 2 ^ k \<Longrightarrow> mem_ptr m (addr + of_nat i) = Some (t_mem_addend t + addr + of_nat i)"
proof -
  note b = bit_hit [OF assms(2,3)]
  have "t_vaddr t \<noteq> - 1" using b [of 11] assms(3) by auto
  then have ok: "take_bit 12 (t_vaddr t) = 0" "\<And>a. drop_bit 12 a = drop_bit 12 (t_vaddr t) \<Longrightarrow> mem_ptr m a = Some (t_mem_addend t + a)"
    using assms(1) by (auto simp: entry_ok_def)
  have "\<not> bit (t_vaddr t) j" if "j < 12" for j using ok(1) that by (metis bit_take_bit_iff bit_0_eq bot_apply bot_bool_def)
  then have "\<not> bit addr j" if "j < k" for j using b [of j] assms(3) that by auto
  then have "addr AND mask k = 0" by (intro bit_word_eqI) (auto simp: bit_simps)
  then show al: "2 ^ k dvd unat addr" by (simp add: aligned_iff)
  have pg: "drop_bit 12 addr = drop_bit 12 (t_vaddr t)"
  proof (rule bit_word_eqI)
    show "bit (drop_bit 12 addr) n = bit (drop_bit 12 (t_vaddr t)) n" for n
      using b [of "12 + n"] by (cases "12 + n < 64") (auto simp: bit_simps dest: bit_imp_le_length)
  qed
  show "mem_ptr m (addr + of_nat i) = Some (t_mem_addend t + addr + of_nat i)" if "i < 2 ^ k" for i
    using ok(2) [of "addr + of_nat i"] aligned_page [OF al that assms(3)] pg by (simp add: add.assoc)
qed

lemma new_entry_ok:
  assumes "map_ok m" and "mem_ptr m addr = Some p"
  shows "entry_ok m (new_entry addr paddr p)"
proof -
  have m: "(0xfff :: u64) = mask 12" by (simp add: mask_eq_exp_minus_1)
  have "take_bit 12 (addr AND NOT (mask 12)) = 0" by (rule bit_word_eqI) (auto simp: bit_simps)
  moreover have "drop_bit 12 (addr AND NOT (mask 12)) = drop_bit 12 addr" by (rule bit_word_eqI) (auto simp: bit_simps dest: bit_imp_le_length)
  ultimately show ?thesis using mem_ptr_page [OF assms] unfolding entry_ok_def new_entry_def m by (auto simp: page_iff)
qed

text \<open>A processor that accesses memory without translation: in machine mode, or with translation off.\<close>

definition untranslated :: "'d RISCVCPUState \<Rightarrow> bool" where
  "untranslated s \<longleftrightarrow>
     (if access_priv s ACCESS_READ = PRV_M then MAX_XLEN \<le> c_cur_xlen s else drop_bit 60 (c_satp s) AND 0xf = 0)"

definition mem_ok :: "'d RISCVCPUState \<Rightarrow> bool" where
  "mem_ok s \<longleftrightarrow> cpu_ok s \<and> 0 < tlb_size (sim_params s) \<and> tlb_size (sim_params s) < 2 ^ 31 \<and> map_ok (c_mem_map s) \<and> untranslated s
     \<and> list_all (entry_ok (c_mem_map s)) (c_tlb_read s) \<and> list_all (entry_ok (c_mem_map s)) (c_tlb_write s)"

definition keeps :: "'d RISCVCPUState \<Rightarrow> 'd RISCVCPUState \<Rightarrow> bool" where
  "keeps s s' \<longleftrightarrow> mem_ok s' \<and> mem_ptr (c_mem_map s') = mem_ptr (c_mem_map s) \<and> sim_params s' = sim_params s"

lemma untranslated_access: "untranslated s \<Longrightarrow> a \<noteq> ACCESS_CODE \<Longrightarrow> get_phys_addr s addr a = Inr (Some addr, s)"
  by (auto simp: untranslated_def get_phys_addr_def access_priv_def Let_def split: if_splits)

lemma tlb_idx_lt:
  assumes "mem_ok s"
  shows "tlb_idx s addr < length (c_tlb_read s)" "tlb_idx s addr < length (c_tlb_write s)"
proof -
  let ?n = "tlb_size (sim_params s)"
  have n: "0 < ?n" "?n < 2 ^ 31" using assms by (auto simp: mem_ok_def)
  have "unat (drop_bit 12 addr AND word_of_int (?n - 1)) \<le> unat (word_of_int (?n - 1) :: u64)"
    by (simp add: word_le_nat_alt [symmetric] word_and_le1)
  also have "\<dots> = nat (?n - 1)" unfolding unsigned_of_int using n by (simp add: take_bit_int_eq_self)
  finally have le: "unat (drop_bit 12 addr AND word_of_int (?n - 1)) \<le> nat (?n - 1)" .
  have "tlb_idx s addr \<le> nat (?n - 1)" unfolding tlb_idx_def
    using le by (simp only: unsigned_ucast_eq) (metis le_trans take_bit_nat_less_eq_self)
  then have "tlb_idx s addr < nat ?n" using n by linarith
  then show "tlb_idx s addr < length (c_tlb_read s)" "tlb_idx s addr < length (c_tlb_write s)"
    using assms by (auto simp: mem_ok_def cpu_ok_def Let_def)
qed

text \<open>Changes of the state that are not seen by the memory.\<close>

lemma mem_ok_count:
  assumes "mem_ok s" and "\<And>v. length (interrupts (f v)) = length (interrupts v)" and "\<And>v. length (exceptions (f v)) = length (exceptions v)"
  obtains st where "count_sim f s = Inr (s\<lparr>c_simcpu := (c_simcpu s)\<lparr>sc_stats := st\<rparr>\<rparr>)" "mem_ok (s\<lparr>c_simcpu := (c_simcpu s)\<lparr>sc_stats := st\<rparr>\<rparr>)"
proof -
  have "cpu_ok s" using assms(1) by (simp add: mem_ok_def)
  from count_sim_ok [OF this assms(2,3)] obtain st where st: "count_sim f s = Inr (s\<lparr>c_simcpu := (c_simcpu s)\<lparr>sc_stats := st\<rparr>\<rparr>)"
    "cpu_ok (s\<lparr>c_simcpu := (c_simcpu s)\<lparr>sc_stats := st\<rparr>\<rparr>)" by blast
  then have "mem_ok (s\<lparr>c_simcpu := (c_simcpu s)\<lparr>sc_stats := st\<rparr>\<rparr>)"
    using assms(1) by (simp add: mem_ok_def untranslated_def access_priv_def)
  with st(1) show thesis by (rule that)
qed

lemma mem_ok_frame [simp]:
  "mem_ok (s\<lparr>c_is_device_io := b, c_is_pim_access := d\<rparr>) = mem_ok s" "mem_ok (s\<lparr>c_data_guest_paddr := a\<rparr>) = mem_ok s"
  "mem_ok (s\<lparr>c_data_guest_paddr := a, c_is_pim_access := d\<rparr>) = mem_ok s" "mem_ok (s\<lparr>c_host := h\<rparr>) = mem_ok s"
  by (simp_all add: mem_ok_def untranslated_def access_priv_def cpu_ok_def)

lemma list_all_upd: "list_all P xs \<Longrightarrow> P x \<Longrightarrow> list_all P (xs[i := x])"
  by (auto simp: list_all_iff dest!: subsetD [OF set_update_subset_insert])

lemma mem_ok_tlb:
  assumes "mem_ok s" and "mem_ptr (c_mem_map s) addr = Some p"
  shows "mem_ok (s\<lparr>c_tlb_read := (c_tlb_read s)[tlb_idx s addr := new_entry addr paddr p]\<rparr>)"
    "mem_ok (s\<lparr>c_tlb_write := (c_tlb_write s)[tlb_idx s addr := new_entry addr paddr p]\<rparr>)"
proof -
  have "entry_ok (c_mem_map s) (new_entry addr paddr p)" using assms by (auto simp: mem_ok_def intro: new_entry_ok)
  then show "mem_ok (s\<lparr>c_tlb_read := (c_tlb_read s)[tlb_idx s addr := new_entry addr paddr p]\<rparr>)"
    "mem_ok (s\<lparr>c_tlb_write := (c_tlb_write s)[tlb_idx s addr := new_entry addr paddr p]\<rparr>)"
    using assms(1) by (simp_all add: mem_ok_def untranslated_def access_priv_def cpu_ok_def list_all_upd)
qed

text \<open>The bytes of an aligned access are consecutive in the memory of the host.\<close>

lemma aligned_ptr:
  assumes "map_ok m" and "mem_ptr m addr = Some p" and "2 ^ k dvd unat addr" and "k \<le> 3" and "i < 2 ^ k"
  shows "mem_ptr m (addr + of_nat i) = Some (p + of_nat i)"
  using mem_ptr_page [OF assms(1,2), of "addr + of_nat i"] aligned_page [OF assms(3,5,4)] by (simp add: page_iff)

lemma load_flat:
  assumes "\<And>i. i < n \<Longrightarrow> mem_ptr (c_mem_map s) (addr + of_nat i) = Some (p + of_nat i)"
  shows "load_le (c_host s) p n = load_le (flat s) addr n"
  using assms by (intro load_le_via) (simp add: flat_def)

lemma store_flat:
  assumes "map_ok (c_mem_map s)" and "\<And>i. i < n \<Longrightarrow> mem_ptr (c_mem_map s) (addr + of_nat i) = Some (p + of_nat i)"
    and "mem_ptr (c_mem_map s') = mem_ptr (c_mem_map s)" and "c_host s' = store_le (c_host s) p n v"
  shows "flat s' = store_le (flat s) addr n v"
proof
  fix x
  show "flat s' x = store_le (flat s) addr n v x"
  proof (cases "mem_ptr (c_mem_map s) x")
    case None
    then have "store_le (flat s) addr n v x = flat s x" using assms(2) by (intro store_le_other) auto
    then show ?thesis using None assms(3) by (simp add: flat_def)
  next
    case (Some q)
    have "store_le (c_host s) p n v (the (mem_ptr (c_mem_map s) x)) = store_le (\<lambda>x. c_host s (the (mem_ptr (c_mem_map s) x))) addr n v x"
      using assms(2) Some by (intro store_le_via [OF _ _ mem_ptr_inj_on [OF assms(1)]]) (auto simp: mapped_def)
    also have "\<dots> = store_le (flat s) addr n v x" using Some by (intro store_le_cong) (simp add: flat_def)
    finally show ?thesis using Some assms(3,4) by (simp add: flat_def)
  qed
qed

lemma flat_cong: "mem_ptr (c_mem_map s') = mem_ptr (c_mem_map s) \<Longrightarrow> c_host s' = c_host s \<Longrightarrow> flat s' = flat s"
  unfolding flat_def by (rule ext) (simp split: option.split)

lemma flat_frame [simp]:
  "flat (s\<lparr>c_is_device_io := b, c_is_pim_access := d\<rparr>) = flat s" "flat (s\<lparr>c_data_guest_paddr := a\<rparr>) = flat s"
  "flat (s\<lparr>c_simcpu := sim\<rparr>) = flat s"
  by (rule flat_cong; simp)+

subsection \<open>Reads\<close>

definition reads :: "'d RISCVCPUState \<Rightarrow> u64 \<Rightarrow> nat \<Rightarrow> sim_error + u64 option \<times> 'd RISCVCPUState \<Rightarrow> bool" where
  "reads s addr k r \<longleftrightarrow> (\<exists>v s'. r = Inr (Some v, s') \<and> take_bit (8 * 2 ^ k) v = load_le (flat s) addr (2 ^ k) \<and> keeps s s' \<and> flat s' = flat s)"

lemma read_aligned_ok:
  assumes "mem_ok s" and "addr \<in> mapped (c_mem_map s)" and "2 ^ k dvd unat addr" and "k \<le> 3"
  shows "reads s addr k (read_aligned dv s addr k)"
proof -
  obtain p where p: "mem_ptr (c_mem_map s) addr = Some p" using assms(2) by (auto simp: mapped_def)
  then obtain i where i: "get_phys_mem_range (c_mem_map s) addr = Some i" "is_mem (phys_mem_range (c_mem_map s) ! i)"
    "p = pr_phys_mem (phys_mem_range (c_mem_map s) ! i) + (addr - pr_addr (phys_mem_range (c_mem_map s) ! i))"
    by (auto simp: mem_ptr_def Let_def split: option.splits if_splits)
  have ok: "map_ok (c_mem_map s)" "untranslated s" using assms(1) by (simp_all add: mem_ok_def)
  let ?s = "s\<lparr>c_tlb_read := (c_tlb_read s)[tlb_idx s addr := new_entry addr addr p]\<rparr>"
  let ?pr = "phys_mem_range (c_mem_map s) ! i"
  let ?s' = "if pr_is_ram ?pr then ?s else ?s\<lparr>c_data_guest_paddr := addr - pr_addr ?pr, c_is_pim_access := True\<rparr>"
  have r: "read_aligned dv s addr k = Inr (Some (load_le (c_host s) p (2 ^ k)), ?s')"
    using i tlb_idx_lt(1) [OF assms(1)] untranslated_access [OF ok(2)] by (simp add: read_aligned_def is_mem_def Let_def)
  have l: "load_le (c_host s) p (2 ^ k) = load_le (flat s) addr (2 ^ k)"
    by (rule load_flat [OF aligned_ptr [OF ok(1) p assms(3,4)]])
  have m: "mem_ok ?s'" "c_mem_map ?s' = c_mem_map s" "c_host ?s' = c_host s" using mem_ok_tlb(1) [OF assms(1) p] by auto
  show ?thesis unfolding reads_def r l keeps_def
    by (intro exI conjI, rule refl, simp, rule m(1), simp only: m(2), simp, rule flat_cong) (simp_all only: m(2,3))
qed

lemma target_read_with_ok:
  assumes "mem_ok s" and "k \<le> 3"
    and slow: "\<And>t. mem_ok t \<Longrightarrow> c_mem_map t = c_mem_map s \<Longrightarrow> flat t = flat s \<Longrightarrow> reads t addr k (slow t addr k)"
  shows "\<exists>s'. target_read_with dv slow s addr k = Inr (Some (load_le (flat s) addr (2 ^ k)), s') \<and> keeps s s' \<and> flat s' = flat s"
proof -
  let ?s0 = "s\<lparr>c_is_device_io := False, c_is_pim_access := False\<rparr>"
  have "mem_ok ?s0" using assms(1) by simp
  then obtain st where st: "count_sim (load_tlb_lookups_update (\<lambda>c. c + 1)) ?s0 = Inr (?s0\<lparr>c_simcpu := (c_simcpu ?s0)\<lparr>sc_stats := st\<rparr>\<rparr>)"
    "mem_ok (?s0\<lparr>c_simcpu := (c_simcpu ?s0)\<lparr>sc_stats := st\<rparr>\<rparr>)" by (rule mem_ok_count [where f = "load_tlb_lookups_update (\<lambda>c. c + 1)"]) auto
  define s1 where "s1 = ?s0\<lparr>c_simcpu := (c_simcpu ?s0)\<lparr>sc_stats := st\<rparr>\<rparr>"
  have s1: "mem_ok s1" "c_mem_map s1 = c_mem_map s" "c_host s1 = c_host s" "sim_params s1 = sim_params s" using st(2) by (simp_all add: s1_def)
  let ?k = "tlb_idx ?s0 addr" and ?n = "2 ^ k :: nat"
  have k: "?k = tlb_idx s1 addr" using s1(4) by (simp add: tlb_idx_def)
  let ?t = "c_tlb_read s1 ! ?k"
  have t: "aget (c_tlb_read s1) ?k = Inr ?t" "entry_ok (c_mem_map s) ?t"
    using tlb_idx_lt(1) [OF s1(1), of addr] s1(1,2) unfolding k by (auto simp: mem_ok_def list_all_length)
  have f: "flat s1 = flat s" using s1(2,3) by (intro flat_cong) simp_all
  have fin: "\<exists>s'. (if None = Some v \<or> c_is_device_io s2 \<or> c_is_pim_access s2 then Inr (Some v, s2)
        else bindR (aget (c_tlb_read s2) ?k) (\<lambda>t. Inr (Some v, s2\<lparr>c_data_guest_paddr := translated t addr\<rparr>))) = Inr (Some v, s')
      \<and> keeps s s' \<and> flat s' = flat s" if "keeps s s2" "flat s2 = flat s" for s2 and v :: u64
  proof -
    have "?k < length (c_tlb_read s2)" using tlb_idx_lt(1) [of s2 addr] that(1) by (simp add: keeps_def tlb_idx_def)
    moreover have "keeps s (s2\<lparr>c_data_guest_paddr := x\<rparr>)" for x using that(1) by (simp add: keeps_def)
    ultimately show ?thesis using that by auto
  qed
  show ?thesis
  proof (cases "tlb_hit ?t addr ?n")
    case True
    obtain st' where st': "count_sim (load_tlb_hits_update (\<lambda>c. c + 1)) s1 = Inr (s1\<lparr>c_simcpu := (c_simcpu s1)\<lparr>sc_stats := st'\<rparr>\<rparr>)"
      "mem_ok (s1\<lparr>c_simcpu := (c_simcpu s1)\<lparr>sc_stats := st'\<rparr>\<rparr>)" by (rule mem_ok_count [OF s1(1), where f = "load_tlb_hits_update (\<lambda>c. c + 1)"]) auto
    have v: "load_le (c_host s1) (t_mem_addend ?t + addr) ?n = load_le (flat s) addr ?n"
      using load_flat [of ?n s addr "t_mem_addend ?t + addr"] entry_hit(2) [OF t(2) True assms(2)] s1(3) by simp
    have "keeps s (s1\<lparr>c_simcpu := (c_simcpu s1)\<lparr>sc_stats := st'\<rparr>\<rparr>)" "flat (s1\<lparr>c_simcpu := (c_simcpu s1)\<lparr>sc_stats := st'\<rparr>\<rparr>) = flat s"
      using st'(2) s1(2,4) f by (simp_all add: keeps_def)
    from fin [OF this] show ?thesis unfolding target_read_with_def Let_def st(1) bindR_Inr s1_def [symmetric] t(1)
      using True st'(1) v s1(4) by simp
  next
    case False
    obtain v s2 where v: "slow s1 addr k = Inr (Some v, s2)" "take_bit (8 * ?n) v = load_le (flat s1) addr ?n" "keeps s1 s2" "flat s2 = flat s1"
      using slow [OF s1(1,2) f] by (auto simp: reads_def)
    have "keeps s s2" "flat s2 = flat s" using v(3,4) s1(2,4) f by (simp_all add: keeps_def)
    from fin [OF this] show ?thesis unfolding target_read_with_def Let_def st(1) bindR_Inr s1_def [symmetric] t(1)
      using False v f by simp
  qed
qed

lemma keeps_trans: "keeps s t \<Longrightarrow> keeps t u \<Longrightarrow> keeps s u"
  by (simp add: keeps_def)

lemma keeps_mapped: "keeps s t \<Longrightarrow> mapped (c_mem_map t) = mapped (c_mem_map s)"
  by (simp add: keeps_def mapped_def)

lemma target_read_aligned_ok:
  assumes "mem_ok s" and "addr \<in> mapped (c_mem_map s)" and "2 ^ k dvd unat addr" and "k \<le> 3"
  shows "\<exists>s'. target_read_aligned dv s addr k = Inr (Some (load_le (flat s) addr (2 ^ k)), s') \<and> keeps s s' \<and> flat s' = flat s"
  unfolding target_read_aligned_def
  using assms by (intro target_read_with_ok read_aligned_ok) (simp_all)

text \<open>A misaligned access lies in two aligned ones.\<close>

lemma misaligned_parts:
  assumes "map_ok m" and "\<And>i. i < 2 ^ k \<Longrightarrow> addr + of_nat i \<in> mapped m" and "k \<le> 3" and "al = unat (addr AND mask k)" and "al \<noteq> 0"
  shows "2 ^ k dvd unat (addr - of_nat al)" "addr - of_nat al \<in> mapped m" "2 ^ k dvd unat (addr - of_nat al + of_nat (2 ^ k))"
    "addr - of_nat al + of_nat (2 ^ k) \<in> mapped m" "al < 2 ^ k"
proof -
  let ?a = "addr - of_nat al" and ?n = "2 ^ k :: nat"
  have c: "k = 0 \<or> k = 1 \<or> k = 2 \<or> k = 3" using assms(3) by auto
  have al: "of_nat al = addr AND mask k" using assms(4) by simp
  have "unat (take_bit k addr) = unat addr mod 2 ^ k" by (simp only: unsigned_take_bit_eq) (simp add: take_bit_eq_mod)
  then have mod: "al = unat addr mod ?n" using assms(4) by (simp add: take_bit_eq_mask)
  then show lt: "al < ?n" by simp
  have "unat (of_nat al :: u64) = al" using assms(4) by simp
  moreover have "al \<le> unat addr" using mod by simp
  ultimately have "unat ?a = unat addr - al" by (simp add: unat_sub word_le_nat_alt)
  then show d: "?n dvd unat ?a" using mod by (simp add: dvd_minus_mod)
  have "?a + of_nat ?n = of_nat (unat ?a + ?n)" by simp
  then have "unat (?a + of_nat ?n) = (unat ?a + ?n) mod 2 ^ 64" using unat_of_nat [of "unat ?a + ?n", where ?'a = 64] by simp
  moreover have "?n dvd 2 ^ 64" by (rule le_imp_power_dvd) (use assms(3) in simp)
  ultimately show d2: "?n dvd unat (?a + of_nat ?n)" using d by (simp only:) (simp add: dvd_mod)
  have page: "x \<in> mapped m" if "y \<in> mapped m" "drop_bit 12 y = drop_bit 12 x" for x y
    using mem_ptr_page [OF assms(1), of y _ x] that by (auto simp: mapped_def page_iff)
  show "?a \<in> mapped m"
    using page [of addr ?a] assms(2) [of 0] aligned_page [OF d lt assms(3)] by simp
  have "?a + of_nat ?n + of_nat (al - 1) = addr + of_nat (?n - 1)" using assms(5) c by (auto simp: of_nat_diff)
  moreover have "drop_bit 12 (?a + of_nat ?n + of_nat (al - 1)) = drop_bit 12 (?a + of_nat ?n)"
    using lt by (intro aligned_page [OF d2 _ assms(3)]) linarith
  moreover have "addr + of_nat (?n - 1) \<in> mapped m" by (rule assms(2)) simp
  ultimately show "?a + of_nat ?n \<in> mapped m" by (metis page)
qed

lemma target_read_slow_ok:
  assumes "mem_ok s" and "\<And>i. i < 2 ^ k \<Longrightarrow> addr + of_nat i \<in> mapped (c_mem_map s)" and "k \<le> 3"
  shows "reads s addr k (target_read_slow dv (target_read_aligned dv) s addr k)"
proof -
  define al where "al = unat (addr AND mask k)"
  let ?n = "2 ^ k :: nat" and ?rd = "target_read_aligned dv"
  have ok: "map_ok (c_mem_map s)" using assms(1) by (simp add: mem_ok_def)
  have al: "unat (addr AND (of_nat ?n - 1)) = al" using pow_mask [OF assms(3)] by (simp add: al_def)
  show ?thesis
  proof (cases "al = 0")
    case True
    then have "2 ^ k dvd unat addr" unfolding al_def unat_eq_zero by (simp only: aligned_iff)
    then have "reads s addr k (read_aligned dv s addr k)" using assms(2) [of 0] by (intro read_aligned_ok assms(1,3)) simp_all
    then show ?thesis unfolding target_read_slow_def Let_def al using True by simp
  next
    case False
    show ?thesis
    proof (cases "k = 1")
      case True
      have m: "addr \<in> mapped (c_mem_map s)" "addr + 1 \<in> mapped (c_mem_map s)" using assms(2) [of 0] assms(2) [of 1] True by simp_all
      obtain s1 where s1: "?rd s addr 0 = Inr (Some (load_le (flat s) addr 1), s1)" "keeps s s1" "flat s1 = flat s"
        using target_read_aligned_ok [OF assms(1) m(1), of 0] by auto
      then obtain s2 where s2: "?rd s1 (addr + 1) 0 = Inr (Some (load_le (flat s) (addr + 1) 1), s2)" "keeps s1 s2" "flat s2 = flat s"
        using target_read_aligned_ok [of s1 "addr + 1" 0 dv] m(2) keeps_mapped [OF s1(2)] by (auto simp: keeps_def)
      let ?v = "load_le (flat s) addr 1 OR push_bit 8 (load_le (flat s) (addr + 1) 1)"
      have "target_read_slow dv ?rd s addr k = Inr (Some ?v, s2)"
        unfolding target_read_slow_def Let_def al using False True s1(1) s2(1) by simp
      moreover have "take_bit (8 * 2 ^ k) ?v = load_le (flat s) addr (2 ^ k)"
        using True take_bit_load_le [of 2 "flat s" addr] by (simp add: numeral_2_eq_2)
      ultimately show ?thesis unfolding reads_def using keeps_trans [OF s1(2) s2(2)] s2(3) by blast
    next
      case ne: False
      note pt = misaligned_parts [OF ok assms(2,3) al_def False]
      let ?a = "addr - of_nat al"
      obtain s1 where s1: "?rd s ?a k = Inr (Some (load_le (flat s) ?a ?n), s1)" "keeps s s1" "flat s1 = flat s"
        using target_read_aligned_ok [OF assms(1) pt(2,1) assms(3)] by auto
      then obtain s2 where s2: "?rd s1 (?a + of_nat ?n) k = Inr (Some (load_le (flat s) (?a + of_nat ?n) ?n), s2)" "keeps s1 s2" "flat s2 = flat s"
        using target_read_aligned_ok [of s1 "?a + of_nat ?n" k dv] pt(3,4) assms(3) keeps_mapped [OF s1(2)] by (auto simp: keeps_def)
      let ?v = "drop_bit (al * 8) (load_le (flat s) ?a ?n) OR take_bit (8 * ?n) (push_bit (8 * ?n - al * 8) (load_le (flat s) (?a + of_nat ?n) ?n))"
      have "target_read_slow dv ?rd s addr k = Inr (Some ?v, s2)"
        unfolding target_read_slow_def Let_def al using False ne s1(1) s2(1) by simp
      moreover have "take_bit (8 * ?n) ?v = load_le (flat s) addr ?n"
      proof -
        have "?n \<le> 2 ^ 3" using assms(3) by (intro power_increasing) simp_all
        then show ?thesis using load_le_split [OF pt(5), of "flat s" ?a] by simp
      qed
      ultimately show ?thesis unfolding reads_def using keeps_trans [OF s1(2) s2(2)] s2(3) by blast
    qed
  qed
qed

lemma target_read_ok:
  assumes "mem_ok s" and "\<And>i. i < 2 ^ k \<Longrightarrow> addr + of_nat i \<in> mapped (c_mem_map s)" and "k \<le> 3"
  shows "\<exists>s'. target_read dv s addr k = Inr (Some (load_le (flat s) addr (2 ^ k)), s') \<and> keeps s s' \<and> flat s' = flat s"
  unfolding target_read_def using assms by (intro target_read_with_ok target_read_slow_ok) simp_all

subsection \<open>Writes\<close>

definition writes :: "'d RISCVCPUState \<Rightarrow> u64 \<Rightarrow> u64 \<Rightarrow> nat \<Rightarrow> sim_error + bool \<times> 'd RISCVCPUState \<Rightarrow> bool" where
  "writes s addr v n r \<longleftrightarrow> (\<exists>s'. r = Inr (True, s') \<and> keeps s s' \<and> flat s' = store_le (flat s) addr n v)"

lemma entry_ok_cong: "mem_ptr m = mem_ptr m' \<Longrightarrow> entry_ok m t = entry_ok m' t"
  by (simp add: entry_ok_def)

lemma mem_ok_map:
  assumes "mem_ok s" and "map_ok m" and "mem_ptr m = mem_ptr (c_mem_map s)"
  shows "mem_ok (s\<lparr>c_mem_map := m\<rparr>)"
  using assms entry_ok_cong [OF assms(3)] by (simp add: mem_ok_def untranslated_def access_priv_def cpu_ok_def list_all_iff)

lemma write_aligned_ok:
  assumes "mem_ok s" and "addr \<in> mapped (c_mem_map s)" and "2 ^ k dvd unat addr" and "k \<le> 3"
  shows "writes s addr v (2 ^ k) (write_aligned dv s addr v k)"
proof -
  obtain p where p: "mem_ptr (c_mem_map s) addr = Some p" using assms(2) by (auto simp: mapped_def)
  then obtain i where i: "get_phys_mem_range (c_mem_map s) addr = Some i" "is_mem (phys_mem_range (c_mem_map s) ! i)"
    "p = pr_phys_mem (phys_mem_range (c_mem_map s) ! i) + (addr - pr_addr (phys_mem_range (c_mem_map s) ! i))"
    by (auto simp: mem_ptr_def Let_def split: option.splits if_splits)
  have ok: "map_ok (c_mem_map s)" "untranslated s" using assms(1) by (simp_all add: mem_ok_def)
  let ?pr = "phys_mem_range (c_mem_map s) ! i"
  obtain pr' where pr': "(if pr_is_ram ?pr then phys_mem_set_dirty_bit ?pr (addr - pr_addr ?pr) else Inr ?pr) = Inr pr'"
    "map_ok (set_range (c_mem_map s) i (\<lambda>_. pr'))" "mem_ptr (set_range (c_mem_map s) i (\<lambda>_. pr')) = mem_ptr (c_mem_map s)"
  proof (cases "pr_is_ram ?pr")
    case True
    then show thesis using set_dirty_ok [OF ok(1) get_range_lt [OF i(1)]] that by auto
  next
    case False
    have "set_range (c_mem_map s) i (\<lambda>_. ?pr) = c_mem_map s" by (simp add: set_range_def)
    then show thesis using False ok(1) that [of ?pr] by simp
  qed
  let ?m = "set_range (c_mem_map s) i (\<lambda>_. pr')"
  let ?s = "s\<lparr>c_tlb_write := (c_tlb_write s)[tlb_idx s addr := new_entry addr addr p]\<rparr>\<lparr>c_mem_map := ?m\<rparr>"
  let ?s1 = "if pr_is_ram ?pr then ?s else ?s\<lparr>c_data_guest_paddr := addr - pr_addr ?pr, c_is_pim_access := True\<rparr>"
  let ?s' = "?s1\<lparr>c_host := store_le (c_host s) p (2 ^ k) v\<rparr>"
  have r: "write_aligned dv s addr v k = Inr (True, ?s')"
    using i pr'(1) tlb_idx_lt(2) [OF assms(1)] untranslated_access [OF ok(2)] by (simp add: write_aligned_def is_mem_def Let_def)
  have "mem_ok ?s" using mem_ok_tlb(2) [OF assms(1) p] pr'(2,3) by (intro mem_ok_map) simp_all
  then have m: "mem_ok ?s'" "mem_ptr (c_mem_map ?s') = mem_ptr (c_mem_map s)" "c_host ?s' = store_le (c_host s) p (2 ^ k) v"
    "sim_params ?s' = sim_params s" using pr'(3) by auto
  have "flat ?s' = store_le (flat s) addr (2 ^ k) v"
    by (rule store_flat [OF ok(1) aligned_ptr [OF ok(1) p assms(3,4)] m(2,3)])
  then show ?thesis unfolding writes_def r keeps_def using m(1,2,4) by blast
qed

lemma target_write_with_ok:
  assumes "mem_ok s" and "k \<le> 3"
    and slow: "\<And>t v. mem_ok t \<Longrightarrow> c_mem_map t = c_mem_map s \<Longrightarrow> flat t = flat s \<Longrightarrow> writes t addr v (2 ^ k) (slow t addr v k)"
  shows "writes s addr v (2 ^ k) (target_write_with dv slow s addr v k)"
proof -
  let ?s0 = "s\<lparr>c_is_device_io := False, c_is_pim_access := False\<rparr>"
  let ?k = "tlb_idx ?s0 addr" and ?n = "2 ^ k :: nat" let ?v = "take_bit (8 * ?n) v"
  have "mem_ok ?s0" using assms(1) by simp
  then obtain st where st: "count_sim (store_tlb_lookups_update (\<lambda>c. c + 1)) ?s0 = Inr (?s0\<lparr>c_simcpu := (c_simcpu ?s0)\<lparr>sc_stats := st\<rparr>\<rparr>)"
    "mem_ok (?s0\<lparr>c_simcpu := (c_simcpu ?s0)\<lparr>sc_stats := st\<rparr>\<rparr>)" by (rule mem_ok_count [where f = "store_tlb_lookups_update (\<lambda>c. c + 1)"]) auto
  define s1 where "s1 = ?s0\<lparr>c_simcpu := (c_simcpu ?s0)\<lparr>sc_stats := st\<rparr>\<rparr>"
  have s1: "mem_ok s1" "c_mem_map s1 = c_mem_map s" "c_host s1 = c_host s" "sim_params s1 = sim_params s" using st(2) by (simp_all add: s1_def)
  have k: "?k = tlb_idx s1 addr" using s1(4) by (simp add: tlb_idx_def)
  let ?t = "c_tlb_write s1 ! ?k"
  have t: "aget (c_tlb_write s1) ?k = Inr ?t" "entry_ok (c_mem_map s) ?t"
    using tlb_idx_lt(2) [OF s1(1), of addr] s1(1,2) unfolding k by (auto simp: mem_ok_def list_all_length)
  have f: "flat s1 = flat s" using s1(2,3) by (intro flat_cong) simp_all
  have fin: "\<exists>s'. (if c_is_device_io s2 \<or> c_is_pim_access s2 then Inr (True, s2)
        else bindR (aget (c_tlb_write s2) ?k) (\<lambda>t. Inr (True, s2\<lparr>c_data_guest_paddr := translated t addr\<rparr>))) = Inr (True, s')
      \<and> keeps s s' \<and> flat s' = flat s2" if "keeps s s2" for s2
  proof -
    have "?k < length (c_tlb_write s2)" using tlb_idx_lt(2) [of s2 addr] that(1) by (simp add: keeps_def tlb_idx_def)
    moreover have "keeps s (s2\<lparr>c_data_guest_paddr := x\<rparr>)" for x using that(1) by (simp add: keeps_def)
    ultimately show ?thesis using that by auto
  qed
  show ?thesis
  proof (cases "tlb_hit ?t addr ?n")
    case True
    let ?s2 = "s1\<lparr>c_host := store_le (c_host s1) (t_mem_addend ?t + addr) ?n ?v\<rparr>"
    have "mem_ok ?s2" using s1(1) by simp
    then obtain st' where st': "count_sim (store_tlb_hits_update (\<lambda>c. c + 1)) ?s2 = Inr (?s2\<lparr>c_simcpu := (c_simcpu ?s2)\<lparr>sc_stats := st'\<rparr>\<rparr>)"
      "mem_ok (?s2\<lparr>c_simcpu := (c_simcpu ?s2)\<lparr>sc_stats := st'\<rparr>\<rparr>)" by (rule mem_ok_count [where f = "store_tlb_hits_update (\<lambda>c. c + 1)"]) auto
    define s3 where "s3 = ?s2\<lparr>c_simcpu := (c_simcpu ?s2)\<lparr>sc_stats := st'\<rparr>\<rparr>"
    have "map_ok (c_mem_map s)" using assms(1) by (simp add: mem_ok_def)
    then have v: "flat s3 = store_le (flat s) addr ?n v"
      unfolding store_le_take [of _ addr ?n v, symmetric]
      using entry_hit(2) [OF t(2) True assms(2)] s1(2,3) by (intro store_flat) (simp_all add: s3_def)
    have "keeps s s3" using st'(2) s1(2,4) by (simp add: keeps_def s3_def)
    from fin [OF this] show ?thesis unfolding writes_def target_write_with_def Let_def st(1) bindR_Inr s1_def [symmetric] t(1)
      using True st'(1) [folded s3_def] v by simp
  next
    case False
    obtain s2 where v: "slow s1 addr ?v k = Inr (True, s2)" "keeps s1 s2" "flat s2 = store_le (flat s1) addr ?n ?v"
      using slow [OF s1(1,2) f, of ?v] by (auto simp: writes_def)
    have "keeps s s2" using v(2) s1(2,4) by (simp add: keeps_def)
    from fin [OF this] show ?thesis unfolding writes_def target_write_with_def Let_def st(1) bindR_Inr s1_def [symmetric] t(1)
      using False v f by (simp add: store_le_take)
  qed
qed

lemma target_write_aligned_ok:
  assumes "mem_ok s" and "addr \<in> mapped (c_mem_map s)" and "2 ^ k dvd unat addr" and "k \<le> 3"
  shows "writes s addr v (2 ^ k) (target_write_aligned dv s addr v k)"
  unfolding target_write_aligned_def using assms by (intro target_write_with_ok write_aligned_ok) simp_all

lemma write_bytes_ok:
  assumes "mem_ok s" and "\<And>i. i < n \<Longrightarrow> addr + of_nat i \<in> mapped (c_mem_map s)" and "n < 2 ^ 64"
  shows "writes s addr v n (write_bytes (target_write_aligned dv) s addr v n)"
  using assms
proof (induction n arbitrary: s addr v)
  case 0
  then show ?case by (simp add: writes_def keeps_def)
next
  case (Suc n)
  obtain s1 where s1: "target_write_aligned dv s addr (v AND 0xff) 0 = Inr (True, s1)" "keeps s s1" "flat s1 = store_le (flat s) addr 1 (v AND 0xff)"
    using target_write_aligned_ok [OF Suc.prems(1), of addr 0 "v AND 0xff" dv] Suc.prems(2) [of 0] by (auto simp: writes_def)
  have ff: "(0xff :: u64) = mask 8" by (simp add: mask_eq_exp_minus_1)
  have b: "ucast (v AND 0xff) = (ucast v :: u8)" unfolding ff by (rule bit_word_eqI) (auto simp: bit_simps)
  have "addr + 1 + of_nat i \<in> mapped (c_mem_map s1)" if "i < n" for i
    using Suc.prems(2) [of "Suc i"] that keeps_mapped [OF s1(2)] by (simp add: add_ac)
  then obtain s2 where s2: "write_bytes (target_write_aligned dv) s1 (addr + 1) (drop_bit 8 v) n = Inr (True, s2)" "keeps s1 s2"
    "flat s2 = store_le (flat s1) (addr + 1) n (drop_bit 8 v)"
    using Suc.IH [of s1 "addr + 1" "drop_bit 8 v"] s1(2) Suc.prems(3) by (auto simp: writes_def keeps_def)
  have "flat s2 = store_le (flat s) addr (Suc n) v"
    using s2(3) s1(3) b store_le_commute [of n "flat s" addr] Suc.prems(3) by simp
  then show ?case unfolding writes_def using s1(1) s2(1) keeps_trans [OF s1(2) s2(2)] by simp
qed

lemma target_write_ok:
  assumes "mem_ok s" and "\<And>i. i < 2 ^ k \<Longrightarrow> addr + of_nat i \<in> mapped (c_mem_map s)" and "k \<le> 3"
  shows "writes s addr v (2 ^ k) (target_write dv s addr v k)"
proof -
  have "writes t addr w (2 ^ k) (target_write_slow dv (target_write_aligned dv) t addr w k)"
    if "mem_ok t" "c_mem_map t = c_mem_map s" for t w
  proof (cases "addr AND mask k = 0")
    case True
    then show ?thesis unfolding target_write_slow_def Let_def pow_mask [OF assms(3)]
      using write_aligned_ok [OF that(1), of addr k w dv] assms(2) [of 0] assms(3) that(2) by (simp add: aligned_iff)
  next
    case False
    have "(2 :: nat) ^ k \<le> 2 ^ 3" using assms(3) by (intro power_increasing) simp_all
    then have "writes t addr w (2 ^ k) (write_bytes (target_write_aligned dv) t addr w (2 ^ k))"
      using that assms(2) by (intro write_bytes_ok) simp_all
    then show ?thesis unfolding target_write_slow_def Let_def pow_mask [OF assms(3)] using False by simp
  qed
  then show ?thesis unfolding target_write_def using assms by (intro target_write_with_ok) simp_all
qed

section \<open>The contract of a byte memory\<close>

datatype mem_op = Load u64 nat | Store u64 u64 nat

text \<open>Accesses one after the other; an access that raises an exception gives \<open>None\<close>, a write that succeeds \<open>Some 0\<close>.\<close>

fun run_ops ::
  "('s \<Rightarrow> u64 \<Rightarrow> nat \<Rightarrow> sim_error + u64 option \<times> 's) \<Rightarrow> ('s \<Rightarrow> u64 \<Rightarrow> u64 \<Rightarrow> nat \<Rightarrow> sim_error + bool \<times> 's)
     \<Rightarrow> 's \<Rightarrow> mem_op list \<Rightarrow> sim_error + u64 option list \<times> 's" where
  "run_ops rd wr s [] = Inr ([], s)"
| "run_ops rd wr s (Load a k # ops) =
     bindR (rd s a k) (\<lambda>(v, s). bindR (run_ops rd wr s ops) (\<lambda>(vs, s). Inr (v # vs, s)))"
| "run_ops rd wr s (Store a v k # ops) =
     bindR (wr s a v k) (\<lambda>(ok, s). bindR (run_ops rd wr s ops) (\<lambda>(vs, s). Inr ((if ok then Some 0 else None) # vs, s)))"

fun byte_ops :: "(u64 \<Rightarrow> u8) \<Rightarrow> mem_op list \<Rightarrow> u64 option list \<times> (u64 \<Rightarrow> u8)" where
  "byte_ops m [] = ([], m)"
| "byte_ops m (Load a k # ops) = (let (vs, m') = byte_ops m ops in (Some (load_le m a (2 ^ k)) # vs, m'))"
| "byte_ops m (Store a v k # ops) = (let (vs, m') = byte_ops (store_le m a (2 ^ k) v) ops in (Some 0 # vs, m'))"

text \<open>The bytes an operation touches lie in \<open>D\<close>; the widths are one, two, four and eight bytes.\<close>

fun op_in :: "u64 set \<Rightarrow> mem_op \<Rightarrow> bool" where
  "op_in D (Load a k) \<longleftrightarrow> k \<le> 3 \<and> (\<forall>i<2 ^ k. a + of_nat i \<in> D)"
| "op_in D (Store a v k) \<longleftrightarrow> k \<le> 3 \<and> (\<forall>i<2 ^ k. a + of_nat i \<in> D)"

locale byte_memory =
  fixes ok :: "'s \<Rightarrow> bool" and area :: "'s \<Rightarrow> u64 set" and view :: "'s \<Rightarrow> u64 \<Rightarrow> u8"
    and rd :: "'s \<Rightarrow> u64 \<Rightarrow> nat \<Rightarrow> sim_error + u64 option \<times> 's" and wr :: "'s \<Rightarrow> u64 \<Rightarrow> u64 \<Rightarrow> nat \<Rightarrow> sim_error + bool \<times> 's"
  assumes rd_ok: "ok s \<Longrightarrow> op_in (area s) (Load a k) \<Longrightarrow>
      \<exists>s'. rd s a k = Inr (Some (load_le (view s) a (2 ^ k)), s') \<and> ok s' \<and> area s' = area s \<and> view s' = view s"
    and wr_ok: "ok s \<Longrightarrow> op_in (area s) (Store a v k) \<Longrightarrow>
      \<exists>s'. wr s a v k = Inr (True, s') \<and> ok s' \<and> area s' = area s \<and> view s' = store_le (view s) a (2 ^ k) v"
begin

lemma runs_as_bytes:
  "ok s \<Longrightarrow> list_all (op_in (area s)) ops \<Longrightarrow>
     \<exists>s'. run_ops rd wr s ops = Inr (fst (byte_ops (view s) ops), s') \<and> view s' = snd (byte_ops (view s) ops) \<and> ok s' \<and> area s' = area s"
proof (induction ops arbitrary: s)
  case (Cons op ops)
  show ?case
  proof (cases op)
    case (Load a k)
    then obtain s1 where s1: "rd s a k = Inr (Some (load_le (view s) a (2 ^ k)), s1)" "ok s1" "area s1 = area s" "view s1 = view s"
      using rd_ok [OF Cons.prems(1), of a k] Cons.prems(2) by auto
    then show ?thesis using Cons.IH [OF s1(2)] Cons.prems(2) Load by (auto simp: split_beta)
  next
    case (Store a v k)
    then obtain s1 where s1: "wr s a v k = Inr (True, s1)" "ok s1" "area s1 = area s" "view s1 = store_le (view s) a (2 ^ k) v"
      using wr_ok [OF Cons.prems(1), of a v k] Cons.prems(2) by auto
    then show ?thesis using Cons.IH [OF s1(2)] Cons.prems(2) Store by (auto simp: split_beta)
  qed
qed simp

end

interpretation cpu_mem: byte_memory mem_ok "\<lambda>s. mapped (c_mem_map s)" flat "target_read dv" "target_write dv" for dv :: "'d DevOps"
proof
  fix s :: "'d RISCVCPUState" and a k
  assume "mem_ok s" "op_in (mapped (c_mem_map s)) (Load a k)"
  then obtain s' where s': "target_read dv s a k = Inr (Some (load_le (flat s) a (2 ^ k)), s')" "keeps s s'" "flat s' = flat s"
    using target_read_ok [of s k a dv] by auto
  then show "\<exists>s'. target_read dv s a k = Inr (Some (load_le (flat s) a (2 ^ k)), s') \<and> mem_ok s'
      \<and> mapped (c_mem_map s') = mapped (c_mem_map s) \<and> flat s' = flat s"
    using keeps_mapped [OF s'(2)] by (auto simp: keeps_def)
next
  fix s :: "'d RISCVCPUState" and a v k
  assume "mem_ok s" "op_in (mapped (c_mem_map s)) (Store a v k)"
  then obtain s' where s': "target_write dv s a v k = Inr (True, s')" "keeps s s'" "flat s' = store_le (flat s) a (2 ^ k) v"
    using target_write_ok [of s k a v dv] by (auto simp: writes_def)
  then show "\<exists>s'. target_write dv s a v k = Inr (True, s') \<and> mem_ok s'
      \<and> mapped (c_mem_map s') = mapped (c_mem_map s) \<and> flat s' = store_le (flat s) a (2 ^ k) v"
    using keeps_mapped [OF s'(2)] by (auto simp: keeps_def)
qed

text \<open>
  (C5) Memory is a byte array. On a processor whose translation buffers agree with its memory map and that does
  not translate addresses, any sequence of reads and writes of one, two, four and eight bytes within the mapped
  memory, aligned or not, across pages and ranges, through the translation buffers or not, never fails, returns
  exactly the little-endian values that a plain array of bytes would return, and leaves that array behind.
\<close>

theorem memory_refines_bytes:
  assumes "mem_ok s" and "list_all (op_in (mapped (c_mem_map s))) ops"
  shows "\<exists>s'. run_ops (target_read dv) (target_write dv) s ops = Inr (fst (byte_ops (flat s) ops), s')
    \<and> flat s' = snd (byte_ops (flat s) ops) \<and> mem_ok s'"
  using cpu_mem.runs_as_bytes [OF assms] by blast

text \<open>A machine with 64 KiB of RAM.\<close>

definition ram_map :: PhysMemoryMap where
  "ram_map = \<lparr>n_phys_mem_range = 1, phys_mem_range = [zero_range\<lparr>pr_addr := 0x80000000, pr_org_size := 0x10000, pr_size := 0x10000,
     pr_is_ram := True, pr_phys_mem := 0x5000\<rparr>]\<rparr>"

lemma ram_map_mapped: "a - 0x80000000 < 0x10000 \<Longrightarrow> a \<in> mapped ram_map"
proof -
  assume a: "a - 0x80000000 < (0x10000 :: u64)"
  have "in_range (phys_mem_range ram_map ! 0) a"
  proof -
    have "unat (a - 0x80000000) < 0x10000" using a by (simp add: word_less_nat_alt)
    moreover have "a = (a - 0x80000000) + 0x80000000" by simp
    ultimately have "unat a = unat (a - 0x80000000) + 0x80000000" by (subst \<open>a = _\<close>, subst unat_add_lem [THEN iffD1]) simp_all
    then show ?thesis using \<open>unat (a - 0x80000000) < 0x10000\<close> by (simp add: ram_map_def zero_range_def in_range_def word_le_nat_alt word_less_nat_alt)
  qed
  then have "get_phys_mem_range ram_map a = Some 0" by (simp add: get_phys_mem_range_def ram_map_def)
  then show "a \<in> mapped ram_map" by (simp add: mapped_def mem_ptr_def is_mem_def ram_map_def zero_range_def)
qed

lemma ram_map_op:
  assumes "k \<le> 3" and "unat (a - 0x80000000) + 8 \<le> 0x10000"
  shows "op_in (mapped ram_map) (Load a k)" "op_in (mapped ram_map) (Store a v k)"
proof -
  have "a + of_nat i \<in> mapped ram_map" if "i < 2 ^ k" for i
  proof (rule ram_map_mapped)
    have "(2 :: nat) ^ k \<le> 2 ^ 3" using assms(1) by (intro power_increasing) simp_all
    then have i: "i < 8" using that by simp
    then have "unat (of_nat i :: u64) = i" by (simp add: unat_of_nat)
    then have "unat (a - 0x80000000 + of_nat i) = unat (a - 0x80000000) + i" using assms(2) i by (subst unat_add_lem [THEN iffD1]) simp_all
    moreover have "a + of_nat i - 0x80000000 = a - 0x80000000 + of_nat i" by simp
    ultimately show "a + of_nat i - 0x80000000 < 0x10000" using assms(2) i by (simp only: word_less_nat_alt) simp
  qed
  then show "op_in (mapped ram_map) (Load a k)" "op_in (mapped ram_map) (Store a v k)" using assms(1) by simp_all
qed

lemma le_numeral:
  "load_le m p (numeral n) = ucast (m p) OR push_bit 8 (load_le m (p + 1) (pred_numeral n))"
  "store_le m p (numeral n) v = (store_le m (p + 1) (pred_numeral n) (drop_bit 8 v))(p := ucast v)"
  by (simp_all add: numeral_eq_Suc)

lemma ram_cpu: "\<exists>s :: unit RISCVCPUState. mem_ok s \<and> c_mem_map s = ram_map"
proof -
  obtain s :: "unit RISCVCPUState" where s: "cpu_ok s" "c_priv s = PRV_M" "c_cur_xlen s = MAX_XLEN" "c_mem_map s = ram_map"
    "c_mstatus s = 0xa00000000" "sim_params s = bare_params" "c_tlb_read s = replicate 32 (flush_entry \<lparr>t_vaddr = 0, t_mem_addend = 0, t_guest_paddr = 0\<rparr>)"
    "c_tlb_write s = replicate 32 (flush_entry \<lparr>t_vaddr = 0, t_mem_addend = 0, t_guest_paddr = 0\<rparr>)"
    using bare_cpu [of ram_map "\<lambda>_. 0" "\<lparr>t_vaddr = 0, t_mem_addend = 0, t_guest_paddr = 0\<rparr>"] by blast
  have "map_ok ram_map" by (simp add: map_ok_def ram_map_def range_ok_def zero_range_def)
  then have "mem_ok s" using s by (simp add: mem_ok_def untranslated_def access_priv_def bare_params_def sim_params_init_def
      sim_params_set_defaults_def list_all_iff entry_ok_def flush_entry_def del: replicate_numeral_rec)
  then show ?thesis using s(4) by blast
qed

theorem memory_refines_bytes_witness:
  "\<forall>dv. \<exists>(s :: unit RISCVCPUState) s'. mem_ok s \<and> run_ops (target_read dv) (target_write dv) s
       [Store 0x80000ffd 0x1122334455667788 3, Load 0x80001000 2, Load 0x80000ffe 1] = Inr ([Some 0, Some 0x22334455, Some 0x6677], s')
     \<and> flat s' 0x80001004 = 0x11"
  (is "\<forall>dv. ?P dv")
proof
  fix dv :: "unit DevOps"
  obtain s :: "unit RISCVCPUState" where s: "mem_ok s" "c_mem_map s = ram_map" using ram_cpu by blast
  let ?ops = "[Store 0x80000ffd 0x1122334455667788 3, Load 0x80001000 2, Load 0x80000ffe 1]"
  have "list_all (op_in (mapped (c_mem_map s))) ?ops"
    unfolding s(2) by (simp add: ram_map_op del: op_in.simps)
  from memory_refines_bytes [OF s(1) this, of dv] show "?P dv" using s(1) by (auto simp: le_numeral)
qed

end
