(* ===== verification/Sim_Cpu_Props.thy ===== *)
theory Sim_Cpu_Props
  imports Csr_Props
begin

text \<open>Branches of the simulated core: what the execute stage makes of a prediction.\<close>

section \<open>The predictor inside the core\<close>

abbreviation shaped :: "SimStats list \<Rightarrow> bool" where
  "shaped st \<equiv> list_all (\<lambda>v. length (interrupts v) = 24 \<and> length (exceptions v) = 24) st"

lemma bump_shaped:
  assumes "bump f i st = Inr st'" and "shaped st" and "\<And>v. length (interrupts (f v)) = length (interrupts v)"
    and "\<And>v. length (exceptions (f v)) = length (exceptions v)"
  shows "shaped st'"
  using assms(1,2) by (auto simp: bump_def assms(3,4) list_all_length nth_list_update aget_def aset_def split: if_splits elim!: bindR_eq_InrE)

lemma bpu_probe_shaped: "bpu_probe u pc p priv = Inr (p', u') \<Longrightarrow> shaped (u_stats u) \<Longrightarrow> shaped (u_stats u')"
  by (auto simp: bpu_probe_def split: if_splits elim!: bindR_eq_InrE dest!: bump_shaped)

lemma bpu_add_pred_stats: "bpu_add_pred u pc ty p = Inr u' \<Longrightarrow> u_stats u' = u_stats u"
  by (auto simp: bpu_add_pred_def split: if_splits elim!: bindR_eq_InrE)

lemma bpu_update_pred_stats: "bpu_update_pred u pc t ty p = Inr u' \<Longrightarrow> u_stats u' = u_stats u"
  by (auto simp: bpu_update_pred_def split: if_splits elim!: bindR_eq_InrE)

lemma bpu_add_shaped: "bpu_add u r pc ty p priv fret = Inr (u', r') \<Longrightarrow> shaped (u_stats u) \<Longrightarrow> shaped (u_stats u')"
  by (auto simp: bpu_add_def split: if_splits elim!: bindR_eq_InrE dest!: bump_shaped dest: bpu_add_pred_stats)

lemma bpu_update_shaped: "bpu_update u pc tgt t ty p priv = Inr u' \<Longrightarrow> shaped (u_stats u) \<Longrightarrow> shaped (u_stats u')"
  by (auto simp: bpu_update_def split: if_splits elim!: bindR_eq_InrE dest!: bump_shaped dest: bpu_update_pred_stats)

definition cpu_geom :: "'d RISCVCPUState \<Rightarrow> nat \<times> nat" where
  "cpu_geom s = bpu_geom (the (sc_bpu (c_simcpu s)))"

lemma with_bpu_ok:
  assumes "cpu_ok s" and "enable_bpu (sim_params s) \<noteq> 0"
    and "\<And>u. bpu_inv u \<Longrightarrow> shaped (u_stats u) \<Longrightarrow> bpu_geom u = cpu_geom s \<Longrightarrow>
      \<exists>r u'. f u = Inr (r, u') \<and> bpu_inv u' \<and> shaped (u_stats u') \<and> P r (bpu_geom u')"
  obtains r s' where "with_bpu f s = Inr (r, s')" "cpu_ok s'" "c_priv s' = c_priv s" "sim_params s' = sim_params s" "P r (cpu_geom s')"
proof -
  obtain u where u: "sc_bpu (c_simcpu s) = Some u" "bpu_inv (u\<lparr>u_stats := sc_stats (c_simcpu s)\<rparr>)" "shaped (sc_stats (c_simcpu s))"
    using assms(1,2) by (auto simp: cpu_ok_def)
  have "bpu_geom (u\<lparr>u_stats := sc_stats (c_simcpu s)\<rparr>) = cpu_geom s" by (simp add: cpu_geom_def u(1) bpu_geom_def)
  with assms(3) [OF u(2)] u(3) obtain r u' where r: "f (u\<lparr>u_stats := sc_stats (c_simcpu s)\<rparr>) = Inr (r, u')" "bpu_inv u'" "shaped (u_stats u')"
    "P r (bpu_geom u')" by auto
  have eq: "u'\<lparr>u_stats := u_stats u'\<rparr> = u'" by (cases u') simp
  have "length (u_stats u') = NUM_MAX_PRV_LEVELS" using r(2) by (simp add: bpu_inv_def)
  then show thesis using that [of r "s\<lparr>c_simcpu := (c_simcpu s)\<lparr>sc_bpu := Some u', sc_stats := u_stats u'\<rparr>\<rparr>"] assms(1) u(1) r eq
    by (simp add: with_bpu_def cpu_ok_def cpu_geom_def)
qed

lemma probe_latch_ok:
  assumes "cpu_ok s" and "enable_bpu (sim_params s) \<noteq> 0"
  obtains q s' where "probe_latch s e = Inr (e\<lparr>l_bpu_resp_pkt := q\<rparr>, s')" "cpu_ok s'" "c_priv s' = c_priv s" "sim_params s' = sim_params s"
    "pkt_ok (cpu_geom s') q"
proof -
  have p: "c_priv s < NUM_MAX_PRV_LEVELS" using assms(1) by (simp add: cpu_ok_def)
  let ?f = "\<lambda>u. bpu_probe u (i_pc (l_ins e)) (l_bpu_resp_pkt e) (c_priv s)"
  have f: "\<exists>r u'. ?f u = Inr (r, u') \<and> bpu_inv u' \<and> shaped (u_stats u') \<and> pkt_ok (bpu_geom u') r"
    if i: "bpu_inv u" and sh: "shaped (u_stats u)" for u
  proof -
    obtain q u' where q: "?f u = Inr (q, u')" "bpu_inv u'" "bpu_geom u' = bpu_geom u" "pkt_ok (bpu_geom u) q"
      using bpu_probe_ok [OF i p] by blast
    show ?thesis using q bpu_probe_shaped [OF q(1) sh] by simp
  qed
  show thesis
  proof (rule with_bpu_ok [OF assms, where P = "\<lambda>q g. pkt_ok g q" and f = ?f])
    fix r s' assume r: "with_bpu ?f s = Inr (r, s')" "cpu_ok s'" "c_priv s' = c_priv s" "sim_params s' = sim_params s" "pkt_ok (cpu_geom s') r"
    have "probe_latch s e = Inr (e\<lparr>l_bpu_resp_pkt := r\<rparr>, s')" by (simp add: probe_latch_def r(1))
    then show thesis using r(2-5) by (rule that)
  qed (rule f)
qed

lemma update_latch_ok:
  assumes "cpu_ok s" and "enable_bpu (sim_params s) \<noteq> 0" and "pkt_ok (cpu_geom s) (l_bpu_resp_pkt e)"
  obtains s' where "update_latch s e t ty = Inr s'" "cpu_ok s'" "c_priv s' = c_priv s" "sim_params s' = sim_params s"
proof -
  have p: "c_priv s < NUM_MAX_PRV_LEVELS" using assms(1) by (simp add: cpu_ok_def)
  let ?f = "\<lambda>u. bindR (bpu_update u (i_pc (l_ins e)) (i_target (l_ins e)) t ty (l_bpu_resp_pkt e) (c_priv s)) (\<lambda>u'. Inr ((), u'))"
  have f: "\<exists>r u'. ?f u = Inr (r, u') \<and> bpu_inv u' \<and> shaped (u_stats u') \<and> True"
    if i: "bpu_inv u" and sh: "shaped (u_stats u)" and g: "bpu_geom u = cpu_geom s" for u
  proof -
    have "pkt_ok (bpu_geom u) (l_bpu_resp_pkt e)" using assms(3) g by simp
    then obtain u' where q: "bpu_update u (i_pc (l_ins e)) (i_target (l_ins e)) t ty (l_bpu_resp_pkt e) (c_priv s) = Inr u'" "bpu_inv u'"
      using bpu_update_ok [OF i p] by blast
    show ?thesis using q bpu_update_shaped [OF q(1) sh] by simp
  qed
  show thesis
  proof (rule with_bpu_ok [OF assms(1,2), where P = "\<lambda>_ _. True" and f = ?f])
    fix r s' assume r: "with_bpu ?f s = Inr (r, s')" "cpu_ok s'" "c_priv s' = c_priv s" "sim_params s' = sim_params s"
    have "update_latch s e t ty = Inr s'" by (simp add: update_latch_def r(1))
    then show thesis using r(2-4) by (rule that)
  qed (rule f)
qed

lemma count_ok:
  assumes "cpu_ok s" and "\<And>v. length (interrupts (f v)) = length (interrupts v)" and "\<And>v. length (exceptions (f v)) = length (exceptions v)"
  obtains s' where "count f s = Inr s'" "cpu_ok s'" "sim_params s' = sim_params s" "c_priv s' = c_priv s" "cpu_geom s' = cpu_geom s"
proof -
  let ?st = "sc_stats (c_simcpu s)" and ?p = "c_priv s"
  have "cpu_ok (s\<lparr>c_simcpu := (c_simcpu s)\<lparr>sc_stats := ?st[?p := f (?st ! ?p)]\<rparr>\<rparr>)"
    using assms by (auto simp: cpu_ok_def list_all_length nth_list_update bpu_inv_def)
  then show thesis using assms(1) that [of "s\<lparr>c_simcpu := (c_simcpu s)\<lparr>sc_stats := ?st[?p := f (?st ! ?p)]\<rparr>\<rparr>"]
    by (simp add: count_def cpu_ok_def cpu_geom_def)
qed

section \<open>Resolving a branch\<close>

text \<open>Where the program goes after a branch, and where the front end went after it.\<close>

definition arch_next :: "InstructionLatch \<Rightarrow> target_ulong" where
  "arch_next e = (if i_branch_type (l_ins e) = BRANCH_UNCOND \<or> i_cond (l_ins e) \<noteq> 0 then i_target (l_ins e) else pc_of_next e)"

definition fetched_next :: "InstructionLatch \<Rightarrow> target_ulong" where
  "fetched_next e = (if l_predicted_target e \<noteq> 0 then l_predicted_target e else pc_of_next e)"

text \<open>Where the pipeline continues: at \<^verbatim>\<open>branch_target\<close> after a misprediction, else behind what was fetched.\<close>

definition resumes_at :: "InstructionLatch \<Rightarrow> bool \<Rightarrow> InstructionLatch \<Rightarrow> target_ulong" where
  "resumes_at e mispredict e' = (if mispredict then l_branch_target e' else fetched_next e)"

definition jump_to_zero :: "InstructionLatch \<Rightarrow> bool" where
  "jump_to_zero e \<longleftrightarrow> i_branch_type (l_ins e) = BRANCH_UNCOND \<and> i_target (l_ins e) = 0 \<and> l_predicted_target e = 0 \<and> pc_of_next e \<noteq> 0"

lemma unconditional_ok:
  assumes "cpu_ok s" and "enable_bpu (sim_params s) \<noteq> 0" and "i_branch_type (l_ins e) = BRANCH_UNCOND"
  shows "\<exists>mis e' s'. bpu_enabled_unconditional_branch_handler s e = Inr (mis, e', s') \<and> cpu_ok s'
    \<and> (resumes_at e mis e' = arch_next e \<longleftrightarrow> \<not> jump_to_zero e)"
proof -
  obtain q s1 where q: "probe_latch s e = Inr (e\<lparr>l_bpu_resp_pkt := q\<rparr>, s1)" "cpu_ok s1" "c_priv s1 = c_priv s" "sim_params s1 = sim_params s"
    "pkt_ok (cpu_geom s1) q" by (rule probe_latch_ok [OF assms(1,2), of e])
  obtain s2 where s2: "update_latch s1 (e\<lparr>l_bpu_resp_pkt := q\<rparr>) True BRANCH_UNCOND = Inr s2" "cpu_ok s2"
    by (rule update_latch_ok [OF q(2), of "e\<lparr>l_bpu_resp_pkt := q\<rparr>"]) (use assms(2) q(4,5) in auto)
  obtain s3 where s3: "count (bpu_uncond_correct_update (\<lambda>c. c + 1)) s2 = Inr s3" "cpu_ok s3"
    by (rule count_ok [OF s2(2), of "bpu_uncond_correct_update (\<lambda>c. c + 1)"]) auto
  obtain s4 where s4: "count (bpu_uncond_incorrect_update (\<lambda>c. c + 1)) s2 = Inr s4" "cpu_ok s4"
    by (rule count_ok [OF s2(2), of "bpu_uncond_incorrect_update (\<lambda>c. c + 1)"]) auto
  show ?thesis unfolding bpu_enabled_unconditional_branch_handler_def q(1)
    using s2(1) s3 s4 assms(3) by (auto simp: resumes_at_def arch_next_def fetched_next_def jump_to_zero_def)
qed

lemma conditional_ok:
  assumes "cpu_ok s" and "enable_bpu (sim_params s) \<noteq> 0" and "i_branch_type (l_ins e) = BRANCH_COND"
  shows "if i_cond (l_ins e) \<noteq> 0 \<and> l_predicted_target e \<noteq> 0 \<and> l_predicted_target e \<noteq> i_target (l_ins e)
    then bpu_enabled_conditional_branch_handler s e = Inl Assert_failed
    else \<exists>mis e' s'. bpu_enabled_conditional_branch_handler s e = Inr (mis, e', s') \<and> cpu_ok s' \<and> resumes_at e mis e' = arch_next e"
proof -
  obtain q s1 where q: "probe_latch s e = Inr (e\<lparr>l_bpu_resp_pkt := q\<rparr>, s1)" "cpu_ok s1" "c_priv s1 = c_priv s" "sim_params s1 = sim_params s"
    "pkt_ok (cpu_geom s1) q" by (rule probe_latch_ok [OF assms(1,2), of e])
  obtain s2 where s2: "count (bpu_cond_correct_update (\<lambda>c. c + 1)) s1 = Inr s2" "cpu_ok s2" "sim_params s2 = sim_params s" "cpu_geom s2 = cpu_geom s1"
    by (rule count_ok [OF q(2), of "bpu_cond_correct_update (\<lambda>c. c + 1)"]) (auto simp: q(4))
  obtain s3 where s3: "count (bpu_cond_incorrect_update (\<lambda>c. c + 1)) s1 = Inr s3" "cpu_ok s3" "sim_params s3 = sim_params s" "cpu_geom s3 = cpu_geom s1"
    by (rule count_ok [OF q(2), of "bpu_cond_incorrect_update (\<lambda>c. c + 1)"]) (auto simp: q(4))
  have up: "\<exists>s'. update_latch t e' b BRANCH_COND = Inr s' \<and> cpu_ok s'"
    if "cpu_ok t" "sim_params t = sim_params s" "cpu_geom t = cpu_geom s1" "l_bpu_resp_pkt e' = q" for t e' b
    by (rule update_latch_ok [OF that(1), of e' b BRANCH_COND]) (use assms(2) that q(5) in auto)
  note up2 = up [OF s2(2,3,4)] and up3 = up [OF s3(2,3,4)]
  let ?e = "e\<lparr>l_bpu_resp_pkt := q\<rparr>"
  have n: "pc_of_next (e\<lparr>l_bpu_resp_pkt := q\<rparr>) = pc_of_next e" by (simp add: pc_of_next_def)
  consider "i_cond (l_ins e) \<noteq> 0" "l_predicted_target e = 0" | "i_cond (l_ins e) \<noteq> 0" "l_predicted_target e \<noteq> 0" "l_predicted_target e = i_target (l_ins e)"
    | "i_cond (l_ins e) \<noteq> 0" "l_predicted_target e \<noteq> 0" "l_predicted_target e \<noteq> i_target (l_ins e)"
    | "i_cond (l_ins e) = 0" "l_predicted_target e = 0" | "i_cond (l_ins e) = 0" "l_predicted_target e \<noteq> 0" by blast
  then show ?thesis
  proof cases
    case 1
    then show ?thesis unfolding bpu_enabled_conditional_branch_handler_def q(1)
      using s3(1) up3 [of "?e\<lparr>l_branch_target := i_target (l_ins e), l_is_branch_taken := True\<rparr>" True] assms(3)
      by (auto simp: resumes_at_def arch_next_def)
  next
    case 2
    then show ?thesis unfolding bpu_enabled_conditional_branch_handler_def q(1)
      using s2(1) up2 [of "?e\<lparr>l_is_pred_correct := True, l_branch_target := l_predicted_target e, l_is_branch_taken := True\<rparr>" True] assms(3)
      by (auto simp: resumes_at_def arch_next_def fetched_next_def)
  next
    case 3
    then show ?thesis unfolding bpu_enabled_conditional_branch_handler_def q(1) by simp
  next
    case 4
    then show ?thesis unfolding bpu_enabled_conditional_branch_handler_def q(1)
      using s2(1) up2 [of "?e\<lparr>l_is_pred_correct := True, l_is_branch_taken := False\<rparr>" False] assms(3)
      by (auto simp: resumes_at_def arch_next_def fetched_next_def)
  next
    case 5
    then show ?thesis unfolding bpu_enabled_conditional_branch_handler_def q(1)
      using s3(1) up3 [of "?e\<lparr>l_branch_target := pc_of_next e, l_is_branch_taken := False\<rparr>" False] assms(3) n
      by (auto simp: resumes_at_def arch_next_def)
  qed
qed

text \<open>
  (C6) Branches are resolved exactly, with two exceptions that are exactly characterised. For every jump and conditional branch, with
  and without predictor, whatever the predictor said, the execute stage makes the pipeline continue at the architectural successor:
  it reports a misprediction with that address, or the fetched path was the right one. The exceptions: a jump to address 0 without a
  prediction counts as predicted, and the core runs on behind it; a taken branch whose predicted target is stale stops the
  simulator at an assertion.
\<close>

theorem branch_resolution:
  assumes "cpu_ok s" and "i_branch_type (l_ins e) \<in> {BRANCH_UNCOND, BRANCH_COND}"
    and "enable_bpu (sim_params s) = 0 \<Longrightarrow> l_predicted_target e = 0"
  shows "if enable_bpu (sim_params s) \<noteq> 0 \<and> i_branch_type (l_ins e) = BRANCH_COND \<and> i_cond (l_ins e) \<noteq> 0
      \<and> l_predicted_target e \<noteq> 0 \<and> l_predicted_target e \<noteq> i_target (l_ins e)
    then bpu_execute_stage_handler s e = Inl Assert_failed
    else \<exists>mis e' s'. bpu_execute_stage_handler s e = Inr (mis, e', s') \<and> cpu_ok s'
      \<and> (resumes_at e mis e' = arch_next e \<longleftrightarrow> \<not> (enable_bpu (sim_params s) \<noteq> 0 \<and> jump_to_zero e))"
proof (cases "enable_bpu (sim_params s) = 0")
  case True
  then show ?thesis using assms
    by (auto simp: bpu_execute_stage_handler_def bpu_disabled_execute_stage_handler_def resumes_at_def arch_next_def fetched_next_def)
next
  case False
  have p: "c_priv s < NUM_MAX_PRV_LEVELS" using assms(1) by (simp add: cpu_ok_def)
  let ?f = "\<lambda>u. bindR (bpu_add u (cpu_rand s) (i_pc (l_ins e)) (i_branch_type (l_ins e)) (l_bpu_resp_pkt e) (c_priv s) (i_is_func_ret (l_ins e)))
    (\<lambda>(u', r). Inr (r, u'))"
  obtain r s1 where r: "with_bpu ?f s = Inr (r, s1)" "cpu_ok s1" "sim_params s1 = sim_params s"
  proof (rule with_bpu_ok [OF assms(1) False, where P = "\<lambda>_ _. True" and f = ?f])
    fix u assume "bpu_inv u" "shaped (u_stats u)"
    then show "\<exists>r u'. ?f u = Inr (r, u') \<and> bpu_inv u' \<and> shaped (u_stats u') \<and> True"
      using bpu_add_ok [of u "c_priv s" "cpu_rand s" "i_pc (l_ins e)" "i_branch_type (l_ins e)" "l_bpu_resp_pkt e" "i_is_func_ret (l_ins e)"] p
        bpu_add_shaped [of u "cpu_rand s" "i_pc (l_ins e)" "i_branch_type (l_ins e)" "l_bpu_resp_pkt e" "c_priv s" "i_is_func_ret (l_ins e)"] by auto
  qed auto
  define s2 where "s2 = (if pk_bpu_probe_status (l_bpu_resp_pkt e) then s
    else set_hierarchy s1 ((sc_mem_hierarchy (c_simcpu s1))\<lparr>mh_sys := (mh_sys (sc_mem_hierarchy (c_simcpu s1)))\<lparr>ms_rand := r\<rparr>\<rparr>))"
  have s2: "cpu_ok s2" "sim_params s2 = sim_params s" using assms(1) r(2,3) by (simp_all add: s2_def set_hierarchy_def cpu_ok_def)
  have a: "(if \<not> pk_bpu_probe_status (l_bpu_resp_pkt e)
      then bindR (with_bpu ?f s) (\<lambda>(r, s). let h = sc_mem_hierarchy (c_simcpu s) in Inr (set_hierarchy s (h\<lparr>mh_sys := (mh_sys h)\<lparr>ms_rand := r\<rparr>\<rparr>)))
      else Inr s) = Inr s2" unfolding r(1) by (simp add: s2_def Let_def)
  have h: "bpu_execute_stage_handler s e = (if i_branch_type (l_ins e) = BRANCH_UNCOND then bpu_enabled_unconditional_branch_handler s2 e
      else if i_branch_type (l_ins e) = BRANCH_COND then bpu_enabled_conditional_branch_handler s2 e else Inr (False, e, s2))"
  proof -
    have "bpu_execute_stage_handler s e = bpu_enabled_execute_stage_handler s e" using False by (simp add: bpu_execute_stage_handler_def)
    then show ?thesis unfolding bpu_enabled_execute_stage_handler_def by (subst (asm) a) simp
  qed
  have e2: "enable_bpu (sim_params s2) \<noteq> 0" using False s2(2) by simp
  show ?thesis
  proof (cases "i_branch_type (l_ins e) = BRANCH_UNCOND")
    case True
    then show ?thesis using unconditional_ok [OF s2(1) e2 True] h False by auto
  next
    case ne: False
    then have c: "i_branch_type (l_ins e) = BRANCH_COND" using assms(2) by auto
    then show ?thesis using conditional_ok [OF s2(1) e2 c] h False ne by (auto simp: jump_to_zero_def split: if_splits)
  qed
qed

theorem branch_resolution_witness:
  "\<exists>(s :: unit RISCVCPUState) e s' mis e'. cpu_ok s \<and> enable_bpu (sim_params s) \<noteq> 0 \<and> i_branch_type (l_ins e) = BRANCH_COND
     \<and> i_cond (l_ins e) \<noteq> 0 \<and> l_predicted_target e = 0 \<and> i_target (l_ins e) = 4096
     \<and> bpu_execute_stage_handler s e = Inr (mis, e', s') \<and> resumes_at e mis e' = 4096"
proof -
  obtain s :: "unit RISCVCPUState" where s: "cpu_ok s" "sc_params (c_simcpu s) = bare_params"
    using bare_cpu [of phys_mem_map_init "\<lambda>_. 0" "\<lparr>t_vaddr = 0, t_mem_addend = 0, t_guest_paddr = 0\<rparr>"] by blast
  obtain u where u: "bpu_init small_bpu_params (sc_stats (c_simcpu s)) = Inr u" "bpu_inv u"
    using bpu_init_ok [OF small_bpu_ok, of "sc_stats (c_simcpu s)"] s(1) by (auto simp: cpu_ok_def)
  define s0 where "s0 = s\<lparr>c_simcpu := (c_simcpu s)\<lparr>sc_bpu := Some u, sc_params := bare_params\<lparr>enable_bpu := 1\<rparr>\<rparr>\<rparr>"
  have "bpu_inv (u\<lparr>u_stats := sc_stats (c_simcpu s)\<rparr>)" using u(2) s(1) by (simp add: bpu_inv_def cpu_ok_def pred_inv_def)
  then have s0: "cpu_ok s0" "enable_bpu (sim_params s0) \<noteq> 0" using s by (simp_all add: s0_def cpu_ok_def bare_params_def)
  let ?e = "zero_latch\<lparr>l_ins := (l_ins zero_latch)\<lparr>i_branch_type := BRANCH_COND, i_cond := 1, i_target := 4096\<rparr>, l_predicted_target := 0\<rparr>"
  show ?thesis using branch_resolution [OF s0(1), of ?e] s0
    by - (rule exI [of _ s0], rule exI [of _ ?e], auto simp: arch_next_def jump_to_zero_def)
qed

end
