(* ===== verification/Inorder.thy ===== *)
theory Inorder
  imports Sim_Cpu Execute
begin

text \<open>
  The in-order pipeline of \<^verbatim>\<open>core/inorder.c\<close>, \<^verbatim>\<open>core/inorder_frontend.c\<close> and \<^verbatim>\<open>core/inorder_backend.c\<close>: five or six
  stages around five functional units, with forwarding buses, register valid bits and a queue that sends
  instructions to the memory stage in program order. A stage holds the index of a latch; a stage function
  takes and returns the pipeline and the processor.
\<close>

section \<open>State\<close>

record DataFWDLatch =
  f_buffer :: u64
  f_rd :: u32
  f_valid :: bool
  f_fp_dest :: bool
  f_int_dest :: bool

record INCore =
  ic_pcgen :: CPUStage
  ic_fetch :: CPUStage
  ic_decode :: CPUStage
  ic_memory :: CPUStage
  ic_commit :: CPUStage
  ic_int_reg_status :: "bool list"
  ic_fp_reg_status :: "bool list"
  ic_fwd_latch :: "DataFWDLatch list"
  ic_cq :: CQ
  ic_queue :: "u64 list"
  ic_ialu :: "CPUStage list"
  ic_imul :: "CPUStage list"
  ic_idiv :: "CPUStage list"
  ic_fpu_fma :: "CPUStage list"
  ic_fpu_alu :: CPUStage
  ic_ins_dispatch_id :: u64

type_synonym 'd incore = "INCore \<times> 'd RISCVCPUState"

definition NUM_FWD_BUS :: nat where
  "NUM_FWD_BUS = 6"

definition INCORE_EX_TO_MEM_QUEUE_SIZE :: nat where
  "INCORE_EX_TO_MEM_QUEUE_SIZE = 16"

abbreviation (input) NUM_INT_REG :: nat where "NUM_INT_REG \<equiv> 32"
abbreviation (input) NUM_FP_REG :: nat where "NUM_FP_REG \<equiv> 32"

definition zero_stage :: CPUStage where
  "zero_stage = \<lparr>has_data = False, stage_exec_done = False, insn_latch_index = 0\<rparr>"

definition zero_fwd :: DataFWDLatch where
  "zero_fwd = \<lparr>f_buffer = 0, f_rd = 0, f_valid = False, f_fp_dest = False, f_int_dest = False\<rparr>"

definition in_core_init :: "SimParams \<Rightarrow> sim_error + INCore" where
  "in_core_init p =
     bindR (calloc (num_alu_stages p) zero_stage) (\<lambda>ialu.
     bindR (calloc (num_mul_stages p) zero_stage) (\<lambda>imul.
     bindR (calloc (num_div_stages p) zero_stage) (\<lambda>idiv.
     bindR (calloc (num_fpu_fma_stages p) zero_stage) (\<lambda>fma.
       Inr \<lparr>ic_pcgen = zero_stage, ic_fetch = zero_stage, ic_decode = zero_stage, ic_memory = zero_stage,
            ic_commit = zero_stage, ic_int_reg_status = replicate NUM_INT_REG False,
            ic_fp_reg_status = replicate NUM_FP_REG False, ic_fwd_latch = replicate NUM_FWD_BUS zero_fwd,
            ic_cq = cq_init \<lparr>front = 0, rear = 0, max_size = 0\<rparr> (int INCORE_EX_TO_MEM_QUEUE_SIZE),
            ic_queue = replicate INCORE_EX_TO_MEM_QUEUE_SIZE 0, ic_ialu = ialu, ic_imul = imul, ic_idiv = idiv,
            ic_fpu_fma = fma, ic_fpu_alu = zero_stage, ic_ins_dispatch_id = 0\<rparr>))))"

text \<open>The stages of a functional unit; the floating-point ALU is a pipe of one stage.\<close>

definition fu_pipe :: "INCore \<Rightarrow> int \<Rightarrow> CPUStage list" where
  "fu_pipe c fu =
     (if fu = FU_ALU then ic_ialu c else if fu = FU_MUL then ic_imul c else if fu = FU_DIV then ic_idiv c
      else if fu = FU_FPU_ALU then [ic_fpu_alu c] else if fu = FU_FPU_FMA then ic_fpu_fma c else [])"

definition set_fu_pipe :: "INCore \<Rightarrow> int \<Rightarrow> CPUStage list \<Rightarrow> INCore" where
  "set_fu_pipe c fu p =
     (if fu = FU_ALU then c\<lparr>ic_ialu := p\<rparr> else if fu = FU_MUL then c\<lparr>ic_imul := p\<rparr>
      else if fu = FU_DIV then c\<lparr>ic_idiv := p\<rparr> else if fu = FU_FPU_ALU then c\<lparr>ic_fpu_alu := hd p\<rparr>
      else if fu = FU_FPU_FMA then c\<lparr>ic_fpu_fma := p\<rparr> else c)"

definition fu_stages :: "SimParams \<Rightarrow> int \<Rightarrow> int" where
  "fu_stages p fu =
     (if fu = FU_ALU then num_alu_stages p else if fu = FU_MUL then num_mul_stages p
      else if fu = FU_DIV then num_div_stages p else if fu = FU_FPU_FMA then num_fpu_fma_stages p else 1)"

definition fu_latencies :: "SimParams \<Rightarrow> int \<Rightarrow> int list" where
  "fu_latencies p fu =
     (if fu = FU_ALU then alu_stage_latency p else if fu = FU_MUL then mul_stage_latency p
      else if fu = FU_DIV then div_stage_latency p else if fu = FU_FPU_FMA then fpu_fma_stage_latency p else [])"

definition in_core_reset :: "SimParams \<Rightarrow> INCore \<Rightarrow> sim_error + INCore" where
  "in_core_reset p c =
     bindR (cpu_stage_flush_pipe (ic_ialu c) (num_alu_stages p)) (\<lambda>ialu.
     bindR (cpu_stage_flush_pipe (ic_imul c) (num_mul_stages p)) (\<lambda>imul.
     bindR (cpu_stage_flush_pipe (ic_idiv c) (num_div_stages p)) (\<lambda>idiv.
     bindR (cpu_stage_flush_pipe (ic_fpu_fma c) (num_fpu_fma_stages p)) (\<lambda>fma.
       Inr (c\<lparr>ic_pcgen := (cpu_stage_flush (ic_pcgen c))\<lparr>has_data := True\<rparr>, ic_fetch := cpu_stage_flush (ic_fetch c),
              ic_decode := cpu_stage_flush (ic_decode c), ic_memory := cpu_stage_flush (ic_memory c),
              ic_commit := cpu_stage_flush (ic_commit c), ic_int_reg_status := replicate NUM_INT_REG True,
              ic_fp_reg_status := replicate NUM_FP_REG True, ic_ialu := ialu, ic_imul := imul, ic_idiv := idiv,
              ic_fpu_fma := fma, ic_fpu_alu := cpu_stage_flush (ic_fpu_alu c), ic_ins_dispatch_id := 0,
              ic_cq := cq_reset (ic_cq c), ic_fwd_latch := replicate NUM_FWD_BUS zero_fwd\<rparr>)))))"

definition pipe_has_data :: "CPUStage list \<Rightarrow> int \<Rightarrow> sim_error + bool" where
  "pipe_has_data p n = foldR (\<lambda>i b. if b then Inr True else bindR (aget p i) (\<lambda>st. Inr (has_data st))) [0..<nat n] False"

definition in_core_pipeline_drained :: "SimParams \<Rightarrow> INCore \<Rightarrow> sim_error + bool" where
  "in_core_pipeline_drained p c =
     (if has_data (ic_pcgen c) \<or> has_data (ic_fetch c) \<or> has_data (ic_decode c) \<or> has_data (ic_fpu_alu c)
         \<or> has_data (ic_memory c) \<or> has_data (ic_commit c)
      then Inr False
      else bindR (pipe_has_data (ic_ialu c) (num_alu_stages p)) (\<lambda>a. if a then Inr False else
           bindR (pipe_has_data (ic_imul c) (num_mul_stages p)) (\<lambda>m. if m then Inr False else
           bindR (pipe_has_data (ic_idiv c) (num_div_stages p)) (\<lambda>d. if d then Inr False else
           bindR (pipe_has_data (ic_fpu_fma c) (num_fpu_fma_stages p)) (\<lambda>f. Inr (\<not> f))))))"

section \<open>Front end\<close>

definition in_core_pcgen :: "'d incore \<Rightarrow> sim_error + 'd incore" where
  "in_core_pcgen cs =
     (let (c, s) = cs; sim = c_simcpu s in
      if has_data (ic_pcgen c)
      then if \<not> stage_exec_done (ic_pcgen c) \<and> sc_skip_fetch_cycle sim
           then bindR (count (pipeline_flush_update (\<lambda>n. n + 1)) (s\<lparr>c_simcpu := sim\<lparr>sc_skip_fetch_cycle := False\<rparr>\<rparr>))
                  (\<lambda>s. Inr (c, s))
           else bindR (if \<not> stage_exec_done (ic_pcgen c)
                       then let pc = c_code_ptr s + c_code_to_pc_addend s in
                            bindR (insn_latch_allocate (latch_pool s)) (\<lambda>(i, pool).
                            let s = set_pool (s\<lparr>c_simcpu := sim\<lparr>sc_pc := pc\<rparr>\<rparr>) pool in
                            bindR (get_insn_latch pool i) (\<lambda>e.
                            bindR (set_latch s i (e\<lparr>l_ins_dispatch_id := ic_ins_dispatch_id c,
                                     l_ins := (l_ins e)\<lparr>i_pc := pc\<rparr>\<rparr>)) (\<lambda>s.
                              Inr (c\<lparr>ic_ins_dispatch_id := ic_ins_dispatch_id c + 1,
                                     ic_pcgen := (ic_pcgen c)\<lparr>insn_latch_index := l_insn_latch_index e, stage_exec_done := True\<rparr>\<rparr>, s))))
                       else Inr (c, s)) (\<lambda>(c, s).
                if \<not> has_data (ic_fetch c)
                then let st = (ic_pcgen c)\<lparr>stage_exec_done := False\<rparr>
                     in Inr (c\<lparr>ic_fetch := st, ic_pcgen := st\<lparr>insn_latch_index := - 1\<rparr>\<rparr>, s)
                else Inr (c, s))
      else Inr (c, s))"

text \<open>\<^verbatim>\<open>sim_exception_set(s->simcpu->exception, e)\<close>\<close>

definition set_exception :: "'d RISCVCPUState \<Rightarrow> InstructionLatch \<Rightarrow> 'd RISCVCPUState" where
  "set_exception s e = s\<lparr>c_simcpu := (c_simcpu s)\<lparr>sc_exception := sim_exception_set (sc_exception (c_simcpu s)) e\<rparr>\<rparr>"

definition frontend_size :: "'d RISCVCPUState \<Rightarrow> int" where
  "frontend_size s = sq_cur_size (mq_frontend (mc_queues (mem_controller s)))"

definition backend_size :: "'d RISCVCPUState \<Rightarrow> int" where
  "backend_size s = sq_cur_size (mq_backend (mc_queues (mem_controller s)))"

definition lookup_complete_signal :: "StageMemAccessQueue \<Rightarrow> 'd RISCVCPUState \<Rightarrow> sim_error + 'd RISCVCPUState" where
  "lookup_complete_signal q s =
     bindR (mem_controller_cache_lookup_complete_signal (mem_controller s) q) (\<lambda>m. Inr (set_mem_controller s m))"

definition clear_frontend_idx :: "'d RISCVCPUState \<Rightarrow> 'd RISCVCPUState" where
  "clear_frontend_idx s = (let m = mem_controller s; q = mc_queues m in
     set_mem_controller s (m\<lparr>mc_queues := q\<lparr>mq_frontend := (mq_frontend q)\<lparr>sq_cur_idx := 0\<rparr>\<rparr>\<rparr>))"

definition clear_backend_idx :: "'d RISCVCPUState \<Rightarrow> 'd RISCVCPUState" where
  "clear_backend_idx s = (let m = mem_controller s; q = mc_queues m in
     set_mem_controller s (m\<lparr>mc_queues := q\<lparr>mq_backend := (mq_backend q)\<lparr>sq_cur_idx := 0\<rparr>\<rparr>\<rparr>))"

definition in_core_fetch :: "'d incore \<Rightarrow> sim_error + 'd incore" where
  "in_core_fetch cs =
     (let (c, s) = cs; k = insn_latch_index (ic_fetch c) in
      if has_data (ic_fetch c)
      then bindR (get_insn_latch (latch_pool s) k) (\<lambda>e.
           bindR (if \<not> stage_exec_done (ic_fetch c)
                  then bindR (fetch_cpu_stage_exec s e) (\<lambda>(e, s).
                       let (c, s) = (if i_exception (l_ins e)
                                     then (c\<lparr>ic_pcgen := cpu_stage_flush (ic_pcgen c)\<rparr>, set_exception s e) else (c, s))
                       in Inr (e, c\<lparr>ic_fetch := (ic_fetch c)\<lparr>stage_exec_done := True\<rparr>\<rparr>, s))
                  else Inr (e, c, s)) (\<lambda>(e, c, s).
           bindR (if l_elapsed_clock_cycles e = l_max_clock_cycles e
                  then bindR (if frontend_size s \<noteq> 0 \<and> \<not> l_cache_lookup_complete_signal_sent e
                              then bindR (lookup_complete_signal (mq_frontend (mc_queues (mem_controller s))) s) (\<lambda>s.
                                     Inr (e\<lparr>l_cache_lookup_complete_signal_sent := True\<rparr>, s))
                              else Inr (e, s)) (\<lambda>(e, s).
                       if frontend_size s = 0
                       then if i_exception (l_ins e) then Inr (e, c\<lparr>ic_fetch := cpu_stage_flush (ic_fetch c)\<rparr>, s)
                            else if \<not> has_data (ic_decode c)
                            then let st = (ic_fetch c)\<lparr>stage_exec_done := False\<rparr>
                                 in Inr (e\<lparr>l_max_clock_cycles := 0, l_elapsed_clock_cycles := 0\<rparr>,
                                         c\<lparr>ic_decode := st, ic_fetch := cpu_stage_flush st\<rparr>, clear_frontend_idx s)
                            else Inr (e, c, s)
                       else bindR (count (insn_mem_delay_update (\<lambda>n. n + 1)) s) (\<lambda>s. Inr (e, c, s)))
                  else Inr (e\<lparr>l_elapsed_clock_cycles := l_elapsed_clock_cycles e + 1\<rparr>, c, s)) (\<lambda>(e, c, s).
           bindR (set_latch s k e) (\<lambda>s. Inr (c, s)))))
      else Inr (c, s))"

text \<open>
  Reading an operand gives its value, whether it is available, and whether the register
  file was read.
\<close>

definition read_int_operand ::
  "INCore \<Rightarrow> 'd RISCVCPUState \<Rightarrow> bool \<Rightarrow> bool \<Rightarrow> u32 \<Rightarrow> u64 \<Rightarrow> sim_error + u64 \<times> bool \<times> bool" where
  "read_int_operand c s has_src rd rs v =
     (if has_src \<and> \<not> rd
      then bindR (aget (ic_int_reg_status c) (unat rs)) (\<lambda>valid.
           if \<not> valid
           then (case find (\<lambda>l. f_valid l \<and> f_int_dest l \<and> f_rd l = rs) (ic_fwd_latch c) of
                   None \<Rightarrow> Inr (v, rd, False) | Some l \<Rightarrow> Inr (f_buffer l, True, False))
           else bindR (aget (c_reg s) (unat rs)) (\<lambda>v. Inr (v, True, True)))
      else Inr (v, rd, False))"

definition read_fp_operand ::
  "INCore \<Rightarrow> 'd RISCVCPUState \<Rightarrow> bool \<Rightarrow> bool \<Rightarrow> u32 \<Rightarrow> u64 \<Rightarrow> sim_error + u64 \<times> bool \<times> bool" where
  "read_fp_operand c s has_src rd rs v =
     (if has_src \<and> \<not> rd
      then bindR (aget (ic_fp_reg_status c) (unat rs)) (\<lambda>valid.
           if \<not> valid
           then (case find (\<lambda>l. f_valid l \<and> f_fp_dest l \<and> f_rd l = rs) (drop 3 (ic_fwd_latch c)) of
                   None \<Rightarrow> Inr (v, rd, False) | Some l \<Rightarrow> Inr (f_buffer l, True, False))
           else bindR (aget (c_fp_reg s) (unat rs)) (\<lambda>v. Inr (v, True, True)))
      else Inr (v, rd, False))"

definition read_operands :: "INCore \<Rightarrow> 'd RISCVCPUState \<Rightarrow> InstructionLatch \<Rightarrow> sim_error + InstructionLatch \<times> bool \<times> bool" where
  "read_operands c s e =
     (let i = l_ins e in
      bindR (read_int_operand c s (i_has_src1 i) (l_read_rs1 e) (i_rs1 i) (i_rs1_val i)) (\<lambda>(v1, r1, a).
      bindR (read_int_operand c s (i_has_src2 i) (l_read_rs2 e) (i_rs2 i) (i_rs2_val i)) (\<lambda>(v2, r2, b).
      bindR (read_fp_operand c s (i_has_fp_src1 i) r1 (i_rs1 i) v1) (\<lambda>(v1, r1, d).
      bindR (read_fp_operand c s (i_has_fp_src2 i) r2 (i_rs2 i) v2) (\<lambda>(v2, r2, f).
      bindR (read_fp_operand c s (i_has_fp_src3 i) (l_read_rs3 e) (i_rs3 i) (i_rs3_val i)) (\<lambda>(v3, r3, g).
        Inr (e\<lparr>l_read_rs1 := r1, l_read_rs2 := r2, l_read_rs3 := r3,
               l_ins := i\<lparr>i_rs1_val := v1, i_rs2_val := v2, i_rs3_val := v3\<rparr>\<rparr>, a \<or> b, d \<or> f \<or> g)))))))"

definition operands_missing :: "InstructionLatch \<Rightarrow> bool" where
  "operands_missing e \<longleftrightarrow>
     (let i = l_ins e in
      (i_has_src1 i \<or> i_has_fp_src1 i) \<and> \<not> l_read_rs1 e \<or> (i_has_src2 i \<or> i_has_fp_src2 i) \<and> \<not> l_read_rs2 e
      \<or> i_has_fp_src3 i \<and> \<not> l_read_rs3 e)"

text \<open>\<^verbatim>\<open>set_waw_lock_int_dest\<close> and \<^verbatim>\<open>set_waw_lock_fp_dest\<close> differ in the flag \<open>dest\<close> they test.\<close>

definition set_waw_lock ::
  "(RVInstruction \<Rightarrow> bool) \<Rightarrow> u32 \<Rightarrow> CPUStage \<Rightarrow> InstructionLatch list \<Rightarrow> sim_error + InstructionLatch list" where
  "set_waw_lock dest rd st pool =
     (if has_data st
      then bindR (get_insn_latch pool (insn_latch_index st)) (\<lambda>e.
           if dest (l_ins e) \<and> i_rd (l_ins e) = rd
           then iset pool (insn_latch_index st) (e\<lparr>l_keep_dest_busy := True\<rparr>) else Inr pool)
      else Inr pool)"

definition lock_pipe ::
  "(RVInstruction \<Rightarrow> bool) \<Rightarrow> u32 \<Rightarrow> CPUStage list \<Rightarrow> int \<Rightarrow> InstructionLatch list \<Rightarrow> sim_error + InstructionLatch list" where
  "lock_pipe dest rd p n pool = foldR (\<lambda>i pool. bindR (aget p i) (\<lambda>st. set_waw_lock dest rd st pool)) (rev [0..<nat n]) pool"

definition waw_locks :: "SimParams \<Rightarrow> INCore \<Rightarrow> RVInstruction \<Rightarrow> InstructionLatch list \<Rightarrow> sim_error + InstructionLatch list" where
  "waw_locks p c i pool =
     bindR (if i_has_dest i
            then bindR (aget (ic_int_reg_status c) (unat (i_rd i))) (\<lambda>valid.
                 if \<not> valid
                 then let lock = set_waw_lock i_has_dest (i_rd i); pipe = lock_pipe i_has_dest (i_rd i) in
                      bindR (lock (ic_commit c) pool) (\<lambda>pool. bindR (lock (ic_memory c) pool) (\<lambda>pool.
                      bindR (lock (ic_fpu_alu c) pool) (\<lambda>pool. bindR (pipe (ic_idiv c) (num_div_stages p) pool) (\<lambda>pool.
                      bindR (pipe (ic_imul c) (num_mul_stages p) pool) (\<lambda>pool. pipe (ic_ialu c) (num_alu_stages p) pool)))))
                 else Inr pool)
            else Inr pool) (\<lambda>pool.
     if i_has_fp_dest i
     then bindR (aget (ic_fp_reg_status c) (unat (i_rd i))) (\<lambda>valid.
          if \<not> valid
          then let lock = set_waw_lock i_has_fp_dest (i_rd i) in
               bindR (lock (ic_commit c) pool) (\<lambda>pool. bindR (lock (ic_memory c) pool) (\<lambda>pool.
               bindR (lock_pipe i_has_fp_dest (i_rd i) (ic_fpu_fma c) (num_fpu_fma_stages p) pool) (lock (ic_fpu_alu c))))
          else Inr pool)
     else Inr pool)"

definition execute_stage_busy :: "SimParams \<Rightarrow> INCore \<Rightarrow> sim_error + int option" where
  "execute_stage_busy p c =
     bindR (pipe_has_data (ic_ialu c) (num_alu_stages p)) (\<lambda>a. if a then Inr (Some FU_ALU) else
     bindR (pipe_has_data (ic_imul c) (num_mul_stages p)) (\<lambda>m. if m then Inr (Some FU_MUL) else
     bindR (pipe_has_data (ic_idiv c) (num_div_stages p)) (\<lambda>d. if d then Inr (Some FU_DIV) else
     bindR (pipe_has_data (ic_fpu_fma c) (num_fpu_fma_stages p)) (\<lambda>f. if f then Inr (Some FU_FPU_FMA) else
       Inr (if has_data (ic_fpu_alu c) then Some FU_FPU_ALU else None)))))"

definition target_fu_pipelined :: "SimParams \<Rightarrow> int \<Rightarrow> bool" where
  "target_fu_pipelined p fu_type \<longleftrightarrow> 1 < fu_stages p fu_type"

text \<open>
  The first part of the decode stage, run until the operands have been read. The first component of the
  result says how it ends: \<open>Some True\<close> issue, \<open>Some False\<close> stall, \<open>None\<close> the early return on an exception.
\<close>

definition decode_once :: "'d incore \<Rightarrow> int \<Rightarrow> sim_error + 'd incore" where
  "decode_once cs k =
     (let (c, s) = cs in
      bindR (get_insn_latch (latch_pool s) k) (\<lambda>e.
      if \<not> l_is_decoded e
      then bindR (decode_cpu_stage_exec s e) (\<lambda>e.
           bindR (bpu_decode_stage_handler s e) (\<lambda>(flush, e, s).
           bindR (set_latch s k e) (\<lambda>s.
           bindR (if flush
                  then bindR (cpu_stage_flush_free_insn_latch (ic_fetch c) (latch_pool s)) (\<lambda>(f, pool).
                       bindR (cpu_stage_flush_free_insn_latch (ic_pcgen c) pool) (\<lambda>(g, pool).
                         Inr (c\<lparr>ic_fetch := f, ic_pcgen := g\<lparr>has_data := True\<rparr>\<rparr>, set_pool s pool)))
                  else Inr (c, s)) (\<lambda>(c, s).
           bindR (get_insn_latch (latch_pool s) k) (\<lambda>e.
           bindR (set_latch s k (e\<lparr>l_is_decoded := True\<rparr>)) (\<lambda>s. Inr (c, s)))))))
      else Inr (c, s)))"

definition decode_operands ::
  "'d incore \<Rightarrow> int \<Rightarrow> sim_error + bool option \<times> bool \<times> bool \<times> 'd incore" where
  "decode_operands cs k =
     bindR (decode_once cs k) (\<lambda>(c, s).
     bindR (get_insn_latch (latch_pool s) k) (\<lambda>e.
     if i_exception (l_ins e)
     then Inr (None, False, False, c\<lparr>ic_pcgen := cpu_stage_flush (ic_pcgen c), ic_fetch := cpu_stage_flush (ic_fetch c),
                 ic_decode := cpu_stage_flush (ic_decode c)\<rparr>, set_exception s e)
     else bindR (read_operands c s e) (\<lambda>(e, ri, rf).
          bindR (set_latch s k e) (\<lambda>s.
          if operands_missing e then Inr (Some False, ri, rf, c, s)
          else bindR (waw_locks (sim_params s) c (l_ins e) (latch_pool s)) (\<lambda>pool.
                 Inr (Some True, ri, rf, c\<lparr>ic_decode := (ic_decode c)\<lparr>stage_exec_done := True\<rparr>\<rparr>, set_pool s pool))))))"

text \<open>Issue to the functional unit, if it is free.\<close>

definition issue :: "'d incore \<Rightarrow> int \<Rightarrow> sim_error + 'd incore" where
  "issue cs k =
     (let (c, s) = cs; p = sim_params s in
      bindR (get_insn_latch (latch_pool s) k) (\<lambda>e.
      let fu = i_fu_type (l_ins e) in
      bindR (if enable_parallel_fu p = 0
             then bindR (execute_stage_busy p c) (\<lambda>b.
                    Inr (case b of None \<Rightarrow> False | Some unit \<Rightarrow> \<not> (target_fu_pipelined p fu \<and> fu = unit)))
             else Inr False) (\<lambda>stall.
      if stall then Inr (c, s)
      else bindR (if fu \<in> {FU_ALU, FU_MUL, FU_DIV, FU_FPU_ALU, FU_FPU_FMA}
                  then bindR (aget (fu_pipe c fu) 0) (\<lambda>st.
                       if \<not> has_data st
                       then let d = (ic_decode c)\<lparr>stage_exec_done := False\<rparr>
                            in bindR (aset (fu_pipe c fu) 0 d) (\<lambda>pipe. Inr (Some (set_fu_pipe (c\<lparr>ic_decode := d\<rparr>) fu pipe)))
                       else Inr None)
                  else Inr (Some c)) (\<lambda>r.
           case r of None \<Rightarrow> Inr (c, s)
           | Some c \<Rightarrow>
               let (i, cq) = cq_enqueue (ic_cq c) in
               thenR (sim_assert (i \<noteq> - 1))
               (bindR (iset (ic_queue c) i (l_ins_dispatch_id e)) (\<lambda>q.
                  Inr (c\<lparr>ic_cq := cq, ic_queue := q, ic_decode := cpu_stage_flush (ic_decode c)\<rparr>, s)))))))"

definition in_core_decode :: "'d incore \<Rightarrow> sim_error + 'd incore" where
  "in_core_decode cs =
     (let (c, s) = cs; k = insn_latch_index (ic_decode c) in
      if has_data (ic_decode c)
      then bindR (if \<not> stage_exec_done (ic_decode c) then decode_operands (c, s) k
                  else Inr (Some True, False, False, c, s)) (\<lambda>(go, read_int_rf, read_fp_rf, c, s).
           case go of None \<Rightarrow> Inr (c, s)
           | Some go \<Rightarrow>
               bindR (if go then issue (c, s) k else Inr (c, s)) (\<lambda>(c, s).
               bindR (if read_int_rf then count (int_regfile_reads_update (\<lambda>n. n + 1)) s else Inr s) (\<lambda>s.
               bindR (if read_fp_rf then count (fp_regfile_reads_update (\<lambda>n. n + 1)) s else Inr s) (\<lambda>s. Inr (c, s)))))
      else Inr (c, s))"

section \<open>Execute\<close>

definition exec_insn_and_invalidate_rd ::
  "SoftFp \<Rightarrow> 'd incore \<Rightarrow> InstructionLatch \<Rightarrow> int \<Rightarrow> sim_error + InstructionLatch \<times> 'd incore" where
  "exec_insn_and_invalidate_rd sf cs e fu_type =
     (let (c, s) = cs; i = l_ins e in
      bindR (if i_has_dest i
             then if i_rd i \<noteq> 0
                  then bindR (aset (ic_int_reg_status c) (unat (i_rd i)) False) (\<lambda>v. Inr (c\<lparr>ic_int_reg_status := v\<rparr>))
                  else Inr c
             else if i_has_fp_dest i
             then bindR (aset (ic_fp_reg_status c) (unat (i_rd i)) False) (\<lambda>v. Inr (c\<lparr>ic_fp_reg_status := v\<rparr>))
             else Inr c) (\<lambda>c.
      let i = i\<lparr>i_rm := word_of_int (get_insn_rm s (drop_bit 12 (i_binary i) AND 7))\<rparr> in
      bindR (execute_riscv_instruction sf i (c_fflags s)) (\<lambda>(i, fl).
      let s = s\<lparr>c_fflags := fl\<rparr> in
      bindR (aget (sc_stats (c_simcpu s)) (c_priv s)) (\<lambda>st.
      bindR (iget (fu_access st) fu_type) (\<lambda>n.
      bindR (iset (fu_access st) fu_type (n + 1)) (\<lambda>l.
      bindR (count (fu_access_update (\<lambda>_. l)) s) (\<lambda>s.
        Inr (e\<lparr>l_elapsed_clock_cycles := 1, l_ins := i\<rparr>, c, s))))))))"

definition set_fwd :: "INCore \<Rightarrow> int \<Rightarrow> RVInstruction \<Rightarrow> sim_error + INCore" where
  "set_fwd c b i =
     bindR (iset (ic_fwd_latch c) b \<lparr>f_buffer = i_buffer i, f_rd = i_rd i, f_valid = True,
              f_fp_dest = i_has_fp_dest i, f_int_dest = i_has_dest i\<rparr>) (\<lambda>v. Inr (c\<lparr>ic_fwd_latch := v\<rparr>))"

definition fwd_data_from_ex_to_decode ::
  "INCore \<Rightarrow> InstructionLatch \<Rightarrow> int \<Rightarrow> sim_error + InstructionLatch \<times> INCore" where
  "fwd_data_from_ex_to_decode c e fu_type =
     (let i = l_ins e in
      if \<not> l_data_fwd_done e \<and> \<not> (i_is_load i \<or> i_is_store i \<or> i_is_atomic i) \<and> \<not> l_keep_dest_busy e
         \<and> (i_has_dest i \<and> i_rd i \<noteq> 0 \<or> i_has_fp_dest i)
      then bindR (set_fwd c fu_type i) (\<lambda>c. Inr (e\<lparr>l_data_fwd_done := True\<rparr>, c))
      else Inr (e, c))"

text \<open>\<open>st\<close> is the stage the instruction is in; the result has the stage after the move.\<close>

definition push_insn_from_ex_to_mem ::
  "INCore \<Rightarrow> InstructionLatch \<Rightarrow> CPUStage \<Rightarrow> sim_error + InstructionLatch \<times> CPUStage \<times> INCore" where
  "push_insn_from_ex_to_mem c e st =
     bindR (iget (ic_queue c) (cq_front (ic_cq c))) (\<lambda>id.
       if id = l_ins_dispatch_id e \<and> \<not> has_data (ic_memory c)
       then let st = st\<lparr>stage_exec_done := False\<rparr>
            in Inr (e\<lparr>l_elapsed_clock_cycles := 0, l_data_fwd_done := False\<rparr>, cpu_stage_flush st,
                    c\<lparr>ic_cq := snd (cq_dequeue (ic_cq c)), ic_memory := st\<rparr>)
       else Inr (e, st, c))"

definition set_stage :: "INCore \<Rightarrow> int \<Rightarrow> nat \<Rightarrow> CPUStage \<Rightarrow> sim_error + INCore" where
  "set_stage c fu k st = bindR (aset (fu_pipe c fu) k st) (\<lambda>p. Inr (set_fu_pipe c fu p))"

definition in_core_execute_non_pipe :: "SoftFp \<Rightarrow> int \<Rightarrow> 'd incore \<Rightarrow> sim_error + 'd incore" where
  "in_core_execute_non_pipe sf fu_type cs =
     (let (c, s) = cs in
      bindR (aget (fu_pipe c fu_type) 0) (\<lambda>st.
      if has_data st
      then let k = insn_latch_index st in
           bindR (get_insn_latch (latch_pool s) k) (\<lambda>e.
           bindR (count (exec_unit_delay_update (\<lambda>n. n + 1)) s) (\<lambda>s.
           bindR (if \<not> stage_exec_done st
                  then bindR (exec_insn_and_invalidate_rd sf (c, s) e fu_type) (\<lambda>(e, c, s).
                       bindR (set_max_clock_cycles_for_non_pipe_fu s fu_type e) (\<lambda>m.
                       thenR (sim_assert (m \<noteq> 0)) (Inr (e\<lparr>l_max_clock_cycles := m\<rparr>, st\<lparr>stage_exec_done := True\<rparr>, c, s))))
                  else Inr (e, st, c, s)) (\<lambda>(e, st, c, s).
           bindR (if l_elapsed_clock_cycles e = l_max_clock_cycles e
                  then bindR (fwd_data_from_ex_to_decode c e fu_type) (\<lambda>(e, c). push_insn_from_ex_to_mem c e st)
                  else Inr (e\<lparr>l_elapsed_clock_cycles := l_elapsed_clock_cycles e + 1\<rparr>, st, c)) (\<lambda>(e, st, c).
           bindR (set_stage c fu_type 0 st) (\<lambda>c.
           bindR (set_latch s k e) (\<lambda>s. Inr (c, s)))))))
      else Inr (c, s)))"

definition in_core_execute_pipe :: "SoftFp \<Rightarrow> nat \<Rightarrow> int \<Rightarrow> int \<Rightarrow> int \<Rightarrow> 'd incore \<Rightarrow> sim_error + 'd incore" where
  "in_core_execute_pipe sf cur_stage_id fu_type max_clock_cycles max_stage_id cs =
     (let (c, s) = cs in
      bindR (aget (fu_pipe c fu_type) cur_stage_id) (\<lambda>st.
      if has_data st
      then let k = insn_latch_index st in
           bindR (get_insn_latch (latch_pool s) k) (\<lambda>e.
           bindR (count (exec_unit_delay_update (\<lambda>n. n + 1)) s) (\<lambda>s.
           bindR (if \<not> stage_exec_done st
                  then bindR (exec_insn_and_invalidate_rd sf (c, s) e fu_type) (\<lambda>(e, c, s).
                         Inr (e, st\<lparr>stage_exec_done := True\<rparr>, c, s))
                  else Inr (e, st, c, s)) (\<lambda>(e, st, c, s).
           bindR (if l_elapsed_clock_cycles e = max_clock_cycles
                  then if int cur_stage_id = max_stage_id
                       then bindR (fwd_data_from_ex_to_decode c e fu_type) (\<lambda>(e, c). push_insn_from_ex_to_mem c e st)
                       else bindR (aget (fu_pipe c fu_type) (cur_stage_id + 1)) (\<lambda>nxt.
                            if \<not> has_data nxt
                            then bindR (set_stage c fu_type (cur_stage_id + 1) st) (\<lambda>c.
                                   Inr (e\<lparr>l_elapsed_clock_cycles := 1\<rparr>, cpu_stage_flush st, c))
                            else Inr (e, st, c))
                  else Inr (e\<lparr>l_elapsed_clock_cycles := l_elapsed_clock_cycles e + 1\<rparr>, st, c)) (\<lambda>(e, st, c).
           bindR (set_stage c fu_type cur_stage_id st) (\<lambda>c.
           bindR (set_latch s k e) (\<lambda>s. Inr (c, s)))))))
      else Inr (c, s)))"

definition execute_fu :: "SoftFp \<Rightarrow> int \<Rightarrow> 'd incore \<Rightarrow> sim_error + 'd incore" where
  "execute_fu sf fu cs =
     (let p = sim_params (snd cs); n = fu_stages p fu in
      foldR (\<lambda>i cs. bindR (aget (fu_latencies p fu) i) (\<lambda>l. in_core_execute_pipe sf i fu l (n - 1) cs)) (rev [0..<nat n]) cs)"

definition in_core_execute_all :: "SoftFp \<Rightarrow> 'd incore \<Rightarrow> sim_error + 'd incore" where
  "in_core_execute_all sf cs =
     bindR (execute_fu sf FU_FPU_FMA cs) (\<lambda>cs.
     bindR (in_core_execute_non_pipe sf FU_FPU_ALU cs) (\<lambda>cs.
     bindR (execute_fu sf FU_DIV cs) (\<lambda>cs.
     bindR (execute_fu sf FU_MUL cs) (\<lambda>cs. execute_fu sf FU_ALU cs))))"

section \<open>Memory\<close>

definition flush_fu_stage :: "InstructionLatch list \<Rightarrow> int \<Rightarrow> int \<Rightarrow> INCore \<Rightarrow> sim_error + INCore" where
  "flush_fu_stage pool fu stages c =
     foldR (\<lambda>j c. bindR (aget (fu_pipe c fu) j) (\<lambda>st.
       bindR (if has_data st
              then bindR (get_insn_latch pool (insn_latch_index st)) (\<lambda>e.
                   let i = l_ins e in
                   if i_has_dest i
                   then bindR (aset (ic_int_reg_status c) (unat (i_rd i)) True) (\<lambda>v. Inr (c\<lparr>ic_int_reg_status := v\<rparr>))
                   else if i_has_fp_dest i
                   then bindR (aset (ic_fp_reg_status c) (unat (i_rd i)) True) (\<lambda>v. Inr (c\<lparr>ic_fp_reg_status := v\<rparr>))
                   else Inr c)
              else Inr c) (\<lambda>c. set_stage c fu j (cpu_stage_flush st)))) [0..<nat stages] c"

definition free_other_latches :: "INCore \<Rightarrow> InstructionLatch list \<Rightarrow> sim_error + InstructionLatch list" where
  "free_other_latches c pool =
     foldR (\<lambda>i p. if int i \<noteq> insn_latch_index (ic_memory c) \<and> int i \<noteq> insn_latch_index (ic_commit c)
                  then latch_free p (int i) else Inr p) [0..<INSN_LATCH_POOL_SIZE] pool"

text \<open>\<open>k\<close> is the latch of the mispredicted branch, which is in the memory stage.\<close>

definition flush_speculated_cpu_state :: "'d incore \<Rightarrow> int \<Rightarrow> sim_error + 'd incore" where
  "flush_speculated_cpu_state cs k =
     (let (c, s) = cs; p = sim_params s in
      bindR (get_insn_latch (latch_pool s) k) (\<lambda>e.
      let s = redirect s (l_branch_target e) in
      bindR (set_latch s k (e\<lparr>l_is_branch_taken := True\<rparr>)) (\<lambda>s.
      let c = c\<lparr>ic_pcgen := cpu_stage_flush (ic_pcgen c), ic_fetch := cpu_stage_flush (ic_fetch c),
                ic_decode := cpu_stage_flush (ic_decode c)\<rparr>;
          flush = flush_fu_stage (latch_pool s) in
      bindR (flush FU_ALU (num_alu_stages p) c) (\<lambda>c.
      bindR (flush FU_MUL (num_mul_stages p) c) (\<lambda>c.
      bindR (flush FU_DIV (num_div_stages p) c) (\<lambda>c.
      bindR (flush FU_FPU_ALU 1 c) (\<lambda>c.
      bindR (flush FU_FPU_FMA (num_fpu_fma_stages p) c) (\<lambda>c.
      let c = c\<lparr>ic_cq := cq_reset (ic_cq c), ic_fwd_latch := replicate NUM_FWD_BUS zero_fwd\<rparr> in
      bindR (mem_controller_reset (mem_controller s)) (\<lambda>m.
      let s = set_mem_controller s m;
          c = c\<lparr>ic_pcgen := (ic_pcgen c)\<lparr>has_data := True\<rparr>\<rparr>;
          sim = c_simcpu s;
          s = s\<lparr>c_simcpu := sim\<lparr>sc_skip_fetch_cycle := True, sc_exception := (sc_exception sim)\<lparr>x_pending := False\<rparr>\<rparr>\<rparr> in
      bindR (free_other_latches c (latch_pool s)) (\<lambda>pool. Inr (c, set_pool s pool)))))))))))"

definition is_mem_insn :: "RVInstruction \<Rightarrow> bool" where
  "is_mem_insn i \<longleftrightarrow> i_is_load i \<or> i_is_store i \<or> i_is_atomic i"

text \<open>The first cycle of an instruction in the memory stage.\<close>

definition memory_exec :: "'d DevOps \<Rightarrow> 'd incore \<Rightarrow> int \<Rightarrow> sim_error + 'd incore" where
  "memory_exec dv cs k =
     (let (c, s) = cs in
      bindR (get_insn_latch (latch_pool s) k) (\<lambda>e.
      let e = e\<lparr>l_elapsed_clock_cycles := 1, l_max_clock_cycles := 1\<rparr> in
      bindR (if is_mem_insn (l_ins e)
             then bindR (mem_cpu_stage_exec dv s e) (\<lambda>(e, s). bindR (set_latch s k e) (\<lambda>s. Inr (c, s)))
             else if i_is_branch (l_ins e)
             then bindR (bpu_execute_stage_handler s e) (\<lambda>(mispredict, e, s).
                  bindR (set_latch s k e) (\<lambda>s.
                    if mispredict then flush_speculated_cpu_state (c, s) k else Inr (c, s)))
             else bindR (set_latch s k e) (\<lambda>s. Inr (c, s))) (\<lambda>(c, s).
        Inr (c\<lparr>ic_memory := (ic_memory c)\<lparr>stage_exec_done := True\<rparr>\<rparr>, s))))"

definition flush_all_stages :: "SimParams \<Rightarrow> INCore \<Rightarrow> sim_error + INCore" where
  "flush_all_stages p c =
     bindR (cpu_stage_flush_pipe (ic_ialu c) (num_alu_stages p)) (\<lambda>ialu.
     bindR (cpu_stage_flush_pipe (ic_imul c) (num_mul_stages p)) (\<lambda>imul.
     bindR (cpu_stage_flush_pipe (ic_idiv c) (num_div_stages p)) (\<lambda>idiv.
     bindR (cpu_stage_flush_pipe (ic_fpu_fma c) (num_fpu_fma_stages p)) (\<lambda>fma.
       Inr (c\<lparr>ic_pcgen := cpu_stage_flush (ic_pcgen c), ic_fetch := cpu_stage_flush (ic_fetch c),
              ic_decode := cpu_stage_flush (ic_decode c), ic_memory := cpu_stage_flush (ic_memory c),
              ic_ialu := ialu, ic_imul := imul, ic_idiv := idiv, ic_fpu_alu := cpu_stage_flush (ic_fpu_alu c),
              ic_fpu_fma := fma\<rparr>)))))"

text \<open>An instruction whose cycles in the memory stage are over.\<close>

definition memory_finish :: "'d incore \<Rightarrow> int \<Rightarrow> InstructionLatch \<Rightarrow> sim_error + 'd incore" where
  "memory_finish cs k e =
     (let (c, s) = cs in
      bindR (if backend_size s \<noteq> 0 \<and> \<not> l_cache_lookup_complete_signal_sent e
             then bindR (lookup_complete_signal (mq_backend (mc_queues (mem_controller s))) s) (\<lambda>s.
                    Inr (e\<lparr>l_cache_lookup_complete_signal_sent := True\<rparr>, s))
             else Inr (e, s)) (\<lambda>(e, s).
      bindR (set_latch s k e) (\<lambda>s.
      if is_mem_insn (l_ins e) \<and> backend_size s \<noteq> 0
      then bindR (count (data_mem_delay_update (\<lambda>n. n + 1)) s) (\<lambda>s. Inr (c, s))
      else if i_exception (l_ins e)
      then bindR (flush_all_stages (sim_params s) c) (\<lambda>c. Inr (c, set_exception s e))
      else bindR (if \<not> l_data_fwd_done e \<and> \<not> l_keep_dest_busy e
                     \<and> (i_has_dest (l_ins e) \<and> i_rd (l_ins e) \<noteq> 0 \<or> i_has_fp_dest (l_ins e))
                  then bindR (set_fwd c (int NUM_FWD_BUS - 1) (l_ins e)) (\<lambda>c. Inr (e\<lparr>l_data_fwd_done := True\<rparr>, c))
                  else Inr (e, c)) (\<lambda>(e, c).
           if \<not> has_data (ic_commit c)
           then let st = (ic_memory c)\<lparr>stage_exec_done := False\<rparr>;
                    e = e\<lparr>l_max_clock_cycles := 0, l_elapsed_clock_cycles := 0, l_data_fwd_done := False\<rparr>
                in bindR (set_latch (clear_backend_idx s) k e) (\<lambda>s.
                     Inr (c\<lparr>ic_commit := st, ic_memory := cpu_stage_flush st\<rparr>, s))
           else bindR (set_latch s k e) (\<lambda>s. Inr (c, s))))))"

definition in_core_memory :: "'d DevOps \<Rightarrow> 'd incore \<Rightarrow> sim_error + 'd incore" where
  "in_core_memory dv cs =
     (let (c, s) = cs; k = insn_latch_index (ic_memory c) in
      if has_data (ic_memory c)
      then bindR (if \<not> stage_exec_done (ic_memory c) then memory_exec dv (c, s) k else Inr (c, s)) (\<lambda>(c, s).
           bindR (get_insn_latch (latch_pool s) k) (\<lambda>e.
           if l_elapsed_clock_cycles e = l_max_clock_cycles e then memory_finish (c, s) k e
           else bindR (set_latch s k (e\<lparr>l_elapsed_clock_cycles := l_elapsed_clock_cycles e + 1\<rparr>)) (\<lambda>s. Inr (c, s))))
      else Inr (c, s))"

section \<open>Commit\<close>

text \<open>The result is \<open>True\<close> when the run ends: the requested number of instructions or the timeout was reached.\<close>

definition commit_regs :: "'d incore \<Rightarrow> InstructionLatch \<Rightarrow> sim_error + InstructionLatch \<times> 'd incore" where
  "commit_regs cs e =
     (let (c, s) = cs; i = l_ins e in
      if i_has_dest i
      then if i_rd i \<noteq> 0
           then bindR (update_arch_reg_int s e) (\<lambda>s.
                bindR (if \<not> l_keep_dest_busy e then aset (ic_int_reg_status c) (unat (i_rd i)) True
                       else Inr (ic_int_reg_status c)) (\<lambda>v. Inr (e, c\<lparr>ic_int_reg_status := v\<rparr>, s)))
           else Inr (e, c, s)
      else if i_has_fp_dest i
      then bindR (update_arch_reg_fp s e) (\<lambda>(e, s).
           bindR (if \<not> l_keep_dest_busy e then aset (ic_fp_reg_status c) (unat (i_rd i)) True
                  else Inr (ic_fp_reg_status c)) (\<lambda>v. Inr (e, c\<lparr>ic_fp_reg_status := v\<rparr>, s)))
      else Inr (e, c, s))"

definition end_run :: "'d incore \<Rightarrow> int \<Rightarrow> InstructionLatch \<Rightarrow> int \<Rightarrow> sim_error + bool \<times> 'd incore" where
  "end_run cs k e cause =
     (let (c, s) = cs; e = e\<lparr>l_ins := (l_ins e)\<lparr>i_exception_cause := cause\<rparr>\<rparr> in
      bindR (set_latch s k e) (\<lambda>s. Inr (True, c, set_exception s e)))"

definition in_core_commit :: "'d incore \<Rightarrow> sim_error + bool \<times> 'd incore" where
  "in_core_commit cs =
     (let (c, s) = cs; k = insn_latch_index (ic_commit c) in
      if has_data (ic_commit c)
      then bindR (get_insn_latch (latch_pool s) k) (\<lambda>e.
           bindR (commit_regs (c, s) e) (\<lambda>(e, c, s).
           bindR (update_insn_commit_stats s e) (\<lambda>s.
           bindR (if enable_stats_display (sim_params s) \<noteq> 0
                  then bindR (write_stats_to_stats_display_shm (c_simcpu s)) (\<lambda>sim. Inr (s\<lparr>c_simcpu := sim\<rparr>))
                  else Inr s) (\<lambda>s.
           let e = e\<lparr>l_status := INSN_LATCH_FREE\<rparr>; c = c\<lparr>ic_commit := cpu_stage_flush (ic_commit c)\<rparr>;
               n = sim_emulate_after_icount (sim_params s) in
           bindR (set_latch s k e) (\<lambda>s.
           if n \<noteq> 0 \<and> n \<le> sc_icount (c_simcpu s) then end_run (c, s) k e SIM_ICOUNT_COMPLETE_EXCEPTION
           else let s = s\<lparr>c_n_cycles := c_n_cycles s - 1\<rparr> in
                if c_n_cycles s = 0 then end_run (c, s) k e SIM_TEMU_TIMEOUT_EXCEPTION
                else Inr (False, c, s))))))
      else Inr (False, c, s))"

section \<open>Runs\<close>

definition clear_fwd :: "'d incore \<Rightarrow> 'd incore" where
  "clear_fwd cs = (let (c, s) = cs in (c\<lparr>ic_fwd_latch := replicate NUM_FWD_BUS zero_fwd\<rparr>, s))"

definition in_core_run_6_stage :: "SoftFp \<Rightarrow> 'd DevOps \<Rightarrow> 'd incore \<Rightarrow> sim_error + bool \<times> 'd incore" where
  "in_core_run_6_stage sf dv cs =
     bindR (in_core_commit cs) (\<lambda>(stop, cs). if stop then Inr (True, cs) else
     bindR (in_core_memory dv cs) (\<lambda>cs. bindR (in_core_execute_all sf cs) (\<lambda>cs.
     bindR (in_core_decode cs) (\<lambda>cs. bindR (in_core_fetch (clear_fwd cs)) (\<lambda>cs.
     bindR (in_core_pcgen cs) (\<lambda>cs. Inr (False, cs)))))))"

definition in_core_run_5_stage :: "SoftFp \<Rightarrow> 'd DevOps \<Rightarrow> 'd incore \<Rightarrow> sim_error + bool \<times> 'd incore" where
  "in_core_run_5_stage sf dv cs =
     bindR (in_core_commit cs) (\<lambda>(stop, cs). if stop then Inr (True, cs) else
     bindR (in_core_memory dv cs) (\<lambda>cs. bindR (in_core_execute_all sf cs) (\<lambda>cs.
     bindR (in_core_decode cs) (\<lambda>cs. bindR (in_core_pcgen (clear_fwd cs)) (\<lambda>cs.
     bindR (in_core_fetch cs) (\<lambda>cs. Inr (False, cs)))))))"

definition run_internal :: "SoftFp \<Rightarrow> 'd DevOps \<Rightarrow> 'd incore \<Rightarrow> sim_error + bool \<times> 'd incore" where
  "run_internal sf dv cs =
     (let n = num_cpu_stages (sim_params (snd cs)) in
      if n = 5 then in_core_run_5_stage sf dv cs else if n = 6 then in_core_run_6_stage sf dv cs else Inl Null_pointer)"

text \<open>One turn of the loop of \<^verbatim>\<open>in_core_run\<close>; the result is the cause with which the loop returns, if it does.\<close>

definition in_core_cycle :: "SoftFp \<Rightarrow> 'd DevOps \<Rightarrow> 'd incore \<Rightarrow> sim_error + int option \<times> 'd incore" where
  "in_core_cycle sf dv cs =
     (let (c, s) = cs in
      bindR (mem_controller_clock (mem_controller s) (sc_ext (c_simcpu s))) (\<lambda>(m, x).
      let s = set_mem_controller s m; s = s\<lparr>c_simcpu := (c_simcpu s)\<lparr>sc_ext := x\<rparr>\<rparr> in
      bindR (run_internal sf dv (c, s)) (\<lambda>(stop, c, s).
      let x = sc_exception (c_simcpu s) in
      if stop then Inr (Some (x_cause x), c, s)
      else bindR (if x_pending x then in_core_pipeline_drained (sim_params s) c else Inr False) (\<lambda>drained.
           if drained then Inr (Some (x_cause x), c, s)
           else bindR (count (cycles_update (\<lambda>n. n + 1))
                        (s\<lparr>c_simcpu := (c_simcpu s)\<lparr>sc_clock := sc_clock (c_simcpu s) + 1\<rparr>\<rparr>)) (\<lambda>s.
                  Inr (None, c, s))))))"

partial_function (option) in_core_run ::
  "SoftFp \<Rightarrow> 'd DevOps \<Rightarrow> 'd incore \<Rightarrow> (sim_error + int \<times> 'd incore) option" where
  "in_core_run sf dv cs =
     (case in_core_cycle sf dv cs of
        Inl err \<Rightarrow> Some (Inl err)
      | Inr r \<Rightarrow> (case fst r of Some cause \<Rightarrow> Some (Inr (cause, snd r)) | None \<Rightarrow> in_core_run sf dv (snd r)))"

end
