(* ===== verification/Interp.thy ===== *)
theory Interp
  imports Sim_Cpu Temu_Mem_Map Execute Csr
begin

text \<open>
  The emulator, \<^verbatim>\<open>riscv_cpu_template.h\<close> with the floating-point cases of \<^verbatim>\<open>riscv_cpu_fp_template.h\<close> and the loop of
  \<^verbatim>\<open>riscv_cpu_interp\<close> in \<^verbatim>\<open>riscv_cpu.c\<close>, for the register widths 32 and 64 of the 64-bit build (\<open>xlen\<close> is \<^verbatim>\<open>XLEN\<close>,
  \<^verbatim>\<open>FLEN\<close> is 64). The emulator executes everything outside of a simulation, and the system instructions within one. A jump to a label of the
  main function is a value of type \<open>flow\<close>. Registers are arrays of 32 elements, which 5-bit fields index. The fields of compressed
  instructions are gathered with \<open>cget_fields\<close>: \<^verbatim>\<open>get_field1\<close> and \<^verbatim>\<open>sext\<close> of \<^verbatim>\<open>riscv_cpu.c\<close> are copies of the functions of the decoder.
\<close>

section \<open>Arithmetic\<close>

text \<open>The casts to \<^verbatim>\<open>intx_t\<close> and \<^verbatim>\<open>uintx_t\<close> of a value kept in 64 bits.\<close>

definition intx :: "nat \<Rightarrow> u64 \<Rightarrow> u64" where
  "intx xlen v = (if xlen = 32 then int32 v else v)"

definition uintx :: "nat \<Rightarrow> u64 \<Rightarrow> u64" where
  "uintx xlen v = (if xlen = 32 then take_bit 32 v else v)"

definition div32 :: "u32 \<Rightarrow> u32 \<Rightarrow> u32" where
  "div32 a b = (if b = 0 then - 1 else if a = push_bit 31 1 \<and> b = - 1 then a else word_of_int (sint a sdiv sint b))"

definition divu32 :: "u32 \<Rightarrow> u32 \<Rightarrow> u32" where
  "divu32 a b = (if b = 0 then - 1 else a div b)"

definition rem32 :: "u32 \<Rightarrow> u32 \<Rightarrow> u32" where
  "rem32 a b = (if b = 0 then a else if a = push_bit 31 1 \<and> b = - 1 then 0 else word_of_int (sint a smod sint b))"

definition remu32 :: "u32 \<Rightarrow> u32 \<Rightarrow> u32" where
  "remu32 a b = (if b = 0 then a else a mod b)"

definition mulh32 :: "u32 \<Rightarrow> u32 \<Rightarrow> u32" where
  "mulh32 a b = ucast (signed_drop_bit 32 (scast a * scast b :: u64))"

definition mulhsu32 :: "u32 \<Rightarrow> u32 \<Rightarrow> u32" where
  "mulhsu32 a b = ucast (signed_drop_bit 32 (scast a * ucast b :: u64))"

definition mulhu32 :: "u32 \<Rightarrow> u32 \<Rightarrow> u32" where
  "mulhu32 a b = ucast (signed_drop_bit 32 (ucast a * ucast b :: u64))"

text \<open>\<^verbatim>\<open>glue(op, XLEN)(val, val2)\<close> with the result cast to \<^verbatim>\<open>intx_t\<close>.\<close>

definition glue_xlen :: "nat \<Rightarrow> (u32 \<Rightarrow> u32 \<Rightarrow> u32) \<Rightarrow> (u64 \<Rightarrow> u64 \<Rightarrow> u64) \<Rightarrow> u64 \<Rightarrow> u64 \<Rightarrow> u64" where
  "glue_xlen xlen f32 f64 a b = (if xlen = 32 then scast (f32 (ucast a) (ucast b)) else f64 a b)"

section \<open>Instructions\<close>

text \<open>
  Where an instruction goes on: behind itself (\<^verbatim>\<open>NEXT_INSN\<close>, \<^verbatim>\<open>C_NEXT_INSN\<close>), at \<^verbatim>\<open>s->pc\<close> (\<^verbatim>\<open>JUMP_INSN\<close>), or at one of the
  labels at the end of the function (\<^verbatim>\<open>mmu_exception\<close> is \<^verbatim>\<open>exception\<close>, \<^verbatim>\<open>done_interp\<close> is \<^verbatim>\<open>the_end\<close>).
\<close>

datatype flow = Next_insn | C_next_insn | Jump_insn | Illegal | Exception | The_end

type_synonym 'd outcome_of = "sim_error + flow \<times> 'd RISCVCPUState"

definition xreg :: "'d RISCVCPUState \<Rightarrow> u32 \<Rightarrow> u64" where
  "xreg s r = c_reg s ! unat r"

definition set_xreg :: "'d RISCVCPUState \<Rightarrow> u32 \<Rightarrow> u64 \<Rightarrow> 'd RISCVCPUState" where
  "set_xreg s r v = s\<lparr>c_reg := (c_reg s)[unat r := v]\<rparr>"

text \<open>\<^verbatim>\<open>if (rd != 0) s->reg[rd] = val\<close>\<close>

definition set_rd :: "'d RISCVCPUState \<Rightarrow> u32 \<Rightarrow> u64 \<Rightarrow> 'd RISCVCPUState" where
  "set_rd s rd v = (if rd \<noteq> 0 then set_xreg s rd v else s)"

definition freg :: "'d RISCVCPUState \<Rightarrow> u32 \<Rightarrow> u64" where
  "freg s r = c_fp_reg s ! unat r"

definition set_freg :: "'d RISCVCPUState \<Rightarrow> u32 \<Rightarrow> u64 \<Rightarrow> 'd RISCVCPUState" where
  "set_freg s r v = s\<lparr>c_fp_reg := (c_fp_reg s)[unat r := v]\<rparr>"

text \<open>\<^verbatim>\<open>if (target_read_u##size(s, &rval, addr)) goto mmu_exception\<close>, and the same for a write.\<close>

definition reading :: "'d DevOps \<Rightarrow> 'd RISCVCPUState \<Rightarrow> target_ulong \<Rightarrow> nat \<Rightarrow> (u64 \<Rightarrow> 'd RISCVCPUState \<Rightarrow> 'd outcome_of) \<Rightarrow> 'd outcome_of" where
  "reading dv s addr k f =
     bindR (target_read dv s addr k) (\<lambda>(r, s). case r of None \<Rightarrow> Inr (Exception, s) | Some v \<Rightarrow> f v s)"

definition writing :: "'d DevOps \<Rightarrow> 'd RISCVCPUState \<Rightarrow> target_ulong \<Rightarrow> u64 \<Rightarrow> nat \<Rightarrow> flow \<Rightarrow> 'd outcome_of" where
  "writing dv s addr v k fl =
     bindR (target_write dv s addr v k) (\<lambda>(ok, s). Inr (if ok then fl else Exception, s))"

subsection \<open>Compressed instructions\<close>

definition interp_c_q0 :: "nat \<Rightarrow> 'd DevOps \<Rightarrow> u32 \<Rightarrow> 'd RISCVCPUState \<Rightarrow> 'd outcome_of" where
  "interp_c_q0 xlen dv insn s =
    (let funct3 = drop_bit 13 insn AND 7; rd = (drop_bit 2 insn AND 7) OR 8; rs1 = (drop_bit 7 insn AND 7) OR 8;
         w = [(10, 3, 5), (6, 2, 2), (5, 6, 6)]; d = [(10, 3, 5), (5, 6, 7)];
         access = (\<lambda>fields f. bindR (cget_fields insn fields) (\<lambda>imm. f (intx xlen (xreg s rs1 + scast imm)))) in
     if funct3 = 0 then
       bindR (cget_fields insn [(11, 4, 5), (7, 6, 9), (6, 2, 2), (5, 3, 3)]) (\<lambda>imm.
         if imm = 0 then Inr (Illegal, s) else Inr (C_next_insn, set_xreg s rd (intx xlen (xreg s 2 + scast imm))))
     else if funct3 = 1 then
       if c_fs s = 0 then Inr (Illegal, s)
       else access d (\<lambda>addr. reading dv s addr 3 (\<lambda>v s. Inr (C_next_insn, (set_freg s rd (v OR F64_HIGH))\<lparr>c_fs := 3\<rparr>)))
     else if funct3 = 2 then access w (\<lambda>addr. reading dv s addr 2 (\<lambda>v s. Inr (C_next_insn, set_xreg s rd (int32 v))))
     else if funct3 = 3 then
       if xlen = 64 then access d (\<lambda>addr. reading dv s addr 3 (\<lambda>v s. Inr (C_next_insn, set_xreg s rd v)))
       else if c_fs s = 0 then Inr (Illegal, s)
       else access w (\<lambda>addr. reading dv s addr 2 (\<lambda>v s. Inr (C_next_insn, (set_freg s rd (v OR F32_HIGH))\<lparr>c_fs := 3\<rparr>)))
     else if funct3 = 5 then
       if c_fs s = 0 then Inr (Illegal, s) else access d (\<lambda>addr. writing dv s addr (freg s rd) 3 C_next_insn)
     else if funct3 = 6 then access w (\<lambda>addr. writing dv s addr (xreg s rd) 2 C_next_insn)
     else if funct3 = 7 then
       if xlen = 64 then access d (\<lambda>addr. writing dv s addr (xreg s rd) 3 C_next_insn)
       else if c_fs s = 0 then Inr (Illegal, s) else access w (\<lambda>addr. writing dv s addr (freg s rd) 2 C_next_insn)
     else Inr (Illegal, s))"

definition interp_c_arith :: "nat \<Rightarrow> u32 \<Rightarrow> 'd RISCVCPUState \<Rightarrow> 'd outcome_of" where
  "interp_c_arith xlen insn s =
    (let funct3 = drop_bit 10 insn AND 3; rd = (drop_bit 7 insn AND 7) OR 8; i6 = [(12, 5, 5), (2, 0, 4)]; a = xreg s rd;
         next_with = (\<lambda>v. Inr (C_next_insn, set_xreg s rd v)) in
     if funct3 = 0 \<or> funct3 = 1 then bindR (cget_fields insn i6) (\<lambda>imm.
       if xlen = 32 \<and> imm AND 0x20 \<noteq> 0 then Inr (Illegal, s)
       else if funct3 = 0 then next_with (intx xlen (drop_bit (unat imm) (uintx xlen a)))
       else next_with (signed_drop_bit (unat imm) (intx xlen a)))
     else if funct3 = 2 then bindR (cget_fields insn i6) (\<lambda>imm. next_with (a AND scast (sextc imm 6)))
     else let rs2 = (drop_bit 2 insn AND 7) OR 8; b = xreg s rs2; op = (drop_bit 5 insn AND 3) OR (drop_bit (12 - 2) insn AND 4) in
       if op = 0 then next_with (intx xlen (a - b))
       else if op = 1 then next_with (a XOR b)
       else if op = 2 then next_with (a OR b)
       else if op = 3 then next_with (a AND b)
       else if op = 4 \<and> xlen = 64 then next_with (int32 (a - b))
       else if op = 5 \<and> xlen = 64 then next_with (int32 (a + b))
       else Inr (Illegal, s))"

definition interp_c_q1 :: "nat \<Rightarrow> target_ulong \<Rightarrow> u32 \<Rightarrow> 'd RISCVCPUState \<Rightarrow> 'd outcome_of" where
  "interp_c_q1 xlen pc insn s =
    (let funct3 = drop_bit 13 insn AND 7; rd = drop_bit 7 insn AND 0x1f; rs1 = (drop_bit 7 insn AND 7) OR 8; i6 = [(12, 5, 5), (2, 0, 4)];
         j = [(12, 11, 11), (11, 4, 4), (9, 8, 9), (8, 10, 10), (7, 6, 6), (6, 7, 7), (3, 1, 3), (2, 5, 5)];
         b = [(12, 8, 8), (10, 3, 4), (5, 6, 7), (3, 1, 2), (2, 5, 5)];
         jump = (\<lambda>s imm. Inr (Jump_insn, s\<lparr>c_pc := intx xlen (pc + scast imm)\<rparr>)) in
     if funct3 = 0 then
       if rd \<noteq> 0 then bindR (cget_fields insn i6) (\<lambda>imm. Inr (C_next_insn, set_xreg s rd (intx xlen (xreg s rd + scast (sextc imm 6)))))
       else Inr (C_next_insn, s)
     else if funct3 = 1 then
       if xlen = 32 then bindR (cget_fields insn j) (\<lambda>imm. jump (set_xreg s 1 (pc + 2)) (sextc imm 12))
       else if rd \<noteq> 0 then bindR (cget_fields insn i6) (\<lambda>imm. Inr (C_next_insn, set_xreg s rd (int32 (xreg s rd + scast (sextc imm 6)))))
       else Inr (C_next_insn, s)
     else if funct3 = 2 then
       if rd \<noteq> 0 then bindR (cget_fields insn i6) (\<lambda>imm. Inr (C_next_insn, set_xreg s rd (scast (sextc imm 6))))
       else Inr (C_next_insn, s)
     else if funct3 = 3 then
       if rd = 2 then bindR (cget_fields insn [(12, 9, 9), (6, 4, 4), (5, 6, 6), (3, 7, 8), (2, 5, 5)]) (\<lambda>imm.
         if sextc imm 10 = 0 then Inr (Illegal, s)
         else Inr (C_next_insn, set_xreg s 2 (intx xlen (xreg s 2 + scast (sextc imm 10)))))
       else if rd \<noteq> 0 then bindR (cget_fields insn [(12, 17, 17), (2, 12, 16)]) (\<lambda>imm.
         Inr (C_next_insn, set_xreg s rd (scast (sextc imm 18))))
       else Inr (C_next_insn, s)
     else if funct3 = 4 then interp_c_arith xlen insn s
     else if funct3 = 5 then bindR (cget_fields insn j) (\<lambda>imm. jump s (sextc imm 12))
     else if funct3 = 6 then bindR (cget_fields insn b) (\<lambda>imm.
       if xreg s rs1 = 0 then jump s (sextc imm 9) else Inr (C_next_insn, s))
     else if funct3 = 7 then bindR (cget_fields insn b) (\<lambda>imm.
       if xreg s rs1 \<noteq> 0 then jump s (sextc imm 9) else Inr (C_next_insn, s))
     else Inr (Illegal, s))"

abbreviation (input) CAUSE_ILLEGAL_INSTRUCTION :: int where "CAUSE_ILLEGAL_INSTRUCTION \<equiv> 2"
abbreviation (input) CAUSE_BREAKPOINT :: int where "CAUSE_BREAKPOINT \<equiv> 3"
abbreviation (input) CAUSE_USER_ECALL :: int where "CAUSE_USER_ECALL \<equiv> 8"

definition interp_c_jump :: "nat \<Rightarrow> target_ulong \<Rightarrow> u32 \<Rightarrow> 'd RISCVCPUState \<Rightarrow> 'd outcome_of" where
  "interp_c_jump xlen pc insn s =
    (let rd = drop_bit 7 insn AND 0x1f; rs2 = drop_bit 2 insn AND 0x1f in
     if drop_bit 12 insn AND 1 = 0 then
       if rs2 = 0 then if rd = 0 then Inr (Illegal, s) else Inr (Jump_insn, s\<lparr>c_pc := xreg s rd AND NOT 1\<rparr>)
       else Inr (C_next_insn, set_rd s rd (xreg s rs2))
     else if rs2 = 0 then
       if rd = 0 then Inr (Exception, s\<lparr>c_pending_exception := CAUSE_BREAKPOINT\<rparr>)
       else Inr (Jump_insn, set_xreg (s\<lparr>c_pc := xreg s rd AND NOT 1\<rparr>) 1 (pc + 2))
     else Inr (C_next_insn, set_rd s rd (intx xlen (xreg s rd + xreg s rs2))))"

definition interp_c_q2 :: "nat \<Rightarrow> 'd DevOps \<Rightarrow> target_ulong \<Rightarrow> u32 \<Rightarrow> 'd RISCVCPUState \<Rightarrow> 'd outcome_of" where
  "interp_c_q2 xlen dv pc insn s =
    (let funct3 = drop_bit 13 insn AND 7; rd = drop_bit 7 insn AND 0x1f; rs2 = drop_bit 2 insn AND 0x1f;
         access = (\<lambda>imm. intx xlen (xreg s 2 + scast imm));
         lw = (\<lambda>f. bindR (cget_field1 insn 12 5 5) (\<lambda>x. bindR (cget_field1 insn 2 6 7) (\<lambda>y. f (access (x OR (rs2 AND push_bit 2 7) OR y)))));
         ld = (\<lambda>f. bindR (cget_field1 insn 12 5 5) (\<lambda>x. bindR (cget_field1 insn 2 6 8) (\<lambda>y. f (access (x OR (rs2 AND push_bit 3 3) OR y)))));
         sw = (\<lambda>f. bindR (cget_fields insn [(9, 2, 5), (7, 6, 7)]) (\<lambda>imm. f (access imm)));
         sd = (\<lambda>f. bindR (cget_fields insn [(10, 3, 5), (7, 6, 8)]) (\<lambda>imm. f (access imm))) in
     if funct3 = 0 then bindR (cget_field1 insn 12 5 5) (\<lambda>x. let imm = x OR rs2 in
       if xlen = 32 \<and> imm AND 0x20 \<noteq> 0 then Inr (Illegal, s)
       else Inr (C_next_insn, set_rd s rd (intx xlen (push_bit (unat imm) (xreg s rd)))))
     else if funct3 = 1 then
       if c_fs s = 0 then Inr (Illegal, s)
       else ld (\<lambda>addr. reading dv s addr 3 (\<lambda>v s. Inr (C_next_insn, (set_freg s rd (v OR F64_HIGH))\<lparr>c_fs := 3\<rparr>)))
     else if funct3 = 2 then lw (\<lambda>addr. reading dv s addr 2 (\<lambda>v s. Inr (C_next_insn, set_rd s rd (int32 v))))
     else if funct3 = 3 then
       if xlen = 64 then ld (\<lambda>addr. reading dv s addr 3 (\<lambda>v s. Inr (C_next_insn, set_rd s rd v)))
       else if c_fs s = 0 then Inr (Illegal, s)
       else lw (\<lambda>addr. reading dv s addr 2 (\<lambda>v s. Inr (C_next_insn, (set_freg s rd (v OR F32_HIGH))\<lparr>c_fs := 3\<rparr>)))
     else if funct3 = 4 then interp_c_jump xlen pc insn s
     else if funct3 = 5 then
       if c_fs s = 0 then Inr (Illegal, s) else sd (\<lambda>addr. writing dv s addr (freg s rs2) 3 C_next_insn)
     else if funct3 = 6 then sw (\<lambda>addr. writing dv s addr (xreg s rs2) 2 C_next_insn)
     else if funct3 = 7 then
       if xlen = 64 then sd (\<lambda>addr. writing dv s addr (xreg s rs2) 3 C_next_insn)
       else if c_fs s = 0 then Inr (Illegal, s) else sw (\<lambda>addr. writing dv s addr (freg s rs2) 2 C_next_insn)
     else Inr (Illegal, s))"

subsection \<open>Integer instructions\<close>

definition interp_branch :: "nat \<Rightarrow> target_ulong \<Rightarrow> u32 \<Rightarrow> 'd RISCVCPUState \<Rightarrow> 'd outcome_of" where
  "interp_branch xlen pc insn s =
    (let rs1 = drop_bit 15 insn AND 0x1f; rs2 = drop_bit 20 insn AND 0x1f; funct3 = drop_bit 12 insn AND 7; k = drop_bit 1 funct3;
         a = xreg s rs1; b = xreg s rs2;
         go = (\<lambda>cond. if cond \<noteq> (funct3 AND 1 \<noteq> 0) then Inr (Jump_insn, s\<lparr>c_pc := intx xlen (pc + scast (imm_b insn))\<rparr>)
                     else Inr (Next_insn, s)) in
     if k = 0 then go (a = b)
     else if k = 2 then go (sint a < sint b)
     else if k = 3 then go (a < b)
     else Inr (Illegal, s))"

definition interp_load :: "nat \<Rightarrow> 'd DevOps \<Rightarrow> u32 \<Rightarrow> 'd RISCVCPUState \<Rightarrow> 'd outcome_of" where
  "interp_load xlen dv insn s =
    (let rd = drop_bit 7 insn AND 0x1f; rs1 = drop_bit 15 insn AND 0x1f; funct3 = drop_bit 12 insn AND 7;
         addr = xreg s rs1 + scast (imm_i insn);
         ld = (\<lambda>k f. reading dv s addr k (\<lambda>v s. Inr (Next_insn, set_rd s rd (f v)))) in
     if funct3 = 0 then ld 0 (sx 1)
     else if funct3 = 1 then ld 1 (sx 2)
     else if funct3 = 2 then ld 2 (sx 4)
     else if funct3 = 4 then ld 0 id
     else if funct3 = 5 then ld 1 id
     else if xlen = 64 \<and> funct3 = 3 then ld 3 id
     else if xlen = 64 \<and> funct3 = 6 then ld 2 id
     else if xlen = 64 \<and> funct3 = 7 then ld 3 id
     else Inr (Illegal, s))"

definition interp_store :: "nat \<Rightarrow> 'd DevOps \<Rightarrow> u32 \<Rightarrow> 'd RISCVCPUState \<Rightarrow> 'd outcome_of" where
  "interp_store xlen dv insn s =
    (let rd = drop_bit 7 insn AND 0x1f; rs1 = drop_bit 15 insn AND 0x1f; rs2 = drop_bit 20 insn AND 0x1f; funct3 = drop_bit 12 insn AND 7;
         st = (\<lambda>k. writing dv s (xreg s rs1 + scast (imm_s rd insn)) (xreg s rs2) k Next_insn) in
     if funct3 = 0 then st 0
     else if funct3 = 1 then st 1
     else if funct3 = 2 then st 2
     else if xlen = 64 then st 3
     else Inr (Illegal, s))"

definition interp_op_imm :: "nat \<Rightarrow> u32 \<Rightarrow> 'd RISCVCPUState \<Rightarrow> 'd outcome_of" where
  "interp_op_imm xlen insn s =
    (let rd = drop_bit 7 insn AND 0x1f; rs1 = drop_bit 15 insn AND 0x1f; funct3 = drop_bit 12 insn AND 7; imm = imm_i insn;
         m = of_nat xlen - 1 :: u32; a = xreg s rs1; sh = unat (imm AND m);
         val = (\<lambda>v. Inr (Next_insn, set_rd s rd v)) in
     if funct3 = 0 then val (intx xlen (a + scast imm))
     else if funct3 = 1 then
       if imm AND NOT m \<noteq> 0 then Inr (Illegal, s) else val (intx xlen (push_bit sh a))
     else if funct3 = 2 then val (of_cond (sint a < sint (scast imm :: u64)))
     else if funct3 = 3 then val (of_cond (a < scast imm))
     else if funct3 = 4 then val (a XOR scast imm)
     else if funct3 = 5 then
       if imm AND NOT (m OR 0x400) \<noteq> 0 then Inr (Illegal, s)
       else if imm AND 0x400 \<noteq> 0 then val (signed_drop_bit sh (intx xlen a))
       else val (intx xlen (drop_bit sh (uintx xlen a)))
     else if funct3 = 6 then val (a OR scast imm)
     else val (a AND scast imm))"

definition interp_op_imm_32 :: "u32 \<Rightarrow> 'd RISCVCPUState \<Rightarrow> 'd outcome_of" where
  "interp_op_imm_32 insn s =
    (let rd = drop_bit 7 insn AND 0x1f; rs1 = drop_bit 15 insn AND 0x1f; funct3 = drop_bit 12 insn AND 7; imm = imm_i insn;
         a = xreg s rs1; sh = unat (imm AND 31); val = (\<lambda>v. Inr (Next_insn, set_rd s rd v)) in
     if funct3 = 0 then val (int32 (a + scast imm))
     else if funct3 = 1 then if imm AND NOT 31 \<noteq> 0 then Inr (Illegal, s) else val (int32 (push_bit sh a))
     else if funct3 = 5 then
       if imm AND NOT (31 OR 0x400) \<noteq> 0 then Inr (Illegal, s)
       else if imm AND 0x400 \<noteq> 0 then val (scast (signed_drop_bit sh (ucast a :: u32)))
       else val (scast (drop_bit sh (ucast a :: u32)))
     else Inr (Illegal, s))"

definition interp_op :: "nat \<Rightarrow> u32 \<Rightarrow> 'd RISCVCPUState \<Rightarrow> 'd outcome_of" where
  "interp_op xlen insn s =
    (let rd = drop_bit 7 insn AND 0x1f; rs1 = drop_bit 15 insn AND 0x1f; rs2 = drop_bit 20 insn AND 0x1f; imm = drop_bit 25 insn;
         a = xreg s rs1; b = xreg s rs2; sh = unat (b AND (of_nat xlen - 1)); val = (\<lambda>v. Inr (Next_insn, set_rd s rd v)) in
     if imm = 1 then
       let funct3 = drop_bit 12 insn AND 7 in
       if funct3 = 0 then val (intx xlen (a * b))
       else if funct3 = 1 then val (glue_xlen xlen mulh32 mulh64 a b)
       else if funct3 = 2 then val (glue_xlen xlen mulhsu32 mulhsu64 a b)
       else if funct3 = 3 then val (glue_xlen xlen mulhu32 mulhu64 a b)
       else if funct3 = 4 then val (glue_xlen xlen div32 div64 a b)
       else if funct3 = 5 then val (glue_xlen xlen divu32 divu64 a b)
       else if funct3 = 6 then val (glue_xlen xlen rem32 rem64 a b)
       else val (glue_xlen xlen remu32 remu64 a b)
     else if imm AND NOT 0x20 \<noteq> 0 then Inr (Illegal, s)
     else
       let funct3 = (drop_bit 12 insn AND 7) OR (drop_bit (30 - 3) insn AND push_bit 3 1) in
       if funct3 = 0 then val (intx xlen (a + b))
       else if funct3 = 8 then val (intx xlen (a - b))
       else if funct3 = 1 then val (intx xlen (push_bit sh a))
       else if funct3 = 2 then val (of_cond (sint a < sint b))
       else if funct3 = 3 then val (of_cond (a < b))
       else if funct3 = 4 then val (a XOR b)
       else if funct3 = 5 then val (intx xlen (drop_bit sh (uintx xlen a)))
       else if funct3 = 13 then val (signed_drop_bit sh (intx xlen a))
       else if funct3 = 6 then val (a OR b)
       else if funct3 = 7 then val (a AND b)
       else Inr (Illegal, s))"

definition interp_op_32 :: "u32 \<Rightarrow> 'd RISCVCPUState \<Rightarrow> 'd outcome_of" where
  "interp_op_32 insn s =
    (let rd = drop_bit 7 insn AND 0x1f; rs1 = drop_bit 15 insn AND 0x1f; rs2 = drop_bit 20 insn AND 0x1f; imm = drop_bit 25 insn;
         a = ucast (xreg s rs1) :: u32; b = ucast (xreg s rs2) :: u32; sh = unat (xreg s rs2 AND 31);
         val = (\<lambda>v :: u32. Inr (Next_insn, set_rd s rd (scast v))) in
     if imm = 1 then
       let funct3 = drop_bit 12 insn AND 7 in
       if funct3 = 0 then val (a * b)
       else if funct3 = 4 then val (div32 a b)
       else if funct3 = 5 then val (divu32 a b)
       else if funct3 = 6 then val (rem32 a b)
       else if funct3 = 7 then val (remu32 a b)
       else Inr (Illegal, s)
     else if imm AND NOT 0x20 \<noteq> 0 then Inr (Illegal, s)
     else
       let funct3 = (drop_bit 12 insn AND 7) OR (drop_bit (30 - 3) insn AND push_bit 3 1) in
       if funct3 = 0 then val (a + b)
       else if funct3 = 8 then val (a - b)
       else if funct3 = 1 then val (push_bit sh a)
       else if funct3 = 5 then val (drop_bit sh a)
       else if funct3 = 13 then val (signed_drop_bit sh a)
       else Inr (Illegal, s))"

subsection \<open>System instructions\<close>

text \<open>\<^verbatim>\<open>ica\<close> is \<^verbatim>\<open>insn_counter_addend\<close>; the time of the host and the answers of the external memory simulators after a restart are \<open>rtc\<close> and \<open>x\<close>.\<close>

definition after_csr :: "target_ulong \<Rightarrow> u32 \<Rightarrow> u64 \<Rightarrow> int \<Rightarrow> 'd RISCVCPUState \<Rightarrow> 'd outcome_of" where
  "after_csr pc rd v2 err s =
    (let s = set_rd s rd v2 in
     if err > 0 then Inr (if err = 2 then Jump_insn else The_end, s\<lparr>c_pc := pc + 4\<rparr>) else Inr (Next_insn, s))"

definition interp_csr :: "nat \<Rightarrow> u64 \<Rightarrow> ext_state \<Rightarrow> u64 \<Rightarrow> target_ulong \<Rightarrow> u32 \<Rightarrow> 'd RISCVCPUState \<Rightarrow> 'd outcome_of" where
  "interp_csr xlen rtc x ica pc insn s =
    (let rd = drop_bit 7 insn AND 0x1f; rs1 = drop_bit 15 insn AND 0x1f; funct3 = drop_bit 12 insn AND 7; imm = drop_bit 20 insn;
         val = (if funct3 AND 4 \<noteq> 0 then ucast rs1 else xreg s rs1); funct3 = funct3 AND 3;
         s = s\<lparr>c_insn_counter := ica - word_of_int (c_n_cycles s)\<rparr>;
         write_back = (\<lambda>v2 v s. bindR (csr_write s imm v) (\<lambda>(err, s).
           if err < 0 then Inr (Illegal, s) else after_csr pc rd v2 err s)) in
     if funct3 = 1 then
       bindR (csr_read s imm True) (\<lambda>((v2, _), s).
         case v2 of None \<Rightarrow> Inr (Illegal, s) | Some v2 \<Rightarrow> write_back (intx xlen v2) val s)
     else
       bindR (csr_read s imm (rs1 \<noteq> 0)) (\<lambda>((v2, run_mode), s).
         case v2 of None \<Rightarrow> Inr (Illegal, s)
         | Some v2 \<Rightarrow>
             let v2 = intx xlen v2 in
             if run_mode = MODE_SIM_START then
               bindR (riscv_sim_cpu_start rtc x (c_simcpu s)) (\<lambda>sim. Inr (The_end, s\<lparr>c_simcpu := sim, c_pc := pc + 4\<rparr>))
             else if run_mode = MODE_SIM_STOP then
               bindR (riscv_sim_cpu_stop (c_simcpu s)) (\<lambda>sim. Inr (The_end, s\<lparr>c_simcpu := sim, c_pc := pc + 4\<rparr>))
             else if rs1 \<noteq> 0 then write_back v2 (if funct3 = 2 then v2 OR val else v2 AND NOT val) s
             else after_csr pc rd v2 0 s))"

definition interp_priv :: "target_ulong \<Rightarrow> u32 \<Rightarrow> 'd RISCVCPUState \<Rightarrow> 'd outcome_of" where
  "interp_priv pc insn s =
    (let rs1 = drop_bit 15 insn AND 0x1f; imm = drop_bit 20 insn;
         raise = (\<lambda>cause. Inr (Exception, s\<lparr>c_pending_exception := cause\<rparr>)) in
     if imm = 0 then if insn AND 0x000fff80 \<noteq> 0 then Inr (Illegal, s) else raise (CAUSE_USER_ECALL + int (c_priv s))
     else if imm = 1 then if insn AND 0x000fff80 \<noteq> 0 then Inr (Illegal, s) else raise CAUSE_BREAKPOINT
     else if imm = 0x102 then
       if insn AND 0x000fff80 \<noteq> 0 \<or> c_priv s < PRV_S then Inr (Illegal, s)
       else bindR (handle_sret (s\<lparr>c_pc := pc\<rparr>)) (\<lambda>s. Inr (The_end, s))
     else if imm = 0x302 then
       if insn AND 0x000fff80 \<noteq> 0 \<or> c_priv s < PRV_M then Inr (Illegal, s)
       else bindR (handle_mret (s\<lparr>c_pc := pc\<rparr>)) (\<lambda>s. Inr (The_end, s))
     else if imm = 0x105 then
       if insn AND 0x00007f80 \<noteq> 0 \<or> c_priv s = PRV_U then Inr (Illegal, s)
       else if c_mip s AND c_mie s = 0 then Inr (The_end, s\<lparr>c_power_down_flag := True, c_pc := pc + 4\<rparr>)
       else Inr (Next_insn, s)
     else if drop_bit 5 imm = 0x09 then
       if insn AND 0x00007f80 \<noteq> 0 \<or> c_priv s = PRV_U then Inr (Illegal, s)
       else bindR (if rs1 = 0 then tlb_flush_all s else tlb_flush_vaddr s (xreg s rs1)) (\<lambda>s. Inr (Jump_insn, s\<lparr>c_pc := pc + 4\<rparr>))
     else Inr (Illegal, s))"

definition interp_system :: "nat \<Rightarrow> u64 \<Rightarrow> ext_state \<Rightarrow> u64 \<Rightarrow> target_ulong \<Rightarrow> u32 \<Rightarrow> 'd RISCVCPUState \<Rightarrow> 'd outcome_of" where
  "interp_system xlen rtc x ica pc insn s =
    (if drop_bit 12 insn AND 3 = 0 then interp_priv pc insn s else interp_csr xlen rtc x ica pc insn s)"

definition interp_misc_mem :: "u32 \<Rightarrow> 'd RISCVCPUState \<Rightarrow> 'd outcome_of" where
  "interp_misc_mem insn s =
    (let funct3 = drop_bit 12 insn AND 7 in
     if funct3 = 0 then Inr (if insn AND 0xf00fff80 \<noteq> 0 then Illegal else Next_insn, s)
     else if funct3 = 1 then Inr (if insn \<noteq> 0x0000100f then Illegal else Next_insn, s)
     else Inr (Illegal, s))"

subsection \<open>Atomic instructions\<close>

text \<open>\<^verbatim>\<open>OP_A(size)\<close>, for \<open>2 ^ k\<close> bytes.\<close>

definition op_a :: "'d DevOps \<Rightarrow> nat \<Rightarrow> u32 \<Rightarrow> 'd RISCVCPUState \<Rightarrow> 'd outcome_of" where
  "op_a dv k insn s =
    (let rd = drop_bit 7 insn AND 0x1f; rs1 = drop_bit 15 insn AND 0x1f; rs2 = drop_bit 20 insn AND 0x1f;
         n = 2 ^ k; addr = xreg s rs1; funct5 = drop_bit 27 insn in
     if funct5 = 2 then
       if rs2 \<noteq> 0 then Inr (Illegal, s)
       else reading dv s addr k (\<lambda>r s. Inr (Next_insn, set_rd (s\<lparr>c_load_res := addr\<rparr>) rd (sx n r)))
     else if funct5 = 3 then
       if c_load_res s = addr
       then bindR (target_write dv s addr (xreg s rs2) k) (\<lambda>(ok, s). if ok then Inr (Next_insn, set_rd s rd 0) else Inr (Exception, s))
       else Inr (Next_insn, set_rd s rd 1)
     else if funct5 \<in> {1, 0, 4, 0xc, 0x8, 0x10, 0x14, 0x18, 0x1c} then
       reading dv s addr k (\<lambda>r s.
         bindR (target_write dv s addr (amo_value n funct5 (sx n r) (xreg s rs2)) k) (\<lambda>(ok, s).
           if ok then Inr (Next_insn, set_rd s rd (sx n r)) else Inr (Exception, s)))
     else Inr (Illegal, s))"

definition interp_atomic :: "nat \<Rightarrow> 'd DevOps \<Rightarrow> u32 \<Rightarrow> 'd RISCVCPUState \<Rightarrow> 'd outcome_of" where
  "interp_atomic xlen dv insn s =
    (let funct3 = drop_bit 12 insn AND 7 in
     if funct3 = 2 then op_a dv 2 insn s
     else if xlen = 64 \<and> funct3 = 3 then op_a dv 3 insn s
     else Inr (Illegal, s))"

subsection \<open>Floating point and accelerator instructions\<close>

definition interp_fload :: "'d DevOps \<Rightarrow> u32 \<Rightarrow> 'd RISCVCPUState \<Rightarrow> 'd outcome_of" where
  "interp_fload dv insn s =
    (let rd = drop_bit 7 insn AND 0x1f; rs1 = drop_bit 15 insn AND 0x1f; rs2 = drop_bit 20 insn AND 0x1f; funct3 = drop_bit 12 insn AND 7;
         addr = xreg s rs1 + scast (imm_i insn) in
     if funct3 = 2 then
       if c_fs s = 0 then Inr (Illegal, s)
       else reading dv s addr 2 (\<lambda>v s. Inr (Next_insn, (set_freg s rd (v OR F32_HIGH))\<lparr>c_fs := 3\<rparr>))
     else if funct3 = 3 then
       if c_fs s = 0 then Inr (Illegal, s)
       else reading dv s addr 3 (\<lambda>v s. Inr (Next_insn, (set_freg s rd (v OR F64_HIGH))\<lparr>c_fs := 3\<rparr>))
     else if funct3 = 7 then reading dv s addr 3 (\<lambda>v s. Inr (Next_insn, s\<lparr>c_fs := 3\<rparr>))
     else if funct3 \<in> {4, 5, 6} then
       bindR (target_write dv s (xreg s rs1 + scast (imm_s rd insn)) (xreg s rs2) 3) (\<lambda>(ok, s).
         if ok then Inr (Next_insn, s\<lparr>c_fs := 3\<rparr>) else Inr (Exception, s))
     else Inr (Illegal, s))"

definition interp_fstore :: "'d DevOps \<Rightarrow> u32 \<Rightarrow> 'd RISCVCPUState \<Rightarrow> 'd outcome_of" where
  "interp_fstore dv insn s =
    (let rd = drop_bit 7 insn AND 0x1f; rs1 = drop_bit 15 insn AND 0x1f; rs2 = drop_bit 20 insn AND 0x1f; funct3 = drop_bit 12 insn AND 7;
         addr = xreg s rs1 + scast (imm_s rd insn) in
     if c_fs s = 0 then Inr (Illegal, s)
     else if funct3 = 2 then writing dv s addr (freg s rs2) 2 Next_insn
     else if funct3 = 3 then writing dv s addr (freg s rs2) 3 Next_insn
     else Inr (Illegal, s))"

text \<open>A result and its flags stored: in a floating-point register, boxed, and in an integer register.\<close>

definition fp_result :: "nat \<Rightarrow> u32 \<Rightarrow> u64 \<times> u32 \<Rightarrow> 'd RISCVCPUState \<Rightarrow> 'd outcome_of" where
  "fp_result fsz rd r s = Inr (Next_insn, (set_freg s rd (sf_arg fsz (fst r) OR F_HIGH fsz))\<lparr>c_fflags := snd r, c_fs := 3\<rparr>)"

definition int_result :: "u32 \<Rightarrow> u64 \<times> u32 \<Rightarrow> 'd RISCVCPUState \<Rightarrow> 'd outcome_of" where
  "int_result rd r s = Inr (Next_insn, set_rd (s\<lparr>c_fflags := snd r\<rparr>) rd (fst r))"

definition with_rm :: "'d RISCVCPUState \<Rightarrow> u32 \<Rightarrow> (u32 \<Rightarrow> 'd outcome_of) \<Rightarrow> 'd outcome_of" where
  "with_rm s rm f = (let r = get_insn_rm s rm in if r < 0 then Inr (Illegal, s) else f (word_of_int r))"

text \<open>\<^verbatim>\<open>fmadd\<close>, \<^verbatim>\<open>fmsub\<close>, \<^verbatim>\<open>fnmsub\<close>, \<^verbatim>\<open>fnmadd\<close>: \<open>neg1\<close> and \<open>neg3\<close> say which operands change sign.\<close>

definition interp_fma :: "SoftFp \<Rightarrow> bool \<Rightarrow> bool \<Rightarrow> u32 \<Rightarrow> 'd RISCVCPUState \<Rightarrow> 'd outcome_of" where
  "interp_fma sf neg1 neg3 insn s =
    (let rd = drop_bit 7 insn AND 0x1f; rs1 = drop_bit 15 insn AND 0x1f; rs2 = drop_bit 20 insn AND 0x1f; rs3 = drop_bit 27 insn;
         funct3 = drop_bit 25 insn AND 3;
         fma = (\<lambda>fsz rm. let flip = (\<lambda>n v. sf_arg fsz (if n then v XOR FSIGN_MASK fsz else v)) in
           fp_result fsz rd (fma_sf sf fsz (flip neg1 (freg s rs1)) (flip False (freg s rs2)) (flip neg3 (freg s rs3)) rm (c_fflags s)) s) in
     if c_fs s = 0 then Inr (Illegal, s)
     else with_rm s (drop_bit 12 insn AND 7) (\<lambda>rm.
       if funct3 = 0 then fma 32 rm else if funct3 = 1 then fma 64 rm else Inr (Illegal, s)))"

text \<open>
  The cases of one inclusion of \<^verbatim>\<open>riscv_cpu_fp_template.h\<close> for the operand size \<open>fsz\<close>; \<open>None\<close> when no label matches.
\<close>

definition interp_fp_arith :: "SoftFp \<Rightarrow> nat \<Rightarrow> u32 \<Rightarrow> 'd RISCVCPUState \<Rightarrow> 'd outcome_of option" where
  "interp_fp_arith sf fsz insn s =
    (let rd = drop_bit 7 insn AND 0x1f; rs2 = drop_bit 20 insn AND 0x1f; imm = drop_bit 25 insn; rm = drop_bit 12 insn AND 7;
         op = (\<lambda>k. push_bit 2 k OR (if fsz = 32 then 0 else 1)); fl = c_fflags s;
         u = freg s (drop_bit 15 insn AND 0x1f); v = freg s rs2; a = sf_arg fsz u; b = sf_arg fsz v; m = FSIGN_MASK fsz;
         put = (\<lambda>r. fp_result fsz rd r s);
         sgn = (\<lambda>r. Inr (Next_insn, (set_freg s rd r)\<lparr>c_fs := 3\<rparr>)) in
     if imm = op 0x00 then Some (with_rm s rm (\<lambda>rm. put (add_sf sf fsz a b rm fl)))
     else if imm = op 0x01 then Some (with_rm s rm (\<lambda>rm. put (sub_sf sf fsz a b rm fl)))
     else if imm = op 0x02 then Some (with_rm s rm (\<lambda>rm. put (mul_sf sf fsz a b rm fl)))
     else if imm = op 0x03 then Some (with_rm s rm (\<lambda>rm. put (div_sf sf fsz a b rm fl)))
     else if imm = op 0x0b then Some (with_rm s rm (\<lambda>rm. if rs2 \<noteq> 0 then Inr (Illegal, s) else put (sqrt_sf sf fsz a rm fl)))
     else if imm = op 0x04 then Some
       (if rm = 0 then sgn ((u AND NOT m) OR (v AND m))
        else if rm = 1 then sgn ((u AND NOT m) OR ((v AND m) XOR m))
        else if rm = 2 then sgn (u XOR (v AND m))
        else Inr (Illegal, s))
     else if imm = op 0x05 then Some
       (if rm = 0 then put (min_sf sf fsz a b fl) else if rm = 1 then put (max_sf sf fsz a b fl) else Inr (Illegal, s))
     else None)"

definition interp_fp_convert :: "nat \<Rightarrow> SoftFp \<Rightarrow> nat \<Rightarrow> u32 \<Rightarrow> 'd RISCVCPUState \<Rightarrow> 'd outcome_of option" where
  "interp_fp_convert xlen sf fsz insn s =
    (let rd = drop_bit 7 insn AND 0x1f; rs1 = drop_bit 15 insn AND 0x1f; rs2 = drop_bit 20 insn AND 0x1f; imm = drop_bit 25 insn;
         rm = drop_bit 12 insn AND 7; op = (\<lambda>k. push_bit 2 k OR (if fsz = 32 then 0 else 1)); fl = c_fflags s;
         u = freg s rs1; a = sf_arg fsz u; b = sf_arg fsz (freg s rs2); i = xreg s rs1;
         put = (\<lambda>r. fp_result fsz rd r s); int_put = (\<lambda>r. int_result rd r s); sext = (\<lambda>(r :: u32, fl). (scast r, fl)) in
     if imm = op 0x18 then Some (with_rm s rm (\<lambda>rm.
       if rs2 = 0 then int_put (sext (cvt_sf_i32 sf fsz a rm fl))
       else if rs2 = 1 then int_put (sext (cvt_sf_u32 sf fsz a rm fl))
       else if xlen = 64 \<and> rs2 = 2 then int_put (cvt_sf_i64 sf fsz a rm fl)
       else if xlen = 64 \<and> rs2 = 3 then int_put (cvt_sf_u64 sf fsz a rm fl)
       else Inr (Illegal, s)))
     else if imm = op 0x14 then Some
       (if rm = 0 then int_put (le_sf sf fsz a b fl)
        else if rm = 1 then int_put (lt_sf sf fsz a b fl)
        else if rm = 2 then int_put (eq_quiet_sf sf fsz a b fl)
        else Inr (Illegal, s))
     else if imm = op 0x1a then Some (with_rm s rm (\<lambda>rm.
       if rs2 = 0 then put (cvt_i32_sf sf fsz (ucast i) rm fl)
       else if rs2 = 1 then put (cvt_u32_sf sf fsz (ucast i) rm fl)
       else if xlen = 64 \<and> rs2 = 2 then put (cvt_i64_sf sf fsz i rm fl)
       else if xlen = 64 \<and> rs2 = 3 then put (cvt_u64_sf sf fsz i rm fl)
       else Inr (Illegal, s)))
     else if imm = op 0x08 then Some (with_rm s rm (\<lambda>rm.
       if fsz = 32 \<and> rs2 = 1 then put (cvt_sf64_sf32 sf u rm fl)
       else if fsz = 64 \<and> rs2 = 0 then put (cvt_sf32_sf64 sf (sf_arg 32 u) fl)
       else Inr (Illegal, s)))
     else if imm = op 0x1c then Some
       (if rs2 \<noteq> 0 then Inr (Illegal, s)
        else if fsz \<le> xlen \<and> rm = 0 then Inr (Next_insn, set_rd s rd (if fsz = 32 then int32 u else u))
        else if rm = 1 then Inr (Next_insn, set_rd s rd (ucast (fclass_sf sf fsz a)))
        else Inr (Illegal, s))
     else if fsz \<le> xlen \<and> imm = op 0x1e then Some
       (if rs2 \<noteq> 0 \<or> rm \<noteq> 0 then Inr (Illegal, s)
        else Inr (Next_insn, (set_freg s rd (if fsz = 32 then int32 i else i))\<lparr>c_fs := 3\<rparr>))
     else None)"

definition interp_fp :: "nat \<Rightarrow> SoftFp \<Rightarrow> u32 \<Rightarrow> 'd RISCVCPUState \<Rightarrow> 'd outcome_of" where
  "interp_fp xlen sf insn s =
    (if c_fs s = 0 then Inr (Illegal, s)
     else case interp_fp_arith sf 32 insn s of Some r \<Rightarrow> r
     | None \<Rightarrow> (case interp_fp_convert xlen sf 32 insn s of Some r \<Rightarrow> r
     | None \<Rightarrow> (case interp_fp_arith sf 64 insn s of Some r \<Rightarrow> r
     | None \<Rightarrow> (case interp_fp_convert xlen sf 64 insn s of Some r \<Rightarrow> r
     | None \<Rightarrow> Inr (Illegal, s)))))"

definition interp_aim_custom_1 :: "'d DevOps \<Rightarrow> u32 \<Rightarrow> 'd RISCVCPUState \<Rightarrow> 'd outcome_of" where
  "interp_aim_custom_1 dv insn s =
    (let rd = drop_bit 7 insn AND 0x1f; rs1 = drop_bit 15 insn AND 0x1f; rs2 = drop_bit 20 insn AND 0x1f
     in writing dv s (xreg s rs1 + scast (imm_s rd insn)) (xreg s rs2) 3 Next_insn)"

section \<open>The main loop\<close>

text \<open>What the emulator calls: the routines of \<^verbatim>\<open>softfp.h\<close>, the devices, the pipeline of the simulated core, and the values of the host at a restart.\<close>

record ('c, 'd) InterpEnv =
  e_sf :: SoftFp
  e_dv :: "'d DevOps"
  e_core_reset :: "'c \<Rightarrow> sim_error + 'c"
  e_core_run :: "'c \<times> 'd RISCVCPUState \<Rightarrow> (sim_error + int \<times> 'c \<times> 'd RISCVCPUState) option"
  e_rtc :: u64
  e_ext :: ext_state

definition interp_insn :: "nat \<Rightarrow> ('c, 'd) InterpEnv \<Rightarrow> u64 \<Rightarrow> target_ulong \<Rightarrow> u32 \<Rightarrow> 'd RISCVCPUState \<Rightarrow> 'd outcome_of" where
  "interp_insn xlen env ica pc insn s =
    (let opcode = insn AND 0x7f; rd = drop_bit 7 insn AND 0x1f; rs1 = drop_bit 15 insn AND 0x1f; dv = e_dv env; sf = e_sf env;
         upper = scast (insn AND 0xfffff000) in
     if insn AND 3 = 0 then interp_c_q0 xlen dv insn s
     else if insn AND 3 = 1 then interp_c_q1 xlen pc insn s
     else if insn AND 3 = 2 then interp_c_q2 xlen dv pc insn s
     else if opcode = 0x37 then Inr (Next_insn, set_rd s rd upper)
     else if opcode = 0x17 then Inr (Next_insn, set_rd s rd (intx xlen (pc + upper)))
     else if opcode = 0x6f then Inr (Jump_insn, (set_rd s rd (pc + 4))\<lparr>c_pc := intx xlen (pc + scast (imm_j insn))\<rparr>)
     else if opcode = 0x67 then
       Inr (Jump_insn, set_rd (s\<lparr>c_pc := intx xlen (xreg s rs1 + scast (imm_i insn)) AND NOT 1\<rparr>) rd (pc + 4))
     else if opcode = 0x63 then interp_branch xlen pc insn s
     else if opcode = 0x03 then interp_load xlen dv insn s
     else if opcode = 0x23 then interp_store xlen dv insn s
     else if opcode = 0x13 then interp_op_imm xlen insn s
     else if xlen = 64 \<and> opcode = 0x1b then interp_op_imm_32 insn s
     else if opcode = 0x33 then interp_op xlen insn s
     else if xlen = 64 \<and> opcode = 0x3b then interp_op_32 insn s
     else if opcode = 0x73 then interp_system xlen (e_rtc env) (e_ext env) ica pc insn s
     else if opcode = 0x0f then interp_misc_mem insn s
     else if opcode = 0x2f then interp_atomic xlen dv insn s
     else if opcode = 0x07 then interp_fload dv insn s
     else if opcode = 0x27 then interp_fstore dv insn s
     else if opcode = 0x43 then interp_fma sf False False insn s
     else if opcode = 0x47 then interp_fma sf False True insn s
     else if opcode = 0x4b then interp_fma sf True False insn s
     else if opcode = 0x4f then interp_fma sf True True insn s
     else if opcode = 0x53 then interp_fp xlen sf insn s
     else if xlen = 64 \<and> opcode = 0x2b then interp_aim_custom_1 dv insn s
     else Inr (Illegal, s))"

text \<open>
  The local variables \<^verbatim>\<open>code_ptr\<close>, \<^verbatim>\<open>code_end\<close> and \<^verbatim>\<open>code_to_pc_addend\<close>; \<open>get_pc\<close> is \<^verbatim>\<open>GET_PC()\<close>. The two pointers are
  addresses of the host as integers: C leaves a pointer that leaves its object undefined, so they do not wrap.
\<close>

type_synonym code_block = "int \<times> int \<times> target_ulong"

definition get_pc :: "code_block \<Rightarrow> target_ulong" where
  "get_pc b = (case b of (code_ptr, code_end, addend) \<Rightarrow> word_of_int code_ptr + addend)"

datatype fetched = Fetched u32 | Fetch_fault | Fetch_end

definition interp_fetch :: "code_block \<Rightarrow> 'd RISCVCPUState \<Rightarrow> sim_error + fetched \<times> code_block \<times> 'd RISCVCPUState" where
  "interp_fetch b s =
    (case b of (code_ptr, code_end, addend) \<Rightarrow>
     if code_end \<le> code_ptr then
       let s = s\<lparr>c_pc := get_pc b\<rparr> in
       if c_n_cycles s \<le> 0 then Inr (Fetch_end, b, s)
       else bindR (if c_mip s AND c_mie s \<noteq> 0 then raise_interrupt s else Inr (False, s)) (\<lambda>(irq, s).
         if irq then Inr (Fetch_end, b, s\<lparr>c_n_cycles := c_n_cycles s - 1\<rparr>)
         else let addr = c_pc s in
           bindR (aget (c_tlb_code s) (tlb_idx s addr)) (\<lambda>t.
           bindR (if t_vaddr t = addr AND NOT PG_MASK then Inr (Some (t_mem_addend t + addr), s)
                  else target_read_insn_slow s addr) (\<lambda>(ptr, s).
             case ptr of None \<Rightarrow> Inr (Fetch_fault, b, s)
             | Some ptr \<Rightarrow>
                 let code_end = uint ptr + sint (PG_MASK - 1 - (addr AND PG_MASK)); b = (uint ptr, code_end, addr - ptr) in
                 if code_end \<le> uint ptr
                 then let lo = ucast (load_le (c_host s) ptr 2) in
                      if lo AND 3 = 3
                      then bindR (target_read_insn_u16 s (addr + 2)) (\<lambda>(hi, s).
                             case hi of None \<Rightarrow> Inr (Fetch_fault, b, s)
                             | Some hi \<Rightarrow> Inr (Fetched (lo OR push_bit 16 hi), b, s))
                      else Inr (Fetched lo, b, s)
                 else Inr (Fetched (get_insn32 s ptr), b, s))))
     else Inr (Fetched (get_insn32 s (word_of_int code_ptr)), b, s))"

text \<open>The labels at which the loop ends; \<open>To_illegal\<close> keeps the variable \<^verbatim>\<open>insn\<close>, \<open>None\<close> when it was never set.\<close>

datatype label = To_illegal "u32 option" | To_exception | To_end

text \<open>The code after the switch, from \<^verbatim>\<open>jump_insn\<close>.\<close>

definition jump_label :: "code_block \<Rightarrow> 'd RISCVCPUState \<Rightarrow> sim_error + label option \<times> code_block \<times> 'd RISCVCPUState" where
  "jump_label b s =
    (if sc_return_to_sim (c_simcpu s)
     then Inr (Some To_end, b, s\<lparr>c_simcpu := (c_simcpu s)\<lparr>sc_return_to_sim := False\<rparr>, c_pc := get_pc b\<rparr>)
     else if in_simulation s then Inl Assert_failed
     else Inr (None, b, s))"

definition interp_body ::
  "nat \<Rightarrow> ('c, 'd) InterpEnv \<Rightarrow> u64 \<Rightarrow> code_block \<Rightarrow> 'd RISCVCPUState \<Rightarrow> sim_error + label option \<times> code_block \<times> 'd RISCVCPUState" where
  "interp_body xlen env ica b s =
    bindR (interp_fetch b s) (\<lambda>(f, b, s).
      case f of Fetch_fault \<Rightarrow> Inr (Some To_exception, b, s)
      | Fetch_end \<Rightarrow> Inr (Some To_end, b, s)
      | Fetched insn \<Rightarrow>
          bindR (interp_insn xlen env ica (get_pc b) insn (s\<lparr>c_n_cycles := c_n_cycles s - 1\<rparr>)) (\<lambda>(fl, s).
            case b of (code_ptr, code_end, addend) \<Rightarrow>
            case fl of Next_insn \<Rightarrow> jump_label (code_ptr + 4, code_end, addend) s
            | C_next_insn \<Rightarrow> jump_label (code_ptr + 2, code_end, addend) s
            | Jump_insn \<Rightarrow> jump_label (0, 0, c_pc s) s
            | Illegal \<Rightarrow> Inr (Some (To_illegal (Some insn)), b, s)
            | Exception \<Rightarrow> Inr (Some To_exception, b, s)
            | The_end \<Rightarrow> Inr (Some To_end, b, s)))"

partial_function (option) interp_loop ::
  "nat \<Rightarrow> ('c, 'd) InterpEnv \<Rightarrow> u64 \<Rightarrow> code_block \<Rightarrow> 'd RISCVCPUState
     \<Rightarrow> (sim_error + label \<times> code_block \<times> 'd RISCVCPUState) option" where
  "interp_loop xlen env ica b s =
    (case interp_body xlen env ica b s of
       Inl e \<Rightarrow> Some (Inl e)
     | Inr (l, b, s) \<Rightarrow> (case l of Some l \<Rightarrow> Some (Inr (l, b, s)) | None \<Rightarrow> interp_loop xlen env ica b s))"

text \<open>The end of the function, from the label that was taken.\<close>

definition interp_end :: "u64 \<Rightarrow> label \<Rightarrow> code_block \<Rightarrow> 'd RISCVCPUState \<Rightarrow> sim_error + 'd RISCVCPUState" where
  "interp_end ica l b s =
    (let count_insns = (\<lambda>s. Inr (s\<lparr>c_insn_counter := ica - word_of_int (c_n_cycles s)\<rparr>));
         exception = (\<lambda>s. let s = s\<lparr>c_pc := get_pc b\<rparr> in
           if 0 \<le> c_pending_exception s
           then bindR (raise_exception2 (s\<lparr>c_n_cycles := c_n_cycles s - 1\<rparr>) (word_of_int (c_pending_exception s)) (c_pending_tval s)) count_insns
           else count_insns s) in
     case l of To_end \<Rightarrow> count_insns s
     | To_exception \<Rightarrow> exception s
     | To_illegal insn \<Rightarrow> (case insn of None \<Rightarrow> Inl Uninitialized
         | Some w \<Rightarrow> exception (s\<lparr>c_pending_exception := CAUSE_ILLEGAL_INSTRUCTION, c_pending_tval := ucast w\<rparr>)))"

text \<open>The bookkeeping for a system instruction that the simulation hands to the emulator.\<close>

definition enter_complex :: "'d RISCVCPUState \<Rightarrow> sim_error + 'd RISCVCPUState" where
  "enter_complex s =
    (let sim = c_simcpu s; lat = word_of_int (system_insn_latency (sc_params sim));
         s = s\<lparr>c_simcpu := sim\<lparr>sc_return_to_sim := True, sc_icount := sc_icount sim + 1\<rparr>\<rparr> in
     bindR (count (ins_simulated_update (\<lambda>c. c + 1)) s) (\<lambda>s.
     bindR (count (ins_emulated_update (\<lambda>c. c + 1)) s) (\<lambda>s.
       count (cycles_update (\<lambda>c. c + lat)) (s\<lparr>c_simcpu := (c_simcpu s)\<lparr>sc_clock := sc_clock (c_simcpu s) + lat\<rparr>\<rparr>))))"

text \<open>What follows a simulation: the label at which the emulator goes on, \<open>None\<close> for the main loop.\<close>

definition leave_simulation :: "int \<Rightarrow> 'd RISCVCPUState \<Rightarrow> sim_error + label option \<times> 'd RISCVCPUState" where
  "leave_simulation status s =
    (if status = SIM_ILLEGAL_OPCODE_EXCEPTION then Inr (Some (To_illegal None), s)
     else if status = SIM_COMPLEX_OPCODE_EXCEPTION then bindR (enter_complex s) (\<lambda>s. Inr (None, s))
     else if status = SIM_TEMU_TIMEOUT_EXCEPTION then thenR (sim_assert (c_n_cycles s = 0)) (Inr (None, s))
     else if status = SIM_MMU_EXCEPTION then Inr (Some To_exception, s)
     else if status = SIM_ICOUNT_COMPLETE_EXCEPTION
     then bindR (riscv_sim_cpu_stop (c_simcpu s)) (\<lambda>sim. Inr (None, s\<lparr>c_simcpu := sim\<rparr>))
     else Inl Program_exit)"

definition interp_from ::
  "nat \<Rightarrow> ('c, 'd) InterpEnv \<Rightarrow> u64 \<Rightarrow> 'c \<Rightarrow> label option \<Rightarrow> code_block \<Rightarrow> 'd RISCVCPUState \<Rightarrow> (sim_error + 'c \<times> 'd RISCVCPUState) option" where
  "interp_from xlen env ica core l b s =
    (let finish = (\<lambda>(l, b, s). bindR (interp_end ica l b s) (\<lambda>s. Inr (core, s))) in
     case l of Some l \<Rightarrow> Some (finish (l, b, s))
     | None \<Rightarrow> map_option (\<lambda>r. bindR r finish) (interp_loop xlen env ica b s))"

definition riscv_cpu_interp_x ::
  "nat \<Rightarrow> ('c, 'd) InterpEnv \<Rightarrow> int \<Rightarrow> 'c \<times> 'd RISCVCPUState \<Rightarrow> (sim_error + 'c \<times> 'd RISCVCPUState) option" where
  "riscv_cpu_interp_x xlen env n_cycles1 cs =
    (if n_cycles1 = 0 then Some (Inr cs)
     else let (core, s) = cs; ica = c_insn_counter s + word_of_int n_cycles1; s = s\<lparr>c_n_cycles := n_cycles1\<rparr> in
       case (if c_mip s AND c_mie s \<noteq> 0 then raise_interrupt s else Inr (False, s)) of
         Inl e \<Rightarrow> Some (Inl e)
       | Inr (irq, s) \<Rightarrow>
           if irq then interp_from xlen env ica core (Some To_end) (0, 0, c_pc s) (s\<lparr>c_n_cycles := c_n_cycles s - 1\<rparr>)
           else let s = s\<lparr>c_pending_exception := - 1\<rparr>; b = (0, 0, c_pc s) in
             if in_simulation s
             then Option.bind (riscv_sim_cpu_switch_to_cpu_simulation (e_core_reset env) (e_core_run env)
                    (core, s\<lparr>c_code_ptr := 0, c_code_end := 0, c_code_to_pc_addend := c_pc s\<rparr>)) (\<lambda>r.
                    case r of Inl e \<Rightarrow> Some (Inl e)
                    | Inr (status, core, s) \<Rightarrow>
                        (case leave_simulation status s of
                           Inl e \<Rightarrow> Some (Inl e)
                         | Inr (l, s') \<Rightarrow> interp_from xlen env ica core l (0, 0, x_pc (sc_exception (c_simcpu s))) s'))
             else interp_from xlen env ica core None b s)"

text \<open>Any other width aborts.\<close>

definition interp_width ::
  "('c, 'd) InterpEnv \<Rightarrow> int \<Rightarrow> 'c \<times> 'd RISCVCPUState \<Rightarrow> (sim_error + 'c \<times> 'd RISCVCPUState) option" where
  "interp_width env n_cycles cs =
     (let xlen = c_cur_xlen (snd cs) in
      if xlen = 32 \<or> xlen = 64 then riscv_cpu_interp_x xlen env n_cycles cs else Some (Inl Assert_failed))"

definition cycles_left :: "u64 \<Rightarrow> 'd RISCVCPUState \<Rightarrow> int" where
  "cycles_left timeout s = sint (ucast (timeout - c_insn_counter s) :: u32)"

partial_function (option) interp_until ::
  "('c, 'd) InterpEnv \<Rightarrow> u64 \<Rightarrow> 'c \<times> 'd RISCVCPUState \<Rightarrow> (sim_error + 'c \<times> 'd RISCVCPUState) option" where
  "interp_until env timeout cs =
     (if \<not> c_power_down_flag (snd cs) \<and> 0 < cycles_left timeout (snd cs)
      then Option.bind (interp_width env (cycles_left timeout (snd cs)) cs) (\<lambda>r.
             case r of Inl err \<Rightarrow> Some (Inl err) | Inr cs \<Rightarrow> interp_until env timeout cs)
      else Some (Inr cs))"

definition riscv_cpu_interp ::
  "('c, 'd) InterpEnv \<Rightarrow> int \<Rightarrow> 'c \<times> 'd RISCVCPUState \<Rightarrow> (sim_error + 'c \<times> 'd RISCVCPUState) option" where
  "riscv_cpu_interp env n_cycles cs = interp_until env (c_insn_counter (snd cs) + word_of_int n_cycles) cs"

end
