(* ===== verification/Interp_Cycles.thy ===== *)
theory Interp_Cycles
  imports Interp Csr_Props
begin

text \<open>The cycle counter of the emulator: only its main loop changes it, and so the loop ends.\<close>

section \<open>Nothing but the main loop counts cycles\<close>

text \<open>The callbacks of the devices raise and clear interrupts; they do not touch the cycle counter of the emulator.\<close>

definition devices_keep_cycles :: "'d DevOps \<Rightarrow> bool" where
  "devices_keep_cycles dv \<longleftrightarrow>
     (\<forall>i off k s. c_n_cycles (snd (dv_read dv i off k s)) = c_n_cycles s)
   \<and> (\<forall>i off v k s. c_n_cycles (dv_write dv i off v k s) = c_n_cycles s)"

named_theorems same_n \<open>an operation that returns leaves the cycle counter as it was\<close>

lemma count_n [same_n]: "count f s = Inr s' \<Longrightarrow> c_n_cycles s' = c_n_cycles s"
  by (auto simp: count_def elim!: bindR_eq_InrE)

lemma count_sim_n [same_n]: "count_sim f s = Inr s' \<Longrightarrow> c_n_cycles s' = c_n_cycles s"
  by (auto simp: count_sim_def dest: count_n split: if_splits)

lemma with_bpu_n [same_n]: "with_bpu f s = Inr (r, s') \<Longrightarrow> c_n_cycles s' = c_n_cycles s"
  by (auto simp: with_bpu_def elim!: bindR_eq_InrE)

lemma tlb_init_n [same_n]: "tlb_init s = Inr s' \<Longrightarrow> c_n_cycles s' = c_n_cycles s"
  by (auto simp: tlb_init_def Let_def dest!: with_bpu_n elim!: bindR_eq_InrE split: if_splits)

lemma tlb_flush_all_n [same_n]: "tlb_flush_all s = Inr s' \<Longrightarrow> c_n_cycles s' = c_n_cycles s"
  by (simp add: tlb_flush_all_def tlb_init_n)

lemma tlb_flush_vaddr_n [same_n]: "tlb_flush_vaddr s a = Inr s' \<Longrightarrow> c_n_cycles s' = c_n_cycles s"
  by (simp add: tlb_flush_vaddr_def tlb_flush_all_n)

lemma phys_write_u64_n [simp]: "c_n_cycles (phys_write_u64 s a v) = c_n_cycles s"
  by (simp add: phys_write_u64_def split: option.split)

lemma pte_walk_n [same_n]: "pte_walk s priv access vaddr a n = (r, s') \<Longrightarrow> c_n_cycles s' = c_n_cycles s"
  by (induction s priv access vaddr a n rule: pte_walk.induct) (auto simp: Let_def split: if_splits)

lemma get_phys_addr_n [same_n]: "get_phys_addr s a access = Inr (r, s') \<Longrightarrow> c_n_cycles s' = c_n_cycles s"
  by (auto simp: get_phys_addr_def Let_def dest!: count_sim_n pte_walk_n elim!: bindR_eq_InrE split: if_splits)

subsection \<open>Memory accesses\<close>

abbreviation reader_n :: "'d reader \<Rightarrow> bool" where
  "reader_n f \<equiv> (\<forall>s a k r s'. f s a k = Inr (r, s') \<longrightarrow> c_n_cycles s' = c_n_cycles s)"

abbreviation writer_n :: "'d writer \<Rightarrow> bool" where
  "writer_n f \<equiv> (\<forall>s a v k r s'. f s a v k = Inr (r, s') \<longrightarrow> c_n_cycles s' = c_n_cycles s)"

lemma device_read_n: "device_read dv pr off k s = (v, s') \<Longrightarrow> devices_keep_cycles dv \<Longrightarrow> c_n_cycles s' = c_n_cycles s"
  by (auto simp: device_read_def devices_keep_cycles_def Let_def split: prod.splits if_splits) (metis snd_conv)+

lemma device_write_n: "devices_keep_cycles dv \<Longrightarrow> c_n_cycles (device_write dv pr off v k s) = c_n_cycles s"
  by (simp add: device_write_def devices_keep_cycles_def)

lemma read_aligned_n:
  assumes "devices_keep_cycles dv"
  shows "reader_n (read_aligned dv)"
proof (intro allI impI)
  fix s :: "'a RISCVCPUState" and a k r s' assume "read_aligned dv s a k = Inr (r, s')"
  then show "c_n_cycles s' = c_n_cycles s" unfolding read_aligned_def
    by (auto simp: Let_def dest!: get_phys_addr_n device_read_n [OF _ assms] elim!: bindR_eq_InrE split: option.splits if_splits prod.splits)
qed

lemma target_read_with_n: "reader_n f \<Longrightarrow> reader_n (target_read_with dv f)"
  by (fastforce simp: target_read_with_def Let_def dest!: count_sim_n elim!: bindR_eq_InrE split: if_splits)

lemma target_read_slow_n: "devices_keep_cycles dv \<Longrightarrow> reader_n f \<Longrightarrow> reader_n (target_read_slow dv f)"
  using read_aligned_n by (fastforce simp: target_read_slow_def Let_def elim!: bindR_eq_InrE split: if_splits option.splits)

lemma target_read_n:
  assumes "devices_keep_cycles dv" and "target_read dv s a k = Inr (r, s')"
  shows "c_n_cycles s' = c_n_cycles s"
proof -
  have "reader_n (target_read dv)"
    unfolding target_read_def target_read_aligned_def
    by (intro target_read_with_n target_read_slow_n read_aligned_n assms(1))
  then show ?thesis using assms(2) by blast
qed

lemma write_aligned_n:
  assumes "devices_keep_cycles dv"
  shows "writer_n (write_aligned dv)"
proof (intro allI impI)
  fix s :: "'a RISCVCPUState" and a v k r s' assume "write_aligned dv s a v k = Inr (r, s')"
  then show "c_n_cycles s' = c_n_cycles s" unfolding write_aligned_def
    by (auto simp: Let_def device_write_n [OF assms] dest!: get_phys_addr_n elim!: bindR_eq_InrE split: option.splits if_splits)
qed

lemma write_bytes_n: "writer_n f \<Longrightarrow> write_bytes f s a v n = Inr (r, s') \<Longrightarrow> c_n_cycles s' = c_n_cycles s"
proof (induction n arbitrary: s a v)
  case (Suc n)
  from Suc.prems(2) obtain ok s1 where s1: "f s a (v AND 0xff) 0 = Inr (ok, s1)"
    "(if ok then write_bytes f s1 (a + 1) (drop_bit 8 v) n else Inr (False, s1)) = Inr (r, s')"
    unfolding write_bytes.simps by (elim bindR_eq_InrE) (simp split: prod.splits)
  have "c_n_cycles s1 = c_n_cycles s" using Suc.prems(1) s1(1) by blast
  moreover have "c_n_cycles s' = c_n_cycles s1"
  proof (cases ok)
    case True
    then show ?thesis using Suc.IH [OF Suc.prems(1), of s1 "a + 1" "drop_bit 8 v"] s1(2) by simp
  qed (use s1(2) in simp)
  ultimately show ?case by simp
qed simp

lemma target_write_with_n:
  assumes "writer_n f"
  shows "writer_n (target_write_with dv f)"
proof (intro allI impI)
  fix s a v k r s' assume w: "target_write_with dv f s a v k = Inr (r, s')"
  have f: "c_n_cycles s' = c_n_cycles s" if "f s a v k = Inr (r, s')" for s a v k r s' using assms that by blast
  show "c_n_cycles s' = c_n_cycles s" using w unfolding target_write_with_def Let_def
    by (auto dest!: count_sim_n f elim!: bindR_eq_InrE split: if_splits)
qed

lemma target_write_slow_n:
  assumes "devices_keep_cycles dv" and "writer_n f"
  shows "writer_n (target_write_slow dv f)"
proof (intro allI impI)
  fix s a v k r s' assume w: "target_write_slow dv f s a v k = Inr (r, s')"
  have "c_n_cycles s' = c_n_cycles s" if "write_aligned dv s a v k = Inr (r, s')" using write_aligned_n [OF assms(1)] that by blast
  then show "c_n_cycles s' = c_n_cycles s" using w write_bytes_n [OF assms(2)] unfolding target_write_slow_def Let_def
    by (simp split: if_splits)
qed

lemma target_write_n:
  assumes "devices_keep_cycles dv" and "target_write dv s a v k = Inr (r, s')"
  shows "c_n_cycles s' = c_n_cycles s"
proof -
  have "writer_n (target_write dv)"
    unfolding target_write_def target_write_aligned_def
    by (intro target_write_with_n target_write_slow_n write_aligned_n assms(1))
  then show ?thesis using assms(2) by blast
qed

lemma target_read_insn_slow_n [same_n]: "target_read_insn_slow s a = Inr (r, s') \<Longrightarrow> c_n_cycles s' = c_n_cycles s"
  by (auto simp: target_read_insn_slow_def dest!: get_phys_addr_n elim!: bindR_eq_InrE split: option.splits)

lemma target_read_insn_u16_n [same_n]: "target_read_insn_u16 s a = Inr (r, s') \<Longrightarrow> c_n_cycles s' = c_n_cycles s"
  by (auto simp: target_read_insn_u16_def dest!: count_n target_read_insn_slow_n elim!: bindR_eq_InrE split: if_splits)

subsection \<open>Control registers and traps\<close>

lemma set_mstatus_n [same_n]: "set_mstatus s v = Inr s' \<Longrightarrow> c_n_cycles s' = c_n_cycles s"
  by (auto simp: set_mstatus_def Let_def dest!: tlb_flush_all_n elim!: bindR_eq_InrE split: if_splits)

lemma csr_read_n [same_n]: "csr_read s csr w = Inr (r, s') \<Longrightarrow> c_n_cycles s' = c_n_cycles s"
  by (auto simp: csr_read_def dest!: count_sim_n elim!: bindR_eq_InrE split: if_splits)

lemma set_priv_n [same_n]: "set_priv s p = Inr s' \<Longrightarrow> c_n_cycles s' = c_n_cycles s"
  by (auto simp: set_priv_def Let_def dest!: tlb_flush_all_n elim!: bindR_eq_InrE split: if_splits)

lemma csr_write_n [same_n]: "csr_write s csr v = Inr (r, s') \<Longrightarrow> c_n_cycles s' = c_n_cycles s"
  unfolding csr_write_def Let_def
  by (auto simp: set_frm_def dest!: count_sim_n set_mstatus_n tlb_flush_all_n elim!: bindR_eq_InrE split: if_splits)

lemma raise_exception2_n [same_n]: "raise_exception2 s c t = Inr s' \<Longrightarrow> c_n_cycles s' = c_n_cycles s"
  by (auto simp: raise_exception2_def count_cause_def Let_def dest!: count_n set_priv_n elim!: bindR_eq_InrE split: if_splits)

lemma handle_sret_n [same_n]: "handle_sret s = Inr s' \<Longrightarrow> c_n_cycles s' = c_n_cycles s"
  by (auto simp: handle_sret_def Let_def dest!: set_priv_n elim!: bindR_eq_InrE)

lemma handle_mret_n [same_n]: "handle_mret s = Inr s' \<Longrightarrow> c_n_cycles s' = c_n_cycles s"
  by (auto simp: handle_mret_def Let_def dest!: set_priv_n elim!: bindR_eq_InrE)

lemma raise_interrupt_n [same_n]: "raise_interrupt s = Inr (r, s') \<Longrightarrow> c_n_cycles s' = c_n_cycles s"
  by (auto simp: raise_interrupt_def raise_exception_def Let_def dest!: raise_exception2_n elim!: bindR_eq_InrE split: if_splits)

subsection \<open>Instructions\<close>

lemma set_regs_n [simp]: "c_n_cycles (set_xreg s r v) = c_n_cycles s" "c_n_cycles (set_rd s r v) = c_n_cycles s"
  "c_n_cycles (set_freg s r v) = c_n_cycles s"
  by (simp_all add: set_xreg_def set_rd_def set_freg_def)

text \<open>An instruction that started with the cycle count \<open>n\<close> ends with it.\<close>

definition keeps_n :: "int \<Rightarrow> 'd outcome_of \<Rightarrow> bool" where
  "keeps_n n r \<longleftrightarrow> (\<forall>fl s'. r = Inr (fl, s') \<longrightarrow> c_n_cycles s' = n)"

named_theorems keeps_n \<open>rules for the cycle count of an instruction\<close>

lemma keeps_n_basic [keeps_n]:
  "c_n_cycles s = n \<Longrightarrow> keeps_n n (Inr (fl, s))" "keeps_n n (Inl e)"
  "(c \<Longrightarrow> keeps_n n a) \<Longrightarrow> (\<not> c \<Longrightarrow> keeps_n n b) \<Longrightarrow> keeps_n n (if c then a else b)"
  by (simp_all add: keeps_n_def)

lemma keeps_n_bind: "(\<And>x. r = Inr x \<Longrightarrow> keeps_n n (f x)) \<Longrightarrow> keeps_n n (bindR r f)"
  by (cases r) (simp_all add: keeps_n_def)

lemma keeps_n_fields [keeps_n]:
  "(\<And>imm. keeps_n n (f imm)) \<Longrightarrow> keeps_n n (bindR (cget_fields insn fs) f)"
  "(\<And>imm. keeps_n n (f imm)) \<Longrightarrow> keeps_n n (bindR (cget_field1 insn i j k) f)"
  by (rule keeps_n_bind, simp)+

lemma keeps_n_target_read [keeps_n]:
  "devices_keep_cycles dv \<Longrightarrow> c_n_cycles s = n \<Longrightarrow> (\<And>r t. c_n_cycles t = n \<Longrightarrow> keeps_n n (f r t))
    \<Longrightarrow> keeps_n n (bindR (target_read dv s a k) (\<lambda>(x, t). f x t))"
  by (rule keeps_n_bind) (auto dest: target_read_n)

lemma keeps_n_reading [keeps_n]:
  "devices_keep_cycles dv \<Longrightarrow> c_n_cycles s = n \<Longrightarrow> (\<And>v t. c_n_cycles t = n \<Longrightarrow> keeps_n n (f v t)) \<Longrightarrow> keeps_n n (reading dv s a k f)"
  unfolding reading_def by (rule keeps_n_target_read) (auto split: option.split intro: keeps_n)

lemma keeps_n_target_write [keeps_n]:
  "devices_keep_cycles dv \<Longrightarrow> c_n_cycles s = n \<Longrightarrow> (\<And>ok t. c_n_cycles t = n \<Longrightarrow> keeps_n n (f ok t))
    \<Longrightarrow> keeps_n n (bindR (target_write dv s a v k) (\<lambda>(x, t). f x t))"
  by (rule keeps_n_bind) (auto dest: target_write_n)

lemma keeps_n_writing [keeps_n]:
  "devices_keep_cycles dv \<Longrightarrow> c_n_cycles s = n \<Longrightarrow> keeps_n n (writing dv s a v k fl)"
  unfolding writing_def by (rule keeps_n_target_write) (auto intro: keeps_n)

lemma keeps_n_with_rm [keeps_n]: "c_n_cycles s = n \<Longrightarrow> (\<And>r. keeps_n n (f r)) \<Longrightarrow> keeps_n n (with_rm s rm f)"
  by (auto simp: with_rm_def keeps_n_def Let_def split: if_splits)

lemma keeps_n_results [keeps_n]:
  "c_n_cycles s = n \<Longrightarrow> keeps_n n (fp_result fsz rd r s)" "c_n_cycles s = n \<Longrightarrow> keeps_n n (int_result rd r s)"
  "c_n_cycles s = n \<Longrightarrow> keeps_n n (after_csr pc rd v2 err s)"
  by (simp_all add: fp_result_def int_result_def after_csr_def keeps_n_def Let_def split: if_splits)

lemma interp_c_q0_n [keeps_n]: "devices_keep_cycles dv \<Longrightarrow> c_n_cycles s = n \<Longrightarrow> keeps_n n (interp_c_q0 xlen dv insn s)"
  unfolding interp_c_q0_def Let_def by (intro keeps_n) simp_all

lemma interp_c_arith_n [keeps_n]: "c_n_cycles s = n \<Longrightarrow> keeps_n n (interp_c_arith xlen insn s)"
  unfolding interp_c_arith_def Let_def by (intro keeps_n) simp_all

lemma interp_c_q1_n [keeps_n]: "c_n_cycles s = n \<Longrightarrow> keeps_n n (interp_c_q1 xlen pc insn s)"
  unfolding interp_c_q1_def Let_def by (intro keeps_n) simp_all

lemma interp_c_jump_n [keeps_n]: "c_n_cycles s = n \<Longrightarrow> keeps_n n (interp_c_jump xlen pc insn s)"
  unfolding interp_c_jump_def Let_def by (intro keeps_n) simp_all

lemma interp_c_q2_n [keeps_n]: "devices_keep_cycles dv \<Longrightarrow> c_n_cycles s = n \<Longrightarrow> keeps_n n (interp_c_q2 xlen dv pc insn s)"
  unfolding interp_c_q2_def Let_def by (intro keeps_n) simp_all

lemma interp_int_n [keeps_n]:
  "c_n_cycles s = n \<Longrightarrow> keeps_n n (interp_branch xlen pc insn s)"
  "c_n_cycles s = n \<Longrightarrow> keeps_n n (interp_op_imm xlen insn s)" "c_n_cycles s = n \<Longrightarrow> keeps_n n (interp_op_imm_32 insn s)"
  "c_n_cycles s = n \<Longrightarrow> keeps_n n (interp_op xlen insn s)" "c_n_cycles s = n \<Longrightarrow> keeps_n n (interp_op_32 insn s)"
  "c_n_cycles s = n \<Longrightarrow> keeps_n n (interp_misc_mem insn s)"
  unfolding interp_branch_def interp_op_imm_def interp_op_imm_32_def interp_op_def interp_op_32_def interp_misc_mem_def Let_def
  by (intro keeps_n; simp)+

lemma interp_mem_n [keeps_n]:
  assumes "devices_keep_cycles dv"
  shows "c_n_cycles s = n \<Longrightarrow> keeps_n n (interp_load xlen dv insn s)" "c_n_cycles s = n \<Longrightarrow> keeps_n n (interp_store xlen dv insn s)"
    "c_n_cycles s = n \<Longrightarrow> keeps_n n (interp_atomic xlen dv insn s)" "c_n_cycles s = n \<Longrightarrow> keeps_n n (interp_fload dv insn s)"
    "c_n_cycles s = n \<Longrightarrow> keeps_n n (interp_fstore dv insn s)" "c_n_cycles s = n \<Longrightarrow> keeps_n n (interp_aim_custom_1 dv insn s)"
  unfolding interp_load_def interp_store_def interp_atomic_def op_a_def interp_fload_def interp_fstore_def interp_aim_custom_1_def Let_def
    prod.case
  by (intro keeps_n assms; simp add: assms)+

lemma interp_fma_n [keeps_n]: "c_n_cycles s = n \<Longrightarrow> keeps_n n (interp_fma sf neg1 neg3 insn s)"
  unfolding interp_fma_def Let_def by (intro keeps_n) simp_all

lemma interp_fp_arith_n: "interp_fp_arith sf fsz insn s = Some r \<Longrightarrow> keeps_n (c_n_cycles s) r"
  unfolding interp_fp_arith_def Let_def by (auto split: if_splits intro!: keeps_n)

lemma interp_fp_convert_n: "interp_fp_convert xlen sf fsz insn s = Some r \<Longrightarrow> keeps_n (c_n_cycles s) r"
  unfolding interp_fp_convert_def Let_def by (auto split: if_splits intro!: keeps_n)

lemma interp_fp_n [keeps_n]: "c_n_cycles s = n \<Longrightarrow> keeps_n n (interp_fp xlen sf insn s)"
  unfolding interp_fp_def by (auto split: option.split intro!: keeps_n dest!: interp_fp_arith_n interp_fp_convert_n)

lemma interp_priv_n [keeps_n]: "c_n_cycles s = n \<Longrightarrow> keeps_n n (interp_priv pc insn s)"
  unfolding interp_priv_def Let_def keeps_n_def
  by (auto dest!: handle_sret_n handle_mret_n tlb_flush_all_n tlb_flush_vaddr_n elim!: bindR_eq_InrE split: if_splits)

lemma write_back_n:
  assumes "c_n_cycles s = n"
  shows "keeps_n n (bindR (csr_write s csr v) (\<lambda>(err, s). if err < 0 then Inr (Illegal, s) else after_csr pc rd v2 err s))"
  using assms by (intro keeps_n_bind) (auto dest!: csr_write_n intro!: keeps_n)

lemma interp_csr_n [keeps_n]: "c_n_cycles s = n \<Longrightarrow> keeps_n n (interp_csr xlen rtc x ica pc insn s)"
proof -
  assume s: "c_n_cycles s = n"
  have rd: "keeps_n n (bindR (csr_read t csr w) (\<lambda>((v2, m), t). case v2 of None \<Rightarrow> Inr (Illegal, t) | Some v2 \<Rightarrow> f v2 m t))"
    if "c_n_cycles t = n" "\<And>v m t. c_n_cycles t = n \<Longrightarrow> keeps_n n (f v m t)" for t csr w f
    using that by (intro keeps_n_bind) (auto dest!: csr_read_n intro!: keeps_n split: option.split)
  have sim: "keeps_n n (bindR r (\<lambda>sim. Inr (The_end, t\<lparr>c_simcpu := sim, c_pc := p\<rparr>)))" if "c_n_cycles t = n" for r t p
    using that by (intro keeps_n_bind) (auto intro!: keeps_n)
  show ?thesis unfolding interp_csr_def Let_def
    by (intro keeps_n(3) rd write_back_n sim keeps_n; simp add: s)
qed

lemma interp_system_n [keeps_n]: "c_n_cycles s = n \<Longrightarrow> keeps_n n (interp_system xlen rtc x ica pc insn s)"
  unfolding interp_system_def by (intro keeps_n)

lemma interp_insn_n:
  assumes "devices_keep_cycles (e_dv env)" and "interp_insn xlen env ica pc insn s = Inr (fl, s')"
  shows "c_n_cycles s' = c_n_cycles s"
proof -
  have "keeps_n (c_n_cycles s) (interp_insn xlen env ica pc insn s)"
    unfolding interp_insn_def Let_def by (intro keeps_n assms(1)) simp_all
  then show ?thesis using assms(2) by (simp add: keeps_n_def)
qed

section \<open>The emulator returns\<close>

text \<open>The bytes from the current instruction to the end of the block.\<close>

definition blen :: "code_block \<Rightarrow> nat" where
  "blen b = (case b of (code_ptr, code_end, addend) \<Rightarrow> nat (code_end - code_ptr))"

lemma block_size: "sint (PG_MASK - 1 - (addr AND PG_MASK)) \<le> 4094" for addr :: u64
proof -
  have u: "unat (addr AND 0xfff) \<le> 0xfff"
    using word_and_le1 [of addr "0xfff"] by (simp add: word_le_nat_alt)
  show ?thesis
  proof (cases "unat (addr AND 0xfff) = 0xfff")
    case True
    then have "addr AND 0xfff = 0xfff" by (simp add: word_unat_eq_iff)
    then show ?thesis by simp
  next
    case False
    then have le: "addr AND 0xfff \<le> 0xffe" using u by (simp add: word_le_nat_alt)
    then have "0xffe - (addr AND 0xfff) \<le> 0xffe" by (simp add: word_le_nat_alt unat_sub)
    then have "uint (0xffe - (addr AND 0xfff)) \<le> 0xffe" by (simp add: word_le_def)
    moreover from this have "sint (0xffe - (addr AND 0xfff)) = uint (0xffe - (addr AND 0xfff))"
      unfolding sint_uint by (intro signed_take_bit_int_eq_self) (auto intro: order.trans [OF _ uint_ge_0])
    ultimately show ?thesis by simp
  qed
qed

lemma block_bytes: "nat (sint (0xffe - (addr AND 0xfff))) \<le> 4094" for addr :: u64
  using block_size [of addr] by simp

lemma target_read_insn_slow_fault:
  "target_read_insn_slow s a = Inr (r, s') \<Longrightarrow> c_n_cycles s' = c_n_cycles s \<and> (r = None \<longrightarrow> 0 \<le> c_pending_exception s')"
  by (auto simp: target_read_insn_slow_def dest!: get_phys_addr_n elim!: bindR_eq_InrE split: option.splits)

lemma target_read_insn_u16_fault:
  "target_read_insn_u16 s a = Inr (r, s') \<Longrightarrow> c_n_cycles s' = c_n_cycles s \<and> (r = None \<longrightarrow> 0 \<le> c_pending_exception s')"
  by (auto simp: target_read_insn_u16_def dest!: count_n target_read_insn_slow_fault elim!: bindR_eq_InrE split: if_splits)

lemma interp_fetch_cases:
  assumes "interp_fetch b s = Inr (f, b', s')"
  shows "case f of
      Fetched w \<Rightarrow> c_n_cycles s' = c_n_cycles s \<and> (if blen b = 0 then 0 < c_n_cycles s \<and> blen b' \<le> 4094 else b' = b)
    | Fetch_fault \<Rightarrow> c_n_cycles s' = c_n_cycles s \<and> 0 < c_n_cycles s \<and> 0 \<le> c_pending_exception s' \<and> blen b = 0
    | Fetch_end \<Rightarrow> blen b = 0 \<and> (if 0 < c_n_cycles s then c_n_cycles s' = c_n_cycles s - 1 else c_n_cycles s' = c_n_cycles s)"
proof -
  obtain p e a where b: "b = (p, e, a)" by (cases b)
  show ?thesis
  proof (cases "e \<le> p")
    case False
    then show ?thesis using assms by (auto simp: b interp_fetch_def blen_def)
  next
    case True
    then show ?thesis using assms unfolding b interp_fetch_def Let_def
      by (auto simp: blen_def block_bytes dest!: raise_interrupt_n target_read_insn_slow_fault target_read_insn_u16_fault
          elim!: bindR_eq_InrE split: if_splits option.splits)
  qed
qed

lemma jump_label_cases: "jump_label b s = Inr (l, b', s') \<Longrightarrow> b' = b \<and> c_n_cycles s' = c_n_cycles s \<and> l \<in> {None, Some To_end}"
  by (auto simp: jump_label_def split: if_splits)

lemma interp_body_cases:
  assumes "devices_keep_cycles (e_dv env)" and "interp_body xlen env ica b s = Inr (l, b', s')"
  shows "case l of
      None \<Rightarrow> c_n_cycles s' = c_n_cycles s - 1 \<and> (if blen b = 0 then 0 < c_n_cycles s \<and> blen b' \<le> 4092 else blen b' = 0 \<or> blen b' + 2 \<le> blen b)
    | Some l \<Rightarrow> (if blen b = 0 \<and> c_n_cycles s \<le> 0 then c_n_cycles s' = c_n_cycles s
        else c_n_cycles s' = c_n_cycles s - 1 \<or> c_n_cycles s' = c_n_cycles s \<and> l = To_exception \<and> 0 \<le> c_pending_exception s' \<and> blen b = 0)"
proof -
  obtain f b1 s1 where f: "interp_fetch b s = Inr (f, b1, s1)"
    and r: "(case f of Fetch_fault \<Rightarrow> Inr (Some To_exception, b1, s1) | Fetch_end \<Rightarrow> Inr (Some To_end, b1, s1)
      | Fetched insn \<Rightarrow> bindR (interp_insn xlen env ica (get_pc b1) insn (s1\<lparr>c_n_cycles := c_n_cycles s1 - 1\<rparr>)) (\<lambda>(fl, s).
            case b1 of (code_ptr, code_end, addend) \<Rightarrow>
            case fl of Next_insn \<Rightarrow> jump_label (code_ptr + 4, code_end, addend) s
            | C_next_insn \<Rightarrow> jump_label (code_ptr + 2, code_end, addend) s
            | Jump_insn \<Rightarrow> jump_label (0, 0, c_pc s) s
            | Illegal \<Rightarrow> Inr (Some (To_illegal (Some insn)), b1, s)
            | Exception \<Rightarrow> Inr (Some To_exception, b1, s)
            | The_end \<Rightarrow> Inr (Some To_end, b1, s))) = Inr (l, b', s')"
    using assms(2) unfolding interp_body_def by (auto elim!: bindR_eq_InrE)
  note c = interp_fetch_cases [OF f]
  show ?thesis
  proof (cases f)
    case (Fetched insn)
    obtain p e a where b1: "b1 = (p, e, a)" by (cases b1)
    obtain fl s2 where s2: "interp_insn xlen env ica (get_pc b1) insn (s1\<lparr>c_n_cycles := c_n_cycles s1 - 1\<rparr>) = Inr (fl, s2)"
      and j: "(case fl of Next_insn \<Rightarrow> jump_label (p + 4, e, a) s2 | C_next_insn \<Rightarrow> jump_label (p + 2, e, a) s2
        | Jump_insn \<Rightarrow> jump_label (0, 0, c_pc s2) s2 | Illegal \<Rightarrow> Inr (Some (To_illegal (Some insn)), b1, s2)
        | Exception \<Rightarrow> Inr (Some To_exception, b1, s2) | The_end \<Rightarrow> Inr (Some To_end, b1, s2)) = Inr (l, b', s')"
      using r Fetched b1 by (auto elim!: bindR_eq_InrE)
    have n: "c_n_cycles s2 = c_n_cycles s - 1" using interp_insn_n [OF assms(1) s2] c Fetched by simp
    have b2: "blen (p + 4, e, a) = 0 \<or> blen (p + 4, e, a) + 2 \<le> blen b1" "blen (p + 2, e, a) = 0 \<or> blen (p + 2, e, a) + 2 \<le> blen b1"
      "blen (0, 0, x) = 0" for x by (auto simp: blen_def b1)
    have bb: "if blen b = 0 then 0 < c_n_cycles s \<and> blen b1 \<le> 4094 else b1 = b" using c Fetched by simp
    show ?thesis using j n b2 bb by (cases fl) (auto dest!: jump_label_cases split: if_splits option.split)
  qed (use r c in \<open>auto split: if_splits\<close>)
qed

text \<open>
  From \<open>n\<close> cycles and \<open>d\<close> bytes of the block, the count falls at most to \<open>n\<close> minus the instructions of this block, or to what is left of a block entered
  with one cycle.
\<close>

definition least_count :: "int \<Rightarrow> nat \<Rightarrow> int" where
  "least_count n d = min (n - int ((d + 1) div 2)) (- 2047)"

lemma interp_loop_returns:
  assumes "devices_keep_cycles (e_dv env)"
  shows "\<exists>r. interp_loop xlen env ica b s = Some r \<and> (\<forall>l b' s'. r = Inr (l, b', s') \<longrightarrow>
      least_count (c_n_cycles s) (blen b) \<le> c_n_cycles s' \<and> c_n_cycles s' \<le> c_n_cycles s
      \<and> (0 < c_n_cycles s \<longrightarrow> c_n_cycles s' < c_n_cycles s \<or> c_n_cycles s' = c_n_cycles s \<and> l = To_exception \<and> 0 \<le> c_pending_exception s'))"
proof (induction "(nat (c_n_cycles s), blen b)" arbitrary: b s rule: wf_induct_rule [OF wf_lex_prod [OF wf_less_than wf_less_than]])
  case 1
  show ?case
  proof (cases "interp_body xlen env ica b s")
    case (Inl err)
    then show ?thesis by (simp add: interp_loop.simps [of xlen env ica b s])
  next
    case (Inr t)
    obtain l b1 s1 where t: "t = (l, b1, s1)" by (cases t)
    note c = interp_body_cases [OF assms Inr [unfolded t]]
    show ?thesis
    proof (cases l)
      case (Some l')
      then show ?thesis using Inr t c
        by (auto simp: interp_loop.simps [of xlen env ica b s] least_count_def split: if_splits)
    next
      case None
      have lt: "((nat (c_n_cycles s1), blen b1), nat (c_n_cycles s), blen b) \<in> less_than <*lex*> less_than"
        using c None by (auto split: if_splits)
      have le: "least_count (c_n_cycles s) (blen b) \<le> least_count (c_n_cycles s1) (blen b1)"
        using c None by (auto simp: least_count_def split: if_splits)
      have n1: "c_n_cycles s1 = c_n_cycles s - 1" using c None by simp
      have eq: "interp_loop xlen env ica b s = interp_loop xlen env ica b1 s1"
        using Inr t None by (simp add: interp_loop.simps [of xlen env ica b s])
      obtain r where r: "interp_loop xlen env ica b1 s1 = Some r" and q: "\<And>l b' s'. r = Inr (l, b', s') \<Longrightarrow>
          least_count (c_n_cycles s1) (blen b1) \<le> c_n_cycles s' \<and> c_n_cycles s' \<le> c_n_cycles s1"
        using 1 [OF lt] by blast
      have "least_count (c_n_cycles s) (blen b) \<le> c_n_cycles s' \<and> c_n_cycles s' < c_n_cycles s" if "r = Inr (l, b', s')" for l b' s'
        using q [OF that] le n1 by simp
      then show ?thesis using eq r by fastforce
    qed
  qed
qed

lemma interp_end_cases:
  assumes "interp_end ica l b s = Inr s'"
  shows "c_insn_counter s' = ica - word_of_int (c_n_cycles s')"
    and "c_n_cycles s - 1 \<le> c_n_cycles s'" and "c_n_cycles s' \<le> c_n_cycles s"
    and "l = To_exception \<Longrightarrow> 0 \<le> c_pending_exception s \<Longrightarrow> c_n_cycles s' = c_n_cycles s - 1"
  using assms by (cases l; auto simp: interp_end_def Let_def dest!: raise_exception2_n elim!: bindR_eq_InrE split: if_splits option.splits)+

end
