(* ===== verification/Interp_Props.thy ===== *)
theory Interp_Props
  imports Interp_Cycles
begin

text \<open>The emulator: that it returns and how far it runs, and the abort on an unsupported register width.\<close>

section \<open>Returning\<close>

text \<open>
  (C1) Termination: a call of the emulator for either register width returns, whatever the program does, when the simulation it may switch to
  returns; outside of a simulation it needs no such assumption. A call for \<open>n > 0\<close> cycles outside of a simulation that ends without an error has advanced the instruction counter by at least
  1, so that the caller makes progress, and by at most \<open>n + 2048\<close>: the count is tested between blocks only, and a page
  holds at most 2047 further instructions. The callbacks of devices are assumed not to touch the cycle counter.
\<close>

theorem interp_returns:
  assumes "devices_keep_cycles (e_dv env)" and "in_simulation s \<Longrightarrow> \<forall>cs. e_core_run env cs \<noteq> None"
  shows "\<exists>r. riscv_cpu_interp_x xlen env n (core, s) = Some r
    \<and> (0 < n \<and> \<not> in_simulation s \<longrightarrow> (\<forall>core' s'. r = Inr (core', s') \<longrightarrow>
        (\<exists>k. 1 \<le> k \<and> k \<le> n + 2048 \<and> c_insn_counter s' = c_insn_counter s + word_of_int k)))"
proof (cases "n = 0")
  case True
  then show ?thesis by (simp add: riscv_cpu_interp_x_def)
next
  case False
  let ?ica = "c_insn_counter s + word_of_int n" and ?s = "s\<lparr>c_n_cycles := n\<rparr>"
  have fr: "\<exists>r. interp_from xlen env ica c l b t = Some r" for ica c l b t
    using interp_loop_returns [OF assms(1), of xlen ica b t] by (cases l) (auto simp: interp_from_def Let_def)
  show ?thesis
  proof (cases "if c_mip ?s AND c_mie ?s \<noteq> 0 then raise_interrupt ?s else Inr (False, ?s)")
    case (Inl e)
    then show ?thesis using False by (simp add: riscv_cpu_interp_x_def)
  next
    case (Inr t)
    obtain irq s1 where t: "t = (irq, s1)" by (cases t)
    have n1: "c_n_cycles s1 = n" using Inr t by (auto dest!: raise_interrupt_n split: if_splits)
    have s1: "s1 = ?s" if "\<not> irq" using that Inr t by (auto simp: raise_interrupt_def Let_def elim!: bindR_eq_InrE split: if_splits)
    have advance: "\<exists>k. 1 \<le> k \<and> k \<le> n + 2048 \<and> v = c_insn_counter s + word_of_int k"
      if "v = ?ica - word_of_int m" "m < n" "- 2048 \<le> m" for v m
      using that by (intro exI [of _ "n - m"]) simp
    show ?thesis
    proof (cases irq)
      case True
      have "riscv_cpu_interp_x xlen env n (core, s)
          = Some (Inr (core, s1\<lparr>c_n_cycles := n - 1, c_insn_counter := ?ica - word_of_int (n - 1)\<rparr>))"
        using False Inr t True n1 by (simp add: riscv_cpu_interp_x_def interp_from_def interp_end_def Let_def)
      then show ?thesis by (auto intro!: exI [of _ "1 :: int"])
    next
      case no_irq: False
      let ?s2 = "?s\<lparr>c_pending_exception := - 1\<rparr>"
      show ?thesis
      proof (cases "in_simulation s")
        case True
        let ?sw = "riscv_sim_cpu_switch_to_cpu_simulation (e_core_reset env) (e_core_run env)
          (core, ?s2\<lparr>c_code_ptr := 0, c_code_end := 0, c_code_to_pc_addend := c_pc ?s2\<rparr>)"
        have "?sw \<noteq> None" using assms(2) [OF True] by (simp add: riscv_sim_cpu_switch_to_cpu_simulation_def split: sum.split)
        then obtain r where "?sw = Some r" by blast
        then have "\<exists>r. riscv_cpu_interp_x xlen env n (core, s) = Some r"
          using False Inr t no_irq s1 True fr by (auto simp: riscv_cpu_interp_x_def Let_def split: sum.split prod.split)
        then show ?thesis using True by blast
      next
        case em: False
        let ?b = "(0, 0, c_pc s) :: code_block"
        obtain r where r: "interp_loop xlen env ?ica ?b ?s2 = Some r"
          and q: "\<And>l b' s'. r = Inr (l, b', s') \<Longrightarrow> least_count n 0 \<le> c_n_cycles s' \<and> c_n_cycles s' \<le> n
            \<and> (0 < n \<longrightarrow> c_n_cycles s' < n \<or> c_n_cycles s' = n \<and> l = To_exception \<and> 0 \<le> c_pending_exception s')"
          using interp_loop_returns [OF assms(1), of xlen ?ica ?b ?s2] by (auto simp: blen_def)
        have x: "riscv_cpu_interp_x xlen env n (core, s)
            = Some (bindR r (\<lambda>(l, b, s). bindR (interp_end ?ica l b s) (\<lambda>s. Inr (core, s))))"
          using False Inr t no_irq s1 em r by (simp add: riscv_cpu_interp_x_def interp_from_def Let_def)
        have "\<exists>k. 1 \<le> k \<and> k \<le> n + 2048 \<and> c_insn_counter s' = c_insn_counter s + word_of_int k"
          if "0 < n" and "bindR r (\<lambda>(l, b, s). bindR (interp_end ?ica l b s) (\<lambda>s. Inr (core, s))) = Inr (core', s')" for core' s'
        proof -
          from that(2) obtain l b' t where l: "r = Inr (l, b', t)" "interp_end ?ica l b' t = Inr s'" by (auto elim!: bindR_eq_InrE)
          note e = interp_end_cases [OF l(2)]
          have "- 2047 \<le> c_n_cycles t" using q [OF l(1)] that(1) by (simp add: least_count_def)
          then show ?thesis using q [OF l(1)] that(1) e(2,3,4) by (intro advance [OF e(1)]) auto
        qed
        then show ?thesis using x by blast
      qed
    qed
  qed
qed

text \<open>A machine without devices whose simulated core ends every run at once.\<close>

definition no_devices :: "'d DevOps" where
  "no_devices = \<lparr>dv_read = \<lambda>_ _ _ s. (0, s), dv_write = \<lambda>_ _ _ _ s. s\<rparr>"

definition idle_env :: "(unit, 'd) InterpEnv" where
  "idle_env = \<lparr>e_sf = undefined, e_dv = no_devices, e_core_reset = Inr, e_core_run = (\<lambda>(c, s). Some (Inr (SIM_TEMU_TIMEOUT_EXCEPTION, c, s))),
     e_rtc = 0, e_ext = (0, \<lambda>_. 0)\<rparr>"

theorem interp_returns_witness:
  "\<exists>(s :: unit RISCVCPUState) s' k. devices_keep_cycles (e_dv (idle_env :: (unit, unit) InterpEnv)) \<and> \<not> in_simulation s
     \<and> riscv_cpu_interp_x 64 idle_env 10 ((), s) = Some (Inr ((), s'))
     \<and> 1 \<le> k \<and> k \<le> 2058 \<and> c_insn_counter s' = c_insn_counter s + word_of_int k"
proof -
  have d: "devices_keep_cycles (e_dv (idle_env :: (unit, unit) InterpEnv))"
    by (simp add: devices_keep_cycles_def idle_env_def no_devices_def)
  obtain s0 :: "unit RISCVCPUState" where s0: "\<not> in_simulation s0" "c_priv s0 = PRV_M" "c_cur_xlen s0 = MAX_XLEN"
    using bare_core bare_cpu [of phys_mem_map_init "\<lambda>_. 0" "\<lparr>t_vaddr = 0, t_mem_addend = 0, t_guest_paddr = 0\<rparr>"] by (metis sum.inject(2))
  define s where "s = s0\<lparr>c_mip := 8, c_mie := 8, c_mideleg := 0, c_mstatus := 8\<rparr>"
  have ctz: "ctz32 8 = 3" by (simp add: ctz32_def upt_rec [of _ 32])
  have "\<exists>s1. raise_interrupt (s\<lparr>c_n_cycles := 10\<rparr>) = Inr (True, s1)"
    using s0 by (simp add: s_def raise_interrupt_def get_pending_irq_mask_def raise_exception_def raise_exception2_def count_cause_def
        delegated_def shl64_def set_priv_def Let_def ctz)
  then obtain s1 where "raise_interrupt (s\<lparr>c_n_cycles := 10\<rparr>) = Inr (True, s1)" by blast
  then have "\<exists>s'. riscv_cpu_interp_x 64 idle_env 10 ((), s) = Some (Inr ((), s'))"
    by (simp add: riscv_cpu_interp_x_def interp_from_def interp_end_def Let_def s_def)
  then show ?thesis using interp_returns [OF d, of s 64 10 "()"] d s0(1) by (fastforce simp: s_def)
qed

section \<open>An unsupported register width\<close>

text \<open>
  (C37) The width of supervisor mode is not checked. \<^verbatim>\<open>set_mstatus\<close> tests the field \<^verbatim>\<open>UXL\<close> twice and never
  \<^verbatim>\<open>SXL\<close>: a write of \<^verbatim>\<open>mstatus\<close> with a valid \<^verbatim>\<open>UXL\<close> and \<^verbatim>\<open>SXL = 0\<close> is stored, the next return to supervisor mode selects
  registers of 16 bits, and the emulator aborts.
\<close>

theorem sxl_not_checked:
  assumes "cpu_ok s" and "c_priv s = PRV_M" and "\<not> c_power_down_flag s" and "0 < n" and "n < 2 ^ 31"
  shows "\<exists>s1 s2. csr_write s 0x300 0x200000800 = Inr (0, s1) \<and> handle_mret s1 = Inr s2
    \<and> c_priv s2 = PRV_S \<and> c_cur_xlen s2 = 16 \<and> riscv_cpu_interp env n (core, s2) = Some (Inl Assert_failed)"
proof -
  obtain st where st: "count_sim (csr_writes_update (\<lambda>c. c + 1)) s = Inr (s\<lparr>c_simcpu := (c_simcpu s)\<lparr>sc_stats := st\<rparr>\<rparr>)"
    "cpu_ok (s\<lparr>c_simcpu := (c_simcpu s)\<lparr>sc_stats := st\<rparr>\<rparr>)"
    using count_sim_ok [OF assms(1), of "csr_writes_update (\<lambda>c. c + 1)"] by auto
  let ?s = "s\<lparr>c_simcpu := (c_simcpu s)\<lparr>sc_stats := st\<rparr>\<rparr>" and ?v = "0x200000800 :: u64"
  define m1 where "m1 = c_mstatus s AND NOT 0xf000e19bb OR ?v"
  obtain s0 where s0: "(if (c_mstatus s XOR ?v) AND (MSTATUS_MPRV OR MSTATUS_SUM OR MSTATUS_MXR) \<noteq> 0
      \<or> c_mstatus s AND MSTATUS_MPRV \<noteq> 0 \<and> (c_mstatus s XOR ?v) AND MSTATUS_MPP \<noteq> 0 then tlb_flush_all ?s else Inr ?s) = Inr s0"
    "cpu_ok s0" "c_priv s0 = PRV_M" "c_mstatus s0 = c_mstatus s" "\<not> c_power_down_flag s0"
    by (rule flush_if [OF st(2)], erule that) (use assms(2,3) in simp_all)
  let ?s1 = "s0\<lparr>c_fs := 0, c_mstatus := m1\<rparr>"
  have w: "csr_write s 0x300 ?v = Inr (0, ?s1)"
    unfolding csr_write_def st(1) bindR_Inr set_mstatus_def Let_def
    using s0(1,4) by (simp add: m1_def MSTATUS_MASK_def get_base_from_xlen_def)
  have mpp: "drop_bit 11 m1 AND 3 = 1"
    by (rule bit_word_eqI) (auto simp: m1_def bit_simps bit_status)
  define m2 where "m2 = ((m1 AND NOT (push_bit 1 1) OR push_bit 1 (drop_bit 7 m1 AND 1)) OR 0x80) AND NOT 0x1800"
  have sxl: "drop_bit 34 m2 AND 3 = 0"
    by (rule bit_word_eqI) (auto simp: m2_def m1_def bit_simps bit_status intro!: gr0I)
  have "cpu_ok (?s1\<lparr>c_mstatus := m2\<rparr>)" using s0(2) by (simp add: cpu_ok_def)
  then obtain u where u: "set_priv (?s1\<lparr>c_mstatus := m2\<rparr>) PRV_S
      = Inr ((flushed (?s1\<lparr>c_mstatus := m2\<rparr>) u)\<lparr>c_cur_xlen := xlen_of (?s1\<lparr>c_mstatus := m2\<rparr>) PRV_S, c_priv := PRV_S\<rparr>)"
    using set_priv_ok [of "?s1\<lparr>c_mstatus := m2\<rparr>" PRV_S] s0(3) by auto
  have x: "xlen_of (?s1\<lparr>c_mstatus := m2\<rparr>) PRV_S = 16" using sxl by (simp add: xlen_of_def)
  have r: "handle_mret ?s1 = bindR (set_priv (?s1\<lparr>c_mstatus := m2\<rparr>) PRV_S) (\<lambda>s. Inr (s\<lparr>c_pc := c_mepc s\<rparr>))"
    using mpp unfolding handle_mret_def Let_def m2_def by simp
  have c: "sint (ucast (word_of_int n :: u64) :: u32) = n"
    using assms(4,5) by (simp add: unsigned_of_int signed_of_int take_bit_int_eq_self signed_take_bit_int_eq_self)
  have "riscv_cpu_interp env n (core, t) = Some (Inl Assert_failed)" if "c_cur_xlen t = 16" "\<not> c_power_down_flag t" for t
    using that assms(4) c by (simp add: riscv_cpu_interp_def interp_until.simps [of env] cycles_left_def interp_width_def)
  then show ?thesis using w r u x s0(5) by (auto simp: flushed_def)
qed

theorem sxl_not_checked_witness:
  "\<exists>(s :: unit RISCVCPUState) s1 s2. cpu_ok s \<and> c_priv s = PRV_M \<and> \<not> c_power_down_flag s \<and> csr_write s 0x300 0x200000800 = Inr (0, s1)
     \<and> handle_mret s1 = Inr s2 \<and> c_cur_xlen s2 = 16 \<and> riscv_cpu_interp idle_env 100 ((), s2) = Some (Inl Assert_failed)"
proof -
  obtain s :: "unit RISCVCPUState" where s: "cpu_ok s" "c_priv s = PRV_M" "\<not> c_power_down_flag s"
    using bare_cpu [of phys_mem_map_init "\<lambda>_. 0" "\<lparr>t_vaddr = 0, t_mem_addend = 0, t_guest_paddr = 0\<rparr>"] by blast
  show ?thesis using sxl_not_checked [OF s, of 100 idle_env "()"] s by auto
qed

end
