(* ===== verification/Spec2Isabelle.thy ===== *)
theory Spec2Isabelle
  imports Bpu Cache_Props Compressed_Exec Execute_Props Mmu_Props Sim_Cpu_Props Inorder Interp_Props
begin

text \<open>
  \<^bold>\<open>PIM-NDP-Sim: a verification library.\<close>
  The program is a full-system RISC-V simulator for processing in memory: the TinyEMU emulator with the cycle-level processor model of
  MARSS-RISCV, extended by instructions and memory timing of an accelerator in memory (AiM). The files named below are under
  \<^verbatim>\<open>src/src/\<close>, those of the processor model under \<^verbatim>\<open>src/src/riscvsim/\<close>. The model is the build of the Makefile, with 64-bit
  registers (\<^verbatim>\<open>MAX_XLEN=64\<close>, \<^verbatim>\<open>FLEN=64\<close>, \<^verbatim>\<open>__int128\<close> available).

  \<^bold>\<open>The parts and how they interact.\<close>
  The emulator (\<^verbatim>\<open>riscv_cpu_template.h\<close>, \<^verbatim>\<open>riscv_cpu.c\<close>) interprets a program on the processor state and the physical memory map
  (\<^verbatim>\<open>iomem.c\<close>). When the program starts a simulation, the emulator switches to the simulated core
  (\<^verbatim>\<open>core/riscv_sim_cpu.c\<close>), whose in-order pipeline (\<^verbatim>\<open>core/inorder*.c\<close>) fetches, decodes, executes and commits the same program cycle by cycle. It
  decodes with \<^verbatim>\<open>decoder/riscv_isa_decoder.c\<close>, executes with \<^verbatim>\<open>decoder/riscv_isa_execute.c\<close>, predicts branches with \<^verbatim>\<open>bpu/\<close>, accesses
  the memory of the emulator through \<^verbatim>\<open>memory_hierarchy/temu_mem_map_wrapper.c\<close>, and asks the caches and the memory controller
  (\<^verbatim>\<open>memory_hierarchy/\<close>) for the delay of each access. Exceptions and system instructions end the run of the
  pipeline and are executed by the emulator.

  \<^bold>\<open>The theories.\<close>
  \<^item> \<open>Sim_Prelude\<close>: integer types, bit macros, failing runs, checked arrays and pointers; \<open>Sim_Params\<close>, \<open>Sim_Stats\<close>:
    parameters with defaults and validation, counters.
  \<^item> \<open>Circular_Queue\<close>, \<open>Evict_Policy\<close>: \<^verbatim>\<open>utils/circular_queue.c\<close> and \<^verbatim>\<open>utils/evict_policy.c\<close>, each with the locale of its
    contract, which the request queue, the target buffer and the caches rely on.
  \<^item> \<open>Bht\<close>, \<open>Ras\<close>, \<open>Btb\<close>, \<open>Adaptive_Predictor\<close>, \<open>Bpu\<close>: the files of \<^verbatim>\<open>bpu/\<close> of the same names.
  \<^item> \<open>Dram\<close>, \<open>Memory_Controller\<close>: \<^verbatim>\<open>dram.c\<close>, \<^verbatim>\<open>memory_controller.c\<close>; \<open>Cache\<close>, \<open>Memory_Hierarchy\<close>: \<^verbatim>\<open>cache.c\<close>,
    \<^verbatim>\<open>memory_hierarchy.c\<close>; \<open>Cache_Levels\<close>, \<open>Cache_Props\<close>: the proofs, by induction over the chain of levels.
  \<^item> \<open>Riscv_Instruction\<close>, \<open>Decoder\<close>, \<open>Execute\<close>: the decoded instruction, decoder and execution; \<open>Decoder_Props\<close>, \<open>Riscv_Encoding\<close>,
    \<open>Compressed\<close>, \<open>Compressed_Exec\<close>, \<open>Execute_Props\<close>: facts on them.
  \<^item> \<open>Cpu_Latches\<close>, \<open>Phys_Mem\<close>, \<open>Riscv_State\<close>: latches and exceptions, memory map, the state of processor and core; \<open>Mmu\<close>, \<open>Temu_Mem_Map\<close>,
    \<open>Csr\<close>: translation and access, the accesses of simulated instructions, control registers and traps; \<open>Mmu_Props\<close>, \<open>Csr_Props\<close>: facts on them.
  \<^item> \<open>Sim_Cpu\<close>, \<open>Inorder\<close>: \<^verbatim>\<open>riscv_sim_cpu.c\<close> and the in-order pipeline; \<open>Sim_Cpu_Props\<close>: branches.
  \<^item> \<open>Interp\<close>: the emulator; \<open>Interp_Cycles\<close>, \<open>Interp_Props\<close>: that it returns.

  \<^bold>\<open>State and operations.\<close>
  A struct is a record with prefixed field names, a function of the source one definition of the same name. State is passed explicitly. Fallible code
  has type \<open>sim_error + 'a\<close>: a failed \<^verbatim>\<open>sim_assert\<close>, \<^verbatim>\<open>exit()\<close>, an access outside an array, a null pointer, an undefined shift and the use of an
  uninitialised variable are its errors. Pointers are indices: of a cache in the list of caches, of a latch in the pool, of a
  target buffer entry in its set. Host memory is a function from addresses to bytes. \<^verbatim>\<open>rand()\<close>, the answers of the external memory simulators, the callbacks of
  devices and the routines of \<^verbatim>\<open>softfp.h\<close> are arguments. Machine integers keep their width where the code computes with wrap-around;
  counters that only grow are 64-bit words, indices and sizes are natural numbers or integers.

  \<^bold>\<open>What the theorems show.\<close>
  Each property stands after a text with its number. The emulator returns and makes progress; an access to memory through the controller and the caches
  completes; a trap and its return resume the program; loads and stores through the translation buffers act on memory as on
  an array of bytes; branches are resolved to the architectural successor; queue, stack and cache refine a bounded FIFO, a bounded stack and
  a set of lines; the predictor never fails and learns; the decoder is total, inverts the encodings and
  treats compressed instructions as their expansions; products and quotients are exact. The properties of kind error state where the code does
  not do what it means to, each with the exact condition.

  \<^bold>\<open>Loops.\<close>
  Loops over arrays are folds or recursive functions. The run of a pipeline, the main loop of the emulator and its outer loop may not end; they are partial
  functions into \<open>option\<close>, \<open>None\<close> being a run that does not return, and \<open>interp_returns\<close> proves that the main loop returns. A misaligned access recurses once, into aligned accesses, and is written
  as two layers. The page table walk recurses over its levels. No fuel is used.

  \<^bold>\<open>Not modelled.\<close>
  The out-of-order pipeline (\<^verbatim>\<open>core/ooo*.c\<close>), whose stage functions, predictor and memory are shared with the in-order pipeline and are modelled. The software floating
  point of \<^verbatim>\<open>softfp*.h\<close>, which is the argument \<open>sf\<close>: no theorem assumes anything of it. Files the Makefile does not build
  (\<^verbatim>\<open>core/sonicboom*.c\<close>, \<^verbatim>\<open>aim_buffer.c\<close>). The external memory simulators and their C++ wrappers, whose answers are a stream. Host I/O: devices, file systems,
  network, command line and configuration files, log, trace, shared memory for the statistics display, the printed form of
  instructions. Deallocation. The 32-bit and 128-bit builds (within the 64-bit build, the emulator of 32-bit registers is modelled).
\<close>

section \<open>Decoding and executing\<close>


end
